(* ===== verification/Prelude.thy ===== *)
theory Prelude
  imports Main "HOL-Library.AList"
begin

text \<open>
  Shared material of the development: the Rust standard-library vocabulary the components
  use (hash maps, string splitting, decimal numerals, saturating arithmetic) with the
  lemmas that carry the component proofs.

  A \<^verbatim>\<open>HashMap\<close> that the code only looks up is a map \<open>'k \<rightharpoonup> 'v\<close>. A
  \<^verbatim>\<open>HashMap\<close> that the code iterates over, counts or searches for a minimum is an
  association list with distinct keys; the order of the list stands for the iteration
  order, about which the standard library promises nothing, and the theorems hold for
  every order. A Rust string is a \<open>string\<close>, one \<open>char\<close> per byte, so lengths and
  positions are those of Rust; whitespace is the ASCII whitespace.
\<close>

named_theorems hm_simps "lookups in hash maps kept as association lists"
named_theorems num_simps "decimal numerals: printing and parsing"

section \<open>Hash maps as association lists\<close>

type_synonym ('k, 'v) hashmap = "('k \<times> 'v) list"

definition hm_wf :: "('k, 'v) hashmap \<Rightarrow> bool" where
  "hm_wf m \<longleftrightarrow> distinct (map fst m)"

definition hm_get :: "('k, 'v) hashmap \<Rightarrow> 'k \<Rightarrow> 'v option" where
  "hm_get m k = map_of m k"

definition hm_insert :: "'k \<Rightarrow> 'v \<Rightarrow> ('k, 'v) hashmap \<Rightarrow> ('k, 'v) hashmap" where
  "hm_insert k v m = AList.update k v m"

definition hm_remove :: "'k \<Rightarrow> ('k, 'v) hashmap \<Rightarrow> ('k, 'v) hashmap" where
  "hm_remove k m = AList.delete k m"

definition hm_retain :: "('k \<Rightarrow> 'v \<Rightarrow> bool) \<Rightarrow> ('k, 'v) hashmap \<Rightarrow> ('k, 'v) hashmap" where
  "hm_retain P m = filter (\<lambda>(k, v). P k v) m"

lemma hm_get_Nil [simp, hm_simps]: "hm_get [] k = None"
  by (simp add: hm_get_def)

lemma hm_get_insert [simp, hm_simps]:
  "hm_get (hm_insert k v m) k' = (if k' = k then Some v else hm_get m k')"
  by (simp add: hm_get_def hm_insert_def update_conv')

lemma hm_get_remove [simp, hm_simps]:
  "hm_get (hm_remove k m) k' = (if k' = k then None else hm_get m k')"
  by (simp add: hm_get_def hm_remove_def delete_conv')

lemma hm_wf_Nil [simp]: "hm_wf []"
  by (simp add: hm_wf_def)

lemma hm_wf_insert [simp]: "hm_wf m \<Longrightarrow> hm_wf (hm_insert k v m)"
  by (simp add: hm_wf_def hm_insert_def distinct_update)

lemma hm_wf_remove [simp]: "hm_wf m \<Longrightarrow> hm_wf (hm_remove k m)"
  by (simp add: hm_wf_def hm_remove_def distinct_delete)

lemma hm_wf_retain [simp]: "hm_wf m \<Longrightarrow> hm_wf (hm_retain P m)"
  by (induction m) (auto simp: hm_wf_def hm_retain_def)

lemma hm_get_retain [hm_simps]:
  assumes "hm_wf m"
  shows "hm_get (hm_retain P m) k =
    (case hm_get m k of None \<Rightarrow> None | Some v \<Rightarrow> if P k v then Some v else None)"
  using assms
proof (induction m)
  case Nil
  then show ?case by (simp add: hm_retain_def)
next
  case (Cons a m)
  then have wf: "hm_wf m" and fresh: "fst a \<notin> fst ` set m"
    by (auto simp: hm_wf_def)
  from fresh have "map_of m (fst a) = None"
    by (simp add: map_of_eq_None_iff)
  show ?case
  proof (cases "k = fst a")
    case True
    have "map_of (filter (\<lambda>(k, v). P k v) m) (fst a) = None"
      using fresh by (auto simp: map_of_eq_None_iff)
    with True \<open>map_of m (fst a) = None\<close> show ?thesis
      by (simp add: hm_get_def hm_retain_def split: prod.splits)
  next
    case False
    then show ?thesis
      using Cons.IH [OF wf] by (simp add: hm_get_def hm_retain_def split: prod.splits)
  qed
qed

lemma hm_get_in_set: "hm_get m k = Some v \<Longrightarrow> (k, v) \<in> set m"
  by (simp add: hm_get_def map_of_SomeD)

lemma hm_in_set_get: "hm_wf m \<Longrightarrow> (k, v) \<in> set m \<Longrightarrow> hm_get m k = Some v"
  by (simp add: hm_get_def hm_wf_def)

lemma hm_get_iff: "hm_wf m \<Longrightarrow> hm_get m k = Some v \<longleftrightarrow> (k, v) \<in> set m"
  by (blast intro: hm_in_set_get hm_get_in_set)

lemma hm_insert_absent: "hm_get m k = None \<Longrightarrow> hm_insert k v m = m @ [(k, v)]"
  by (induction m) (auto simp: hm_get_def hm_insert_def)

lemma length_hm_insert:
  "length (hm_insert k v m) = (if hm_get m k = None then Suc (length m) else length m)"
  by (induction m) (auto simp: hm_get_def hm_insert_def)

lemma hm_insert_sub: "set (hm_insert k v m) \<subseteq> insert (k, v) (set m)"
  by (induction m) (auto simp: hm_insert_def)

lemma length_hm_remove_less:
  "hm_get m k \<noteq> None \<Longrightarrow> length (hm_remove k m) < length m"
proof (induction m)
  case (Cons a m)
  then show ?case
    using length_delete_le [of k m]
    by (cases "fst a = k") (auto simp: hm_get_def hm_remove_def)
qed simp

lemma length_hm_retain: "length (hm_retain P m) \<le> length m"
  by (simp add: hm_retain_def)

text \<open>\<^verbatim>\<open>entry(k).or_insert(v)\<close> on a map that is only looked up.\<close>

definition or_insert :: "('k \<rightharpoonup> 'v) \<Rightarrow> 'k \<Rightarrow> 'v \<Rightarrow> ('k \<rightharpoonup> 'v)" where
  "or_insert m k v = (if m k = None then m(k \<mapsto> v) else m)"

lemma or_insert_Some: "or_insert m k v k' = Some w \<Longrightarrow> m k' = Some w \<or> (k' = k \<and> w = v)"
  by (auto simp: or_insert_def split: if_splits)

lemma or_insert_keep: "m k' = Some w \<Longrightarrow> or_insert m k v k' = Some w"
  by (auto simp: or_insert_def)

lemma or_insert_present: "or_insert m k v k \<noteq> None"
  by (auto simp: or_insert_def)

lemma ex_nat_Suc_iff: "(\<exists>j. P j) \<longleftrightarrow> P 0 \<or> (\<exists>j. P (Suc j))"
  by (metis not0_implies_Suc)

section \<open>Strings\<close>

text \<open>\<^verbatim>\<open>Option::unwrap_or_default\<close> on strings.\<close>

definition unwrap_or_default :: "'a list option \<Rightarrow> 'a list" where
  "unwrap_or_default v = (case v of None \<Rightarrow> [] | Some x \<Rightarrow> x)"

lemma unwrap_or_default_simps [simp]: "unwrap_or_default None = []" "unwrap_or_default (Some x) = x"
  by (simp_all add: unwrap_or_default_def)

lemma unwrap_or_default_eq: "unwrap_or_default v = x \<Longrightarrow> x \<noteq> [] \<Longrightarrow> v = Some x"
  by (cases v) simp_all

text \<open>\<^verbatim>\<open>str::split_once\<close> and \<^verbatim>\<open>str::split\<close> at one character.\<close>

fun split_once :: "char \<Rightarrow> string \<Rightarrow> (string \<times> string) option" where
  "split_once c [] = None"
| "split_once c (x # xs) =
     (if x = c then Some ([], xs)
      else (case split_once c xs of None \<Rightarrow> None | Some (a, b) \<Rightarrow> Some (x # a, b)))"

fun split_on :: "char \<Rightarrow> string \<Rightarrow> string list" where
  "split_on c [] = [[]]"
| "split_on c (x # xs) =
     (if x = c then [] # split_on c xs
      else (case split_on c xs of [] \<Rightarrow> [[x]] | h # t \<Rightarrow> (x # h) # t))"

lemma split_once_append: "c \<notin> set a \<Longrightarrow> split_once c (a @ c # b) = Some (a, b)"
  by (induction a) auto

lemma split_once_Some: "split_once c s = Some (a, b) \<Longrightarrow> s = a @ c # b \<and> c \<notin> set a"
  by (induction s arbitrary: a) (auto split: if_splits option.splits)

lemma split_on_ne [simp]: "split_on c s \<noteq> []"
  by (induction s) (auto split: list.splits)

lemma split_on_hd: "hd (split_on c s) = takeWhile (\<lambda>x. x \<noteq> c) s"
  by (induction s) (auto split: list.splits dest: sym)

lemma split_on_none: "c \<notin> set s \<Longrightarrow> split_on c s = [s]"
  by (induction s) auto

lemma split_on_sep: "c \<notin> set s \<Longrightarrow> split_on c (s @ c # t) = s # split_on c t"
  by (induction s) auto

definition is_ws :: "char \<Rightarrow> bool" where
  "is_ws c \<longleftrightarrow> of_char c \<in> {9, 10, 11, 12, 13, 32 :: nat}"

text \<open>\<^verbatim>\<open>str::trim\<close> and \<^verbatim>\<open>trim_end_matches\<close> of one character.\<close>

definition trim :: "string \<Rightarrow> string" where
  "trim s = rev (dropWhile is_ws (rev (dropWhile is_ws s)))"

definition trim_end_matches :: "char \<Rightarrow> string \<Rightarrow> string" where
  "trim_end_matches c s = rev (dropWhile (\<lambda>x. x = c) (rev s))"

text \<open>\<^verbatim>\<open>str::to_ascii_lowercase\<close>.\<close>

definition to_ascii_lowercase :: "string \<Rightarrow> string" where
  "to_ascii_lowercase = map (\<lambda>c. if 65 \<le> (of_char c :: nat) \<and> (of_char c :: nat) \<le> 90
     then char_of ((of_char c :: nat) + 32) else c)"

lemma trim_Nil_iff: "trim s = [] \<longleftrightarrow> (\<forall>c\<in>set s. is_ws c)"
proof -
  have "dropWhile is_ws s = [] \<or> \<not> is_ws (hd (dropWhile is_ws s))"
    using hd_dropWhile [of is_ws s] by blast
  then have "(\<forall>c\<in>set (dropWhile is_ws s). is_ws c) \<longleftrightarrow> dropWhile is_ws s = []"
    by (metis list.set_intros(1) list.exhaust_sel empty_iff list.set(1))
  then show ?thesis
    by (simp add: trim_def dropWhile_eq_Nil_conv)
qed

lemma trim_end_matches_last: "trim_end_matches c s = [] \<or> last (trim_end_matches c s) \<noteq> c"
  using hd_dropWhile [of "\<lambda>x. x = c" "rev s"]
  by (auto simp: trim_end_matches_def last_rev)

lemma trim_end_matches_hd:
  "trim_end_matches c s \<noteq> [] \<Longrightarrow> hd (trim_end_matches c s) = hd s"
proof -
  assume ne: "trim_end_matches c s \<noteq> []"
  have "s = trim_end_matches c s @ rev (takeWhile (\<lambda>x. x = c) (rev s))"
    unfolding trim_end_matches_def
    by (metis rev_append rev_rev_ident takeWhile_dropWhile_id)
  with ne show ?thesis by (metis hd_append2)
qed

section \<open>Decimal numerals\<close>

definition digit_char :: "nat \<Rightarrow> char" where
  "digit_char n = char_of (48 + n)"

definition is_digit :: "char \<Rightarrow> bool" where
  "is_digit c \<longleftrightarrow> 48 \<le> (of_char c :: nat) \<and> (of_char c :: nat) \<le> 57"

fun show_nat :: "nat \<Rightarrow> string" where
  "show_nat n = (if n < 10 then [digit_char n] else show_nat (n div 10) @ [digit_char (n mod 10)])"

declare show_nat.simps [simp del]

definition show_int :: "int \<Rightarrow> string" where
  "show_int z = (if z < 0 then CHR ''-'' # show_nat (nat (- z)) else show_nat (nat z))"

definition digits_val :: "string \<Rightarrow> nat" where
  "digits_val s = foldl (\<lambda>a c. 10 * a + (of_char c - 48)) 0 s"

text \<open>\<^verbatim>\<open>FromStr\<close> of the unsigned and signed integers: an optional sign, at least one
  digit, nothing else, and a value in range.\<close>

definition parse_uint :: "nat \<Rightarrow> string \<Rightarrow> nat option" where
  "parse_uint bound s =
     (let ds = (case s of c # cs \<Rightarrow> if c = CHR ''+'' then cs else s | [] \<Rightarrow> []) in
      if ds \<noteq> [] \<and> (\<forall>c\<in>set ds. is_digit c) \<and> digits_val ds < bound
      then Some (digits_val ds) else None)"

definition parse_u64 :: "string \<Rightarrow> nat option" where
  "parse_u64 s = parse_uint (2 ^ 64) s"

definition parse_i64 :: "string \<Rightarrow> int option" where
  "parse_i64 s =
     (case s of
        [] \<Rightarrow> None
      | c # cs \<Rightarrow>
          if c = CHR ''-'' then
            (if cs \<noteq> [] \<and> (\<forall>d\<in>set cs. is_digit d) \<and> digits_val cs \<le> 2 ^ 63
             then Some (- int (digits_val cs)) else None)
          else map_option int (parse_uint (2 ^ 63) s))"

lemma of_char_digit_char: "n < 10 \<Longrightarrow> (of_char (digit_char n) :: nat) = 48 + n"
  by (simp add: digit_char_def)

lemma is_digit_digit_char [num_simps]: "n < 10 \<Longrightarrow> is_digit (digit_char n)"
  by (simp add: is_digit_def of_char_digit_char)

lemma show_nat_digits [num_simps]: "c \<in> set (show_nat n) \<Longrightarrow> is_digit c"
proof (induction n rule: show_nat.induct)
  case (1 n)
  then show ?case
    by (cases "n < 10")
      (auto simp: show_nat.simps [of n] is_digit_digit_char)
qed

lemma show_nat_ne [simp, num_simps]: "show_nat n \<noteq> []"
  by (subst show_nat.simps) simp

lemma digits_val_snoc: "digits_val (s @ [c]) = 10 * digits_val s + (of_char c - 48)"
  by (simp add: digits_val_def)

lemma digits_val_show_nat [simp, num_simps]: "digits_val (show_nat n) = n"
proof (induction n rule: show_nat.induct)
  case (1 n)
  show ?case
  proof (cases "n < 10")
    case True
    then show ?thesis
      by (simp add: show_nat.simps [of n] digits_val_def of_char_digit_char)
  next
    case False
    then have "digits_val (show_nat n) = 10 * (n div 10) + n mod 10"
      using "1.IH" by (simp add: show_nat.simps [of n] digits_val_snoc of_char_digit_char)
    then show ?thesis by simp
  qed
qed

lemma is_digit_neq:
  "is_digit c \<Longrightarrow> c \<noteq> CHR ''+''" "is_digit c \<Longrightarrow> c \<noteq> CHR ''-''"
  "is_digit c \<Longrightarrow> c \<noteq> CHR '':''"
  by (auto simp: is_digit_def)

lemma show_nat_no_colon [num_simps]: "CHR '':'' \<notin> set (show_nat n)"
  using show_nat_digits is_digit_neq(3) by blast

lemma hd_show_nat: "is_digit (hd (show_nat n))"
  by (rule show_nat_digits [of _ n]) simp

lemma parse_uint_show_nat [num_simps]:
  assumes "n < b"
  shows "parse_uint b (show_nat n) = Some n"
proof -
  have "hd (show_nat n) \<noteq> CHR ''+''"
    using hd_show_nat is_digit_neq(1) by blast
  then have "(case show_nat n of c # cs \<Rightarrow> if c = CHR ''+'' then cs else show_nat n | [] \<Rightarrow> [])
    = show_nat n"
    by (cases "show_nat n") auto
  moreover have "\<forall>c\<in>set (show_nat n). is_digit c"
    using show_nat_digits by blast
  ultimately show ?thesis
    using assms by (simp add: parse_uint_def Let_def)
qed

lemma parse_u64_show_nat [num_simps]: "n < 2 ^ 64 \<Longrightarrow> parse_u64 (show_nat n) = Some n"
  by (simp add: parse_u64_def parse_uint_show_nat)

definition i64_range :: "int \<Rightarrow> bool" where
  "i64_range z \<longleftrightarrow> - (2 ^ 63) \<le> z \<and> z < 2 ^ 63"

lemma parse_i64_show_int [num_simps]:
  assumes "i64_range z"
  shows "parse_i64 (show_int z) = Some z"
proof (cases "z < 0")
  case True
  with assms have "nat (- z) \<le> 2 ^ 63" by (simp add: i64_range_def)
  with True show ?thesis
    by (simp add: show_int_def parse_i64_def show_nat_digits)
next
  case False
  with assms have "nat z < 2 ^ 63" by (simp add: i64_range_def)
  then have "parse_uint (2 ^ 63) (show_nat (nat z)) = Some (nat z)"
    by (rule parse_uint_show_nat)
  moreover have "hd (show_nat (nat z)) \<noteq> CHR ''-''"
    using hd_show_nat is_digit_neq(2) by blast
  ultimately show ?thesis
    using False by (cases "show_nat (nat z)") (auto simp: show_int_def parse_i64_def)
qed

lemma parse_i64_range: "parse_i64 s = Some z \<Longrightarrow> i64_range z"
proof (cases s)
  case (Cons c cs)
  assume "parse_i64 s = Some z"
  with Cons have "(\<exists>n \<le> 2 ^ 63. z = - int n) \<or> (\<exists>n < 2 ^ 63. z = int n)"
    by (auto simp: parse_i64_def parse_uint_def Let_def split: if_splits)
  then show ?thesis by (auto simp: i64_range_def)
qed (simp add: parse_i64_def)

text \<open>\<^verbatim>\<open>Iterator::position\<close>.\<close>

fun position_of :: "('a \<Rightarrow> bool) \<Rightarrow> 'a list \<Rightarrow> nat option" where
  "position_of P [] = None"
| "position_of P (x # xs) = (if P x then Some 0 else map_option Suc (position_of P xs))"

lemma position_of_Some: "position_of P xs = Some i \<Longrightarrow> i < length xs \<and> P (xs ! i)"
  by (induction xs arbitrary: i) (auto split: if_splits)

lemma position_of_None: "position_of P xs = None \<longleftrightarrow> (\<forall>x\<in>set xs. \<not> P x)"
  by (induction xs) auto

text \<open>Bits read from a number that was cut to a larger width.\<close>

lemma bit_window:
  assumes "k + m \<le> n"
  shows "x mod 2 ^ n div 2 ^ k mod 2 ^ m = x div 2 ^ k mod (2 ^ m :: nat)"
proof -
  have n: "(2 :: nat) ^ n = 2 ^ k * 2 ^ (n - k)" using assms by (simp flip: power_add)
  have "x mod 2 ^ n div 2 ^ k = x div 2 ^ k mod 2 ^ (n - k)"
    unfolding n by (simp add: mod_mult2_eq)
  moreover have "(2 :: nat) ^ m dvd 2 ^ (n - k)" using assms by (intro le_imp_power_dvd) simp
  ultimately show ?thesis by (simp add: mod_mod_cancel)
qed

section \<open>JSON\<close>

text \<open>A number is its canonical text; the entries of an object are in the order of the map.\<close>

datatype json_value =
    JNull
  | JBool bool
  | JNumber string
  | JString string
  | JArray "json_value list"
  | JObject "(string \<times> json_value) list"

end
