(* ===== verification/Foundation.thy ===== *)
theory Foundation
  imports Prelude
begin

text \<open>
  The crate \<^verbatim>\<open>rustasea-foundation\<close> (\<^verbatim>\<open>src/crates/rustasea-foundation/src/lib.rs\<close>):
  the dependency-injection container, and the application's provider boot, which orders the
  providers topologically and reports a concrete dependency cycle when there is none.

  A closure held by the container (a factory) or by a provider (its \<^verbatim>\<open>register\<close> hook)
  takes the container or the application as an argument, so its type would be negatively
  recursive: closures are handles of a type \<open>'f\<close> or \<open>'r\<close>, and what a handle does is
  an argument of the operations that call it. A \<^verbatim>\<open>Box<dyn Any>\<close> is a value tagged with
  its type; a downcast compares tags. A panic (a \<^verbatim>\<open>usize\<close> underflow or an index out of
  range) is \<open>None\<close>.
\<close>

section \<open>The container\<close>

datatype 'v boxed = Boxed (box_type: string) (box_val: 'v)

definition downcast_ref :: "string \<Rightarrow> 'v boxed \<Rightarrow> 'v option" where
  "downcast_ref T b = (if box_type b = T then Some (box_val b) else None)"

record ('f, 'v) container =
  factories :: "string \<rightharpoonup> 'f"
  singleton_factories :: "string \<rightharpoonup> 'f"
  instances :: "string \<rightharpoonup> 'v boxed"
  singleton_cache :: "string \<rightharpoonup> 'v boxed"
  type_registry :: "string \<rightharpoonup> string"

definition container_new :: "('f, 'v) container" where
  "container_new = \<lparr>factories = Map.empty, singleton_factories = Map.empty,
     instances = Map.empty, singleton_cache = Map.empty, type_registry = Map.empty\<rparr>"

definition bind_factory :: "string \<Rightarrow> 'f \<Rightarrow> ('f, 'v) container \<Rightarrow> ('f, 'v) container" where
  "bind_factory k f c = c\<lparr>type_registry := (type_registry c)(k \<mapsto> ''BindingKind::Bind''),
     factories := (factories c)(k \<mapsto> f)\<rparr>"

definition bind_singleton :: "string \<Rightarrow> 'f \<Rightarrow> ('f, 'v) container \<Rightarrow> ('f, 'v) container" where
  "bind_singleton k f c = c\<lparr>type_registry := (type_registry c)(k \<mapsto> ''BindingKind::Singleton''),
     singleton_factories := (singleton_factories c)(k \<mapsto> f)\<rparr>"

definition bind_instance :: "string \<Rightarrow> 'v boxed \<Rightarrow> ('f, 'v) container \<Rightarrow> ('f, 'v) container" where
  "bind_instance k v c = c\<lparr>type_registry := (type_registry c)(k \<mapsto> ''BindingKind::Instance''),
     instances := (instances c)(k \<mapsto> v)\<rparr>"

definition container_get :: "string \<Rightarrow> string \<Rightarrow> ('f, 'v) container \<Rightarrow> 'v option" where
  "container_get T k c =
     (case instances c k of
        Some v \<Rightarrow> downcast_ref T v
      | None \<Rightarrow>
          (case singleton_cache c k of
             Some v \<Rightarrow> downcast_ref T v
           | None \<Rightarrow> None))"

text \<open>\<open>run\<close> calls a factory closure on the container.\<close>

definition make_singleton ::
  "('f \<Rightarrow> ('f, 'v) container \<Rightarrow> 'v boxed) \<Rightarrow> string \<Rightarrow> string \<Rightarrow> ('f, 'v) container
    \<Rightarrow> 'v option \<times> ('f, 'v) container" where
  "make_singleton run T k c =
     (case singleton_cache c k of
        Some v \<Rightarrow> (downcast_ref T v, c)
      | None \<Rightarrow>
          (case singleton_factories c k of
             None \<Rightarrow> (None, c)
           | Some f \<Rightarrow>
               (case downcast_ref T (run f c) of
                  None \<Rightarrow> (None, c)
                | Some typed \<Rightarrow>
                    (Some typed,
                     c\<lparr>singleton_cache := (singleton_cache c)(k \<mapsto> Boxed T typed)\<rparr>))))"

definition make_transient ::
  "('f \<Rightarrow> ('f, 'v) container \<Rightarrow> 'v boxed) \<Rightarrow> string \<Rightarrow> string \<Rightarrow> ('f, 'v) container
    \<Rightarrow> 'v option" where
  "make_transient run T k c =
     (case factories c k of
        None \<Rightarrow> None
      | Some f \<Rightarrow> downcast_ref T (run f c))"

definition bound :: "string \<Rightarrow> ('f, 'v) container \<Rightarrow> bool" where
  "bound k c \<longleftrightarrow> k \<in> dom (instances c) \<or> k \<in> dom (singleton_cache c)
     \<or> k \<in> dom (factories c) \<or> k \<in> dom (singleton_factories c)"

definition container_keys :: "('f, 'v) container \<Rightarrow> string set" where
  "container_keys c = dom (type_registry c)"

text \<open>
  The well-formedness of a container: the registry of binding kinds names exactly the bound
  keys, and a cached singleton has a factory.
\<close>

definition container_wf :: "('f, 'v) container \<Rightarrow> bool" where
  "container_wf c \<longleftrightarrow>
     (\<forall>k. k \<in> container_keys c \<longleftrightarrow> bound k c)
     \<and> dom (singleton_cache c) \<subseteq> dom (singleton_factories c)"

lemma container_wf_new [simp]: "container_wf container_new"
  by (simp add: container_wf_def container_new_def container_keys_def bound_def)

lemma container_wf_bind_factory [simp]: "container_wf c \<Longrightarrow> container_wf (bind_factory k f c)"
  by (auto simp: container_wf_def container_keys_def bound_def bind_factory_def)

lemma container_wf_bind_singleton [simp]: "container_wf c \<Longrightarrow> container_wf (bind_singleton k f c)"
  by (auto simp: container_wf_def container_keys_def bound_def bind_singleton_def)

lemma container_wf_bind_instance [simp]: "container_wf c \<Longrightarrow> container_wf (bind_instance k v c)"
  by (auto simp: container_wf_def container_keys_def bound_def bind_instance_def)

lemma container_wf_make_singleton:
  assumes "container_wf c"
  shows "container_wf (snd (make_singleton run T k c))"
proof (cases "singleton_cache c k")
  case (Some v)
  with assms show ?thesis by (simp add: make_singleton_def)
next
  case None
  show ?thesis
  proof (cases "singleton_factories c k")
    case None
    with \<open>singleton_cache c k = None\<close> assms show ?thesis by (simp add: make_singleton_def)
  next
    case (Some f)
    show ?thesis
    proof (cases "downcast_ref T (run f c)")
      case None
      with Some \<open>singleton_cache c k = None\<close> assms show ?thesis by (simp add: make_singleton_def)
    next
      case (Some typed)
      have "snd (make_singleton run T k c)
        = c\<lparr>singleton_cache := (singleton_cache c)(k \<mapsto> Boxed T typed)\<rparr>"
        using Some \<open>singleton_factories c k = Some f\<close> \<open>singleton_cache c k = None\<close>
        by (simp add: make_singleton_def)
      moreover have "k \<in> dom (singleton_factories c)"
        using \<open>singleton_factories c k = Some f\<close> by blast
      ultimately show ?thesis
        using assms by (auto simp: container_wf_def container_keys_def bound_def)
    qed
  qed
qed

text \<open>The operations on a container, as the steps of one container's life.\<close>

datatype ('f, 'v) container_op =
    OpBind string 'f
  | OpSingleton string 'f
  | OpInstance string "'v boxed"
  | OpMakeSingleton string string

fun container_step ::
  "('f \<Rightarrow> ('f, 'v) container \<Rightarrow> 'v boxed) \<Rightarrow> ('f, 'v) container_op
    \<Rightarrow> ('f, 'v) container \<Rightarrow> ('f, 'v) container" where
  "container_step run (OpBind k f) c = bind_factory k f c"
| "container_step run (OpSingleton k f) c = bind_singleton k f c"
| "container_step run (OpInstance k v) c = bind_instance k v c"
| "container_step run (OpMakeSingleton T k) c = snd (make_singleton run T k c)"

lemma container_wf_step: "container_wf c \<Longrightarrow> container_wf (container_step run a c)"
  by (cases a) (simp_all add: container_wf_make_singleton)

lemma container_wf_run: "container_wf c \<Longrightarrow> container_wf (fold (container_step run) as c)"
  by (induction as arbitrary: c) (simp_all add: container_wf_step)

lemma cached_step:
  "singleton_cache c k = Some b \<Longrightarrow> singleton_cache (container_step run a c) k = Some b"
  by (cases a)
    (auto simp: bind_factory_def bind_singleton_def bind_instance_def make_singleton_def
      split: option.splits)

lemma cached_run:
  "singleton_cache c k = Some b \<Longrightarrow> singleton_cache (fold (container_step run) as c) k = Some b"
  by (induction as arbitrary: c) (simp_all add: cached_step)

lemma make_singleton_caches:
  "fst (make_singleton run T k c) = Some v \<Longrightarrow>
   \<exists>b. singleton_cache (snd (make_singleton run T k c)) k = Some b \<and> downcast_ref T b = Some v"
  by (auto simp: make_singleton_def downcast_ref_def split: option.splits if_splits)

lemma make_singleton_cached:
  "singleton_cache c k = Some b \<Longrightarrow> make_singleton run T k c = (downcast_ref T b, c)"
  by (simp add: make_singleton_def)


section \<open>Properties\<close>

text \<open>
  C23. A singleton is created once: after \<^verbatim>\<open>make_singleton\<close> has produced a value for a
  key, no sequence of container operations and no later factory changes what it returns.
\<close>

theorem singleton_is_stable:
  assumes "fst (make_singleton run T k c) = Some v"
  shows "fst (make_singleton run' T k
    (fold (container_step run) ops (snd (make_singleton run T k c)))) = Some v"
proof -
  from make_singleton_caches [OF assms] obtain b
    where "singleton_cache (snd (make_singleton run T k c)) k = Some b"
      and b: "downcast_ref T b = Some v" by blast
  then have "singleton_cache (fold (container_step run) ops (snd (make_singleton run T k c))) k
    = Some b" by (simp add: cached_run)
  with b show ?thesis by (simp add: make_singleton_cached)
qed

theorem singleton_is_stable_witness:
  "fst (make_singleton (\<lambda>f c. Boxed ''u32'' f) ''u32'' ''id''
      (bind_singleton ''id'' (7 :: nat) container_new)) = Some 7 \<and>
   fst (make_singleton (\<lambda>f c. Boxed ''u32'' 9) ''u32'' ''id''
      (fold (container_step (\<lambda>f c. Boxed ''u32'' f))
        [OpSingleton ''id'' 8, OpMakeSingleton ''u32'' ''id'']
        (snd (make_singleton (\<lambda>f c. Boxed ''u32'' f) ''u32'' ''id''
          (bind_singleton ''id'' (7 :: nat) container_new))))) = Some 7"
proof -
  have h: "fst (make_singleton (\<lambda>f c. Boxed ''u32'' f) ''u32'' ''id''
      (bind_singleton ''id'' (7 :: nat) container_new)) = Some 7"
    by (simp add: make_singleton_def bind_singleton_def container_new_def downcast_ref_def)
  from singleton_is_stable [OF h] h show ?thesis by blast
qed

text \<open>
  Whatever sequence of operations builds a container, the keys it lists are exactly the
  keys it can resolve or create, and every cached singleton still has its factory.
\<close>

lemma container_registry_exact:
  "(\<forall>k. k \<in> container_keys (fold (container_step run) ops container_new)
      \<longleftrightarrow> bound k (fold (container_step run) ops container_new))
   \<and> dom (singleton_cache (fold (container_step run) ops container_new))
      \<subseteq> dom (singleton_factories (fold (container_step run) ops container_new))"
  using container_wf_run [OF container_wf_new, of run ops] by (simp add: container_wf_def)

text \<open>
  Lookup and creation by key: an instance shadows every other binding of its key, a
  lookup never creates a singleton, and a value of another type than the one asked for is
  not found.
\<close>

lemma container_lookup:
  "container_get T k (bind_instance k (Boxed U v) c) = (if U = T then Some v else None)
   \<and> (instances c k = None \<and> singleton_cache c k = None \<longrightarrow>
        container_get T k (bind_singleton k f c) = None
        \<and> fst (make_singleton run T k (bind_singleton k f c))
            = downcast_ref T (run f (bind_singleton k f c))
        \<and> container_get T k (snd (make_singleton run T k (bind_singleton k f c)))
            = downcast_ref T (run f (bind_singleton k f c)))"
  by (auto simp: container_get_def bind_instance_def bind_singleton_def make_singleton_def
      downcast_ref_def split: option.splits)

lemma container_lookup_example:
  "instances (container_new :: (nat, nat) container) ''id'' = None
   \<and> singleton_cache (container_new :: (nat, nat) container) ''id'' = None
   \<and> container_get ''u32'' ''id''
       (snd (make_singleton (\<lambda>f c. Boxed ''u32'' f) ''u32'' ''id''
         (bind_singleton ''id'' (7 :: nat) container_new))) = Some 7"
proof -
  have h: "instances (container_new :: (nat, nat) container) ''id'' = None
      \<and> singleton_cache (container_new :: (nat, nat) container) ''id'' = None"
    by (simp add: container_new_def)
  then have "container_get ''u32'' ''id''
       (snd (make_singleton (\<lambda>f c. Boxed ''u32'' f) ''u32'' ''id''
         (bind_singleton ''id'' (7 :: nat) container_new)))
    = downcast_ref ''u32'' (Boxed ''u32'' (7 :: nat))"
    using container_lookup [of "''u32''" "''id''" "''u32''" 0 container_new 7 "\<lambda>f c. Boxed ''u32'' f"]
    by blast
  with h show ?thesis by (simp add: downcast_ref_def)
qed

end
