(* ===== verification/Boot.thy ===== *)
theory Boot
  imports Foundation
begin

text \<open>
  The provider boot of \<^verbatim>\<open>rustasea-foundation\<close>: \<^verbatim>\<open>Application::boot\<close>,
  \<^verbatim>\<open>topological_order\<close> (Kahn's algorithm with a min-heap), \<^verbatim>\<open>provider_index\<close>,
  \<^verbatim>\<open>cycle_names\<close> and \<^verbatim>\<open>find_cycle\<close>. The min-heap is a sorted list, popped at
  its head. The depth-first search carries fuel for its nesting depth; a search over
  \<open>n\<close> providers started with fuel \<open>n\<close> never runs out, since every nested call puts
  one more provider on the path.
\<close>

section \<open>Definitions\<close>

record 'r provider =
  prov_name :: string
  prov_deps :: "string list"
  prov_hooks :: 'r

datatype BootError =
    DependencyCycle "string list"
  | UnknownDependency string string
  | ConfigFailed string

record ('r, 'f, 'v) application =
  app_container :: "('f, 'v) container"
  app_providers :: "'r provider list"
  app_booted :: bool
  app_config_dir :: string

definition application_new :: "('r, 'f, 'v) application" where
  "application_new = \<lparr>app_container = container_new, app_providers = [], app_booted = False,
     app_config_dir = ''config''\<rparr>"

definition set_config_dir ::
  "string \<Rightarrow> ('r, 'f, 'v) application \<Rightarrow> ('r, 'f, 'v) application" where
  "set_config_dir dir app = app\<lparr>app_config_dir := dir\<rparr>"

definition add_provider ::
  "'r provider \<Rightarrow> ('r, 'f, 'v) application \<Rightarrow> ('r, 'f, 'v) application" where
  "add_provider p app = app\<lparr>app_providers := app_providers app @ [p]\<rparr>"

definition CONFIG_LOADER_KEY :: string where
  "CONFIG_LOADER_KEY = ''config.loader''"

text \<open>\<open>load\<close> reads the configuration directory and the environment.\<close>

definition mount_config ::
  "(string \<Rightarrow> string + 'v boxed) \<Rightarrow> ('r, 'f, 'v) application
    \<Rightarrow> BootError + ('r, 'f, 'v) application" where
  "mount_config load app =
     (if bound CONFIG_LOADER_KEY (app_container app) then Inr app
      else (case load (app_config_dir app) of
              Inl message \<Rightarrow> Inl (ConfigFailed message)
            | Inr loader \<Rightarrow>
                Inr (app\<lparr>app_container := bind_instance CONFIG_LOADER_KEY loader (app_container app)\<rparr>)))"

subsection \<open>The index of provider names\<close>

text \<open>\<^verbatim>\<open>name.rsplit("::").next()\<close>: what follows the last separator.\<close>

fun after_last_sep :: "string \<Rightarrow> string option" where
  "after_last_sep [] = None"
| "after_last_sep [c] = None"
| "after_last_sep (c # d # cs) =
     (case after_last_sep (d # cs) of
        Some r \<Rightarrow> Some r
      | None \<Rightarrow> if c = CHR '':'' \<and> d = CHR '':'' then Some cs else None)"

definition short_name :: "string \<Rightarrow> string" where
  "short_name s = (case after_last_sep s of None \<Rightarrow> s | Some r \<Rightarrow> r)"

fun index_from :: "nat \<Rightarrow> 'r provider list \<Rightarrow> (string \<rightharpoonup> nat) \<Rightarrow> (string \<rightharpoonup> nat)" where
  "index_from i [] m = m"
| "index_from i (p # ps) m =
     index_from (Suc i) ps
       (or_insert (or_insert m (prov_name p) i) (short_name (prov_name p)) i)"

definition provider_index :: "'r provider list \<Rightarrow> (string \<rightharpoonup> nat)" where
  "provider_index ps = index_from 0 ps Map.empty"

subsection \<open>The dependency graph\<close>

fun dep_loop ::
  "(string \<rightharpoonup> nat) \<Rightarrow> nat \<Rightarrow> string \<Rightarrow> string list \<Rightarrow> nat list list \<times> nat list
    \<Rightarrow> BootError + nat list list \<times> nat list" where
  "dep_loop index_of node name [] s = Inr s"
| "dep_loop index_of node name (d # ds) (edges, indegree) =
     (case index_of d of
        None \<Rightarrow> Inl (UnknownDependency name d)
      | Some di \<Rightarrow>
          if di = node then Inl (DependencyCycle [name])
          else dep_loop index_of node name ds
                 (edges[di := edges ! di @ [node]], indegree[node := Suc (indegree ! node)]))"

fun graph_loop ::
  "(string \<rightharpoonup> nat) \<Rightarrow> nat \<Rightarrow> 'r provider list \<Rightarrow> nat list list \<times> nat list
    \<Rightarrow> BootError + nat list list \<times> nat list" where
  "graph_loop index_of node [] s = Inr s"
| "graph_loop index_of node (p # ps) s =
     (case dep_loop index_of node (prov_name p) (prov_deps p) s of
        Inl e \<Rightarrow> Inl e
      | Inr s' \<Rightarrow> graph_loop index_of (Suc node) ps s')"

definition build_graph :: "'r provider list \<Rightarrow> BootError + nat list list \<times> nat list" where
  "build_graph ps = graph_loop (provider_index ps) 0 ps
     (replicate (length ps) [], replicate (length ps) 0)"

subsection \<open>Kahn's algorithm\<close>

fun relax :: "nat list \<Rightarrow> nat list \<Rightarrow> nat list \<Rightarrow> (nat list \<times> nat list) option" where
  "relax [] indegree ready = Some (indegree, ready)"
| "relax (x # xs) indegree ready =
     (if x \<ge> length indegree \<or> indegree ! x = 0 then None
      else let indegree' = indegree[x := indegree ! x - 1]
           in relax xs indegree' (if indegree' ! x = 0 then insort x ready else ready))"

definition positives :: "nat list \<Rightarrow> nat" where
  "positives ds = length (filter (\<lambda>d. 0 < d) ds)"

lemma positives_update:
  "x < length ds \<Longrightarrow> 0 < ds ! x \<Longrightarrow>
   positives (ds[x := e]) + (if e = 0 then 1 else 0) = positives ds"
proof (induction ds arbitrary: x)
  case (Cons d ds)
  then show ?case
    by (cases x) (auto simp: positives_def split: if_splits)
qed simp

lemma relax_measure:
  "relax xs ds rs = Some (ds', rs') \<Longrightarrow>
   length rs' + positives ds' = length rs + positives ds"
proof (induction xs ds rs rule: relax.induct)
  case (2 x xs ds rs)
  from "2.prems" have x: "x < length ds" "0 < ds ! x"
    by (auto split: if_splits)
  let ?ds = "ds[x := ds ! x - 1]"
  let ?rs = "if ?ds ! x = 0 then insort x rs else rs"
  have "length rs' + positives ds' = length ?rs + positives ?ds"
    using "2.IH" [OF _ refl] "2.prems" x by (simp add: Let_def)
  also have "\<dots> = length rs + positives ds"
    using positives_update [OF x, of "ds ! x - 1"] x by (auto split: if_splits)
  finally show ?case .
qed simp

function kahn ::
  "nat list list \<Rightarrow> nat list \<Rightarrow> nat list \<Rightarrow> nat list \<Rightarrow> (nat list \<times> nat list) option" where
  "kahn edges [] indegree order = Some (order, indegree)"
| "kahn edges (node # ready) indegree order =
     (if node \<ge> length edges then None
      else (case relax (edges ! node) indegree ready of
              None \<Rightarrow> None
            | Some (indegree', ready') \<Rightarrow> kahn edges ready' indegree' (order @ [node])))"
  by pat_completeness auto
termination
  by (relation "measure (\<lambda>(edges, ready, indegree, order). length ready + positives indegree)")
    (auto dest: relax_measure)

subsection \<open>The cycle search\<close>

record dfs =
  dfs_path :: "nat list"
  dfs_on_path :: "bool list"
  dfs_done :: "bool list"

datatype scan_result =
    Returned "nat list option" dfs
  | Exhausted dfs
  | OutOfFuel

fun find_cycle :: "nat list list \<Rightarrow> bool list \<Rightarrow> nat \<Rightarrow> nat \<Rightarrow> dfs \<Rightarrow> (nat list option \<times> dfs) option"
  and scan_edges :: "nat list list \<Rightarrow> bool list \<Rightarrow> nat \<Rightarrow> nat list \<Rightarrow> dfs \<Rightarrow> scan_result" where
  "find_cycle edges residual 0 node st = None"
| "find_cycle edges residual (Suc fuel) node st =
     (case scan_edges edges residual fuel (edges ! node)
             (st\<lparr>dfs_path := dfs_path st @ [node],
                 dfs_on_path := (dfs_on_path st)[node := True]\<rparr>) of
        OutOfFuel \<Rightarrow> None
      | Returned r st' \<Rightarrow> Some (r, st')
      | Exhausted st' \<Rightarrow>
          Some (None, st'\<lparr>dfs_path := butlast (dfs_path st'),
                          dfs_on_path := (dfs_on_path st')[node := False],
                          dfs_done := (dfs_done st')[node := True]\<rparr>))"
| "scan_edges edges residual fuel [] st = Exhausted st"
| "scan_edges edges residual fuel (x # xs) st =
     (if \<not> residual ! x \<or> dfs_done st ! x then scan_edges edges residual fuel xs st
      else if dfs_on_path st ! x then
        (case position_of (\<lambda>y. y = x) (dfs_path st) of
           None \<Rightarrow> Returned None st
         | Some b \<Rightarrow> Returned (Some (drop b (dfs_path st))) st)
      else
        (case find_cycle edges residual fuel x st of
           None \<Rightarrow> OutOfFuel
         | Some (Some c, st') \<Rightarrow> Returned (Some c) st'
         | Some (None, st') \<Rightarrow> scan_edges edges residual fuel xs st'))"

fun cycle_roots ::
  "nat list list \<Rightarrow> bool list \<Rightarrow> nat \<Rightarrow> nat list \<Rightarrow> dfs \<Rightarrow> nat list option option" where
  "cycle_roots edges residual fuel [] st = Some None"
| "cycle_roots edges residual fuel (v # vs) st =
     (if \<not> residual ! v then cycle_roots edges residual fuel vs st
      else (case find_cycle edges residual fuel v st of
              None \<Rightarrow> None
            | Some (Some c, st') \<Rightarrow> Some (Some c)
            | Some (None, st') \<Rightarrow> cycle_roots edges residual fuel vs st'))"

definition cycle_names ::
  "'r provider list \<Rightarrow> nat list list \<Rightarrow> nat list \<Rightarrow> string list option" where
  "cycle_names ps edges indegree =
     (let n = length ps; residual = map (\<lambda>d. 0 < d) indegree in
      (case cycle_roots edges residual n [0..<n]
              \<lparr>dfs_path = [], dfs_on_path = replicate n False, dfs_done = replicate n False\<rparr> of
         None \<Rightarrow> None
       | Some (Some c) \<Rightarrow> Some (map (\<lambda>v. prov_name (ps ! v)) c)
       | Some None \<Rightarrow>
           Some (map (\<lambda>v. prov_name (ps ! v)) (filter (\<lambda>v. residual ! v) [0..<n]))))"

definition topological_order :: "'r provider list \<Rightarrow> (BootError + nat list) option" where
  "topological_order ps =
     (case build_graph ps of
        Inl e \<Rightarrow> Some (Inl e)
      | Inr (edges, indegree) \<Rightarrow>
          (case kahn edges (filter (\<lambda>v. indegree ! v = 0) [0..<length ps]) indegree [] of
             None \<Rightarrow> None
           | Some (order, indegree') \<Rightarrow>
               if length order = length ps then Some (Inr order)
               else (case cycle_names ps edges indegree' of
                       None \<Rightarrow> None
                     | Some names \<Rightarrow> Some (Inl (DependencyCycle names)))))"

subsection \<open>Boot\<close>

datatype hook_call = Register nat | BootCall nat

text \<open>
  \<open>reg\<close> is what a provider's \<^verbatim>\<open>register\<close> hook does to the application; its
  \<^verbatim>\<open>boot\<close> hook borrows the application immutably and changes nothing of it. The result
  carries the calls made, in order. \<^verbatim>\<open>std::mem::take\<close> empties the provider list while
  the hooks run, and the list is put back afterwards.
\<close>

fun register_loop ::
  "('r \<Rightarrow> ('r, 'f, 'v) application \<Rightarrow> ('r, 'f, 'v) application) \<Rightarrow> 'r provider list
    \<Rightarrow> nat list \<Rightarrow> ('r, 'f, 'v) application \<Rightarrow> hook_call list
    \<Rightarrow> (('r, 'f, 'v) application \<times> hook_call list) option" where
  "register_loop reg ps [] app calls = Some (app, calls)"
| "register_loop reg ps (i # is) app calls =
     (if i \<ge> length ps then None
      else register_loop reg ps is (reg (prov_hooks (ps ! i)) app) (calls @ [Register i]))"

fun boot_loop :: "'r provider list \<Rightarrow> nat list \<Rightarrow> hook_call list \<Rightarrow> hook_call list option" where
  "boot_loop ps [] calls = Some calls"
| "boot_loop ps (i # is) calls =
     (if i \<ge> length ps then None else boot_loop ps is (calls @ [BootCall i]))"

definition boot ::
  "(string \<Rightarrow> string + 'v boxed)
    \<Rightarrow> ('r \<Rightarrow> ('r, 'f, 'v) application \<Rightarrow> ('r, 'f, 'v) application)
    \<Rightarrow> ('r, 'f, 'v) application
    \<Rightarrow> ((BootError + unit) \<times> ('r, 'f, 'v) application \<times> hook_call list) option" where
  "boot load reg app =
     (if app_booted app then Some (Inr (), app, [])
      else (case mount_config load app of
              Inl e \<Rightarrow> Some (Inl e, app, [])
            | Inr app1 \<Rightarrow>
                (case topological_order (app_providers app1) of
                   None \<Rightarrow> None
                 | Some (Inl e) \<Rightarrow> Some (Inl e, app1, [])
                 | Some (Inr order) \<Rightarrow>
                     (case register_loop reg (app_providers app1) order
                             (app1\<lparr>app_providers := []\<rparr>) [] of
                        None \<Rightarrow> None
                      | Some (app2, calls) \<Rightarrow>
                          (case boot_loop (app_providers app1) order calls of
                             None \<Rightarrow> None
                           | Some calls' \<Rightarrow>
                               Some (Inr (),
                                 app2\<lparr>app_providers := app_providers app1, app_booted := True\<rparr>,
                                 calls'))))))"

end
