(* ===== verification/Boot_Order.thy ===== *)
theory Boot_Order
  imports Boot
begin

text \<open>
  Correctness of the provider order: what the dependency graph holds, that Kahn's loop
  never underflows and emits a least-index topological order, and that a failed order comes
  with a concrete dependency cycle.
\<close>

section \<open>The dependency relation\<close>

definition dep_edge :: "'r provider list \<Rightarrow> nat \<Rightarrow> nat \<Rightarrow> bool" where
  "dep_edge ps d p \<longleftrightarrow>
     p < length ps \<and> (\<exists>x\<in>set (prov_deps (ps ! p)). provider_index ps x = Some d)"

lemma index_from_bound:
  "(\<And>x w. m x = Some w \<Longrightarrow> w < i) \<Longrightarrow> index_from i ps m x = Some w \<Longrightarrow> w < i + length ps"
proof (induction i ps m arbitrary: w rule: index_from.induct)
  case (2 i p ps m)
  have "w < Suc i + length ps"
  proof (rule "2.IH")
    show "index_from (Suc i) ps
      (or_insert (or_insert m (prov_name p) i) (short_name (prov_name p)) i) x = Some w"
      using "2.prems"(2) by simp
    show "v < Suc i" if "or_insert (or_insert m (prov_name p) i) (short_name (prov_name p)) i y
      = Some v" for y v
      using that by (auto dest!: or_insert_Some intro: less_SucI "2.prems"(1))
  qed
  then show ?case by simp
qed simp

lemma provider_index_bound: "provider_index ps x = Some w \<Longrightarrow> w < length ps"
  using index_from_bound [of Map.empty 0 ps x w] by (simp add: provider_index_def)

lemma dep_edge_bound: "dep_edge ps d p \<Longrightarrow> d < length ps \<and> p < length ps"
  by (auto simp: dep_edge_def dest: provider_index_bound)

section \<open>Building the graph\<close>

definition balanced :: "nat list list \<Rightarrow> nat list \<Rightarrow> bool" where
  "balanced edges ds \<longleftrightarrow> length ds = length edges \<and>
     (\<forall>v<length ds. ds ! v = (\<Sum>u<length edges. count_list (edges ! u) v))"

lemma balanced_step:
  assumes "balanced edges ds" and di: "di < length edges" and node: "node < length edges"
  shows "balanced (edges[di := edges ! di @ [node]]) (ds[node := Suc (ds ! node)])"
proof -
  let ?e = "edges[di := edges ! di @ [node]]"
  have "(\<Sum>u<length edges. count_list (?e ! u) v)
      = (\<Sum>u<length edges. count_list (edges ! u) v) + (if v = node then 1 else 0)" for v
  proof -
    have "(\<Sum>u<length edges. count_list (?e ! u) v)
        = (\<Sum>u<length edges. count_list (edges ! u) v
            + (if u = di \<and> v = node then 1 else 0))"
      using di by (intro sum.cong) (auto simp: nth_list_update)
    also have "\<dots> = (\<Sum>u<length edges. count_list (edges ! u) v) + (if v = node then 1 else 0)"
      using di by (simp add: sum.distrib)
    finally show ?thesis .
  qed
  with assms show ?thesis
    by (auto simp: balanced_def nth_list_update)
qed

lemma dep_loop_Inr:
  assumes "dep_loop idx node name xs (edges, ds) = Inr (edges', ds')"
    and "balanced edges ds" and "node < length edges"
    and idx: "\<And>x w. idx x = Some w \<Longrightarrow> w < length edges"
  shows "balanced edges' ds' \<and> length edges' = length edges
    \<and> (\<forall>x\<in>set xs. idx x \<noteq> None \<and> idx x \<noteq> Some node)
    \<and> (\<forall>u<length edges. set (edges' ! u)
        = set (edges ! u) \<union> (if \<exists>x\<in>set xs. idx x = Some u then {node} else {}))"
  using assms(1-3) idx
proof (induction xs arbitrary: edges ds)
  case (Cons x xs)
  from Cons.prems(1) obtain di where di: "idx x = Some di" "di \<noteq> node"
    and rest: "dep_loop idx node name xs (edges[di := edges ! di @ [node]],
      ds[node := Suc (ds ! node)]) = Inr (edges', ds')"
    by (auto split: option.splits if_splits)
  from Cons.prems(4) di(1) have dilen: "di < length edges" by blast
  have "balanced edges' ds' \<and> length edges' = length (edges[di := edges ! di @ [node]])
    \<and> (\<forall>x\<in>set xs. idx x \<noteq> None \<and> idx x \<noteq> Some node)
    \<and> (\<forall>u<length (edges[di := edges ! di @ [node]]). set (edges' ! u)
        = set (edges[di := edges ! di @ [node]] ! u)
          \<union> (if \<exists>x\<in>set xs. idx x = Some u then {node} else {}))"
    by (rule Cons.IH [OF rest])
      (use balanced_step [OF Cons.prems(2) dilen Cons.prems(3)] Cons.prems(3,4) in auto)
  with di dilen show ?case
    by (auto simp: nth_list_update)
qed auto

lemma graph_loop_Inr:
  assumes "graph_loop idx i ps s = Inr (edges', ds')" and "s = (edges, ds)"
    and "balanced edges ds" and "i + length ps \<le> length edges"
    and idx: "\<And>x w. idx x = Some w \<Longrightarrow> w < length edges"
  shows "balanced edges' ds' \<and> length edges' = length edges
    \<and> (\<forall>j<length ps. \<forall>x\<in>set (prov_deps (ps ! j)). idx x \<noteq> None \<and> idx x \<noteq> Some (i + j))
    \<and> (\<forall>u<length edges. set (edges' ! u) = set (edges ! u)
        \<union> {i + j | j. j < length ps \<and> (\<exists>x\<in>set (prov_deps (ps ! j)). idx x = Some u)})"
  using assms(1-4) idx
proof (induction ps arbitrary: i s edges ds)
  case (Cons p ps)
  from Cons.prems(1,2) obtain e1 d1
    where first: "dep_loop idx i (prov_name p) (prov_deps p) (edges, ds) = Inr (e1, d1)"
      and rest: "graph_loop idx (Suc i) ps (e1, d1) = Inr (edges', ds')"
    by (auto split: sum.splits)
  have i: "i < length edges" using Cons.prems(4) by simp
  note one = dep_loop_Inr [OF first Cons.prems(3) i Cons.prems(5)]
  have two: "balanced edges' ds' \<and> length edges' = length e1
    \<and> (\<forall>j<length ps. \<forall>x\<in>set (prov_deps (ps ! j)). idx x \<noteq> None \<and> idx x \<noteq> Some (Suc i + j))
    \<and> (\<forall>u<length e1. set (edges' ! u) = set (e1 ! u)
        \<union> {Suc i + j | j. j < length ps \<and> (\<exists>x\<in>set (prov_deps (ps ! j)). idx x = Some u)})"
    by (rule Cons.IH [OF rest refl]) (use one Cons.prems(4,5) in auto)
  have len: "length edges' = length edges" using one two by simp
  have known: "\<forall>j<length (p # ps). \<forall>x\<in>set (prov_deps ((p # ps) ! j)).
      idx x \<noteq> None \<and> idx x \<noteq> Some (i + j)"
  proof (intro allI impI)
    fix j assume "j < length (p # ps)"
    then show "\<forall>x\<in>set (prov_deps ((p # ps) ! j)). idx x \<noteq> None \<and> idx x \<noteq> Some (i + j)"
      using one two by (cases j) auto
  qed
  have "set (edges' ! u) = set (edges ! u)
      \<union> {i + j | j. j < length (p # ps) \<and> (\<exists>x\<in>set (prov_deps ((p # ps) ! j)). idx x = Some u)}"
    if u: "u < length edges" for u
  proof -
    have "{i + j | j. j < length (p # ps) \<and> (\<exists>x\<in>set (prov_deps ((p # ps) ! j)). idx x = Some u)}
      = (if \<exists>x\<in>set (prov_deps p). idx x = Some u then {i} else {})
        \<union> {Suc i + j | j. j < length ps \<and> (\<exists>x\<in>set (prov_deps (ps ! j)). idx x = Some u)}"
      (is "?L = ?R")
    proof (rule set_eqI)
      fix y
      have "y \<in> ?L \<longleftrightarrow> (\<exists>j. y = i + j \<and> j < Suc (length ps)
          \<and> (\<exists>x\<in>set (prov_deps ((p # ps) ! j)). idx x = Some u))" by auto
      also have "\<dots> \<longleftrightarrow> (y = i \<and> (\<exists>x\<in>set (prov_deps p). idx x = Some u))
          \<or> (\<exists>j. y = Suc i + j \<and> j < length ps
              \<and> (\<exists>x\<in>set (prov_deps (ps ! j)). idx x = Some u))"
        by (subst ex_nat_Suc_iff) auto
      also have "\<dots> \<longleftrightarrow> y \<in> ?R" by auto
      finally show "y \<in> ?L \<longleftrightarrow> y \<in> ?R" .
    qed
    with one two u show ?thesis by auto
  qed
  with two len known show ?case by blast
qed auto


section \<open>Kahn's loop\<close>

definition preds :: "nat list list \<Rightarrow> nat \<Rightarrow> nat set" where
  "preds edges v = {u. u < length edges \<and> v \<in> set (edges ! u)}"

definition remaining :: "nat list list \<Rightarrow> nat set \<Rightarrow> nat \<Rightarrow> nat" where
  "remaining edges D v = (\<Sum>u\<in>{..<length edges} - D. count_list (edges ! u) v)"

definition graph_wf :: "nat list list \<Rightarrow> bool" where
  "graph_wf edges \<longleftrightarrow> (\<forall>u<length edges. set (edges ! u) \<subseteq> {..<length edges})"

lemma remaining_0_iff: "remaining edges D v = 0 \<longleftrightarrow> preds edges v \<subseteq> D"
  by (simp add: remaining_def preds_def count_list_0_iff) blast

lemma remaining_insert:
  assumes "v \<notin> D" and "v < length edges"
  shows "remaining edges D w = remaining edges (insert v D) w + count_list (edges ! v) w"
proof -
  have "remaining edges D w
      = (\<Sum>u\<in>insert v ({..<length edges} - insert v D). count_list (edges ! u) w)"
    unfolding remaining_def using assms by (intro sum.cong) auto
  then show ?thesis by (simp add: remaining_def)
qed

text \<open>
  The order emitted so far: every node comes after all its predecessors, and at each step
  the node emitted is the least one whose predecessors have all been emitted.
\<close>

definition least_topo :: "nat list list \<Rightarrow> nat list \<Rightarrow> bool" where
  "least_topo edges order \<longleftrightarrow>
     (\<forall>i<length order. preds edges (order ! i) \<subseteq> set (take i order)
       \<and> (\<forall>w<length edges. w \<notin> set (take i order) \<and> preds edges w \<subseteq> set (take i order)
            \<longrightarrow> order ! i \<le> w))"

definition kahn_inv :: "nat list list \<Rightarrow> nat set \<Rightarrow> nat list \<Rightarrow> nat list \<Rightarrow> nat list \<Rightarrow> bool" where
  "kahn_inv edges D xs ready ds \<longleftrightarrow>
     length ds = length edges \<and> distinct ready \<and> D \<inter> set ready = {}
     \<and> set ready \<subseteq> {..<length edges} \<and> sorted ready \<and> set xs \<subseteq> {..<length edges}
     \<and> (\<forall>w<length edges. ds ! w = remaining edges D w + count_list xs w)
     \<and> (\<forall>w<length edges. ds ! w = 0 \<longleftrightarrow> w \<in> D \<union> set ready)"

lemma relax_inv:
  "kahn_inv edges D xs ready ds \<Longrightarrow>
   \<exists>ds' ready'. relax xs ds ready = Some (ds', ready') \<and> kahn_inv edges D [] ready' ds'"
proof (induction xs arbitrary: ready ds)
  case Nil
  then show ?case by auto
next
  case (Cons x xs)
  let ?ds = "ds[x := ds ! x - 1]"
  let ?ready = "if ?ds ! x = 0 then insort x ready else ready"
  from Cons.prems have x: "x < length edges" "length ds = length edges"
    and cnt: "\<And>w. w < length edges \<Longrightarrow> ds ! w = remaining edges D w + count_list (x # xs) w"
    and zero: "\<And>w. w < length edges \<Longrightarrow> ds ! w = 0 \<longleftrightarrow> w \<in> D \<union> set ready"
    by (auto simp: kahn_inv_def)
  have pos: "0 < ds ! x" using cnt [OF x(1)] by simp
  with zero [OF x(1)] have fresh: "x \<notin> D" "x \<notin> set ready" by auto
  have cnt': "?ds ! w = remaining edges D w + count_list xs w" if "w < length edges" for w
    using cnt [OF that] x by (auto simp: nth_list_update)
  have zero': "?ds ! w = 0 \<longleftrightarrow> w \<in> D \<union> set ?ready" if "w < length edges" for w
    using zero [OF that] x fresh by (auto simp: nth_list_update set_insort_key)
  have "kahn_inv edges D xs ?ready ?ds"
    using Cons.prems x fresh cnt' zero'
    by (auto simp: kahn_inv_def distinct_insort set_insort_key sorted_insort)
  from Cons.IH [OF this] pos x show ?case
    by (simp add: Let_def)
qed

lemma kahn_step_inv:
  assumes "graph_wf edges" and inv: "kahn_inv edges (set order) [] (v # ready) ds"
  shows "v < length edges \<and> kahn_inv edges (set (order @ [v])) (edges ! v) ready ds"
proof -
  from inv have v: "v < length edges" "v \<notin> set order" "v \<notin> set ready" by (auto simp: kahn_inv_def)
  with assms remaining_insert [OF v(2,1)] show ?thesis
    by (auto simp: kahn_inv_def graph_wf_def)
qed

lemma least_topo_snoc:
  assumes "least_topo edges order" and inv: "kahn_inv edges (set order) [] (v # ready) ds"
  shows "least_topo edges (order @ [v])"
proof -
  have zero: "w \<in> set order \<union> set (v # ready) \<longleftrightarrow> preds edges w \<subseteq> set order"
    if "w < length edges" for w
  proof -
    have "ds ! w = remaining edges (set order) w"
      using inv that by (simp add: kahn_inv_def)
    moreover have "ds ! w = 0 \<longleftrightarrow> w \<in> set order \<union> set (v # ready)"
      using inv that unfolding kahn_inv_def by blast
    ultimately show ?thesis by (metis remaining_0_iff)
  qed
  from inv have v: "v < length edges" and sorted: "sorted (v # ready)"
    by (auto simp: kahn_inv_def)
  have "preds edges v \<subseteq> set order" using zero [OF v] by simp
  moreover have "v \<le> w" if "w < length edges" "w \<notin> set order" "preds edges w \<subseteq> set order" for w
    using zero [OF that(1)] that sorted by auto
  ultimately show ?thesis
    using assms(1) unfolding least_topo_def
    by (auto simp: nth_append less_Suc_eq)
qed

lemma kahn_correct:
  assumes "graph_wf edges" and "kahn_inv edges (set order) [] ready ds"
    and "distinct order" and "least_topo edges order"
  shows "\<exists>order' ds'. kahn edges ready ds order = Some (order', ds')
    \<and> kahn_inv edges (set order') [] [] ds' \<and> distinct order' \<and> least_topo edges order'
    \<and> (set order \<subseteq> {..<length edges} \<longrightarrow> set order' \<subseteq> {..<length edges})"
  using assms
proof (induction edges ready ds order rule: kahn.induct)
  case (2 edges v ready ds order)
  note step = kahn_step_inv [OF "2.prems"(1,2)]
  from relax_inv [OF conjunct2 [OF step]] obtain ds1 ready1
    where r: "relax (edges ! v) ds ready = Some (ds1, ready1)"
      and inv1: "kahn_inv edges (set (order @ [v])) [] ready1 ds1" by blast
  have fresh: "v \<notin> set order" using "2.prems"(2) by (auto simp: kahn_inv_def)
  have "\<exists>order' ds'. kahn edges ready1 ds1 (order @ [v]) = Some (order', ds')
    \<and> kahn_inv edges (set order') [] [] ds' \<and> distinct order' \<and> least_topo edges order'
    \<and> (set (order @ [v]) \<subseteq> {..<length edges} \<longrightarrow> set order' \<subseteq> {..<length edges})"
    using "2.IH" [OF _ r refl "2.prems"(1) inv1]
      least_topo_snoc [OF "2.prems"(4,2)] "2.prems"(3) step fresh by simp
  with r step show ?case by auto
qed auto

lemma kahn_inv_start:
  assumes "balanced edges ds"
  shows "kahn_inv edges {} [] (filter (\<lambda>v. ds ! v = 0) [0..<length edges]) ds"
  using assms
  by (auto simp: kahn_inv_def balanced_def remaining_def sorted_filter intro!: sorted_filter [of id, simplified])

section \<open>The graph the loop runs on\<close>

lemma build_graph_Inr:
  assumes "build_graph ps = Inr (edges, ds)"
  shows "length edges = length ps" and "balanced edges ds" and "graph_wf edges"
    and "\<And>v. preds edges v = {u. dep_edge ps u v}"
    and "\<And>p x. p < length ps \<Longrightarrow> x \<in> set (prov_deps (ps ! p)) \<Longrightarrow>
      provider_index ps x \<noteq> None \<and> provider_index ps x \<noteq> Some p"
proof -
  let ?n = "length ps"
  have bal: "balanced (replicate ?n ([] :: nat list)) (replicate ?n 0)"
    by (simp add: balanced_def)
  have all: "balanced edges ds \<and> length edges = length (replicate ?n ([] :: nat list))
    \<and> (\<forall>j<?n. \<forall>x\<in>set (prov_deps (ps ! j)).
        provider_index ps x \<noteq> None \<and> provider_index ps x \<noteq> Some (0 + j))
    \<and> (\<forall>u<length (replicate ?n ([] :: nat list)). set (edges ! u) = set (replicate ?n ([] :: nat list) ! u)
        \<union> {0 + j | j. j < ?n \<and> (\<exists>x\<in>set (prov_deps (ps ! j)). provider_index ps x = Some u)})"
    by (rule graph_loop_Inr [OF assms [unfolded build_graph_def] refl bal])
      (auto dest: provider_index_bound)
  then show len: "length edges = ?n" and "balanced edges ds" by auto
  from all have set_edges: "u < ?n \<Longrightarrow> set (edges ! u) = {v. dep_edge ps u v}" for u
    by (auto simp: dep_edge_def)
  with len show "graph_wf edges"
    by (auto simp: graph_wf_def dest: dep_edge_bound)
  from len set_edges show "preds edges v = {u. dep_edge ps u v}" for v
    by (auto simp: preds_def dest: dep_edge_bound)
  from all show "provider_index ps x \<noteq> None \<and> provider_index ps x \<noteq> Some p"
    if "p < ?n" "x \<in> set (prov_deps (ps ! p))" for p x
    using that by auto
qed

end
