(* ===== verification/Boot_Cycle.thy ===== *)
theory Boot_Cycle
  imports Boot_Order
begin

text \<open>
  The diagnostic search for a dependency cycle: the depth-first search of
  \<^verbatim>\<open>find_cycle\<close> returns a cycle of the graph whenever it returns one, and finds one
  whenever Kahn's loop left providers unordered. The invariant keeps a rank that decreases
  along every edge out of a finished node, so that a graph whose nodes are all finished has
  no cycle.
\<close>

definition is_cycle :: "nat list list \<Rightarrow> nat list \<Rightarrow> bool" where
  "is_cycle edges c \<longleftrightarrow> c \<noteq> [] \<and> distinct c \<and> set c \<subseteq> {..<length edges}
     \<and> (\<forall>i. Suc i < length c \<longrightarrow> c ! Suc i \<in> set (edges ! (c ! i)))
     \<and> hd c \<in> set (edges ! last c)"

definition dfs_inv :: "nat list list \<Rightarrow> bool list \<Rightarrow> dfs \<Rightarrow> bool" where
  "dfs_inv edges res st \<longleftrightarrow>
     length (dfs_on_path st) = length edges \<and> length (dfs_done st) = length edges
     \<and> distinct (dfs_path st) \<and> set (dfs_path st) \<subseteq> {..<length edges}
     \<and> (\<forall>v<length edges. dfs_on_path st ! v \<longleftrightarrow> v \<in> set (dfs_path st))
     \<and> (\<forall>v\<in>set (dfs_path st). \<not> dfs_done st ! v)
     \<and> (\<forall>i. Suc i < length (dfs_path st)
          \<longrightarrow> dfs_path st ! Suc i \<in> set (edges ! (dfs_path st ! i)))
     \<and> (\<forall>v<length edges. dfs_done st ! v
          \<longrightarrow> (\<forall>w\<in>set (edges ! v). res ! w \<longrightarrow> dfs_done st ! w))
     \<and> (\<exists>f :: nat \<Rightarrow> nat. \<forall>v<length edges. dfs_done st ! v
          \<longrightarrow> (\<forall>w\<in>set (edges ! v). res ! w \<longrightarrow> f w < f v))"

lemma position_in: "x \<in> set p \<Longrightarrow> \<exists>b<length p. position_of (\<lambda>y. y = x) p = Some b \<and> p ! b = x"
  by (induction p) auto

lemma dfs_inv_path_length:
  assumes "dfs_inv edges res st" and "v < length edges" and "v \<notin> set (dfs_path st)"
  shows "length (dfs_path st) < length edges"
proof -
  have "set (dfs_path st) \<subseteq> {..<length edges}"
    using assms(1) by (simp add: dfs_inv_def)
  with assms(2,3) have "set (dfs_path st) \<subset> {..<length edges}" by auto
  then have "card (set (dfs_path st)) < card {..<length edges}"
    by (rule psubset_card_mono [rotated]) simp
  moreover have "card (set (dfs_path st)) = length (dfs_path st)"
    using assms(1) by (simp add: dfs_inv_def distinct_card)
  ultimately show ?thesis by simp
qed

lemma dfs_inv_push:
  assumes "dfs_inv edges res st" and "v < length edges" and "v \<notin> set (dfs_path st)"
    and "\<not> dfs_done st ! v" and "dfs_path st = [] \<or> v \<in> set (edges ! last (dfs_path st))"
  shows "dfs_inv edges res (st\<lparr>dfs_path := dfs_path st @ [v],
    dfs_on_path := (dfs_on_path st)[v := True]\<rparr>)"
proof -
  have "(dfs_path st @ [v]) ! Suc i \<in> set (edges ! ((dfs_path st @ [v]) ! i))"
    if "Suc i < length (dfs_path st @ [v])" for i
  proof (cases "Suc i < length (dfs_path st)")
    case True
    with assms(1) show ?thesis by (simp add: dfs_inv_def nth_append)
  next
    case False
    with that have "Suc i = length (dfs_path st)" by simp
    moreover from this have "dfs_path st \<noteq> []" by auto
    ultimately have "dfs_path st \<noteq> []" and "last (dfs_path st) = dfs_path st ! i"
      by (simp_all add: last_conv_nth flip: \<open>Suc i = length (dfs_path st)\<close>)
    with assms(5) \<open>Suc i = length (dfs_path st)\<close> show ?thesis
      by (simp add: nth_append)
  qed
  with assms show ?thesis
    unfolding dfs_inv_def by (simp add: nth_list_update)
qed

lemma dfs_inv_finish:
  assumes wf: "graph_wf edges" and inv: "dfs_inv edges res st" and path: "dfs_path st = p @ [v]"
    and succ: "\<forall>w\<in>set (edges ! v). res ! w \<longrightarrow> dfs_done st ! w"
  shows "dfs_inv edges res (st\<lparr>dfs_path := p, dfs_on_path := (dfs_on_path st)[v := False],
    dfs_done := (dfs_done st)[v := True]\<rparr>)"
proof -
  let ?done = "(dfs_done st)[v := True]"
  from inv path have v: "v < length edges" "\<not> dfs_done st ! v" "v \<notin> set p"
    and len: "length (dfs_on_path st) = length edges" "length (dfs_done st) = length edges"
    by (auto simp: dfs_inv_def)
  from inv obtain f :: "nat \<Rightarrow> nat" where "\<forall>u<length edges. dfs_done st ! u
      \<longrightarrow> (\<forall>w\<in>set (edges ! u). res ! w \<longrightarrow> f w < f u)"
    unfolding dfs_inv_def by blast
  then have f:
    "\<And>u w. u < length edges \<Longrightarrow> dfs_done st ! u \<Longrightarrow> w \<in> set (edges ! u) \<Longrightarrow> res ! w \<Longrightarrow> f w < f u"
    by blast
  from inv have closed:
    "\<And>u w. u < length edges \<Longrightarrow> dfs_done st ! u \<Longrightarrow> w \<in> set (edges ! u) \<Longrightarrow> res ! w \<Longrightarrow> dfs_done st ! w"
    by (auto simp: dfs_inv_def)
  let ?f = "f(v := Suc (\<Sum>w<length edges. f w))"
  have "?f w < ?f u"
    if "u < length edges" "?done ! u" "w \<in> set (edges ! u)" "res ! w" for u w
  proof (cases "u = v")
    case True
    with that succ v have "w \<noteq> v" by auto
    have "w < length edges" using wf that True v by (auto simp: graph_wf_def)
    then have "f w \<le> (\<Sum>w<length edges. f w)" by (intro member_le_sum) auto
    with True \<open>w \<noteq> v\<close> show ?thesis by simp
  next
    case False
    with that len have "dfs_done st ! u" by (simp add: nth_list_update)
    with that closed have "dfs_done st ! w" by blast
    with v have "w \<noteq> v" by auto
    with False f that \<open>dfs_done st ! u\<close> show ?thesis by simp
  qed
  then have rank: "\<exists>f :: nat \<Rightarrow> nat. \<forall>u<length edges. ?done ! u
      \<longrightarrow> (\<forall>w\<in>set (edges ! u). res ! w \<longrightarrow> f w < f u)" by blast
  have closed': "?done ! w"
    if "u < length edges" "?done ! u" "w \<in> set (edges ! u)" "res ! w" for u w
  proof (cases "u = v")
    case True
    with that succ len show ?thesis by (cases "w = v") (auto simp: nth_list_update v)
  next
    case False
    with that len have "dfs_done st ! u" by (simp add: nth_list_update)
    with that closed have "dfs_done st ! w" by blast
    then show ?thesis by (cases "w = v") (simp_all add: len v)
  qed
  have edge: "p ! Suc i \<in> set (edges ! (p ! i))" if "Suc i < length p" for i
  proof -
    have "(p @ [v]) ! Suc i \<in> set (edges ! ((p @ [v]) ! i))"
      using inv path that by (simp add: dfs_inv_def)
    with that show ?thesis by (simp add: nth_append)
  qed
  have onp: "(dfs_on_path st)[v := False] ! u \<longleftrightarrow> u \<in> set p" if "u < length edges" for u
  proof -
    have "dfs_on_path st ! u \<longleftrightarrow> u \<in> set (p @ [v])"
      using inv path that unfolding dfs_inv_def by metis
    with v len that show ?thesis by (auto simp: nth_list_update)
  qed
  have nd: "\<not> ?done ! u" if "u \<in> set p" for u
  proof -
    have "\<not> dfs_done st ! u"
      using inv path that unfolding dfs_inv_def by simp
    with v len that show ?thesis by (auto simp: nth_list_update)
  qed
  have "distinct p" "set p \<subseteq> {..<length edges}"
    using inv path by (auto simp: dfs_inv_def)
  with rank closed' edge onp nd len show ?thesis
    unfolding dfs_inv_def by simp
qed

lemma on_path_cycle:
  assumes inv: "dfs_inv edges res st" and path: "dfs_path st = p @ [v]"
    and b: "b < length (dfs_path st)" and x: "dfs_path st ! b \<in> set (edges ! v)"
  shows "is_cycle edges (drop b (dfs_path st))"
proof -
  let ?c = "drop b (dfs_path st)"
  have "?c ! Suc i \<in> set (edges ! (?c ! i))" if "Suc i < length ?c" for i
    using inv that b by (simp add: dfs_inv_def)
  moreover have "hd ?c = dfs_path st ! b"
    using b by (simp add: hd_drop_conv_nth)
  moreover have "last ?c = v"
    using b path by simp
  moreover have "distinct ?c" "set ?c \<subseteq> {..<length edges}"
    using inv by (auto simp: dfs_inv_def dest: in_set_dropD)
  ultimately show ?thesis
    using b x by (simp add: is_cycle_def)
qed

text \<open>What a search leaves behind when it finds no cycle.\<close>

definition dfs_progress :: "nat list list \<Rightarrow> bool list \<Rightarrow> dfs \<Rightarrow> dfs \<Rightarrow> bool" where
  "dfs_progress edges res st st' \<longleftrightarrow> dfs_inv edges res st' \<and> dfs_path st' = dfs_path st
     \<and> (\<forall>v<length edges. dfs_done st ! v \<longrightarrow> dfs_done st' ! v)"

definition find_spec :: "nat list list \<Rightarrow> bool list \<Rightarrow> nat \<Rightarrow> bool" where
  "find_spec edges res fuel \<longleftrightarrow>
     (\<forall>v st. dfs_inv edges res st \<and> v < length edges \<and> v \<notin> set (dfs_path st)
        \<and> \<not> dfs_done st ! v \<and> (dfs_path st = [] \<or> v \<in> set (edges ! last (dfs_path st)))
        \<and> length edges - length (dfs_path st) \<le> fuel
      \<longrightarrow> (\<exists>st'. (\<exists>c. find_cycle edges res fuel v st = Some (Some c, st') \<and> is_cycle edges c)
           \<or> (find_cycle edges res fuel v st = Some (None, st')
               \<and> dfs_progress edges res st st' \<and> dfs_done st' ! v)))"

lemma scan_spec:
  assumes "graph_wf edges" and find: "find_spec edges res fuel"
  shows "dfs_inv edges res st \<Longrightarrow> dfs_path st = p @ [v] \<Longrightarrow> set xs \<subseteq> set (edges ! v) \<Longrightarrow>
    length edges - length (dfs_path st) \<le> fuel \<Longrightarrow>
    \<exists>st'. (\<exists>c. scan_edges edges res fuel xs st = Returned (Some c) st' \<and> is_cycle edges c)
      \<or> (scan_edges edges res fuel xs st = Exhausted st' \<and> dfs_progress edges res st st'
          \<and> (\<forall>w\<in>set xs. res ! w \<longrightarrow> dfs_done st' ! w))"
proof (induction xs arbitrary: st)
  case Nil
  then show ?case by (auto simp: dfs_progress_def)
next
  case (Cons x xs)
  from Cons.prems have v: "v < length edges" by (auto simp: dfs_inv_def)
  with Cons.prems assms(1) have x: "x < length edges" by (auto simp: graph_wf_def)
  consider (skip) "\<not> res ! x \<or> dfs_done st ! x"
    | (cycle) "res ! x" "\<not> dfs_done st ! x" "dfs_on_path st ! x"
    | (down) "res ! x" "\<not> dfs_done st ! x" "\<not> dfs_on_path st ! x" by blast
  then show ?case
  proof cases
    case skip
    from Cons.IH [OF Cons.prems(1,2) _ Cons.prems(4)] Cons.prems(3) skip x show ?thesis
      by (fastforce simp: dfs_progress_def)
  next
    case cycle
    then have "x \<in> set (dfs_path st)" using Cons.prems(1) x by (simp add: dfs_inv_def)
    then obtain b where b: "b < length (dfs_path st)" "position_of (\<lambda>y. y = x) (dfs_path st) = Some b"
      "dfs_path st ! b = x" using position_in [of x "dfs_path st"] by auto
    moreover have "is_cycle edges (drop b (dfs_path st))"
      using on_path_cycle [OF Cons.prems(1,2) b(1)] b(3) Cons.prems(3) by simp
    ultimately show ?thesis using cycle by simp
  next
    case down
    then have "x \<notin> set (dfs_path st)" using Cons.prems(1) x by (simp add: dfs_inv_def)
    moreover have "x \<in> set (edges ! last (dfs_path st))" using Cons.prems(2,3) by simp
    ultimately obtain st1 where st1:
      "(\<exists>c. find_cycle edges res fuel x st = Some (Some c, st1) \<and> is_cycle edges c)
       \<or> (find_cycle edges res fuel x st = Some (None, st1)
           \<and> dfs_progress edges res st st1 \<and> dfs_done st1 ! x)"
      using find Cons.prems(1,4) x down(2) unfolding find_spec_def by metis
    then consider (found) c where "find_cycle edges res fuel x st = Some (Some c, st1)"
        "is_cycle edges c"
      | (none) "find_cycle edges res fuel x st = Some (None, st1)"
        "dfs_progress edges res st st1" "dfs_done st1 ! x" by blast
    then show ?thesis
    proof cases
      case found
      with down show ?thesis by auto
    next
      case none
      have "\<exists>st'. (\<exists>c. scan_edges edges res fuel xs st1 = Returned (Some c) st' \<and> is_cycle edges c)
        \<or> (scan_edges edges res fuel xs st1 = Exhausted st' \<and> dfs_progress edges res st1 st'
          \<and> (\<forall>w\<in>set xs. res ! w \<longrightarrow> dfs_done st' ! w))"
        using none(2) Cons.prems by (intro Cons.IH) (auto simp: dfs_progress_def)
      with none down x show ?thesis by (auto simp: dfs_progress_def)
    qed
  qed
qed

lemma find_spec_all: "graph_wf edges \<Longrightarrow> find_spec edges res fuel"
proof (induction fuel)
  case 0
  then show ?case
    using dfs_inv_path_length by (fastforce simp: find_spec_def)
next
  case (Suc fuel)
  show ?case
    unfolding find_spec_def
  proof (intro allI impI, elim conjE)
    fix v st
    assume inv: "dfs_inv edges res st" and v: "v < length edges" "v \<notin> set (dfs_path st)"
      "\<not> dfs_done st ! v" and step: "dfs_path st = [] \<or> v \<in> set (edges ! last (dfs_path st))"
      and fuel: "length edges - length (dfs_path st) \<le> Suc fuel"
    let ?st = "st\<lparr>dfs_path := dfs_path st @ [v], dfs_on_path := (dfs_on_path st)[v := True]\<rparr>"
    have "\<exists>st1.
      (\<exists>c. scan_edges edges res fuel (edges ! v) ?st = Returned (Some c) st1 \<and> is_cycle edges c)
       \<or> (scan_edges edges res fuel (edges ! v) ?st = Exhausted st1
          \<and> dfs_progress edges res ?st st1 \<and> (\<forall>w\<in>set (edges ! v). res ! w \<longrightarrow> dfs_done st1 ! w))"
      by (rule scan_spec [OF Suc.prems Suc.IH [OF Suc.prems] dfs_inv_push [OF inv v step],
            of "dfs_path st"]) (use fuel in auto)
    then consider (found) c st1 where
        "scan_edges edges res fuel (edges ! v) ?st = Returned (Some c) st1" "is_cycle edges c"
      | (none) st1 where "scan_edges edges res fuel (edges ! v) ?st = Exhausted st1"
        "dfs_progress edges res ?st st1" "\<forall>w\<in>set (edges ! v). res ! w \<longrightarrow> dfs_done st1 ! w"
      by blast
    then show "\<exists>st'. (\<exists>c. find_cycle edges res (Suc fuel) v st = Some (Some c, st') \<and> is_cycle edges c)
        \<or> (find_cycle edges res (Suc fuel) v st = Some (None, st')
            \<and> dfs_progress edges res st st' \<and> dfs_done st' ! v)"
    proof cases
      case found
      then show ?thesis by auto
    next
      case none
      let ?fin = "st1\<lparr>dfs_path := dfs_path st, dfs_on_path := (dfs_on_path st1)[v := False],
        dfs_done := (dfs_done st1)[v := True]\<rparr>"
      have path: "dfs_path st1 = dfs_path st @ [v]" and inv1: "dfs_inv edges res st1"
        using none(2) by (simp_all add: dfs_progress_def)
      have "dfs_inv edges res ?fin"
        by (rule dfs_inv_finish [OF Suc.prems inv1 path none(3)])
      moreover have "find_cycle edges res (Suc fuel) v st = Some (None, ?fin)"
        using none(1) path by simp
      moreover have "\<forall>u<length edges. dfs_done st ! u \<longrightarrow> dfs_done ?fin ! u"
        using none(2) inv1 by (auto simp: dfs_progress_def dfs_inv_def nth_list_update)
      moreover have "dfs_done ?fin ! v"
        using inv1 v by (simp add: dfs_inv_def)
      ultimately show ?thesis by (auto simp: dfs_progress_def)
    qed
  qed
qed


section \<open>A failed order has a cycle\<close>

lemma scan_skip:
  "\<forall>w\<in>set xs. res ! w \<longrightarrow> dfs_done st ! w \<Longrightarrow> scan_edges edges res fuel xs st = Exhausted st"
  by (induction xs) auto

lemma find_cycle_done:
  assumes inv: "dfs_inv edges res st" and path: "dfs_path st = []"
    and v: "v < length edges" "dfs_done st ! v" and fuel: "0 < fuel"
  shows "find_cycle edges res fuel v st = Some (None, st)"
proof -
  let ?st = "st\<lparr>dfs_path := dfs_path st @ [v], dfs_on_path := (dfs_on_path st)[v := True]\<rparr>"
  have "\<forall>w\<in>set (edges ! v). res ! w \<longrightarrow> dfs_done ?st ! w"
    using inv v by (simp add: dfs_inv_def)
  then have scan: "scan_edges edges res f (edges ! v) ?st = Exhausted ?st" for f
    by (rule scan_skip)
  have "(dfs_on_path st)[v := False] = dfs_on_path st"
    using inv path v by (simp add: dfs_inv_def list_update_same_conv)
  moreover have "(dfs_done st)[v := True] = dfs_done st"
    using inv v by (simp add: dfs_inv_def list_update_same_conv)
  ultimately show ?thesis
    using fuel scan path by (cases fuel) simp_all
qed

lemma cycle_roots_spec:
  assumes "graph_wf edges" and "length edges \<le> fuel"
  shows "dfs_inv edges res st \<Longrightarrow> dfs_path st = [] \<Longrightarrow> set vs \<subseteq> {..<length edges} \<Longrightarrow>
    (\<exists>c. cycle_roots edges res fuel vs st = Some (Some c) \<and> is_cycle edges c)
    \<or> (cycle_roots edges res fuel vs st = Some None
        \<and> (\<exists>st'. dfs_progress edges res st st' \<and> (\<forall>v\<in>set vs. res ! v \<longrightarrow> dfs_done st' ! v)))"
proof (induction vs arbitrary: st)
  case Nil
  then show ?case by (auto simp: dfs_progress_def)
next
  case (Cons v vs)
  have v: "v < length edges" using Cons.prems by simp
  consider (skip) "\<not> res ! v"
    | (found) c st1 where "res ! v" "find_cycle edges res fuel v st = Some (Some c, st1)"
      "is_cycle edges c"
    | (none) st1 where "res ! v" "find_cycle edges res fuel v st = Some (None, st1)"
      "dfs_progress edges res st st1" "dfs_done st1 ! v"
  proof (cases "dfs_done st ! v")
    case True
    have "0 < fuel" using v assms(2) by simp
    from find_cycle_done [OF Cons.prems(1,2) v True this] True Cons.prems that show ?thesis
      by (auto simp: dfs_progress_def)
  next
    case False
    have "length edges - length (dfs_path st) \<le> fuel" using assms(2) by simp
    with False Cons.prems v find_spec_all [OF assms(1), of res fuel] that show ?thesis
      unfolding find_spec_def by (metis empty_iff list.set(1))
  qed
  then show ?case
  proof cases
    case skip
    with Cons.IH [OF Cons.prems(1,2)] Cons.prems(3) show ?thesis by auto
  next
    case found
    then show ?thesis by simp
  next
    case none
    have "(\<exists>c. cycle_roots edges res fuel vs st1 = Some (Some c) \<and> is_cycle edges c)
      \<or> (cycle_roots edges res fuel vs st1 = Some None
        \<and> (\<exists>st'. dfs_progress edges res st1 st' \<and> (\<forall>v\<in>set vs. res ! v \<longrightarrow> dfs_done st' ! v)))"
      using none(3) Cons.prems by (intro Cons.IH) (auto simp: dfs_progress_def)
    with none v show ?thesis by (auto simp: dfs_progress_def)
  qed
qed

lemma all_done_no_residual:
  assumes inv: "dfs_inv edges res st"
    and finished: "\<And>v. v < length edges \<Longrightarrow> res ! v \<Longrightarrow> dfs_done st ! v"
    and pred: "\<And>v. v < length edges \<Longrightarrow> res ! v \<Longrightarrow> \<exists>u<length edges. res ! u \<and> v \<in> set (edges ! u)"
  shows "v < length edges \<Longrightarrow> \<not> res ! v"
proof
  assume v: "v < length edges" "res ! v"
  from inv obtain f :: "nat \<Rightarrow> nat" where f: "\<forall>u<length edges. dfs_done st ! u
      \<longrightarrow> (\<forall>w\<in>set (edges ! u). res ! w \<longrightarrow> f w < f u)"
    unfolding dfs_inv_def by blast
  let ?R = "{v. v < length edges \<and> res ! v}"
  have fin: "finite (f ` ?R)" "f ` ?R \<noteq> {}" using v by auto
  then obtain m where m: "m \<in> ?R" "f m = Max (f ` ?R)"
    using Max_in [OF fin] by (metis (no_types, lifting) imageE)
  from pred [of m] m(1) obtain u where u: "u < length edges" "res ! u" "m \<in> set (edges ! u)"
    by auto
  with f finished m(1) have "f m < f u" by auto
  moreover have "f u \<le> Max (f ` ?R)"
    using fin(1) u by (intro Max_ge) auto
  ultimately show False using m(2) by simp
qed

lemma cycle_roots_finds:
  assumes wf: "graph_wf edges" and len: "length res = length edges"
    and pred: "\<And>v. v < length edges \<Longrightarrow> res ! v \<Longrightarrow> \<exists>u<length edges. res ! u \<and> v \<in> set (edges ! u)"
    and some: "v < length edges" "res ! v"
  shows "\<exists>c. cycle_roots edges res (length edges) [0..<length edges]
      \<lparr>dfs_path = [], dfs_on_path = replicate (length edges) False,
       dfs_done = replicate (length edges) False\<rparr> = Some (Some c) \<and> is_cycle edges c"
proof -
  let ?st = "\<lparr>dfs_path = [], dfs_on_path = replicate (length edges) False,
    dfs_done = replicate (length edges) False\<rparr>"
  have init: "dfs_inv edges res ?st" by (simp add: dfs_inv_def)
  have False if "dfs_progress edges res ?st st'" "\<forall>v\<in>set [0..<length edges]. res ! v \<longrightarrow> dfs_done st' ! v"
    for st'
    using all_done_no_residual [of edges res st' v] that pred some by (auto simp: dfs_progress_def)
  moreover have "set [0..<length edges] \<subseteq> {..<length edges}" by auto
  ultimately show ?thesis
    using cycle_roots_spec [OF wf le_refl init, of "[0..<length edges]"] by (metis dfs.select_convs(1))
qed

end
