(* ===== verification/Boot_Props.thy ===== *)
theory Boot_Props
  imports Boot_Cycle
begin

text \<open>
  What the provider boot guarantees: the properties of \<^verbatim>\<open>topological_order\<close> and
  \<^verbatim>\<open>Application::boot\<close> over the dependency relation of the registered providers.
\<close>

section \<open>Cycles of the dependency relation\<close>

definition dep_cycle :: "'r provider list \<Rightarrow> nat list \<Rightarrow> bool" where
  "dep_cycle ps c \<longleftrightarrow> c \<noteq> []
     \<and> (\<forall>i. Suc i < length c \<longrightarrow> dep_edge ps (c ! i) (c ! Suc i))
     \<and> dep_edge ps (last c) (hd c)"

lemma dep_cycle_not_acyclic:
  assumes "dep_cycle ps c"
  shows "\<not> acyclic {(d, p). dep_edge ps d p}"
proof -
  let ?R = "{(d, p). dep_edge ps d p}"
  have "(c ! 0, c ! i) \<in> ?R\<^sup>*" if "i < length c" for i
    using that
  proof (induction i)
    case (Suc i)
    then have "(c ! i, c ! Suc i) \<in> ?R" using assms by (simp add: dep_cycle_def)
    with Suc show ?case by (meson Suc_lessD rtrancl.rtrancl_into_rtrancl)
  qed simp
  then have "(hd c, last c) \<in> ?R\<^sup>*"
    using assms by (simp add: dep_cycle_def hd_conv_nth last_conv_nth)
  moreover have "(last c, hd c) \<in> ?R" using assms by (simp add: dep_cycle_def)
  ultimately have "(last c, last c) \<in> ?R\<^sup>+" by (meson rtrancl_into_trancl2)
  then show ?thesis by (auto simp: acyclic_def)
qed

lemma is_cycle_dep_cycle:
  assumes "build_graph ps = Inr (edges, ds)" and "is_cycle edges c"
  shows "dep_cycle ps c"
proof -
  have edge: "dep_edge ps u v" if "u \<in> set c" "v \<in> set (edges ! u)" for u v
  proof -
    have "u \<in> preds edges v" using that assms(2) by (auto simp: is_cycle_def preds_def)
    then show ?thesis using build_graph_Inr(4) [OF assms(1)] by simp
  qed
  with assms(2) show ?thesis
    by (auto simp: is_cycle_def dep_cycle_def)
qed

section \<open>Errors of the graph construction\<close>

lemma dep_loop_Inl:
  "dep_loop idx node name xs s = Inl e \<Longrightarrow>
   (\<exists>x\<in>set xs. idx x = None \<and> e = UnknownDependency name x)
   \<or> (\<exists>x\<in>set xs. idx x = Some node \<and> e = DependencyCycle [name])"
  by (induction idx node name xs s rule: dep_loop.induct) (auto split: option.splits if_splits)

lemma graph_loop_Inl:
  "graph_loop idx i ps s = Inl e \<Longrightarrow>
   \<exists>j<length ps.
     (\<exists>x\<in>set (prov_deps (ps ! j)). idx x = None \<and> e = UnknownDependency (prov_name (ps ! j)) x)
     \<or> (\<exists>x\<in>set (prov_deps (ps ! j)). idx x = Some (i + j) \<and> e = DependencyCycle [prov_name (ps ! j)])"
proof (induction idx i ps s rule: graph_loop.induct)
  case (2 idx i p ps s)
  show ?case
  proof (cases "dep_loop idx i (prov_name p) (prov_deps p) s")
    case (Inl e')
    then show ?thesis using "2.prems" dep_loop_Inl [OF Inl] by (intro exI [of _ 0]) auto
  next
    case (Inr s')
    with "2.IH" [OF Inr] "2.prems" obtain j where "j < length ps"
      and "(\<exists>x\<in>set (prov_deps (ps ! j)). idx x = None \<and> e = UnknownDependency (prov_name (ps ! j)) x)
        \<or> (\<exists>x\<in>set (prov_deps (ps ! j)). idx x = Some (Suc i + j)
            \<and> e = DependencyCycle [prov_name (ps ! j)])" by auto
    then show ?thesis by (intro exI [of _ "Suc j"]) auto
  qed
qed simp

definition deps_known :: "'r provider list \<Rightarrow> bool" where
  "deps_known ps \<longleftrightarrow>
     (\<forall>p<length ps. \<forall>x\<in>set (prov_deps (ps ! p)). provider_index ps x \<noteq> None)"

lemma build_graph_Inl:
  assumes "build_graph ps = Inl e"
  shows "(\<exists>p<length ps. \<exists>x\<in>set (prov_deps (ps ! p)).
      provider_index ps x = None \<and> e = UnknownDependency (prov_name (ps ! p)) x)
    \<or> (\<exists>p. dep_cycle ps [p] \<and> e = DependencyCycle [prov_name (ps ! p)])"
  using graph_loop_Inl [OF assms [unfolded build_graph_def]]
  by (fastforce simp: dep_cycle_def dep_edge_def)

section \<open>The order\<close>

lemma topological_order_cases:
  obtains (graph) e where "build_graph ps = Inl e" "topological_order ps = Some (Inl e)"
  | (ok) edges ds order where "build_graph ps = Inr (edges, ds)"
      "topological_order ps = Some (Inr order)" "distinct order" "set order = {..<length ps}"
      "least_topo edges order"
  | (cycle) edges ds c where "build_graph ps = Inr (edges, ds)" "is_cycle edges c"
      "topological_order ps = Some (Inl (DependencyCycle (map (\<lambda>v. prov_name (ps ! v)) c)))"
proof (cases "build_graph ps")
  case (Inl e)
  then show ?thesis using graph by (simp add: topological_order_def)
next
  case (Inr g)
  obtain edges ds where g: "g = (edges, ds)" by (cases g)
  note bg = Inr [unfolded g]
  note wf = build_graph_Inr(3) [OF bg] and n = build_graph_Inr(1) [OF bg]
  let ?ready = "filter (\<lambda>v. ds ! v = 0) [0..<length ps]"
  have start: "kahn_inv edges (set []) [] ?ready ds"
    using kahn_inv_start [OF build_graph_Inr(2) [OF bg]] n by simp
  obtain order ds' where k: "kahn edges ?ready ds [] = Some (order, ds')"
      and inv: "kahn_inv edges (set order) [] [] ds'" and dist: "distinct order"
      and topo: "least_topo edges order" and sub: "set order \<subseteq> {..<length edges}"
    using kahn_correct [OF wf start] by (auto simp: least_topo_def)
  show ?thesis
  proof (cases "length order = length ps")
    case True
    then have "set order = {..<length ps}"
      using dist sub n by (intro card_subset_eq) (auto simp: distinct_card)
    moreover have "topological_order ps = Some (Inr order)"
      using bg k True by (simp add: topological_order_def)
    ultimately show ?thesis using ok bg dist topo by blast
  next
    case False
    let ?res = "map (\<lambda>d. 0 < d) ds'"
    have len: "length ds' = length edges" using inv by (simp add: kahn_inv_def)
    have res: "?res ! v \<longleftrightarrow> v \<notin> set order" if "v < length edges" for v
      using inv that len by (auto simp: kahn_inv_def)
    have pred: "\<exists>u<length edges. ?res ! u \<and> v \<in> set (edges ! u)"
      if "v < length edges" "?res ! v" for v
    proof -
      have "remaining edges (set order) v \<noteq> 0"
        using inv that len by (auto simp: kahn_inv_def)
      then obtain u where "u \<in> preds edges v" "u \<notin> set order"
        by (auto simp: remaining_0_iff)
      then show ?thesis using res by (auto simp: preds_def)
    qed
    have "set order \<noteq> {..<length edges}"
      using False dist n by (metis card_lessThan distinct_card)
    with sub obtain v where "v < length edges" "v \<notin> set order" by auto
    with res have "v < length edges" "?res ! v" by auto
    from cycle_roots_finds [OF wf _ pred this] len obtain c where
      c: "cycle_roots edges ?res (length edges) [0..<length edges]
        \<lparr>dfs_path = [], dfs_on_path = replicate (length edges) False,
         dfs_done = replicate (length edges) False\<rparr> = Some (Some c)" "is_cycle edges c" by auto
    have "topological_order ps = Some (Inl (DependencyCycle (map (\<lambda>v. prov_name (ps ! v)) c)))"
      using bg k False c(1) n by (simp add: topological_order_def cycle_names_def Let_def)
    then show ?thesis using cycle bg c(2) by blast
  qed
qed

lemma before_position:
  assumes "distinct order" and "set order = {..<n}" and "p < n" and "least_topo edges order"
    and "d \<in> preds edges p"
  shows "\<exists>i j. i < j \<and> j < length order \<and> order ! i = d \<and> order ! j = p"
proof -
  from assms(2,3) obtain j where j: "j < length order" "order ! j = p"
    by (metis in_set_conv_nth lessThan_iff)
  with assms(4,5) have "d \<in> set (take j order)" by (auto simp: least_topo_def)
  then obtain i where "i < j" "order ! i = d" by (auto simp: in_set_conv_nth)
  with j show ?thesis by blast
qed

lemma topological_order_Inr:
  assumes "topological_order ps = Some (Inr order)"
  shows "distinct order \<and> set order = {..<length ps} \<and>
    (\<forall>d p. dep_edge ps d p \<longrightarrow>
      (\<exists>i j. i < j \<and> j < length order \<and> order ! i = d \<and> order ! j = p))"
proof (cases rule: topological_order_cases [of ps])
  case (ok edges ds order')
  with assms have "order' = order" by simp
  moreover have "\<exists>i j. i < j \<and> j < length order' \<and> order' ! i = d \<and> order' ! j = p"
    if "dep_edge ps d p" for d p
    using before_position [OF ok(3,4) _ ok(5), of p d] that dep_edge_bound [OF that]
      build_graph_Inr(4) [OF ok(1)] by simp
  ultimately show ?thesis using ok by blast
qed (use assms in auto)


text \<open>
  C11. The order the application boots its providers in is a permutation of the registered
  providers in which every provider comes after each provider it depends on.
\<close>

theorem topological_order_sound:
  assumes "topological_order ps = Some (Inr order)"
  shows "distinct order \<and> set order = {..<length ps} \<and>
    (\<forall>d p. dep_edge ps d p \<longrightarrow>
      (\<exists>i j. i < j \<and> j < length order \<and> order ! i = d \<and> order ! j = p))"
  using assms by (rule topological_order_Inr)

text \<open>Two providers where the first registered depends on the second, and a third.\<close>

definition demo_providers :: "unit provider list" where
  "demo_providers =
     [\<lparr>prov_name = ''app::Http'', prov_deps = [''Db''], prov_hooks = ()\<rparr>,
      \<lparr>prov_name = ''app::Db'', prov_deps = [], prov_hooks = ()\<rparr>,
      \<lparr>prov_name = ''Log'', prov_deps = [], prov_hooks = ()\<rparr>]"

lemma demo_order: "topological_order demo_providers = Some (Inr [1, 0, 2])"
  by code_simp

lemma demo_edge: "dep_edge demo_providers 1 0"
  by code_simp

theorem topological_order_sound_witness:
  "topological_order demo_providers = Some (Inr [1, 0, 2]) \<and>
   (\<exists>i j. i < j \<and> j < length [1, 0, 2 :: nat] \<and> [1, 0, 2 :: nat] ! i = 1 \<and> [1, 0, 2 :: nat] ! j = 0)"
  using topological_order_sound [OF demo_order] demo_order demo_edge by blast

text \<open>
  Ties are broken by registration order: each provider the order emits is the one with
  the least registration index among those not emitted whose dependencies all have been.
\<close>

lemma topological_order_least:
  assumes "topological_order ps = Some (Inr order)" and "i < length ps"
    and "w < length ps" and "w \<notin> set (take i order)"
    and "{d. dep_edge ps d w} \<subseteq> set (take i order)"
  shows "order ! i \<le> w"
proof (cases rule: topological_order_cases [of ps])
  case (ok edges ds order')
  then have "order' = order" using assms(1) by simp
  moreover have "length order' = length ps"
    using ok(3,4) by (metis card_lessThan distinct_card)
  ultimately show ?thesis
    using ok(5) assms(2-5) build_graph_Inr(1,4) [OF ok(1)] by (simp add: least_topo_def)
qed (use assms in auto)

lemma topological_order_least_example:
  "topological_order demo_providers = Some (Inr [1, 0, 2]) \<and> [1, 0, 2 :: nat] ! 1 \<le> 2"
proof -
  have "[1, 0, 2 :: nat] ! 1 \<le> 2"
    by (rule topological_order_least [OF demo_order, of 1 2])
      (auto simp: demo_providers_def dep_edge_def nth_Cons split: nat.splits)
  then show ?thesis using demo_order by blast
qed

lemma position_nth:
  "distinct order \<Longrightarrow> i < length order \<Longrightarrow> position_of (\<lambda>y. y = order ! i) order = Some i"
proof (induction order arbitrary: i)
  case (Cons a order)
  then show ?case by (cases i) auto
qed simp

text \<open>
  C21. \<^verbatim>\<open>topological_order\<close> always returns, without an index or a counter underflow, and
  it returns an order exactly when every declared dependency names a registered provider and
  the dependency relation has no cycle.
\<close>

theorem topological_order_decides:
  "(\<exists>r. topological_order ps = Some r) \<and>
   ((\<exists>order. topological_order ps = Some (Inr order)) \<longleftrightarrow>
      deps_known ps \<and> acyclic {(d, p). dep_edge ps d p})"
proof (cases rule: topological_order_cases [of ps])
  case (graph e)
  with build_graph_Inl [OF graph(1)] show ?thesis
    by (auto simp: deps_known_def dest: dep_cycle_not_acyclic)
next
  case (ok edges ds order)
  let ?pos = "\<lambda>v. the (position_of (\<lambda>y. y = v) order)"
  have "?pos d < ?pos p" if "dep_edge ps d p" for d p
    using topological_order_Inr [OF ok(2)] that position_nth [OF ok(3)]
    by (metis option.sel order.strict_trans)
  then have "acyclic ({(d, p). dep_edge ps d p}\<inverse>)"
    by (intro acyclicI_order [where f = ?pos]) auto
  then have "acyclic {(d, p). dep_edge ps d p}" by (simp only: acyclic_converse)
  moreover have "deps_known ps"
    using build_graph_Inr(5) [OF ok(1)] by (auto simp: deps_known_def)
  ultimately show ?thesis using ok(2) by simp
next
  case (cycle edges ds c)
  from dep_cycle_not_acyclic [OF is_cycle_dep_cycle [OF cycle(1,2)]] cycle(3) show ?thesis
    by auto
qed

text \<open>
  An error of \<^verbatim>\<open>topological_order\<close> is genuine: an unknown dependency is one that a
  registered provider declares and that no provider answers to, and the providers of a
  reported cycle depend on each other in a ring; a provider that merely depends on a cycle
  is never listed.
\<close>

lemma topological_order_error:
  assumes "topological_order ps = Some (Inl e)"
  shows "(\<exists>p<length ps. \<exists>x\<in>set (prov_deps (ps ! p)).
      provider_index ps x = None \<and> e = UnknownDependency (prov_name (ps ! p)) x)
    \<or> (\<exists>c. dep_cycle ps c \<and> e = DependencyCycle (map (\<lambda>v. prov_name (ps ! v)) c))"
proof (cases rule: topological_order_cases [of ps])
  case (graph e')
  with assms have "e' = e" by simp
  from build_graph_Inl [OF graph(1)] this show ?thesis
  proof (elim disjE exE conjE)
    fix p assume "dep_cycle ps [p]" "e' = DependencyCycle [prov_name (ps ! p)]"
    with \<open>e' = e\<close> show ?thesis by (intro disjI2 exI [of _ "[p]"]) simp
  qed auto
next
  case (ok edges ds order)
  with assms show ?thesis by simp
next
  case (cycle edges ds c)
  with assms is_cycle_dep_cycle [OF cycle(1,2)] show ?thesis by auto
qed

definition demo_ring :: "unit provider list" where
  "demo_ring =
     [\<lparr>prov_name = ''C'', prov_deps = [''A''], prov_hooks = ()\<rparr>,
      \<lparr>prov_name = ''A'', prov_deps = [''B''], prov_hooks = ()\<rparr>,
      \<lparr>prov_name = ''B'', prov_deps = [''A''], prov_hooks = ()\<rparr>]"

lemma topological_order_error_example:
  "topological_order demo_ring = Some (Inl (DependencyCycle [''A'', ''B''])) \<and>
   (\<exists>c. dep_cycle demo_ring c \<and> map (\<lambda>v. prov_name (demo_ring ! v)) c = [''A'', ''B''])"
proof -
  have e: "topological_order demo_ring = Some (Inl (DependencyCycle [''A'', ''B'']))"
    by code_simp
  from topological_order_error [OF this] e show ?thesis by auto
qed

section \<open>Boot\<close>

lemma register_loop_Some:
  assumes "set is \<subseteq> {..<length ps}"
  shows "\<exists>app'. register_loop reg ps is app calls = Some (app', calls @ map Register is)"
  using assms
proof (induction "is" arbitrary: app calls)
  case (Cons i "is")
  have "\<exists>app'. register_loop reg ps is (reg (prov_hooks (ps ! i)) app) (calls @ [Register i])
      = Some (app', (calls @ [Register i]) @ map Register is)"
    using Cons.prems by (intro Cons.IH) simp
  with Cons.prems show ?case by simp
qed simp

lemma boot_loop_Some:
  "set is \<subseteq> {..<length ps} \<Longrightarrow> boot_loop ps is calls = Some (calls @ map BootCall is)"
  by (induction "is" arbitrary: calls) auto

lemma mount_config_keeps:
  "mount_config load app = Inr app1 \<Longrightarrow>
   app_providers app1 = app_providers app \<and> app_booted app1 = app_booted app"
  by (auto simp: mount_config_def split: if_splits sum.splits)

text \<open>
  C22. Booting an unbooted application whose configuration loads either fails with the
  order's error, leaving the providers unregistered and the application unbooted, or runs
  every provider's \<^verbatim>\<open>register\<close> hook in dependency order and only then every
  \<^verbatim>\<open>boot\<close> hook in the same order, and ends booted; it never panics.
\<close>

theorem boot_runs_hooks_in_order:
  assumes "\<not> app_booted app" and "mount_config load app = Inr app1"
  shows "\<exists>result app' calls. boot load reg app = Some (result, app', calls) \<and>
    (case topological_order (app_providers app) of
       Some (Inr order) \<Rightarrow>
         result = Inr () \<and> app_booted app' \<and> app_providers app' = app_providers app
         \<and> calls = map Register order @ map BootCall order
         \<and> (\<forall>d p. dep_edge (app_providers app) d p \<longrightarrow>
              (\<exists>xs ys zs. order = xs @ d # ys @ p # zs))
     | Some (Inl e) \<Rightarrow> result = Inl e \<and> app' = app1 \<and> \<not> app_booted app' \<and> calls = []
     | None \<Rightarrow> False)"
proof -
  note keeps = mount_config_keeps [OF assms(2)]
  let ?ps = "app_providers app"
  obtain r where r: "topological_order ?ps = Some r"
    by (cases rule: topological_order_cases [of ?ps]) auto
  show ?thesis
  proof (cases r)
    case (Inl e)
    with r assms keeps show ?thesis by (simp add: boot_def)
  next
    case (Inr order)
    note top = topological_order_Inr [OF r [unfolded Inr]]
    then have sub: "set order \<subseteq> {..<length ?ps}" by simp
    from register_loop_Some [OF sub, of reg "app1\<lparr>app_providers := []\<rparr>" "[]"]
    obtain app2 where reg: "register_loop reg ?ps order (app1\<lparr>app_providers := []\<rparr>) []
      = Some (app2, map Register order)" by auto
    have "\<exists>xs ys zs. order = xs @ d # ys @ p # zs" if dp: "dep_edge ?ps d p" for d p
    proof -
      from top dp obtain i j where ij: "i < j" "j < length order" "order ! i = d" "order ! j = p"
        by blast
      then have "order = take i order @ d # take (j - Suc i) (drop (Suc i) order)
          @ p # drop (Suc j) order"
        by (metis (no_types, opaque_lifting) Cons_nth_drop_Suc Suc_leI append_take_drop_id
            drop_drop le_add_diff_inverse2 order.strict_trans)
      then show ?thesis by blast
    qed
    with r Inr assms keeps reg boot_loop_Some [OF sub, of "map Register order"] show ?thesis
      by (simp add: boot_def)
  qed
qed


definition demo_app :: "(unit, nat, nat) application" where
  "demo_app = application_new\<lparr>app_providers := demo_providers\<rparr>"

theorem boot_runs_hooks_in_order_witness:
  "\<exists>app1. \<not> app_booted demo_app \<and> mount_config (\<lambda>d. Inr (Boxed ''ConfigLoader'' 0)) demo_app = Inr app1 \<and>
   (\<exists>app'. boot (\<lambda>d. Inr (Boxed ''ConfigLoader'' 0)) (\<lambda>h a. a) demo_app
     = Some (Inr (), app', map Register [1, 0, 2] @ map BootCall [1, 0, 2]) \<and> app_booted app')"
proof -
  let ?load = "\<lambda>d. Inr (Boxed ''ConfigLoader'' 0) :: string + nat boxed"
  obtain app1 where m: "mount_config ?load demo_app = Inr app1"
    by (auto simp: mount_config_def demo_app_def application_new_def container_new_def bound_def)
  have nb: "\<not> app_booted demo_app" by (simp add: demo_app_def application_new_def)
  have ps: "app_providers demo_app = demo_providers" by (simp add: demo_app_def)
  from boot_runs_hooks_in_order [OF nb m, of "\<lambda>h a. a"] have
    "\<exists>app'. boot ?load (\<lambda>h a. a) demo_app
      = Some (Inr (), app', map Register [1, 0, 2] @ map BootCall [1, 0, 2]) \<and> app_booted app'"
    by (auto simp: ps demo_order)
  with nb m show ?thesis by blast
qed

text \<open>
  Booting is idempotent: booting again after a successful boot calls no hook and changes
  nothing, and a boot that fails registers no provider and leaves the provider list as it was.
\<close>

lemma boot_idempotent:
  assumes "boot load reg app = Some (result, app', calls)"
  shows "app_providers app' = app_providers app \<and>
    (result = Inr () \<longrightarrow> boot load' reg' app' = Some (Inr (), app', [])) \<and>
    (result \<noteq> Inr () \<longrightarrow> calls = [] \<and> \<not> app_booted app')"
proof (cases "app_booted app")
  case True
  with assms show ?thesis by (auto simp: boot_def)
next
  case False
  show ?thesis
  proof (cases "mount_config load app")
    case (Inl e)
    with assms False show ?thesis by (auto simp: boot_def)
  next
    case (Inr app1)
    with assms False mount_config_keeps [OF Inr] show ?thesis
      by (auto simp: boot_def split: option.splits sum.splits prod.splits)
  qed
qed

lemma boot_idempotent_example:
  "\<exists>app'. boot (\<lambda>d. Inl ''bad toml'') (\<lambda>h a. a) demo_app
     = Some (Inl (ConfigFailed ''bad toml''), app', []) \<and> \<not> app_booted app'"
proof -
  have b: "boot (\<lambda>d. Inl ''bad toml'') (\<lambda>h a. a) demo_app
      = Some (Inl (ConfigFailed ''bad toml''), demo_app, [])"
    by (simp add: boot_def mount_config_def demo_app_def application_new_def container_new_def
        bound_def)
  from boot_idempotent [OF b] b show ?thesis by auto
qed

end
