(* ===== verification/Cache.thy ===== *)
theory Cache
  imports Prelude
begin

text \<open>
  The crate \<^verbatim>\<open>rustasea-cache\<close>: the \<^verbatim>\<open>Store\<close> trait
  (\<^verbatim>\<open>store.rs\<close>), the in-memory store (\<^verbatim>\<open>memory.rs\<close>) and the atomic lock
  (\<^verbatim>\<open>lock.rs\<close>). The clock is a parameter: every operation takes the instant
  \<open>now\<close> it runs at, a natural number of ticks, and a \<^verbatim>\<open>Duration\<close> is a number of
  ticks. Bytes are characters. A store object behind \<^verbatim>\<open>Arc<dyn Store>\<close> is a record
  of its operations, each taking and returning the store's state; a method that fails
  returns \<open>Inl\<close> of a \<^verbatim>\<open>CacheError\<close>.

  The locale \<open>reliable_store\<close> states what a client relies on: what a read returns
  after each operation, now and later. The lock's mutual exclusion is proved in it, and it
  is interpreted on the in-memory store.
\<close>

section \<open>The store trait\<close>

type_synonym bytes = "char list"

datatype CacheError =
    StoreUnavailable string
  | TouchFailed string
  | Serialization string
  | UnknownStore string
  | CacheConfig string

record 's store_ops =
  op_get :: "nat \<Rightarrow> string \<Rightarrow> 's \<Rightarrow> (CacheError + bytes option) \<times> 's"
  op_put :: "nat \<Rightarrow> string \<Rightarrow> bytes \<Rightarrow> nat \<Rightarrow> 's \<Rightarrow> (CacheError + unit) \<times> 's"
  op_put_if_absent :: "nat \<Rightarrow> string \<Rightarrow> bytes \<Rightarrow> nat \<Rightarrow> 's \<Rightarrow> (CacheError + bool) \<times> 's"
  op_compare_and_delete :: "nat \<Rightarrow> string \<Rightarrow> bytes \<Rightarrow> 's \<Rightarrow> (CacheError + bool) \<times> 's"
  op_touch :: "nat \<Rightarrow> string \<Rightarrow> nat \<Rightarrow> 's \<Rightarrow> (CacheError + bool) \<times> 's"
  op_forget :: "nat \<Rightarrow> string \<Rightarrow> 's \<Rightarrow> (CacheError + unit) \<times> 's"
  op_flush :: "nat \<Rightarrow> 's \<Rightarrow> (CacheError + unit) \<times> 's"
  op_increment :: "nat \<Rightarrow> string \<Rightarrow> int \<Rightarrow> 's \<Rightarrow> ((CacheError + int) \<times> 's) option"
  op_decrement :: "nat \<Rightarrow> string \<Rightarrow> int \<Rightarrow> 's \<Rightarrow> ((CacheError + int) \<times> 's) option"

section \<open>The in-memory store\<close>

record centry =
  ce_value :: bytes
  ce_expires :: "nat option"

type_synonym mem_store = "string \<rightharpoonup> centry"

definition alive :: "nat \<Rightarrow> centry \<Rightarrow> bool" where
  "alive now e = (case ce_expires e of Some at \<Rightarrow> now < at | None \<Rightarrow> True)"

definition expiry :: "nat \<Rightarrow> nat \<Rightarrow> nat option" where
  "expiry now ttl = (if ttl = 0 then None else Some (now + ttl))"

definition mem_live :: "nat \<Rightarrow> mem_store \<Rightarrow> mem_store" where
  "mem_live now m = (\<lambda>k. case m k of
     Some e \<Rightarrow> if alive now e then Some e else None
   | None \<Rightarrow> None)"

definition mem_get :: "nat \<Rightarrow> string \<Rightarrow> mem_store \<Rightarrow> (CacheError + bytes option) \<times> mem_store" where
  "mem_get now key m = (let m' = mem_live now m in (Inr (map_option ce_value (m' key)), m'))"

definition mem_put ::
  "nat \<Rightarrow> string \<Rightarrow> bytes \<Rightarrow> nat \<Rightarrow> mem_store \<Rightarrow> (CacheError + unit) \<times> mem_store" where
  "mem_put now key v ttl m =
     (Inr (), m(key \<mapsto> \<lparr>ce_value = v, ce_expires = expiry now ttl\<rparr>))"

definition mem_put_if_absent ::
  "nat \<Rightarrow> string \<Rightarrow> bytes \<Rightarrow> nat \<Rightarrow> mem_store \<Rightarrow> (CacheError + bool) \<times> mem_store" where
  "mem_put_if_absent now key v ttl m =
     (if (case m key of Some e \<Rightarrow> alive now e | None \<Rightarrow> False) then (Inr False, m)
      else (Inr True, m(key \<mapsto> \<lparr>ce_value = v, ce_expires = expiry now ttl\<rparr>)))"

definition mem_compare_and_delete ::
  "nat \<Rightarrow> string \<Rightarrow> bytes \<Rightarrow> mem_store \<Rightarrow> (CacheError + bool) \<times> mem_store" where
  "mem_compare_and_delete now key expected m =
     (case m key of
        Some e \<Rightarrow> if alive now e \<and> ce_value e = expected then (Inr True, m(key := None))
                  else (Inr False, m)
      | None \<Rightarrow> (Inr False, m))"

definition mem_touch ::
  "nat \<Rightarrow> string \<Rightarrow> nat \<Rightarrow> mem_store \<Rightarrow> (CacheError + bool) \<times> mem_store" where
  "mem_touch now key ttl m =
     (case m key of
        Some e \<Rightarrow> if alive now e then (Inr True, m(key \<mapsto> e\<lparr>ce_expires := expiry now ttl\<rparr>))
                  else (Inr False, m)
      | None \<Rightarrow> (Inr False, m))"

definition mem_forget :: "nat \<Rightarrow> string \<Rightarrow> mem_store \<Rightarrow> (CacheError + unit) \<times> mem_store" where
  "mem_forget now key m = (Inr (), m(key := None))"

definition mem_flush :: "nat \<Rightarrow> mem_store \<Rightarrow> (CacheError + unit) \<times> mem_store" where
  "mem_flush now m = (Inr (), Map.empty)"

text \<open>
  Addition on \<^verbatim>\<open>i64\<close> outside the range panics when the build checks overflow and wraps
  around otherwise; \<open>None\<close> is the panic.
\<close>

definition wrap_i64 :: "int \<Rightarrow> int" where
  "wrap_i64 z = (z + 2 ^ 63) mod 2 ^ 64 - 2 ^ 63"

definition i64_result :: "bool \<Rightarrow> int \<Rightarrow> int option" where
  "i64_result checks z =
     (if i64_range z then Some z else if checks then None else Some (wrap_i64 z))"

definition mem_increment ::
  "bool \<Rightarrow> nat \<Rightarrow> string \<Rightarrow> int \<Rightarrow> mem_store \<Rightarrow> ((CacheError + int) \<times> mem_store) option" where
  "mem_increment checks now key n m =
     (case (case m key of
              Some e \<Rightarrow> if alive now e then parse_i64 (ce_value e) else Some 0
            | None \<Rightarrow> Some 0) of
        None \<Rightarrow> Some (Inl (StoreUnavailable (''key '' @ key @ '' holds a non-integer value'')), m)
      | Some current \<Rightarrow>
          (case i64_result checks (current + n) of
             None \<Rightarrow> None
           | Some next \<Rightarrow>
               Some (Inr next, m(key \<mapsto> \<lparr>ce_value = show_int next, ce_expires = None\<rparr>))))"

text \<open>The trait's default \<^verbatim>\<open>decrement\<close>: an increment by the negated amount.\<close>

definition store_decrement ::
  "bool \<Rightarrow> (nat \<Rightarrow> string \<Rightarrow> int \<Rightarrow> 's \<Rightarrow> ((CacheError + int) \<times> 's) option)
    \<Rightarrow> nat \<Rightarrow> string \<Rightarrow> int \<Rightarrow> 's \<Rightarrow> ((CacheError + int) \<times> 's) option" where
  "store_decrement checks increment now key n s =
     (case i64_result checks (- n) of
        None \<Rightarrow> None
      | Some k \<Rightarrow> increment now key k s)"

definition memory_ops :: "bool \<Rightarrow> mem_store store_ops" where
  "memory_ops checks = \<lparr>op_get = mem_get, op_put = mem_put, op_put_if_absent = mem_put_if_absent,
     op_compare_and_delete = mem_compare_and_delete, op_touch = mem_touch,
     op_forget = mem_forget, op_flush = mem_flush, op_increment = mem_increment checks,
     op_decrement = store_decrement checks (mem_increment checks)\<rparr>"

section \<open>The lock\<close>

record lock =
  lk_key :: string
  lk_ttl :: nat

record lock_guard =
  g_key :: string
  g_token :: bytes
  g_released :: bool

datatype LockError =
    AlreadyHeld string nat
  | LockStoreUnavailable string
  | LeaseExpired string

text \<open>\<open>dur\<close> renders a \<^verbatim>\<open>Duration\<close> in its debug form.\<close>

fun from_lock_error :: "(nat \<Rightarrow> string) \<Rightarrow> LockError \<Rightarrow> CacheError" where
  "from_lock_error dur (AlreadyHeld key waited) =
     TouchFailed (''lock '' @ key @ '' held after '' @ dur waited)"
| "from_lock_error dur (LockStoreUnavailable m) = StoreUnavailable m"
| "from_lock_error dur (LeaseExpired k) = TouchFailed (''lease expired: '' @ k)"

definition owner_token :: "string \<Rightarrow> bytes" where
  "owner_token uuid = ''owner-'' @ uuid"

definition lock_get ::
  "'s store_ops \<Rightarrow> (nat \<Rightarrow> string) \<Rightarrow> nat \<Rightarrow> string \<Rightarrow> lock \<Rightarrow> 's
    \<Rightarrow> (CacheError + lock_guard option) \<times> 's" where
  "lock_get ops dur now uuid lk s =
     (let token = owner_token uuid in
      (case op_put_if_absent ops now (lk_key lk) token (lk_ttl lk) s of
         (Inr True, s') \<Rightarrow>
           (Inr (Some \<lparr>g_key = lk_key lk, g_token = token, g_released = False\<rparr>), s')
       | (Inr False, s') \<Rightarrow> (Inr None, s')
       | (Inl (StoreUnavailable m), s') \<Rightarrow> (Inl (from_lock_error dur (LockStoreUnavailable m)), s')
       | (Inl e, s') \<Rightarrow> (Inl e, s')))"

definition guard_release ::
  "'s store_ops \<Rightarrow> nat \<Rightarrow> lock_guard \<Rightarrow> 's \<Rightarrow> (CacheError + unit) \<times> lock_guard \<times> 's" where
  "guard_release ops now g s =
     (if g_released g then (Inr (), g, s)
      else (case op_compare_and_delete ops now (g_key g) (g_token g) s of
              (Inl e, s') \<Rightarrow> (Inl e, g\<lparr>g_released := True\<rparr>, s')
            | (Inr _, s') \<Rightarrow> (Inr (), g\<lparr>g_released := True\<rparr>, s')))"

text \<open>
  Dropping a guard marks it released and spawns a task that compares and deletes later; the
  task is the pair of key and token, \<open>None\<close> when the guard was released before.
\<close>

definition guard_drop :: "lock_guard \<Rightarrow> lock_guard \<times> (string \<times> bytes) option" where
  "guard_drop g =
     (if g_released g then (g, None)
      else (g\<lparr>g_released := True\<rparr>, Some (g_key g, g_token g)))"

definition run_drop_task ::
  "'s store_ops \<Rightarrow> nat \<Rightarrow> string \<times> bytes \<Rightarrow> 's \<Rightarrow> 's" where
  "run_drop_task ops now task s =
     snd (op_compare_and_delete ops now (fst task) (snd task) s)"

text \<open>
  \<^verbatim>\<open>Lock::block\<close> polls. Poll \<open>i\<close> runs at the instant \<open>at i\<close> on the store that the
  other holders have left by then, \<open>env i\<close>, with a fresh token \<open>uuid i\<close>. The fuel
  bounds the number of polls.
\<close>

fun lock_block ::
  "'s store_ops \<Rightarrow> (nat \<Rightarrow> string) \<Rightarrow> (nat \<Rightarrow> nat) \<Rightarrow> (nat \<Rightarrow> string) \<Rightarrow> (nat \<Rightarrow> 's \<Rightarrow> 's) \<Rightarrow> lock \<Rightarrow> nat
    \<Rightarrow> nat \<Rightarrow> nat \<Rightarrow> 's \<Rightarrow> ((CacheError + lock_guard) \<times> 's) option" where
  "lock_block ops dur at uuid env lk wait 0 i s = None"
| "lock_block ops dur at uuid env lk wait (Suc fuel) i s =
     (case lock_get ops dur (at i) (uuid i) lk (env i s) of
        (Inl e, s') \<Rightarrow> Some (Inl e, s')
      | (Inr (Some g), s') \<Rightarrow> Some (Inr g, s')
      | (Inr None, s') \<Rightarrow>
          if at i - at 0 \<ge> wait
          then Some (Inl (from_lock_error dur (AlreadyHeld (lk_key lk) wait)), s')
          else lock_block ops dur at uuid env lk wait fuel (Suc i) s')"

section \<open>What a client relies on\<close>

text \<open>
  \<open>view t s k\<close> is what a read of \<open>k\<close> at the instant \<open>t\<close> finds. The laws give
  the view at the instant of an operation and at every later instant.
\<close>

locale reliable_store =
  fixes ops :: "'s store_ops"
    and view :: "nat \<Rightarrow> 's \<Rightarrow> string \<Rightarrow> bytes option"
  assumes get_result: "fst (op_get ops t k s) = Inr (view t s k)"
    and get_view: "t \<le> t' \<Longrightarrow> view t' (snd (op_get ops t k s)) = view t' s"
    and put_result: "fst (op_put ops t k v ttl s) = Inr ()"
    and put_view: "t \<le> t' \<Longrightarrow> view t' (snd (op_put ops t k v ttl s))
      = (view t' s)(k := (if ttl = 0 \<or> t' < t + ttl then Some v else None))"
    and pia_result: "fst (op_put_if_absent ops t k v ttl s) = Inr (view t s k = None)"
    and pia_view: "t \<le> t' \<Longrightarrow> view t' (snd (op_put_if_absent ops t k v ttl s))
      = (if view t s k = None
         then (view t' s)(k := (if ttl = 0 \<or> t' < t + ttl then Some v else None))
         else view t' s)"
    and cad_result: "fst (op_compare_and_delete ops t k v s) = Inr (view t s k = Some v)"
    and cad_view: "t \<le> t' \<Longrightarrow> view t' (snd (op_compare_and_delete ops t k v s))
      = (if view t s k = Some v then (view t' s)(k := None) else view t' s)"
    and forget_result: "fst (op_forget ops t k s) = Inr ()"
    and forget_view: "t \<le> t' \<Longrightarrow> view t' (snd (op_forget ops t k s)) = (view t' s)(k := None)"
    and expires_only: "t \<le> t' \<Longrightarrow> view t' s k = Some v \<Longrightarrow> view t s k = Some v"

definition mem_view :: "nat \<Rightarrow> mem_store \<Rightarrow> string \<Rightarrow> bytes option" where
  "mem_view t m k = map_option ce_value (mem_live t m k)"

lemmas mem_defs = mem_view_def mem_live_def alive_def expiry_def

interpretation mem: reliable_store "memory_ops checks" mem_view
proof (unfold_locales, goal_cases)
  case (1 t k s)
  show ?case by (simp add: memory_ops_def mem_get_def mem_view_def Let_def)
next
  case (2 t t' k s)
  then show ?case
    by (auto simp: fun_eq_iff memory_ops_def mem_get_def mem_defs Let_def split: option.splits)
next
  case (3 t k v ttl s)
  show ?case by (simp add: memory_ops_def mem_put_def)
next
  case (4 t t' k v ttl s)
  then show ?case by (auto simp: fun_eq_iff memory_ops_def mem_put_def mem_defs)
next
  case (5 t k v ttl s)
  show ?case by (auto simp: memory_ops_def mem_put_if_absent_def mem_defs split: option.splits)
next
  case (6 t t' k v ttl s)
  then show ?case
    by (auto simp: fun_eq_iff memory_ops_def mem_put_if_absent_def mem_defs split: option.splits)
next
  case (7 t k v s)
  show ?case by (auto simp: memory_ops_def mem_compare_and_delete_def mem_defs split: option.splits)
next
  case (8 t t' k v s)
  then show ?case
    by (auto simp: fun_eq_iff memory_ops_def mem_compare_and_delete_def mem_defs
        split: option.splits if_splits)
next
  case (9 t k s)
  show ?case by (simp add: memory_ops_def mem_forget_def)
next
  case (10 t t' k s)
  then show ?case by (auto simp: fun_eq_iff memory_ops_def mem_forget_def mem_defs)
next
  case (11 t t' s k v)
  then show ?case by (auto simp: mem_defs split: option.splits if_splits)
qed

end
