(* ===== verification/Percent.thy ===== *)
theory Percent
  imports Prelude
begin

text \<open>
  Percent encoding of the bytes outside the unreserved set of RFC 3986, as
  \<^verbatim>\<open>rustasea-cache/src/repository.rs\<close> (context segments) and
  \<^verbatim>\<open>rustasea-auth/src/signed_url.rs\<close> do it, with its injectivity.
\<close>

definition hex_digit :: "nat \<Rightarrow> char" where
  "hex_digit n = char_of (if n < 10 then 48 + n else 55 + n)"

definition unreserved :: "char \<Rightarrow> bool" where
  "unreserved c \<longleftrightarrow>
     (let b = of_char c :: nat in
      (48 \<le> b \<and> b \<le> 57) \<or> (65 \<le> b \<and> b \<le> 90) \<or> (97 \<le> b \<and> b \<le> 122)
      \<or> c = CHR ''-'' \<or> c = CHR ''_'' \<or> c = CHR ''.'' \<or> c = CHR ''~'')"

definition encode_byte :: "char \<Rightarrow> string" where
  "encode_byte c =
     (if unreserved c then [c]
      else [CHR ''%'', hex_digit (of_char c div 16), hex_digit (of_char c mod 16)])"

fun percent_encode :: "string \<Rightarrow> string" where
  "percent_encode [] = []"
| "percent_encode (c # s) = encode_byte c @ percent_encode s"

lemma unreserved_not_special:
  "unreserved c \<Longrightarrow> c \<notin> {CHR ''%'', CHR '':'', CHR ''&'', CHR ''='', CHR ''/'', CHR ''?'', CHR 0x0A}"
  by (auto simp: unreserved_def)

lemma hex_digit_inj: "m < 16 \<Longrightarrow> n < 16 \<Longrightarrow> hex_digit m = hex_digit n \<Longrightarrow> m = n"
  by (drule arg_cong [of _ _ "of_char :: char \<Rightarrow> nat"]) (auto simp: hex_digit_def split: if_splits)

lemma hex_digit_unreserved: "n < 16 \<Longrightarrow> unreserved (hex_digit n)"
  by (auto simp: hex_digit_def unreserved_def Let_def)

lemma of_char_div16: "(of_char (c :: char) :: nat) div 16 < 16"
proof -
  have "(of_char c :: nat) < 256" by simp
  then show ?thesis by linarith
qed

lemma encode_byte_chars:
  "d \<in> set (encode_byte c) \<Longrightarrow> unreserved d \<or> d = CHR ''%''"
  using hex_digit_unreserved of_char_div16 [of c]
  by (auto simp: encode_byte_def split: if_splits)

lemma percent_encode_chars:
  "d \<in> set (percent_encode s) \<Longrightarrow> unreserved d \<or> d = CHR ''%''"
  by (induction s) (auto dest: encode_byte_chars)

lemma percent_encode_clean:
  "CHR '':'' \<notin> set (percent_encode s)" "CHR ''&'' \<notin> set (percent_encode s)"
  "CHR ''='' \<notin> set (percent_encode s)" "CHR ''/'' \<notin> set (percent_encode s)"
  "CHR ''?'' \<notin> set (percent_encode s)" "CHR 0x0A \<notin> set (percent_encode s)"
  using percent_encode_chars [of _ s] unreserved_not_special by auto

lemma encode_byte_prefix_free:
  assumes "encode_byte c @ xs = encode_byte d @ ys"
  shows "c = d \<and> xs = ys"
proof (cases "unreserved c \<longleftrightarrow> unreserved d")
  case False
  then show ?thesis
    using assms unreserved_not_special [of c] unreserved_not_special [of d]
    by (auto simp: encode_byte_def split: if_splits)
next
  case True
  show ?thesis
  proof (cases "unreserved c")
    case True
    with \<open>unreserved c \<longleftrightarrow> unreserved d\<close> assms show ?thesis by (simp add: encode_byte_def)
  next
    case False
    with True have "hex_digit (of_char c div 16) = hex_digit (of_char d div 16)"
      "hex_digit (of_char c mod 16) = hex_digit (of_char d mod 16)" "xs = ys"
      using assms by (auto simp: encode_byte_def)
    then have "(of_char c :: nat) div 16 = of_char d div 16" "(of_char c :: nat) mod 16 = of_char d mod 16"
      using hex_digit_inj of_char_div16 by (blast, simp add: hex_digit_inj)
    then have "(of_char c :: nat) = of_char d"
      by (metis div_mult_mod_eq)
    with \<open>xs = ys\<close> show ?thesis by simp
  qed
qed

lemma percent_encode_eq: "percent_encode s = percent_encode t \<longleftrightarrow> s = t"
proof (induction s arbitrary: t)
  case Nil
  then show ?case by (cases t) (auto simp: encode_byte_def)
next
  case (Cons c s)
  show ?case
  proof (cases t)
    case Nil
    then show ?thesis by (simp add: encode_byte_def)
  next
    case (Cons d t')
    then show ?thesis
      using Cons.IH [of t'] encode_byte_prefix_free [of c "percent_encode s" d "percent_encode t'"]
      by auto
  qed
qed

section \<open>UTF-8\<close>

text \<open>\<^verbatim>\<open>String::from_utf8\<close>: the byte sequences of the standard.\<close>

definition cont_byte :: "nat \<Rightarrow> bool" where
  "cont_byte b \<longleftrightarrow> 128 \<le> b \<and> b \<le> 191"

fun utf8_ok :: "nat list \<Rightarrow> bool" where
  "utf8_ok [] = True"
| "utf8_ok (a # bs) =
     (if a < 128 then utf8_ok bs
      else if 194 \<le> a \<and> a \<le> 223 then (case bs of b # r \<Rightarrow> cont_byte b \<and> utf8_ok r | _ \<Rightarrow> False)
      else if 224 \<le> a \<and> a \<le> 239 then
        (case bs of
           b # c # r \<Rightarrow> cont_byte b \<and> (a = 224 \<longrightarrow> 160 \<le> b) \<and> (a = 237 \<longrightarrow> b \<le> 159) \<and> cont_byte c \<and> utf8_ok r
         | _ \<Rightarrow> False)
      else if 240 \<le> a \<and> a \<le> 244 then
        (case bs of
           b # c # d # r \<Rightarrow>
             cont_byte b \<and> (a = 240 \<longrightarrow> 144 \<le> b) \<and> (a = 244 \<longrightarrow> b \<le> 143) \<and> cont_byte c \<and> cont_byte d \<and> utf8_ok r
         | _ \<Rightarrow> False)
      else False)"

definition from_utf8 :: "string \<Rightarrow> bool" where
  "from_utf8 s \<longleftrightarrow> utf8_ok (map of_char s)"

lemma ascii_utf8: "\<forall>c\<in>set s. (of_char c :: nat) < 128 \<Longrightarrow> from_utf8 s"
  unfolding from_utf8_def by (induction s) auto

end
