(* ===== verification/Repository.thy ===== *)
theory Repository
  imports Cache Percent "HOL-Library.Multiset" "HOL-Library.Char_ord" "HOL-Library.List_Lexorder" "HOL-Library.Product_Lexorder"
begin

text \<open>
  The typed cache facade of \<^verbatim>\<open>rustasea-cache/src/repository.rs\<close>: key prefixes, context
  segments and the typed operations. A repository holds its store as a record of operations on
  a state \<open>'s\<close>, which for the memory stores of a process is a heap of stores indexed by
  address (an \<^verbatim>\<open>Arc\<close>), so that two repositories may share one store or not.

  The JSON codec (\<^verbatim>\<open>serde_json\<close>) is a parameter: \<open>enc\<close> and \<open>dec\<close>, each
  returning \<open>Inl\<close> of the error text when it fails. The context map is an association list
  with distinct keys, in the iteration order of the \<^verbatim>\<open>HashMap\<close>.
\<close>

section \<open>Keys\<close>

definition DEFAULT_PREFIX :: string where
  "DEFAULT_PREFIX = ''-cache-''"

datatype CacheConfigError =
    Invalid string
  | UnknownDefaultStore string
  | UnknownDriver string
  | UnsupportedDriver string
  | InvalidPrefix string
  | RedisUnavailable string

text \<open>\<open>quote\<close> renders a string in its debug form.\<close>

fun config_error_text :: "(string \<Rightarrow> string) \<Rightarrow> CacheConfigError \<Rightarrow> string" where
  "config_error_text quote (Invalid s) = ''invalid cache configuration: '' @ s"
| "config_error_text quote (UnknownDefaultStore s) = ''unknown default cache store '' @ quote s"
| "config_error_text quote (UnknownDriver s) = ''unknown cache driver '' @ quote s"
| "config_error_text quote (UnsupportedDriver s) =
     ''cache driver '' @ quote s @ '' is not supported by rustasea-cache''"
| "config_error_text quote (InvalidPrefix s) =
     ''cache prefix '' @ quote s @ '' must contain the -cache- marker''"
| "config_error_text quote (RedisUnavailable s) =
     ''cache store '' @ quote s @ '' requires the `redis` feature and a configured url''"

definition from_config_error :: "(string \<Rightarrow> string) \<Rightarrow> CacheConfigError \<Rightarrow> CacheError" where
  "from_config_error quote e = CacheConfig (config_error_text quote e)"

text \<open>\<^verbatim>\<open>str::contains\<close>.\<close>

fun contains :: "string \<Rightarrow> string \<Rightarrow> bool" where
  "contains p [] = (p = [])"
| "contains p (c # s) = (take (length p) (c # s) = p \<or> contains p s)"

record 's repo =
  r_store :: "'s store_ops"
  r_context :: "string option"
  r_prefix :: string

definition repo_new :: "'s store_ops \<Rightarrow> 's repo" where
  "repo_new ops = \<lparr>r_store = ops, r_context = None, r_prefix = DEFAULT_PREFIX\<rparr>"

definition try_with_prefix ::
  "(string \<Rightarrow> string) \<Rightarrow> string \<Rightarrow> 's repo \<Rightarrow> CacheError + 's repo" where
  "try_with_prefix quote prefix r =
     (if \<not> contains ''-cache-'' prefix
      then Inl (from_config_error quote (InvalidPrefix prefix))
      else Inr (r\<lparr>r_prefix := prefix\<rparr>))"

definition with_prefix :: "string \<Rightarrow> 's repo \<Rightarrow> 's repo" where
  "with_prefix prefix r = r\<lparr>r_prefix := prefix\<rparr>"

text \<open>\<^verbatim>\<open>[String]::join\<close>.\<close>

fun join :: "string \<Rightarrow> string list \<Rightarrow> string" where
  "join sep [] = []"
| "join sep [s] = s"
| "join sep (s # t # ss) = s @ sep @ join sep (t # ss)"

definition context_segment :: "(string, string) hashmap \<Rightarrow> string" where
  "context_segment ctx =
     (let pairs = sort (map (\<lambda>(k, v). (k, percent_encode v)) ctx) in
      join ''&'' (map (\<lambda>(k, v). k @ ''='' @ v) pairs))"

definition with_context :: "(string, string) hashmap \<Rightarrow> 's repo \<Rightarrow> 's repo" where
  "with_context ctx r =
     (let segment = context_segment ctx;
          segment' = (case r_context r of
             Some base \<Rightarrow> if base \<noteq> [] then base @ '':'' @ segment else segment
           | None \<Rightarrow> segment)
      in r\<lparr>r_context := Some segment'\<rparr>)"

definition repo_key :: "'s repo \<Rightarrow> string \<Rightarrow> string" where
  "repo_key r key =
     (case r_context r of
        Some ctx \<Rightarrow> r_prefix r @ ctx @ '':'' @ key
      | None \<Rightarrow> r_prefix r @ key)"

section \<open>Typed operations\<close>

definition repo_get ::
  "(bytes \<Rightarrow> string + 'v) \<Rightarrow> nat \<Rightarrow> 's repo \<Rightarrow> string \<Rightarrow> 's \<Rightarrow> (CacheError + 'v option) \<times> 's" where
  "repo_get dec t r key s =
     (case op_get (r_store r) t (repo_key r key) s of
        (Inl e, s') \<Rightarrow> (Inl e, s')
      | (Inr None, s') \<Rightarrow> (Inr None, s')
      | (Inr (Some b), s') \<Rightarrow>
          (case dec b of Inl m \<Rightarrow> (Inl (Serialization m), s') | Inr v \<Rightarrow> (Inr (Some v), s')))"

definition repo_put ::
  "('v \<Rightarrow> string + bytes) \<Rightarrow> nat \<Rightarrow> 's repo \<Rightarrow> string \<Rightarrow> 'v \<Rightarrow> nat \<Rightarrow> 's \<Rightarrow> (CacheError + unit) \<times> 's" where
  "repo_put enc t r key v ttl s =
     (case enc v of
        Inl m \<Rightarrow> (Inl (Serialization m), s)
      | Inr b \<Rightarrow> op_put (r_store r) t (repo_key r key) b ttl s)"

definition repo_add ::
  "('v \<Rightarrow> string + bytes) \<Rightarrow> nat \<Rightarrow> 's repo \<Rightarrow> string \<Rightarrow> 'v \<Rightarrow> nat \<Rightarrow> 's \<Rightarrow> (CacheError + bool) \<times> 's" where
  "repo_add enc t r key v ttl s =
     (case enc v of
        Inl m \<Rightarrow> (Inl (Serialization m), s)
      | Inr b \<Rightarrow> op_put_if_absent (r_store r) t (repo_key r key) b ttl s)"

text \<open>\<^verbatim>\<open>remember\<close> reads at \<open>t\<close> and, on a miss, runs the producer (which may itself
  use the store) and writes at \<open>t'\<close>.\<close>

definition repo_remember ::
  "('v \<Rightarrow> string + bytes) \<Rightarrow> (bytes \<Rightarrow> string + 'v) \<Rightarrow> nat \<Rightarrow> nat \<Rightarrow> 's repo \<Rightarrow> string \<Rightarrow> nat
    \<Rightarrow> ('s \<Rightarrow> (CacheError + 'v) \<times> 's) \<Rightarrow> 's \<Rightarrow> (CacheError + 'v) \<times> 's" where
  "repo_remember enc dec t t' r key ttl producer s =
     (case repo_get dec t r key s of
        (Inl e, s1) \<Rightarrow> (Inl e, s1)
      | (Inr (Some hit), s1) \<Rightarrow> (Inr hit, s1)
      | (Inr None, s1) \<Rightarrow>
          (case producer s1 of
             (Inl e, s2) \<Rightarrow> (Inl e, s2)
           | (Inr v, s2) \<Rightarrow>
               (case repo_put enc t' r key v ttl s2 of
                  (Inl e, s3) \<Rightarrow> (Inl e, s3)
                | (Inr _, s3) \<Rightarrow> (Inr v, s3))))"

definition repo_forever ::
  "('v \<Rightarrow> string + bytes) \<Rightarrow> nat \<Rightarrow> 's repo \<Rightarrow> string \<Rightarrow> 'v \<Rightarrow> 's \<Rightarrow> (CacheError + unit) \<times> 's" where
  "repo_forever enc t r key v s = repo_put enc t r key v 0 s"

definition repo_pull ::
  "(bytes \<Rightarrow> string + 'v) \<Rightarrow> nat \<Rightarrow> nat \<Rightarrow> 's repo \<Rightarrow> string \<Rightarrow> 's \<Rightarrow> (CacheError + 'v option) \<times> 's" where
  "repo_pull dec t t' r key s =
     (case repo_get dec t r key s of
        (Inl e, s1) \<Rightarrow> (Inl e, s1)
      | (Inr value, s1) \<Rightarrow>
          (case op_forget (r_store r) t' (repo_key r key) s1 of
             (Inl e, s2) \<Rightarrow> (Inl e, s2)
           | (Inr _, s2) \<Rightarrow> (Inr value, s2)))"

definition repo_has :: "nat \<Rightarrow> 's repo \<Rightarrow> string \<Rightarrow> 's \<Rightarrow> (CacheError + bool) \<times> 's" where
  "repo_has t r key s =
     (case op_get (r_store r) t (repo_key r key) s of
        (Inl e, s') \<Rightarrow> (Inl e, s')
      | (Inr b, s') \<Rightarrow> (Inr (b \<noteq> None), s'))"

definition repo_touch ::
  "nat \<Rightarrow> 's repo \<Rightarrow> string \<Rightarrow> nat \<Rightarrow> 's \<Rightarrow> (CacheError + bool) \<times> 's" where
  "repo_touch t r key ttl s = op_touch (r_store r) t (repo_key r key) ttl s"

definition repo_forget :: "nat \<Rightarrow> 's repo \<Rightarrow> string \<Rightarrow> 's \<Rightarrow> (CacheError + unit) \<times> 's" where
  "repo_forget t r key s = op_forget (r_store r) t (repo_key r key) s"

definition repo_flush :: "nat \<Rightarrow> 's repo \<Rightarrow> 's \<Rightarrow> (CacheError + unit) \<times> 's" where
  "repo_flush t r s = op_flush (r_store r) t s"

definition repo_increment ::
  "nat \<Rightarrow> 's repo \<Rightarrow> string \<Rightarrow> int \<Rightarrow> 's \<Rightarrow> ((CacheError + int) \<times> 's) option" where
  "repo_increment t r key n s = op_increment (r_store r) t (repo_key r key) n s"

definition repo_decrement ::
  "nat \<Rightarrow> 's repo \<Rightarrow> string \<Rightarrow> int \<Rightarrow> 's \<Rightarrow> ((CacheError + int) \<times> 's) option" where
  "repo_decrement t r key n s = op_decrement (r_store r) t (repo_key r key) n s"

section \<open>Memory stores behind shared references\<close>

type_synonym heap = "nat \<Rightarrow> mem_store"

text \<open>The operations of the memory store at address \<open>a\<close>, on the heap.\<close>

definition at_addr :: "nat \<Rightarrow> (mem_store \<Rightarrow> 'r \<times> mem_store) \<Rightarrow> heap \<Rightarrow> 'r \<times> heap" where
  "at_addr a f h = (case f (h a) of (x, m) \<Rightarrow> (x, h(a := m)))"

definition mem_at :: "bool \<Rightarrow> nat \<Rightarrow> heap store_ops" where
  "mem_at checks a =
     \<lparr>op_get = (\<lambda>t k. at_addr a (mem_get t k)),
      op_put = (\<lambda>t k v ttl. at_addr a (mem_put t k v ttl)),
      op_put_if_absent = (\<lambda>t k v ttl. at_addr a (mem_put_if_absent t k v ttl)),
      op_compare_and_delete = (\<lambda>t k v. at_addr a (mem_compare_and_delete t k v)),
      op_touch = (\<lambda>t k ttl. at_addr a (mem_touch t k ttl)),
      op_forget = (\<lambda>t k. at_addr a (mem_forget t k)),
      op_flush = (\<lambda>t. at_addr a (mem_flush t)),
      op_increment = (\<lambda>t k n h.
        map_option (\<lambda>(x, m). (x, h(a := m))) (mem_increment checks t k n (h a))),
      op_decrement = (\<lambda>t k n h. map_option (\<lambda>(x, m). (x, h(a := m)))
        (store_decrement checks (mem_increment checks) t k n (h a)))\<rparr>"

definition heap_view :: "nat \<Rightarrow> nat \<Rightarrow> heap \<Rightarrow> string \<Rightarrow> bytes option" where
  "heap_view a t h = mem_view t (h a)"

lemma at_addr_fst [simp]: "fst (at_addr a f h) = fst (f (h a))"
  by (simp add: at_addr_def split: prod.splits)

lemma at_addr_snd [simp]: "snd (at_addr a f h) = h(a := snd (f (h a)))"
  by (simp add: at_addr_def split: prod.splits)

lemmas mem_sel = memory_ops_def

interpretation heap: reliable_store "mem_at checks a" "heap_view a"
proof (unfold_locales, goal_cases)
  case (1 t k s)
  show ?case using mem.get_result [of False t k "s a"] by (simp add: mem_at_def heap_view_def mem_sel)
next
  case (2 t t' k s)
  then show ?case using mem.get_view [of t t' False k "s a"] by (simp add: mem_at_def heap_view_def mem_sel)
next
  case (3 t k v ttl s)
  show ?case by (simp add: mem_at_def mem_put_def)
next
  case (4 t t' k v ttl s)
  then show ?case using mem.put_view [of t t' False k v ttl "s a"]
    by (simp add: mem_at_def heap_view_def mem_sel)
next
  case (5 t k v ttl s)
  show ?case using mem.pia_result [of False t k v ttl "s a"]
    by (simp add: mem_at_def heap_view_def mem_sel)
next
  case (6 t t' k v ttl s)
  then show ?case using mem.pia_view [of t t' False k v ttl "s a"]
    by (simp add: mem_at_def heap_view_def mem_sel)
next
  case (7 t k v s)
  show ?case using mem.cad_result [of False t k v "s a"]
    by (simp add: mem_at_def heap_view_def mem_sel)
next
  case (8 t t' k v s)
  then show ?case using mem.cad_view [of t t' False k v "s a"]
    by (simp add: mem_at_def heap_view_def mem_sel)
next
  case (9 t k s)
  show ?case by (simp add: mem_at_def mem_forget_def)
next
  case (10 t t' k s)
  then show ?case using mem.forget_view [of t t' False k "s a"]
    by (simp add: mem_at_def heap_view_def mem_sel)
next
  case (11 t t' s k v)
  then show ?case using mem.expires_only [of t t' "s a" k v] by (simp add: heap_view_def)
qed

section \<open>Context segments\<close>

lemma split_on_join:
  "xs \<noteq> [] \<Longrightarrow> (\<forall>x\<in>set xs. c \<notin> set x) \<Longrightarrow> split_on c (join [c] xs) = xs"
proof (induction xs rule: induct_list012)
  case (3 x y xs)
  then show ?case by (simp add: split_on_sep)
qed (auto simp: split_on_none)

lemma join_mem: "c \<in> set (join sep xs) \<Longrightarrow> c \<in> set sep \<or> (\<exists>x\<in>set xs. c \<in> set x)"
  by (induction xs rule: induct_list012) auto

definition clean_key :: "string \<Rightarrow> bool" where
  "clean_key k \<longleftrightarrow> CHR ''&'' \<notin> set k \<and> CHR ''='' \<notin> set k \<and> CHR '':'' \<notin> set k"

definition clean_context :: "(string, string) hashmap \<Rightarrow> bool" where
  "clean_context ctx \<longleftrightarrow> hm_wf ctx \<and> (\<forall>(k, v)\<in>set ctx. clean_key k)"

definition context_pairs :: "(string, string) hashmap \<Rightarrow> (string \<times> string) list" where
  "context_pairs ctx = sort (map (\<lambda>(k, v). (k, percent_encode v)) ctx)"

lemma context_segment_alt:
  "context_segment ctx = join ''&'' (map (\<lambda>(k, v). k @ ''='' @ v) (context_pairs ctx))"
  by (simp add: context_segment_def context_pairs_def Let_def)

lemma context_pairs_set:
  "set (context_pairs ctx) = (\<lambda>(k, v). (k, percent_encode v)) ` set ctx"
  by (simp add: context_pairs_def)

lemma pair_item_inj:
  assumes "clean_key k" "clean_key k'" "k @ ''='' @ v = k' @ ''='' @ v'"
  shows "k = k' \<and> v = v'"
proof -
  have "split_once (CHR ''='') (k @ ''='' @ v) = Some (k, v)"
    "split_once (CHR ''='') (k' @ ''='' @ v') = Some (k', v')"
    using assms(1,2) by (simp_all add: clean_key_def split_once_append)
  then show ?thesis
    unfolding assms(3) by simp
qed

lemma items_inj:
  assumes "\<forall>(k, v)\<in>set xs. clean_key k" "\<forall>(k, v)\<in>set ys. clean_key k"
    and "map (\<lambda>(k, v). k @ ''='' @ v) xs = map (\<lambda>(k, v). k @ ''='' @ v) ys"
  shows "xs = ys"
  using assms
proof (induction xs arbitrary: ys)
  case (Cons x xs)
  from Cons.prems(3) obtain y zs where ys: "ys = y # zs" by (cases ys) auto
  obtain k v where x: "x = (k, v)" by (cases x)
  obtain k' v' where y: "y = (k', v')" by (cases y)
  have "k @ ''='' @ v = k' @ ''='' @ v'" "xs = zs"
    using Cons.prems Cons.IH [of zs] unfolding ys x y by simp_all
  moreover have "clean_key k" "clean_key k'"
    using Cons.prems(1,2) unfolding ys x y by simp_all
  ultimately show ?case
    using pair_item_inj unfolding ys x y by blast
qed simp

lemma join_items_inj:
  assumes "\<forall>x\<in>set xs. CHR ''&'' \<notin> set x \<and> x \<noteq> []" "\<forall>y\<in>set ys. CHR ''&'' \<notin> set y \<and> y \<noteq> []"
    and "join ''&'' xs = join ''&'' ys"
  shows "xs = ys"
proof -
  have nil: "join ''&'' zs = [] \<longleftrightarrow> zs = []" if "\<forall>z\<in>set zs. z \<noteq> []" for zs
    using that by (induction zs rule: induct_list012) auto
  show ?thesis
  proof (cases "xs = []")
    case True
    then show ?thesis using assms nil [of ys] by auto
  next
    case False
    then have "ys \<noteq> []" using assms nil [of xs] by auto
    with False have "split_on (CHR ''&'') (join ''&'' xs) = xs" "split_on (CHR ''&'') (join ''&'' ys) = ys"
      using assms(1,2) by (simp_all add: split_on_join)
    then show ?thesis
      unfolding assms(3) by simp
  qed
qed

lemma context_segment_eq:
  assumes "clean_context c1" "clean_context c2"
  shows "context_segment c1 = context_segment c2 \<longleftrightarrow> set c1 = set c2"
proof
  let ?f = "\<lambda>(k, v). k @ ''='' @ v" and ?e = "\<lambda>(k, v). (k :: string, percent_encode v)"
  assume eq: "context_segment c1 = context_segment c2"
  have items: "\<forall>x\<in>set (map ?f (context_pairs c)). CHR ''&'' \<notin> set x \<and> x \<noteq> []"
    and keys: "\<forall>(k, v)\<in>set (context_pairs c). clean_key k" if "clean_context c" for c
    using that percent_encode_clean by (auto simp: clean_context_def context_pairs_set clean_key_def)
  have "map ?f (context_pairs c1) = map ?f (context_pairs c2)"
    using items assms eq unfolding context_segment_alt by (intro join_items_inj) auto
  then have "context_pairs c1 = context_pairs c2"
    using keys assms by (intro items_inj) auto
  then have "?e ` set c1 = ?e ` set c2"
    using context_pairs_set by metis
  moreover have "inj ?e"
    by (auto simp: inj_def percent_encode_eq)
  ultimately show "set c1 = set c2"
    by (simp add: inj_image_eq_iff)
next
  assume eq: "set c1 = set c2"
  have "distinct c1" "distinct c2"
    using assms by (auto simp: clean_context_def hm_wf_def distinct_map)
  then have "mset c1 = mset c2"
    using eq set_eq_iff_mset_eq_distinct by blast
  then have "mset (context_pairs c1) = mset (map (\<lambda>(k, v). (k, percent_encode v)) c2)"
    by (simp add: context_pairs_def)
  moreover have "sorted (context_pairs c1)"
    by (simp add: context_pairs_def)
  ultimately have "context_pairs c2 = context_pairs c1"
    unfolding context_pairs_def [of c2] by (rule properties_for_sort)
  then show "context_segment c1 = context_segment c2"
    by (simp add: context_segment_alt)
qed

lemma segment_no_colon: "clean_context ctx \<Longrightarrow> CHR '':'' \<notin> set (context_segment ctx)"
proof
  assume clean: "clean_context ctx" and "CHR '':'' \<in> set (context_segment ctx)"
  then obtain k v where "(k, v) \<in> set (context_pairs ctx)" "CHR '':'' \<in> set (k @ ''='' @ v)"
    unfolding context_segment_alt by (auto dest!: join_mem)
  then show False
    using clean percent_encode_clean(1)
    by (auto simp: context_pairs_set clean_context_def clean_key_def)
qed

lemma repo_key_scoped:
  "r_context r = None \<Longrightarrow>
     repo_key (with_context ctx r) key = r_prefix r @ context_segment ctx @ '':'' @ key"
  by (simp add: repo_key_def with_context_def Let_def)

lemma scoped_key_eq:
  assumes "clean_context c1" "clean_context c2" "r_context r = None"
  shows "repo_key (with_context c1 r) k1 = repo_key (with_context c2 r) k2
    \<longleftrightarrow> set c1 = set c2 \<and> k1 = k2"
proof
  assume "repo_key (with_context c1 r) k1 = repo_key (with_context c2 r) k2"
  then have eq: "context_segment c1 @ CHR '':'' # k1 = context_segment c2 @ CHR '':'' # k2"
    using assms(3) by (simp add: repo_key_scoped)
  have "split_once (CHR '':'') (context_segment c1 @ CHR '':'' # k1) = Some (context_segment c1, k1)"
    "split_once (CHR '':'') (context_segment c2 @ CHR '':'' # k2) = Some (context_segment c2, k2)"
    using assms(1,2) by (simp_all add: split_once_append segment_no_colon)
  then have "context_segment c1 = context_segment c2 \<and> k1 = k2"
    unfolding eq by simp
  then show "set c1 = set c2 \<and> k1 = k2"
    using context_segment_eq [OF assms(1,2)] by simp
next
  assume "set c1 = set c2 \<and> k1 = k2"
  then show "repo_key (with_context c1 r) k1 = repo_key (with_context c2 r) k2"
    using context_segment_eq [OF assms(1,2)] assms(3) by (simp add: repo_key_scoped)
qed

lemma with_context_store [simp]: "r_store (with_context ctx r) = r_store r"
  by (simp add: with_context_def Let_def)

section \<open>Typed operations over a reliable store\<close>

definition typed_read :: "(bytes \<Rightarrow> string + 'v) \<Rightarrow> bytes option \<Rightarrow> CacheError + 'v option" where
  "typed_read dec b =
     (case b of None \<Rightarrow> Inr None
      | Some x \<Rightarrow> (case dec x of Inl m \<Rightarrow> Inl (Serialization m) | Inr v \<Rightarrow> Inr (Some v)))"

context reliable_store
begin

lemma repo_get_eq:
  assumes "r_store r = ops"
  shows "repo_get dec t r key s =
    (typed_read dec (view t s (repo_key r key)), snd (op_get ops t (repo_key r key) s))"
  using get_result [of t "repo_key r key" s] assms
  by (cases "op_get ops t (repo_key r key) s")
    (auto simp: repo_get_def typed_read_def split: option.splits sum.splits)

lemma repo_put_eq:
  assumes "r_store r = ops" "enc v = Inr b"
  shows "repo_put enc t r key v ttl s = (Inr (), snd (op_put ops t (repo_key r key) b ttl s))"
  using put_result [of t "repo_key r key" b ttl s] assms
  by (cases "op_put ops t (repo_key r key) b ttl s") (auto simp: repo_put_def)

lemma put_get:
  assumes "r_store r = ops" "enc v = Inr b" "dec b = Inr v" "t \<le> t'"
  shows "fst (repo_get dec t' r key (snd (repo_put enc t r key v ttl s)))
    = Inr (if ttl = 0 \<or> t' < t + ttl then Some v else None)"
  using assms by (simp add: repo_get_eq repo_put_eq put_view typed_read_def)

lemma put_other:
  assumes "r_store r1 = ops" "r_store r2 = ops" "repo_key r1 k1 \<noteq> repo_key r2 k2" "t \<le> t'"
  shows "fst (repo_get dec t' r2 k2 (snd (repo_put enc t r1 k1 v ttl s)))
    = fst (repo_get dec t' r2 k2 s)"
proof (cases "enc v")
  case (Inl m)
  then show ?thesis by (simp add: repo_put_def)
next
  case (Inr b)
  with assms show ?thesis by (simp add: repo_get_eq repo_put_eq put_view)
qed

lemma pull_removes:
  assumes "r_store r = ops" "t \<le> t'" "t' \<le> t''"
    and "typed_read dec (view t s (repo_key r key)) = Inr x"
  shows "fst (repo_pull dec t t' r key s) = Inr x
    \<and> fst (repo_get dec t'' r key (snd (repo_pull dec t t' r key s))) = Inr None"
proof -
  let ?s1 = "snd (op_get ops t (repo_key r key) s)"
  have "repo_pull dec t t' r key s = (Inr x, snd (op_forget ops t' (repo_key r key) ?s1))"
    using assms forget_result [of t' "repo_key r key" ?s1]
    by (cases "op_forget ops t' (repo_key r key) ?s1") (simp add: repo_pull_def repo_get_eq)
  then show ?thesis
    using assms by (simp add: repo_get_eq forget_view typed_read_def)
qed

lemma remember_hit:
  assumes "r_store r = ops" "typed_read dec (view t s (repo_key r key)) = Inr (Some v)"
  shows "repo_remember enc dec t t' r key ttl producer s
    = (Inr v, snd (op_get ops t (repo_key r key) s))"
  using assms by (simp add: repo_remember_def repo_get_eq)

lemma remember_miss:
  assumes "r_store r = ops" "view t s (repo_key r key) = None"
    and "producer (snd (op_get ops t (repo_key r key) s)) = (Inr v, s2)" "enc v = Inr b"
  shows "repo_remember enc dec t t' r key ttl producer s
    = (Inr v, snd (repo_put enc t' r key v ttl s2))"
  using assms by (simp add: repo_remember_def repo_get_eq typed_read_def repo_put_eq)

lemma remember_fails:
  assumes "r_store r = ops" "view t s (repo_key r key) = None"
    and "producer (snd (op_get ops t (repo_key r key) s)) = (Inl e, s2)"
  shows "repo_remember enc dec t t' r key ttl producer s = (Inl e, s2)"
  using assms by (simp add: repo_remember_def repo_get_eq typed_read_def)

end

section \<open>Properties\<close>

text \<open>The codec used by the witnesses: a number as its decimal text.\<close>

definition enc_nat :: "nat \<Rightarrow> string + bytes" where
  "enc_nat n = Inr (show_nat n)"

definition dec_nat :: "bytes \<Rightarrow> string + nat" where
  "dec_nat b = (case parse_u64 b of None \<Rightarrow> Inl ''not a number'' | Some n \<Rightarrow> Inr n)"

lemma dec_enc_nat: "n < 2 ^ 64 \<Longrightarrow> dec_nat (show_nat n) = Inr n"
  by (simp add: dec_nat_def parse_u64_show_nat)

text \<open>Typed round trip: when the codec decodes what it encodes, a value put through a
  repository over a memory store is read back until its time to live has passed (for ever when
  that is zero), and is absent afterwards. The codec hypothesis is that of the JSON library:
  decoding the encoded form of the value gives the value.\<close>

lemma repository_roundtrip:
  assumes "r_store r = mem_at checks a" "enc v = Inr b" "dec b = Inr v" "t \<le> t'"
  shows "fst (repo_put enc t r key v ttl h) = Inr ()
    \<and> fst (repo_get dec t' r key (snd (repo_put enc t r key v ttl h)))
      = Inr (if ttl = 0 \<or> t' < t + ttl then Some v else None)"
  using heap.put_get [OF assms(1), of enc v b dec t t' key ttl h]
    heap.repo_put_eq [OF assms(1), of enc v b t key ttl h] assms(2-4) by simp

lemma repository_roundtrip_example:
  "fst (repo_get dec_nat 7 (repo_new (mem_at True 0)) ''n''
     (snd (repo_put enc_nat 5 (repo_new (mem_at True 0)) ''n'' 42 3 (\<lambda>_. Map.empty)))) = Inr (Some 42)"
  using repository_roundtrip [of "repo_new (mem_at True 0)" True 0 enc_nat 42 "show_nat 42" dec_nat 5 7
      "''n''" 3 "\<lambda>_. Map.empty"]
  by (simp add: repo_new_def enc_nat_def dec_enc_nat)



text \<open>Without the restriction on keys the scoping is not collision free: a scoped key is
  always also the key of an unscoped read (its own segment, a colon and the key), and two
  different contexts can share a segment because the keys of a context are not encoded.\<close>

lemma repository_context_collision:
  assumes "r_context r = None"
  shows "repo_key (with_context ctx r) key = repo_key r (context_segment ctx @ '':'' @ key)
    \<and> with_context [(''a'', ''1''), (''b'', ''2'')] r = with_context [(''a=1&b'', ''2'')] r"
proof
  show "repo_key (with_context ctx r) key = repo_key r (context_segment ctx @ '':'' @ key)"
    using assms by (simp add: repo_key_scoped) (simp add: repo_key_def)
  have "context_segment [(''a'', ''1''), (''b'', ''2'')] = context_segment [(''a=1&b'', ''2'')]"
    by code_simp
  then show "with_context [(''a'', ''1''), (''b'', ''2'')] r = with_context [(''a=1&b'', ''2'')] r"
    by (simp add: with_context_def)
qed

lemma repository_context_collision_example:
  "repo_key (with_context [(''tenant'', ''1'')] (repo_new (mem_at True 0))) ''n''
   = ''-cache-tenant=1:n'' \<and>
   repo_key (repo_new (mem_at True 0)) ''tenant=1:n'' = ''-cache-tenant=1:n''"
proof -
  have "context_segment [(''tenant'', ''1'')] = ''tenant=1''" by code_simp
  then show ?thesis
    using repository_context_collision [of "repo_new (mem_at True 0)" "[(''tenant'', ''1'')]" "''n''"]
    by (simp add: repo_new_def repo_key_def DEFAULT_PREFIX_def)
qed

text \<open>\<^verbatim>\<open>remember\<close>: a live value that decodes is returned and the producer has no
  say; on a miss the producer's value is returned and is what later reads find until its time to
  live has passed; when the producer fails its error is returned and nothing is cached. The
  codec hypothesis is that of the JSON library.\<close>

lemma repository_remember:
  assumes "r_store r = mem_at checks a" "t \<le> t'" "t' \<le> t''"
    and "\<And>w. \<exists>b. enc w = Inr b \<and> dec b = Inr w"
  shows "(case typed_read dec (heap_view a t h (repo_key r key)) of
      Inl e \<Rightarrow> fst (repo_remember enc dec t t' r key ttl producer h) = Inl e
    | Inr (Some v) \<Rightarrow> fst (repo_remember enc dec t t' r key ttl producer h) = Inr v
    | Inr None \<Rightarrow>
        (case producer (snd (op_get (mem_at checks a) t (repo_key r key) h)) of
           (Inl e, h2) \<Rightarrow> repo_remember enc dec t t' r key ttl producer h = (Inl e, h2)
         | (Inr v, h2) \<Rightarrow> fst (repo_remember enc dec t t' r key ttl producer h) = Inr v
             \<and> fst (repo_get dec t'' r key (snd (repo_remember enc dec t t' r key ttl producer h)))
               = Inr (if ttl = 0 \<or> t'' < t' + ttl then Some v else None)))"
proof (cases "typed_read dec (heap_view a t h (repo_key r key))")
  case (Inl e)
  then show ?thesis using assms(1) by (simp add: repo_remember_def heap.repo_get_eq)
next
  case (Inr x)
  show ?thesis
  proof (cases x)
    case (Some v)
    with Inr show ?thesis using heap.remember_hit [OF assms(1), of dec t h key v] by simp
  next
    case None
    with Inr have miss: "heap_view a t h (repo_key r key) = None"
      by (auto simp: typed_read_def split: option.splits sum.splits)
    obtain y h2 where pr: "producer (snd (op_get (mem_at checks a) t (repo_key r key) h)) = (y, h2)"
      by fastforce
    show ?thesis
    proof (cases y)
      case (Inl e)
      then show ?thesis
        using heap.remember_fails [OF assms(1) miss, of producer e h2] pr None \<open>typed_read _ _ = Inr x\<close> by simp
    next
      case (Inr v)
      obtain b where b: "enc v = Inr b" "dec b = Inr v" using assms(4) by blast
      show ?thesis
        using heap.remember_miss [OF assms(1) miss, of producer v h2 enc b]
          heap.put_get [OF assms(1), of enc v b dec t' t'' key ttl h2] b assms(3) pr None \<open>typed_read _ _ = Inr x\<close> \<open>y = Inr v\<close> by simp
    qed
  qed
qed

lemma repository_remember_example:
  "fst (repo_remember Inr Inr 1 2 (repo_new (mem_at True 0)) ''n'' 5 (\<lambda>h. (Inr ''x'', h)) (\<lambda>_. Map.empty))
     = Inr ''x''
   \<and> fst (repo_get Inr 6 (repo_new (mem_at True 0)) ''n''
      (snd (repo_remember Inr Inr 1 2 (repo_new (mem_at True 0)) ''n'' 5 (\<lambda>h. (Inr ''x'', h))
        (\<lambda>_. Map.empty)))) = Inr (Some ''x'')"
  using repository_remember [where r = "repo_new (mem_at True 0)" and checks = True and a = 0
      and t = 1 and t' = 2 and t'' = 6 and enc = Inr and dec = Inr and h = "\<lambda>_. Map.empty"
      and key = "''n''" and ttl = 5 and producer = "\<lambda>h. (Inr ''x'', h)"]
  by (simp add: repo_new_def typed_read_def heap_view_def mem_defs)

end
