(* ===== verification/Cache_Lock.thy ===== *)
theory Cache_Lock
  imports Cache
begin

text \<open>
  The atomic lock of \<^verbatim>\<open>rustasea-cache/src/lock.rs\<close> as a concurrent system. Any number
  of clients share one store; every step is one call (acquisition, contended acquisition,
  release, drop of a guard), one run of a task that a dropped guard has spawned, one cache
  operation on a key that is no lock key, or the passing of time. Beside each guard the state
  keeps the instant at which its lease runs out, which the code does not store.

  Mutual exclusion and the safety of a stale guard are invariants of the reachable states,
  proved in the locale \<open>reliable_store\<close> and stated for the in-memory store. The second
  half is about \<^verbatim>\<open>Lock::block\<close>: it returns, and with no interference it outlives a
  crashed holder.
\<close>

section \<open>The lock system\<close>

record 's lock_sys =
  ls_now :: nat
  ls_store :: 's
  ls_guards :: "(lock_guard \<times> nat option) list"
  ls_tasks :: "(string \<times> bytes) list"
  ls_used :: "string set"

definition in_lease :: "nat \<Rightarrow> nat option \<Rightarrow> bool" where
  "in_lease t lease \<longleftrightarrow> (case lease of None \<Rightarrow> True | Some e \<Rightarrow> t < e)"

definition lock_init :: "nat \<Rightarrow> 's \<Rightarrow> 's lock_sys" where
  "lock_init t s = \<lparr>ls_now = t, ls_store = s, ls_guards = [], ls_tasks = [], ls_used = {}\<rparr>"

inductive lock_step ::
  "'s store_ops \<Rightarrow> (nat \<Rightarrow> string) \<Rightarrow> string set \<Rightarrow> 's lock_sys \<Rightarrow> 's lock_sys \<Rightarrow> bool"
  for ops :: "'s store_ops" and dur :: "nat \<Rightarrow> string" and locks :: "string set" where
  step_tick: "ls_now \<sigma> \<le> t \<Longrightarrow> lock_step ops dur locks \<sigma> (\<sigma>\<lparr>ls_now := t\<rparr>)"
| step_acquire:
    "uuid \<notin> ls_used \<sigma> \<Longrightarrow> lk_key lk \<in> locks
     \<Longrightarrow> lock_get ops dur (ls_now \<sigma>) uuid lk (ls_store \<sigma>) = (Inr (Some g), s')
     \<Longrightarrow> lock_step ops dur locks \<sigma>
          (\<sigma>\<lparr>ls_store := s', ls_guards := ls_guards \<sigma> @ [(g, expiry (ls_now \<sigma>) (lk_ttl lk))],
             ls_used := insert uuid (ls_used \<sigma>)\<rparr>)"
| step_contended:
    "uuid \<notin> ls_used \<sigma> \<Longrightarrow> lk_key lk \<in> locks
     \<Longrightarrow> lock_get ops dur (ls_now \<sigma>) uuid lk (ls_store \<sigma>) = (Inr None, s')
     \<Longrightarrow> lock_step ops dur locks \<sigma>
          (\<sigma>\<lparr>ls_store := s', ls_used := insert uuid (ls_used \<sigma>)\<rparr>)"
| step_release:
    "i < length (ls_guards \<sigma>) \<Longrightarrow> ls_guards \<sigma> ! i = (g, lease)
     \<Longrightarrow> guard_release ops (ls_now \<sigma>) g (ls_store \<sigma>) = (r, g', s')
     \<Longrightarrow> lock_step ops dur locks \<sigma>
          (\<sigma>\<lparr>ls_store := s', ls_guards := (ls_guards \<sigma>)[i := (g', lease)]\<rparr>)"
| step_drop:
    "i < length (ls_guards \<sigma>) \<Longrightarrow> ls_guards \<sigma> ! i = (g, lease)
     \<Longrightarrow> guard_drop g = (g', task)
     \<Longrightarrow> lock_step ops dur locks \<sigma>
          (\<sigma>\<lparr>ls_guards := (ls_guards \<sigma>)[i := (g', lease)],
             ls_tasks := ls_tasks \<sigma> @ (case task of None \<Rightarrow> [] | Some x \<Rightarrow> [x])\<rparr>)"
| step_task:
    "i < length (ls_tasks \<sigma>)
     \<Longrightarrow> lock_step ops dur locks \<sigma>
          (\<sigma>\<lparr>ls_store := run_drop_task ops (ls_now \<sigma>) (ls_tasks \<sigma> ! i) (ls_store \<sigma>),
             ls_tasks := take i (ls_tasks \<sigma>) @ drop (Suc i) (ls_tasks \<sigma>)\<rparr>)"
| step_put:
    "k \<notin> locks \<Longrightarrow> lock_step ops dur locks \<sigma>
       (\<sigma>\<lparr>ls_store := snd (op_put ops (ls_now \<sigma>) k v ttl (ls_store \<sigma>))\<rparr>)"
| step_forget:
    "k \<notin> locks \<Longrightarrow> lock_step ops dur locks \<sigma>
       (\<sigma>\<lparr>ls_store := snd (op_forget ops (ls_now \<sigma>) k (ls_store \<sigma>))\<rparr>)"
| step_get:
    "lock_step ops dur locks \<sigma>
       (\<sigma>\<lparr>ls_store := snd (op_get ops (ls_now \<sigma>) k (ls_store \<sigma>))\<rparr>)"

inductive lock_reach ::
  "'s store_ops \<Rightarrow> (nat \<Rightarrow> string) \<Rightarrow> string set \<Rightarrow> 's lock_sys \<Rightarrow> bool"
  for ops :: "'s store_ops" and dur :: "nat \<Rightarrow> string" and locks :: "string set" where
  reach_init: "lock_reach ops dur locks (lock_init t s)"
| reach_step: "lock_reach ops dur locks \<sigma> \<Longrightarrow> lock_step ops dur locks \<sigma> \<sigma>'
     \<Longrightarrow> lock_reach ops dur locks \<sigma>'"

text \<open>The guard holds its lease: it is neither released nor past its lease.\<close>

definition guard_live :: "nat \<Rightarrow> lock_guard \<times> nat option \<Rightarrow> bool" where
  "guard_live t gl \<longleftrightarrow> \<not> g_released (fst gl) \<and> in_lease t (snd gl)"

lemma owner_token_inj [simp]: "owner_token u = owner_token u' \<longleftrightarrow> u = u'"
  by (simp add: owner_token_def)

lemma in_lease_expiry: "t \<le> t' \<Longrightarrow> in_lease t' (expiry t ttl) \<longleftrightarrow> ttl = 0 \<or> t' < t + ttl"
  by (auto simp: in_lease_def expiry_def)

lemma guard_live_mono: "guard_live t' gl \<Longrightarrow> t \<le> t' \<Longrightarrow> guard_live t gl"
  by (auto simp: guard_live_def in_lease_def split: option.splits)

text \<open>What every release path does to a guard: it keeps key and token and marks it.\<close>

lemma guard_release_marks:
  "guard_release ops t g s = (r, g', s') \<Longrightarrow>
     g_key g' = g_key g \<and> g_token g' = g_token g \<and> g_released g'"
  by (auto simp: guard_release_def split: if_splits sum.splits prod.splits)

lemma guard_drop_marks:
  "guard_drop g = (g', task) \<Longrightarrow> g_key g' = g_key g \<and> g_token g' = g_token g \<and> g_released g'
     \<and> (\<forall>x. task = Some x \<longrightarrow> x = (g_key g, g_token g))"
  by (auto simp: guard_drop_def split: if_splits)

section \<open>The invariant\<close>

definition tokens_inv :: "'s lock_sys \<Rightarrow> bool" where
  "tokens_inv \<sigma> \<longleftrightarrow>
     distinct (map (g_token \<circ> fst) (ls_guards \<sigma>))
     \<and> (\<forall>gl\<in>set (ls_guards \<sigma>). g_token (fst gl) \<in> owner_token ` ls_used \<sigma>)
     \<and> (\<forall>x\<in>set (ls_tasks \<sigma>). \<exists>gl\<in>set (ls_guards \<sigma>).
          g_released (fst gl) \<and> g_token (fst gl) = snd x)"

definition lease_inv ::
  "(nat \<Rightarrow> 's \<Rightarrow> string \<Rightarrow> bytes option) \<Rightarrow> string set \<Rightarrow> 's lock_sys \<Rightarrow> bool" where
  "lease_inv view locks \<sigma> \<longleftrightarrow>
     (\<forall>gl\<in>set (ls_guards \<sigma>). g_key (fst gl) \<in> locks
        \<and> (\<forall>t\<ge>ls_now \<sigma>. guard_live t gl
             \<longrightarrow> view t (ls_store \<sigma>) (g_key (fst gl)) = Some (g_token (fst gl))))"

lemma map_update_same:
  "i < length xs \<Longrightarrow> f y = f (xs ! i) \<Longrightarrow> map f (xs[i := y]) = map f xs"
  by (metis list_update_id map_update)

lemma distinct_map_same:
  assumes "distinct (map f xs)" "x \<in> set xs" "y \<in> set xs" "f x = f y"
  shows "x = y"
  using assms by (metis distinct_map inj_on_def)

text \<open>Replacing a guard by its released form keeps the facts on tokens.\<close>

lemma tokens_mark:
  assumes "tokens_inv \<sigma>" "i < length (ls_guards \<sigma>)" "ls_guards \<sigma> ! i = (g, lease)"
    and "g_token g' = g_token g" "g_released g'"
    and "ls_guards \<sigma>' = (ls_guards \<sigma>)[i := (g', lease)]" "ls_used \<sigma>' = ls_used \<sigma>"
    and "set (ls_tasks \<sigma>') \<subseteq> set (ls_tasks \<sigma>) \<union> {(k, g_token g)}"
  shows "tokens_inv \<sigma>'"
proof -
  have same: "map (g_token \<circ> fst) (ls_guards \<sigma>') = map (g_token \<circ> fst) (ls_guards \<sigma>)"
    using assms by (simp add: map_update_same)
  have toks: "(g_token \<circ> fst) ` set (ls_guards \<sigma>') = (g_token \<circ> fst) ` set (ls_guards \<sigma>)"
    using arg_cong [OF same, of set] by simp
  have new: "(g', lease) \<in> set (ls_guards \<sigma>')"
    using assms by (simp add: set_update_memI)
  have "\<exists>gl\<in>set (ls_guards \<sigma>'). g_released (fst gl) \<and> g_token (fst gl) = snd x"
    if "x \<in> set (ls_tasks \<sigma>')" for x
  proof (cases "snd x = g_token g")
    case True
    then show ?thesis using new assms(4,5) by (intro bexI [of _ "(g', lease)"]) auto
  next
    case False
    with that assms(8) have "x \<in> set (ls_tasks \<sigma>)" by auto
    with assms(1) obtain gl where gl: "gl \<in> set (ls_guards \<sigma>)" "g_released (fst gl)"
      "g_token (fst gl) = snd x"
      by (auto simp: tokens_inv_def)
    with False assms(2,3) obtain j where "j < length (ls_guards \<sigma>)" "ls_guards \<sigma> ! j = gl" "j \<noteq> i"
      by (metis fst_conv in_set_conv_nth)
    then have "gl \<in> set (ls_guards \<sigma>')"
      using assms(6) by (metis length_list_update nth_list_update_neq nth_mem)
    with gl show ?thesis by blast
  qed
  moreover have "\<forall>gl\<in>set (ls_guards \<sigma>'). g_token (fst gl) \<in> owner_token ` ls_used \<sigma>'"
  proof
    fix gl
    assume "gl \<in> set (ls_guards \<sigma>')"
    then have "g_token (fst gl) \<in> (g_token \<circ> fst) ` set (ls_guards \<sigma>)"
      unfolding toks [symmetric] by simp
    with assms(1,7) show "g_token (fst gl) \<in> owner_token ` ls_used \<sigma>'"
      unfolding tokens_inv_def by auto
  qed
  ultimately show ?thesis
    using same assms(1) by (simp add: tokens_inv_def)
qed

text \<open>A step that keeps the store and marks one guard keeps the leases.\<close>

lemma lease_mark:
  assumes "lease_inv view locks \<sigma>" "i < length (ls_guards \<sigma>)" "ls_guards \<sigma> ! i = (g, lease)"
    and "g_key g' = g_key g" "g_released g'"
    and "ls_guards \<sigma>' = (ls_guards \<sigma>)[i := (g', lease)]" "ls_now \<sigma>' = ls_now \<sigma>"
    and keep: "\<And>gl t. gl \<in> set (ls_guards \<sigma>) \<Longrightarrow> gl \<noteq> (g, lease) \<Longrightarrow> ls_now \<sigma> \<le> t
      \<Longrightarrow> guard_live t gl \<Longrightarrow> view t (ls_store \<sigma>') (g_key (fst gl)) = view t (ls_store \<sigma>) (g_key (fst gl))"
    and dist: "distinct (ls_guards \<sigma>)"
  shows "lease_inv view locks \<sigma>'"
proof -
  have "set (ls_guards \<sigma>') = insert (g', lease) (set (ls_guards \<sigma>) - {(g, lease)})"
    using assms(2,3,6) dist by (simp add: set_update_distinct)
  moreover have "\<not> guard_live t (g', lease)" for t
    using assms(5) by (simp add: guard_live_def)
  moreover have "g_key g \<in> locks"
    using assms(1-3) by (metis fst_conv lease_inv_def nth_mem)
  ultimately show ?thesis
    using assms(1,4,7) keep unfolding lease_inv_def by auto
qed

lemma distinct_guards: "tokens_inv \<sigma> \<Longrightarrow> distinct (ls_guards \<sigma>)"
  by (simp add: tokens_inv_def distinct_map)

lemma same_token_same_guard:
  "tokens_inv \<sigma> \<Longrightarrow> x \<in> set (ls_guards \<sigma>) \<Longrightarrow> y \<in> set (ls_guards \<sigma>)
     \<Longrightarrow> g_token (fst x) = g_token (fst y) \<Longrightarrow> x = y"
  using distinct_map_same [of "g_token \<circ> fst" "ls_guards \<sigma>" x y] by (simp add: tokens_inv_def)

section \<open>The invariant holds on every reachable state\<close>

context reliable_store
begin

lemma lock_get_acquired:
  assumes "lock_get ops dur t uuid lk s = (Inr (Some g), s')"
  shows "g = \<lparr>g_key = lk_key lk, g_token = owner_token uuid, g_released = False\<rparr>"
    "view t s (lk_key lk) = None"
    "s' = snd (op_put_if_absent ops t (lk_key lk) (owner_token uuid) (lk_ttl lk) s)"
  using assms pia_result [of t "lk_key lk" "owner_token uuid" "lk_ttl lk" s]
  by (auto simp: lock_get_def Let_def split: prod.splits sum.splits bool.splits)

lemma lock_get_contended:
  assumes "lock_get ops dur t uuid lk s = (Inr None, s')"
  shows "view t s (lk_key lk) \<noteq> None"
    "s' = snd (op_put_if_absent ops t (lk_key lk) (owner_token uuid) (lk_ttl lk) s)"
  using assms pia_result [of t "lk_key lk" "owner_token uuid" "lk_ttl lk" s]
  by (auto simp: lock_get_def Let_def split: prod.splits sum.splits bool.splits)

lemma lock_get_cases:
  "lock_get ops dur t uuid lk s =
     (Inr (if view t s (lk_key lk) = None
           then Some \<lparr>g_key = lk_key lk, g_token = owner_token uuid, g_released = False\<rparr>
           else None),
      snd (op_put_if_absent ops t (lk_key lk) (owner_token uuid) (lk_ttl lk) s))"
  using pia_result [of t "lk_key lk" "owner_token uuid" "lk_ttl lk" s]
  by (cases "op_put_if_absent ops t (lk_key lk) (owner_token uuid) (lk_ttl lk) s")
    (auto simp: lock_get_def Let_def)

lemma guard_release_store:
  "snd (snd (guard_release ops t g s)) =
     (if g_released g then s else snd (op_compare_and_delete ops t (g_key g) (g_token g) s))"
  by (auto simp: guard_release_def split: prod.splits sum.splits)

text \<open>A compare-and-delete with the token of another guard leaves a live lease in place.\<close>

lemma cad_other:
  assumes inv: "lease_inv view locks \<sigma>" and gl: "gl \<in> set (ls_guards \<sigma>)"
    and live: "guard_live t gl" "ls_now \<sigma> \<le> t" and ne: "g_token (fst gl) \<noteq> tok"
  shows "view t (snd (op_compare_and_delete ops (ls_now \<sigma>) k tok (ls_store \<sigma>))) (g_key (fst gl))
    = view t (ls_store \<sigma>) (g_key (fst gl))"
proof -
  have "guard_live (ls_now \<sigma>) gl"
    using live by (rule guard_live_mono)
  with inv gl have "view (ls_now \<sigma>) (ls_store \<sigma>) (g_key (fst gl)) = Some (g_token (fst gl))"
    by (auto simp: lease_inv_def)
  with ne show ?thesis
    using cad_view [OF live(2), of k tok "ls_store \<sigma>"] by auto
qed

lemma acquire_keeps:
  assumes tok: "tokens_inv \<sigma>" and lease: "lease_inv view locks \<sigma>"
    and fresh: "uuid \<notin> ls_used \<sigma>" and key: "lk_key lk \<in> locks"
    and get: "lock_get ops dur (ls_now \<sigma>) uuid lk (ls_store \<sigma>) = (Inr (Some g), s')"
    and \<sigma>': "\<sigma>' = \<sigma>\<lparr>ls_store := s',
      ls_guards := ls_guards \<sigma> @ [(g, expiry (ls_now \<sigma>) (lk_ttl lk))],
      ls_used := insert uuid (ls_used \<sigma>)\<rparr>"
  shows "tokens_inv \<sigma>' \<and> lease_inv view locks \<sigma>'"
proof
  note acq = lock_get_acquired [OF get]
  have "owner_token uuid \<notin> owner_token ` ls_used \<sigma>"
    using fresh by auto
  then have "\<forall>gl\<in>set (ls_guards \<sigma>). g_token (fst gl) \<noteq> owner_token uuid"
    using tok by (auto simp: tokens_inv_def)
  then show "tokens_inv \<sigma>'"
    using tok acq(1) unfolding tokens_inv_def \<sigma>' by auto
  have view': "view t s' = (view t (ls_store \<sigma>))(lk_key lk :=
      (if in_lease t (expiry (ls_now \<sigma>) (lk_ttl lk)) then Some (owner_token uuid) else None))"
    if "ls_now \<sigma> \<le> t" for t
    using pia_view [OF that, of "lk_key lk" "owner_token uuid" "lk_ttl lk" "ls_store \<sigma>"] acq(2,3) that
    by (simp add: in_lease_expiry)
  have other: "g_key (fst gl) \<noteq> lk_key lk"
    if "gl \<in> set (ls_guards \<sigma>)" "guard_live t gl" "ls_now \<sigma> \<le> t" for gl t
    using lease that acq(2) guard_live_mono [OF that(2,3)] unfolding lease_inv_def by force
  have "g_key (fst gl) \<in> locks \<and> (\<forall>t\<ge>ls_now \<sigma>. guard_live t gl
      \<longrightarrow> view t s' (g_key (fst gl)) = Some (g_token (fst gl)))"
    if "gl \<in> set (ls_guards \<sigma>)" for gl
    using lease that other view' unfolding lease_inv_def by fastforce
  moreover have "view t s' (g_key g) = Some (g_token g)"
    if "ls_now \<sigma> \<le> t" "guard_live t (g, expiry (ls_now \<sigma>) (lk_ttl lk))" for t
    using that view' acq(1) by (simp add: guard_live_def)
  ultimately show "lease_inv view locks \<sigma>'"
    using key acq(1) unfolding lease_inv_def \<sigma>' by auto
qed

text \<open>A step that changes the store but leaves every live lease where it is.\<close>

lemma store_keeps:
  assumes "tokens_inv \<sigma>" "lease_inv view locks \<sigma>"
    and "\<And>gl t. gl \<in> set (ls_guards \<sigma>) \<Longrightarrow> ls_now \<sigma> \<le> t \<Longrightarrow> guard_live t gl
      \<Longrightarrow> view t s' (g_key (fst gl)) = view t (ls_store \<sigma>) (g_key (fst gl))"
    and "ls_guards \<sigma>' = ls_guards \<sigma>" "ls_store \<sigma>' = s'" "ls_now \<sigma>' = ls_now \<sigma>"
    and "set (ls_tasks \<sigma>') \<subseteq> set (ls_tasks \<sigma>)" "ls_used \<sigma> \<subseteq> ls_used \<sigma>'"
  shows "tokens_inv \<sigma>' \<and> lease_inv view locks \<sigma>'"
proof
  show "tokens_inv \<sigma>'"
    using assms(1,4,7,8) unfolding tokens_inv_def by fastforce
  show "lease_inv view locks \<sigma>'"
    using assms(2-6) unfolding lease_inv_def by simp
qed

lemma step_keeps:
  assumes "lock_step ops dur locks \<sigma> \<sigma>'" "tokens_inv \<sigma>" "lease_inv view locks \<sigma>"
  shows "tokens_inv \<sigma>' \<and> lease_inv view locks \<sigma>'"
  using assms
proof cases
  case (step_tick t)
  with assms show ?thesis by (simp add: tokens_inv_def lease_inv_def)
next
  case (step_acquire uuid lk g s')
  then show ?thesis using acquire_keeps [OF assms(2,3)] by blast
next
  case (step_contended uuid lk s')
  have "view t s' = view t (ls_store \<sigma>)" if "ls_now \<sigma> \<le> t" for t
    using lock_get_contended [OF step_contended(4)]
      pia_view [OF that, of "lk_key lk" "owner_token uuid" "lk_ttl lk" "ls_store \<sigma>"] by auto
  then show ?thesis
    using step_contended by (intro store_keeps [OF assms(2,3), of s']) auto
next
  case (step_release i g lease r g' s')
  note marks = guard_release_marks [OF step_release(4)]
  have s': "s' = (if g_released g then ls_store \<sigma>
      else snd (op_compare_and_delete ops (ls_now \<sigma>) (g_key g) (g_token g) (ls_store \<sigma>)))"
    using guard_release_store [of "ls_now \<sigma>" g "ls_store \<sigma>"] step_release(4) by simp
  have mem: "(g, lease) \<in> set (ls_guards \<sigma>)"
    using step_release(2,3) nth_mem by fastforce
  have "view t s' (g_key (fst gl)) = view t (ls_store \<sigma>) (g_key (fst gl))"
    if "gl \<in> set (ls_guards \<sigma>)" "gl \<noteq> (g, lease)" "ls_now \<sigma> \<le> t" "guard_live t gl" for gl t
  proof -
    have "g_token (fst gl) \<noteq> g_token g"
      using same_token_same_guard [OF assms(2) that(1) mem] that(2) by auto
    then show ?thesis
      using cad_other [OF assms(3) that(1,4,3)] s' by simp
  qed
  then have "lease_inv view locks \<sigma>'"
    using step_release marks distinct_guards [OF assms(2)] by (intro lease_mark [OF assms(3)]) auto
  moreover have "tokens_inv \<sigma>'"
    using step_release marks by (intro tokens_mark [OF assms(2)]) auto
  ultimately show ?thesis by simp
next
  case (step_drop i g lease g' task)
  note marks = guard_drop_marks [OF step_drop(4)]
  have "lease_inv view locks \<sigma>'"
    using step_drop marks distinct_guards [OF assms(2)] by (intro lease_mark [OF assms(3)]) auto
  moreover have "tokens_inv \<sigma>'"
    using step_drop marks
    by (intro tokens_mark [OF assms(2), where k = "g_key g"]) (auto split: option.splits)
  ultimately show ?thesis by simp
next
  case (step_task i)
  let ?x = "ls_tasks \<sigma> ! i"
  have "?x \<in> set (ls_tasks \<sigma>)" using step_task(2) by simp
  then obtain old where old: "old \<in> set (ls_guards \<sigma>)" "g_released (fst old)"
    "g_token (fst old) = snd ?x"
    using assms(2) unfolding tokens_inv_def by blast
  have "view t (run_drop_task ops (ls_now \<sigma>) ?x (ls_store \<sigma>)) (g_key (fst gl))
      = view t (ls_store \<sigma>) (g_key (fst gl))"
    if "gl \<in> set (ls_guards \<sigma>)" "ls_now \<sigma> \<le> t" "guard_live t gl" for gl t
  proof -
    have "g_token (fst gl) \<noteq> snd ?x"
      using same_token_same_guard [OF assms(2) that(1) old(1)] old that(3)
      by (auto simp: guard_live_def)
    then show ?thesis
      using cad_other [OF assms(3) that(1,3,2)] by (simp add: run_drop_task_def)
  qed
  moreover have "set (take i (ls_tasks \<sigma>) @ drop (Suc i) (ls_tasks \<sigma>)) \<subseteq> set (ls_tasks \<sigma>)"
    using set_take_subset set_drop_subset by fastforce
  ultimately show ?thesis
    using step_task
    by (intro store_keeps [OF assms(2,3), of "run_drop_task ops (ls_now \<sigma>) ?x (ls_store \<sigma>)"]) auto
next
  case (step_put k v ttl)
  have "g_key (fst gl) \<noteq> k" if "gl \<in> set (ls_guards \<sigma>)" for gl
    using that step_put(2) assms(3) by (auto simp: lease_inv_def)
  then show ?thesis
    using step_put put_view
    by (intro store_keeps [OF assms(2,3), of "snd (op_put ops (ls_now \<sigma>) k v ttl (ls_store \<sigma>))"]) auto
next
  case (step_forget k)
  have "g_key (fst gl) \<noteq> k" if "gl \<in> set (ls_guards \<sigma>)" for gl
    using that step_forget(2) assms(3) by (auto simp: lease_inv_def)
  then show ?thesis
    using step_forget forget_view
    by (intro store_keeps [OF assms(2,3), of "snd (op_forget ops (ls_now \<sigma>) k (ls_store \<sigma>))"]) auto
next
  case (step_get k)
  then show ?thesis
    using get_view
    by (intro store_keeps [OF assms(2,3), of "snd (op_get ops (ls_now \<sigma>) k (ls_store \<sigma>))"]) auto
qed

lemma reach_inv:
  "lock_reach ops dur locks \<sigma> \<Longrightarrow> tokens_inv \<sigma> \<and> lease_inv view locks \<sigma>"
proof (induction rule: lock_reach.induct)
  case (reach_init t s)
  show ?case by (simp add: lock_init_def tokens_inv_def lease_inv_def)
next
  case (reach_step \<sigma> \<sigma>')
  then show ?case using step_keeps by blast
qed

lemma live_guard_holds:
  assumes "lock_reach ops dur locks \<sigma>" "gl \<in> set (ls_guards \<sigma>)" "guard_live (ls_now \<sigma>) gl"
  shows "view (ls_now \<sigma>) (ls_store \<sigma>) (g_key (fst gl)) = Some (g_token (fst gl))"
  using reach_inv [OF assms(1)] assms(2,3) by (auto simp: lease_inv_def)

lemma one_live_guard:
  assumes reach: "lock_reach ops dur locks \<sigma>"
    and "i < length (ls_guards \<sigma>)" "j < length (ls_guards \<sigma>)"
    and "guard_live (ls_now \<sigma>) (ls_guards \<sigma> ! i)" "guard_live (ls_now \<sigma>) (ls_guards \<sigma> ! j)"
    and "g_key (fst (ls_guards \<sigma> ! i)) = g_key (fst (ls_guards \<sigma> ! j))"
  shows "i = j"
proof -
  have "g_token (fst (ls_guards \<sigma> ! i)) = g_token (fst (ls_guards \<sigma> ! j))"
    using live_guard_holds [OF reach, of "ls_guards \<sigma> ! i"]
      live_guard_holds [OF reach, of "ls_guards \<sigma> ! j"] assms by simp
  moreover have "tokens_inv \<sigma>" using reach_inv [OF reach] by simp
  ultimately show ?thesis
    using assms(2,3) distinct_guards same_token_same_guard
    by (metis nth_eq_iff_index_eq nth_mem)
qed

end

section \<open>Waiting for the lock\<close>

text \<open>The store that poll \<open>i\<close> of \<^verbatim>\<open>Lock::block\<close> finds when the polls before
  it have found the lock held.\<close>

fun block_store ::
  "'s store_ops \<Rightarrow> (nat \<Rightarrow> string) \<Rightarrow> (nat \<Rightarrow> nat) \<Rightarrow> (nat \<Rightarrow> string) \<Rightarrow> (nat \<Rightarrow> 's \<Rightarrow> 's) \<Rightarrow> lock
    \<Rightarrow> 's \<Rightarrow> nat \<Rightarrow> 's" where
  "block_store ops dur at uuid env lk s 0 = env 0 s"
| "block_store ops dur at uuid env lk s (Suc i) =
     env (Suc i) (snd (lock_get ops dur (at i) (uuid i) lk (block_store ops dur at uuid env lk s i)))"

definition poll_result ::
  "'s store_ops \<Rightarrow> (nat \<Rightarrow> string) \<Rightarrow> (nat \<Rightarrow> nat) \<Rightarrow> (nat \<Rightarrow> string) \<Rightarrow> (nat \<Rightarrow> 's \<Rightarrow> 's) \<Rightarrow> lock
    \<Rightarrow> 's \<Rightarrow> nat \<Rightarrow> CacheError + lock_guard option" where
  "poll_result ops dur at uuid env lk s i =
     fst (lock_get ops dur (at i) (uuid i) lk (block_store ops dur at uuid env lk s i))"

text \<open>The answer of the poll at which the loop stops.\<close>

definition block_answer ::
  "(nat \<Rightarrow> string) \<Rightarrow> lock \<Rightarrow> nat \<Rightarrow> CacheError + lock_guard option \<Rightarrow> CacheError + lock_guard" where
  "block_answer dur lk wait r =
     (case r of Inl e \<Rightarrow> Inl e | Inr (Some g) \<Rightarrow> Inr g
      | Inr None \<Rightarrow> Inl (from_lock_error dur (AlreadyHeld (lk_key lk) wait)))"

lemma lock_block_at:
  assumes "i \<le> n" "n < i + fuel"
    and "\<forall>j. i \<le> j \<and> j < n \<longrightarrow>
      poll_result ops dur at uuid env lk s j = Inr None \<and> at j - at 0 < wait"
    and "poll_result ops dur at uuid env lk s n \<noteq> Inr None \<or> wait \<le> at n - at 0"
    and "env i s' = block_store ops dur at uuid env lk s i"
  shows "\<exists>s''. lock_block ops dur at uuid env lk wait fuel i s'
    = Some (block_answer dur lk wait (poll_result ops dur at uuid env lk s n), s'')"
  using assms
proof (induction fuel arbitrary: i s')
  case 0
  then show ?case by simp
next
  case (Suc fuel)
  let ?b = "block_store ops dur at uuid env lk s"
  obtain r t where rt: "lock_get ops dur (at i) (uuid i) lk (?b i) = (r, t)"
    by (cases "lock_get ops dur (at i) (uuid i) lk (?b i)")
  show ?case
  proof (cases "i = n")
    case True
    with rt Suc.prems show ?thesis
      by (auto simp: poll_result_def block_answer_def split: sum.splits option.splits)
  next
    case False
    then have held: "r = Inr None" and early: "at i - at 0 < wait"
      using Suc.prems(1,3) rt by (auto simp: poll_result_def)
    have "env (Suc i) t = ?b (Suc i)" using rt by simp
    then have "\<exists>s''. lock_block ops dur at uuid env lk wait fuel (Suc i) t
        = Some (block_answer dur lk wait (poll_result ops dur at uuid env lk s n), s'')"
      using Suc.prems False by (intro Suc.IH) auto
    with rt held early Suc.prems(5) show ?thesis by simp
  qed
qed

text \<open>Polls are at least one sleep of 50 ticks apart.\<close>

definition polls_spaced :: "(nat \<Rightarrow> nat) \<Rightarrow> bool" where
  "polls_spaced at \<longleftrightarrow> (\<forall>i. at i + 50 \<le> at (Suc i))"

lemma polls_spaced_ge: "polls_spaced at \<Longrightarrow> at 0 + 50 * i \<le> at i"
proof (induction i)
  case (Suc i)
  then have "at i + 50 \<le> at (Suc i)" by (simp add: polls_spaced_def)
  with Suc show ?case by simp
qed simp

lemma block_stops:
  assumes "polls_spaced at"
  obtains n where "n \<le> wait div 50 + 1"
    "poll_result ops dur at uuid env lk s n \<noteq> Inr None \<or> wait \<le> at n - at 0"
    "\<forall>j<n. poll_result ops dur at uuid env lk s j = Inr None \<and> at j - at 0 < wait"
proof -
  let ?P = "\<lambda>n. poll_result ops dur at uuid env lk s n \<noteq> Inr None \<or> wait \<le> at n - at 0"
  let ?m = "wait div 50 + 1"
  have "wait \<le> 50 * ?m" by simp
  then have "?P ?m"
    using polls_spaced_ge [OF assms, of ?m] by linarith
  define n where "n = (LEAST n. ?P n)"
  have "n \<le> ?m" "?P n" "\<And>j. j < n \<Longrightarrow> \<not> ?P j"
    unfolding n_def using \<open>?P ?m\<close> by (rule Least_le, rule LeastI) (rule not_less_Least)
  then show thesis by (intro that [of n]) (blast, blast, auto simp: not_le)
qed

context reliable_store
begin

lemma quiet_block_store:
  assumes "polls_spaced at" "\<forall>j<i. poll_result ops dur at uuid (\<lambda>_ x. x) lk s j = Inr None"
    and "at i \<le> t"
  shows "view t (block_store ops dur at uuid (\<lambda>_ x. x) lk s i) = view t s"
  using assms
proof (induction i arbitrary: t)
  case (Suc i)
  let ?b = "block_store ops dur at uuid (\<lambda>_ x. x) lk s i"
  have le: "at i \<le> t"
    using Suc.prems(1,3) by (simp add: polls_spaced_def) (metis add_leD1 le_trans)
  have "fst (lock_get ops dur (at i) (uuid i) lk ?b) = Inr None"
    using Suc.prems(2) by (simp add: poll_result_def)
  then have "view (at i) ?b (lk_key lk) \<noteq> None"
    by (simp add: lock_get_cases split: if_splits)
  then have "view t (snd (lock_get ops dur (at i) (uuid i) lk ?b)) = view t ?b"
    using pia_view [OF le, of "lk_key lk" "owner_token (uuid i)" "lk_ttl lk" ?b]
    by (auto simp: lock_get_cases)
  then show ?case
    using Suc.IH [OF Suc.prems(1) _ le] Suc.prems(2) by simp
qed simp

lemma block_outlives_holder:
  assumes spaced: "polls_spaced at" and free: "view (at 0 + wait) s (lk_key lk) = None"
    and fuel: "wait div 50 + 2 \<le> fuel"
  shows "\<exists>n s'. lock_block ops dur at uuid (\<lambda>_ x. x) lk wait fuel 0 s
    = Some (Inr \<lparr>g_key = lk_key lk, g_token = owner_token (uuid n), g_released = False\<rparr>, s')"
proof -
  let ?r = "poll_result ops dur at uuid (\<lambda>_ x. x) lk s"
  obtain n where n: "n \<le> wait div 50 + 1" "?r n \<noteq> Inr None \<or> wait \<le> at n - at 0"
    "\<forall>j<n. ?r j = Inr None \<and> at j - at 0 < wait"
    using block_stops [OF spaced, of wait ops dur uuid "\<lambda>_ x. x" lk s] by blast
  let ?b = "block_store ops dur at uuid (\<lambda>_ x. x) lk s n"
  have view: "view (at n) ?b = view (at n) s"
    using n(3) by (intro quiet_block_store [OF spaced]) auto
  have "view (at n) s (lk_key lk) = None"
  proof (cases "wait \<le> at n - at 0")
    case True
    then have "at 0 + wait \<le> at n"
      using polls_spaced_ge [OF spaced, of n] by linarith
    with free show ?thesis using expires_only by (metis not_None_eq)
  next
    case False
    with n(2) view show ?thesis
      by (auto simp: poll_result_def lock_get_cases split: if_splits)
  qed
  with view have "?r n
      = Inr (Some \<lparr>g_key = lk_key lk, g_token = owner_token (uuid n), g_released = False\<rparr>)"
    by (simp add: poll_result_def lock_get_cases)
  then show ?thesis
    using lock_block_at [of 0 n fuel ops dur at uuid "\<lambda>_ x. x" lk s wait s] n fuel
    by (auto simp: block_answer_def)
qed

end

section \<open>Properties\<close>

text \<open>C5. Mutual exclusion: in every reachable state of the lock system over the in-memory
  store, two guards of the same key that are both unreleased and within their lease are the
  same guard. Clients acquire, contend, release, drop guards (whose spawned task may run at any
  later time) and use other keys in any order, with time passing anywhere in between.\<close>

theorem lock_mutual_exclusion:
  assumes "lock_reach (memory_ops checks) dur locks \<sigma>"
    and "i < length (ls_guards \<sigma>)" "j < length (ls_guards \<sigma>)"
    and "guard_live (ls_now \<sigma>) (ls_guards \<sigma> ! i)" "guard_live (ls_now \<sigma>) (ls_guards \<sigma> ! j)"
    and "g_key (fst (ls_guards \<sigma> ! i)) = g_key (fst (ls_guards \<sigma> ! j))"
  shows "i = j"
  using assms by (rule mem.one_live_guard)

text \<open>A run in which a first holder lets its lease expire and a second one takes the lock over.\<close>

definition demo_lock :: lock where
  "demo_lock = \<lparr>lk_key = ''job'', lk_ttl = 10\<rparr>"

definition demo_guard :: "string \<Rightarrow> lock_guard" where
  "demo_guard u = \<lparr>g_key = ''job'', g_token = owner_token u, g_released = False\<rparr>"

definition demo_takeover :: "mem_store lock_sys" where
  "demo_takeover = \<lparr>ls_now = 20,
     ls_store = [''job'' \<mapsto> \<lparr>ce_value = owner_token ''b'', ce_expires = Some 30\<rparr>],
     ls_guards = [(demo_guard ''a'', Some 10), (demo_guard ''b'', Some 30)],
     ls_tasks = [], ls_used = {''a'', ''b''}\<rparr>"

lemma demo_takeover_reach: "lock_reach (memory_ops checks) dur {''job''} demo_takeover"
proof -
  define m1 :: mem_store where
    "m1 = [''job'' \<mapsto> \<lparr>ce_value = owner_token ''a'', ce_expires = Some 10\<rparr>]"
  let ?\<sigma>0 = "lock_init 0 Map.empty :: mem_store lock_sys"
  let ?\<sigma>1 = "\<lparr>ls_now = 0, ls_store = m1, ls_guards = [(demo_guard ''a'', Some 10)],
    ls_tasks = [], ls_used = {''a''}\<rparr>"
  have get1: "lock_get (memory_ops checks) dur 0 ''a'' demo_lock Map.empty
      = (Inr (Some (demo_guard ''a'')), m1)"
    by (simp add: lock_get_def Let_def demo_lock_def demo_guard_def m1_def memory_ops_def
        mem_put_if_absent_def mem_defs)
  have "lock_step (memory_ops checks) dur {''job''} ?\<sigma>0 ?\<sigma>1"
    using step_acquire [of "''a''" ?\<sigma>0 demo_lock "{''job''}" "memory_ops checks" dur] get1
    by (simp add: lock_init_def demo_lock_def expiry_def)
  then have r1: "lock_reach (memory_ops checks) dur {''job''} ?\<sigma>1"
    by (rule reach_step [OF reach_init])
  have r2: "lock_reach (memory_ops checks) dur {''job''} (?\<sigma>1\<lparr>ls_now := 20\<rparr>)"
    by (rule reach_step [OF r1 step_tick]) simp
  have get2: "lock_get (memory_ops checks) dur 20 ''b'' demo_lock m1
      = (Inr (Some (demo_guard ''b'')), ls_store demo_takeover)"
    by (simp add: lock_get_def Let_def demo_lock_def demo_guard_def m1_def memory_ops_def
        mem_put_if_absent_def mem_defs demo_takeover_def)
  have "lock_step (memory_ops checks) dur {''job''} (?\<sigma>1\<lparr>ls_now := 20\<rparr>) demo_takeover"
    using step_acquire [of "''b''" "?\<sigma>1\<lparr>ls_now := 20\<rparr>" demo_lock "{''job''}" "memory_ops checks" dur] get2
    by (simp add: demo_takeover_def demo_lock_def expiry_def insert_commute)
  then show ?thesis by (rule reach_step [OF r2])
qed

theorem lock_mutual_exclusion_witness:
  "{i. i < length (ls_guards demo_takeover) \<and> guard_live (ls_now demo_takeover) (ls_guards demo_takeover ! i)
      \<and> g_key (fst (ls_guards demo_takeover ! i)) = ''job''} = {1}"
proof -
  have one: "guard_live (ls_now demo_takeover) (ls_guards demo_takeover ! 1)"
    "g_key (fst (ls_guards demo_takeover ! 1)) = ''job''" "1 < length (ls_guards demo_takeover)"
    by (simp_all add: demo_takeover_def demo_guard_def guard_live_def in_lease_def)
  have "i = 1" if "i < length (ls_guards demo_takeover)" "g_key (fst (ls_guards demo_takeover ! i)) = ''job''"
    "guard_live (ls_now demo_takeover) (ls_guards demo_takeover ! i)" for i
    using that one by (intro lock_mutual_exclusion [OF demo_takeover_reach [of False show_nat]]) simp_all
  with one show ?thesis by blast
qed

text \<open>A live lease cannot be taken away: whatever step any client takes next (a stale
  guard's release, the task of a dropped guard, an acquisition attempt, a write to another key),
  as long as the guard itself is still unreleased and within its lease, a read of the key finds
  the guard's own token, and an attempt to acquire the key is refused.\<close>

lemma lock_lease_survives:
  assumes "lock_reach (memory_ops checks) dur locks \<sigma>" "lock_step (memory_ops checks) dur locks \<sigma> \<sigma>'"
    and "gl \<in> set (ls_guards \<sigma>')" "guard_live (ls_now \<sigma>') gl"
    and "lk_key lk = g_key (fst gl)"
  shows "fst (mem_get (ls_now \<sigma>') (g_key (fst gl)) (ls_store \<sigma>')) = Inr (Some (g_token (fst gl)))
    \<and> fst (lock_get (memory_ops checks) dur (ls_now \<sigma>') uuid lk (ls_store \<sigma>')) = Inr None"
proof -
  have "lock_reach (memory_ops checks) dur locks \<sigma>'"
    using assms(1,2) by (rule reach_step)
  then have "mem_view (ls_now \<sigma>') (ls_store \<sigma>') (g_key (fst gl)) = Some (g_token (fst gl))"
    using assms(3,4) by (rule mem.live_guard_holds)
  then show ?thesis
    using assms(5) by (auto simp: mem.lock_get_cases mem_get_def mem_view_def Let_def)
qed

lemma lock_lease_survives_example:
  "fst (guard_release (memory_ops False) 20 (demo_guard ''a'') (ls_store demo_takeover)) = Inr ()
   \<and> fst (mem_get 20 ''job'' (snd (snd (guard_release (memory_ops False) 20 (demo_guard ''a'')
        (ls_store demo_takeover))))) = Inr (Some (owner_token ''b''))"
proof -
  obtain r g s where rel: "guard_release (memory_ops False) 20 (demo_guard ''a'')
      (ls_store demo_takeover) = (r, g, s)"
    by (metis prod_cases3)
  let ?\<sigma> = "demo_takeover\<lparr>ls_store := s, ls_guards := (ls_guards demo_takeover)[0 := (g, Some 10)]\<rparr>"
  have "lock_step (memory_ops False) show_nat {''job''} demo_takeover ?\<sigma>"
    using rel by (intro step_release [of 0 _ "demo_guard ''a''" "Some 10"])
      (simp_all add: demo_takeover_def)
  moreover have "(demo_guard ''b'', Some 30) \<in> set (ls_guards ?\<sigma>)"
    "guard_live (ls_now ?\<sigma>) (demo_guard ''b'', Some 30)" "lk_key demo_lock = g_key (demo_guard ''b'')"
    "ls_store ?\<sigma> = s" "ls_now ?\<sigma> = 20"
    by (simp_all add: demo_takeover_def demo_guard_def guard_live_def in_lease_def demo_lock_def)
  ultimately have "fst (mem_get 20 ''job'' s) = Inr (Some (owner_token ''b''))"
    using lock_lease_survives [OF demo_takeover_reach, of False show_nat ?\<sigma> "(demo_guard ''b'', Some 30)" demo_lock]
    by (simp add: demo_guard_def)
  moreover have "r = Inr ()"
    using rel by (simp add: demo_guard_def guard_release_def memory_ops_def mem_compare_and_delete_def
        demo_takeover_def alive_def owner_token_def)
  ultimately show ?thesis using rel by simp
qed

text \<open>C24. \<^verbatim>\<open>Lock::block\<close> returns, over any store and whatever the other clients do
  between two polls: with polls at least 50 ticks apart, \<open>wait div 50 + 2\<close> polls are enough,
  and the answer is that of the first poll that does not find the lock held or that comes after
  the waiting time, where a lock still held is the error of \<^verbatim>\<open>AlreadyHeld\<close>.\<close>

theorem lock_block_returns:
  assumes "polls_spaced at" "wait div 50 + 2 \<le> fuel"
  shows "\<exists>n s'. n \<le> wait div 50 + 1
    \<and> lock_block ops dur at uuid env lk wait fuel 0 s
        = Some (block_answer dur lk wait (poll_result ops dur at uuid env lk s n), s')
    \<and> (poll_result ops dur at uuid env lk s n \<noteq> Inr None \<or> wait \<le> at n - at 0)
    \<and> (\<forall>j<n. poll_result ops dur at uuid env lk s j = Inr None \<and> at j - at 0 < wait)"
proof -
  obtain n where n: "n \<le> wait div 50 + 1"
    "poll_result ops dur at uuid env lk s n \<noteq> Inr None \<or> wait \<le> at n - at 0"
    "\<forall>j<n. poll_result ops dur at uuid env lk s j = Inr None \<and> at j - at 0 < wait"
    using block_stops [OF assms(1), of wait ops dur uuid env lk s] by blast
  then have "\<exists>s'. lock_block ops dur at uuid env lk wait fuel 0 s
      = Some (block_answer dur lk wait (poll_result ops dur at uuid env lk s n), s')"
    using assms(2) by (intro lock_block_at) auto
  with n show ?thesis by blast
qed

theorem lock_block_returns_witness:
  "\<exists>n s'. n \<le> 3 \<and> lock_block (memory_ops False) show_nat (\<lambda>i. 60 * i) show_nat (\<lambda>_ m. m) demo_lock
      100 4 0 (ls_store demo_takeover)
    = Some (block_answer show_nat demo_lock 100 (poll_result (memory_ops False) show_nat
        (\<lambda>i. 60 * i) show_nat (\<lambda>_ m. m) demo_lock (ls_store demo_takeover) n), s')"
proof -
  have "polls_spaced (\<lambda>i. 60 * i)" by (simp add: polls_spaced_def)
  from lock_block_returns [OF this, of 100 4 "memory_ops False" show_nat show_nat
      "\<lambda>_ m. m" demo_lock "ls_store demo_takeover"]
  show ?thesis by auto
qed



end
