(* ===== verification/Cache_Manager.thy ===== *)
theory Cache_Manager
  imports Repository Cache_Lock
begin

text \<open>
  Configuration (\<^verbatim>\<open>config.rs\<close>) and the store registry (\<^verbatim>\<open>CacheManager\<close> of
  \<^verbatim>\<open>repository.rs\<close>) of \<^verbatim>\<open>rustasea-cache\<close>, with the inert Redis store
  (\<^verbatim>\<open>redis.rs\<close>) that the default build registers. Building a live Redis pool is a
  parameter, \<open>open_redis\<close>; the environment variables are arguments; whether the crate was
  built with the feature \<^verbatim>\<open>redis\<close> is the argument \<open>feature\<close>. Memory stores are
  allocated at the next free address of the heap.
\<close>

section \<open>Configuration\<close>

datatype CacheDriver = Memory | Redis

text \<open>Of the fields of \<^verbatim>\<open>StoreConfig\<close> and \<^verbatim>\<open>CacheConfig\<close> these are the ones
  the code reads; the others are kept for parity of the file format. The stores are in the key
  order of the \<^verbatim>\<open>BTreeMap\<close>.\<close>

record StoreConfig =
  sc_driver :: string
  sc_connection :: "string option"
  sc_url :: "string option"

record CacheConfig =
  cc_default :: string
  cc_prefix :: string
  cc_stores :: "(string \<times> StoreConfig) list"

definition MEMORY_STORE :: string where
  "MEMORY_STORE = ''memory''"

definition REDIS_STORE :: string where
  "REDIS_STORE = ''redis''"

definition DEFAULT_CACHE_PREFIX :: string where
  "DEFAULT_CACHE_PREFIX = ''rustasea-cache-''"

definition UNIMPLEMENTED_DRIVERS :: "string list" where
  "UNIMPLEMENTED_DRIVERS =
     [''database'', ''file'', ''storage'', ''memcached'', ''dynamodb'', ''failover'', ''octane'']"

definition driver_kind :: "StoreConfig \<Rightarrow> CacheConfigError + CacheDriver" where
  "driver_kind sc =
     (let driver = to_ascii_lowercase (trim (sc_driver sc)) in
      if driver = ''memory'' \<or> driver = ''array'' then Inr Memory
      else if driver = REDIS_STORE then Inr Redis
      else if driver \<in> set UNIMPLEMENTED_DRIVERS then Inl (UnsupportedDriver (sc_driver sc))
      else Inl (UnknownDriver (sc_driver sc)))"

definition trimmed :: "string option \<Rightarrow> string option" where
  "trimmed v =
     (case v of None \<Rightarrow> None | Some s \<Rightarrow> if trim s = [] then None else Some (trim s))"

definition starts_with :: "string \<Rightarrow> string \<Rightarrow> bool" where
  "starts_with p s \<longleftrightarrow> take (length p) s = p"

definition resolved_url :: "string option \<Rightarrow> StoreConfig \<Rightarrow> string option" where
  "resolved_url redis_url sc =
     (case trimmed (sc_url sc) of
        Some url \<Rightarrow> Some url
      | None \<Rightarrow>
          (case trimmed (sc_connection sc) of
             Some c \<Rightarrow> if starts_with ''redis://'' c \<or> starts_with ''rediss://'' c then Some c
                       else trimmed redis_url
           | None \<Rightarrow> trimmed redis_url))"

definition default_config :: CacheConfig where
  "default_config = \<lparr>cc_default = MEMORY_STORE, cc_prefix = DEFAULT_CACHE_PREFIX,
     cc_stores = [(MEMORY_STORE, \<lparr>sc_driver = MEMORY_STORE, sc_connection = None, sc_url = None\<rparr>)]\<rparr>"

text \<open>\<open>cache_prefix\<close> is the environment variable \<^verbatim>\<open>CACHE_PREFIX\<close>.\<close>

definition apply_env :: "string option \<Rightarrow> CacheConfig \<Rightarrow> CacheConfig" where
  "apply_env cache_prefix c =
     (case cache_prefix of
        Some p \<Rightarrow> if trim p \<noteq> [] then c\<lparr>cc_prefix := p\<rparr> else c
      | None \<Rightarrow> c)"

fun validate_drivers :: "(string \<times> StoreConfig) list \<Rightarrow> CacheConfigError + unit" where
  "validate_drivers [] = Inr ()"
| "validate_drivers ((n, sc) # rest) =
     (case driver_kind sc of Inl e \<Rightarrow> Inl e | Inr _ \<Rightarrow> validate_drivers rest)"

definition validate :: "CacheConfig \<Rightarrow> CacheConfigError + unit" where
  "validate c =
     (if \<not> contains ''-cache-'' (cc_prefix c) then Inl (InvalidPrefix (cc_prefix c))
      else if cc_default c \<notin> fst ` set (cc_stores c) \<and> cc_default c \<noteq> MEMORY_STORE
      then Inl (UnknownDefaultStore (cc_default c))
      else validate_drivers (cc_stores c))"

text \<open>\<open>parsed\<close> is what the loader finds for the table: \<open>None\<close> when there is no table,
  \<open>Some (Inl m)\<close> when it does not deserialize.\<close>

definition config_from_loader ::
  "string option \<Rightarrow> (string + CacheConfig) option \<Rightarrow> CacheConfigError + CacheConfig" where
  "config_from_loader cache_prefix parsed =
     (case (case parsed of None \<Rightarrow> Inr default_config | Some (Inr c) \<Rightarrow> Inr c
            | Some (Inl m) \<Rightarrow> Inl (Invalid m)) of
        Inl e \<Rightarrow> Inl e
      | Inr c \<Rightarrow>
          (let c' = apply_env cache_prefix c in
           case validate c' of Inl e \<Rightarrow> Inl e | Inr _ \<Rightarrow> Inr c'))"

section \<open>The inert Redis store\<close>

definition DEFAULT_REDIS_PREFIX :: string where
  "DEFAULT_REDIS_PREFIX = ''rustasea:cache:''"

definition redis_unavailable :: "bool \<Rightarrow> string \<Rightarrow> CacheError" where
  "redis_unavailable feature key =
     StoreUnavailable
       (if feature then ''redis connection not configured''
        else ''redis store disabled for '' @ [CHR 0x27] @ (DEFAULT_REDIS_PREFIX @ key) @ [CHR 0x27]
             @ '': build with the `redis` feature'')"

definition redis_inert :: "bool \<Rightarrow> 's store_ops" where
  "redis_inert feature =
     \<lparr>op_get = (\<lambda>t k s. (Inl (redis_unavailable feature k), s)),
      op_put = (\<lambda>t k v ttl s. (Inl (redis_unavailable feature k), s)),
      op_put_if_absent = (\<lambda>t k v ttl s. (Inl (redis_unavailable feature k), s)),
      op_compare_and_delete = (\<lambda>t k v s. (Inl (redis_unavailable feature k), s)),
      op_touch = (\<lambda>t k ttl s. (Inl (redis_unavailable feature k), s)),
      op_forget = (\<lambda>t k s. (Inl (redis_unavailable feature k), s)),
      op_flush = (\<lambda>t s. (Inl (redis_unavailable feature []), s)),
      op_increment = (\<lambda>t k n s. Some (Inl (redis_unavailable feature k), s)),
      op_decrement = (\<lambda>t k n s. Some (Inl (redis_unavailable feature k), s))\<rparr>"

section \<open>The manager\<close>

record manager =
  cm_stores :: "string \<rightharpoonup> heap store_ops"
  cm_default :: string
  cm_prefix :: string

definition manager_new :: "bool \<Rightarrow> bool \<Rightarrow> nat \<Rightarrow> heap \<Rightarrow> manager \<times> nat \<times> heap" where
  "manager_new checks feature next h =
     (\<lparr>cm_stores = [MEMORY_STORE \<mapsto> mem_at checks next, REDIS_STORE \<mapsto> redis_inert feature],
       cm_default = MEMORY_STORE, cm_prefix = DEFAULT_PREFIX\<rparr>,
      Suc next, h(next := Map.empty))"

fun register_stores ::
  "bool \<Rightarrow> bool \<Rightarrow> (string \<Rightarrow> string \<Rightarrow> CacheError + heap store_ops) \<Rightarrow> (string \<Rightarrow> string)
    \<Rightarrow> string option \<Rightarrow> (string \<times> StoreConfig) list
    \<Rightarrow> (string \<rightharpoonup> heap store_ops) \<times> nat \<times> heap
    \<Rightarrow> CacheError + (string \<rightharpoonup> heap store_ops) \<times> nat \<times> heap" where
  "register_stores checks feature open_redis quote redis_url [] acc = Inr acc"
| "register_stores checks feature open_redis quote redis_url ((name, sc) # rest) (m, next, h) =
     (case driver_kind sc of
        Inl e \<Rightarrow> Inl (from_config_error quote e)
      | Inr Memory \<Rightarrow>
          register_stores checks feature open_redis quote redis_url rest
            (if m name = None then (m(name \<mapsto> mem_at checks next), Suc next, h(next := Map.empty))
             else (m, next, h))
      | Inr Redis \<Rightarrow>
          (case (if feature then resolved_url redis_url sc else None) of
             None \<Rightarrow> register_stores checks feature open_redis quote redis_url rest (m, next, h)
           | Some url \<Rightarrow>
               (case open_redis name url of
                  Inl e \<Rightarrow> Inl e
                | Inr ops \<Rightarrow>
                    register_stores checks feature open_redis quote redis_url rest
                      (m(name \<mapsto> ops), next, h))))"

definition manager_from_config ::
  "bool \<Rightarrow> bool \<Rightarrow> (string \<Rightarrow> string \<Rightarrow> CacheError + heap store_ops) \<Rightarrow> (string \<Rightarrow> string)
    \<Rightarrow> string option \<Rightarrow> CacheConfig \<Rightarrow> nat \<Rightarrow> heap \<Rightarrow> CacheError + manager \<times> nat \<times> heap" where
  "manager_from_config checks feature open_redis quote redis_url c next h =
     (case validate c of
        Inl e \<Rightarrow> Inl (from_config_error quote e)
      | Inr _ \<Rightarrow>
          (case register_stores checks feature open_redis quote redis_url (cc_stores c)
                  ([MEMORY_STORE \<mapsto> mem_at checks next], Suc next, h(next := Map.empty)) of
             Inl e \<Rightarrow> Inl e
           | Inr (m, next', h') \<Rightarrow>
               Inr (\<lparr>cm_stores = m, cm_default = cc_default c, cm_prefix = cc_prefix c\<rparr>, next', h')))"

definition configure_from ::
  "bool \<Rightarrow> bool \<Rightarrow> (string \<Rightarrow> string \<Rightarrow> CacheError + heap store_ops) \<Rightarrow> (string \<Rightarrow> string)
    \<Rightarrow> string option \<Rightarrow> string option \<Rightarrow> (string + CacheConfig) option \<Rightarrow> nat \<Rightarrow> heap
    \<Rightarrow> CacheError + manager \<times> nat \<times> heap" where
  "configure_from checks feature open_redis quote redis_url cache_prefix parsed next h =
     (case config_from_loader cache_prefix parsed of
        Inl e \<Rightarrow> Inl (from_config_error quote e)
      | Inr c \<Rightarrow> manager_from_config checks feature open_redis quote redis_url c next h)"

definition manager_register :: "string \<Rightarrow> heap store_ops \<Rightarrow> manager \<Rightarrow> manager" where
  "manager_register name ops mgr = mgr\<lparr>cm_stores := (cm_stores mgr)(name \<mapsto> ops)\<rparr>"

definition manager_store :: "string \<Rightarrow> manager \<Rightarrow> CacheError + heap repo" where
  "manager_store name mgr =
     (case cm_stores mgr name of
        None \<Rightarrow> Inl (UnknownStore name)
      | Some ops \<Rightarrow> Inr (with_prefix (cm_prefix mgr) (repo_new ops)))"

definition manager_repository :: "manager \<Rightarrow> CacheError + heap repo" where
  "manager_repository mgr =
     (case manager_store (cm_default mgr) mgr of
        Inr r \<Rightarrow> Inr r
      | Inl e \<Rightarrow> if cm_default mgr \<noteq> MEMORY_STORE then manager_store MEMORY_STORE mgr else Inl e)"

definition manager_with_context ::
  "(string, string) hashmap \<Rightarrow> manager \<Rightarrow> CacheError + heap repo" where
  "manager_with_context ctx mgr =
     (case manager_repository mgr of Inl e \<Rightarrow> Inl e | Inr r \<Rightarrow> Inr (with_context ctx r))"

definition manager_lock ::
  "string \<Rightarrow> string \<Rightarrow> nat \<Rightarrow> manager \<Rightarrow> CacheError + heap store_ops \<times> lock" where
  "manager_lock name key ttl mgr =
     (case cm_stores mgr name of
        None \<Rightarrow> Inl (UnknownStore name)
      | Some ops \<Rightarrow> Inr (ops, \<lparr>lk_key = key, lk_ttl = ttl\<rparr>))"

section \<open>What registration keeps\<close>

lemma mem_at_inj [simp]: "mem_at checks a = mem_at checks b \<longleftrightarrow> a = b"
proof
  assume "mem_at checks a = mem_at checks b"
  then have "snd (op_put (mem_at checks a) 0 [] [] 0 (\<lambda>_. Map.empty))
      = snd (op_put (mem_at checks b) 0 [] [] 0 (\<lambda>_. Map.empty))"
    by simp
  then have "mem_view 0 (snd (op_put (mem_at checks a) 0 [] [] 0 (\<lambda>_. Map.empty)) a) []
      = mem_view 0 (snd (op_put (mem_at checks b) 0 [] [] 0 (\<lambda>_. Map.empty)) a) []"
    by simp
  then show "a = b"
    by (simp add: mem_at_def mem_put_def mem_defs split: if_splits)
qed simp

text \<open>Memory stores sit below the next free address, one per name, and the memory store is
  there.\<close>

definition stores_inv :: "bool \<Rightarrow> (string \<rightharpoonup> heap store_ops) \<times> nat \<times> heap \<Rightarrow> bool" where
  "stores_inv checks acc \<longleftrightarrow>
     (case acc of (m, next, h) \<Rightarrow>
        (\<forall>n a. m n = Some (mem_at checks a) \<longrightarrow> a < next)
        \<and> (\<forall>n n' a. m n = Some (mem_at checks a) \<and> m n' = Some (mem_at checks a) \<longrightarrow> n = n')
        \<and> m MEMORY_STORE \<noteq> None)"

definition opens_no_memory ::
  "bool \<Rightarrow> (string \<Rightarrow> string \<Rightarrow> CacheError + heap store_ops) \<Rightarrow> bool" where
  "opens_no_memory checks open_redis \<longleftrightarrow> (\<forall>n u a. open_redis n u \<noteq> Inr (mem_at checks a))"

lemma register_stores_inv:
  assumes "register_stores checks feature open_redis quote redis_url xs acc = Inr acc'"
    and "stores_inv checks acc" "opens_no_memory checks open_redis"
  shows "stores_inv checks acc'"
  using assms
proof (induction checks feature open_redis quote redis_url xs acc rule: register_stores.induct)
  case (2 checks feature open_redis quote redis_url name sc rest m "next" h)
  have add: "stores_inv checks (m(name \<mapsto> mem_at checks next), Suc next, h(next := Map.empty))"
    if "m name = None"
    using "2.prems"(2) that by (auto simp: stores_inv_def less_Suc_eq split: if_splits)
  have redis: "stores_inv checks (m(name \<mapsto> ops), next, h)" if "open_redis name u = Inr ops" for u ops
    using "2.prems"(2,3) that by (auto simp: stores_inv_def opens_no_memory_def split: if_splits)
  show ?case
    using "2.prems" "2.IH" add redis
    by (auto split: sum.splits CacheDriver.splits option.splits if_splits)
qed simp

lemma manager_from_config_Inr:
  assumes "manager_from_config checks feature open_redis quote redis_url c next h = Inr (mgr, next', h')"
    and "opens_no_memory checks open_redis"
  shows "validate c = Inr ()" "cm_default mgr = cc_default c" "cm_prefix mgr = cc_prefix c"
    "stores_inv checks (cm_stores mgr, next', h')"
proof -
  let ?acc = "([MEMORY_STORE \<mapsto> mem_at checks next], Suc next, h(next := Map.empty))"
  have inv: "stores_inv checks ?acc"
    by (simp add: stores_inv_def)
  obtain m where m: "register_stores checks feature open_redis quote redis_url (cc_stores c) ?acc
      = Inr (m, next', h')"
    "mgr = \<lparr>cm_stores = m, cm_default = cc_default c, cm_prefix = cc_prefix c\<rparr>" "validate c = Inr ()"
    using assms(1) by (auto simp: manager_from_config_def split: sum.splits prod.splits)
  show "validate c = Inr ()" "cm_default mgr = cc_default c" "cm_prefix mgr = cc_prefix c"
    using m by simp_all
  show "stores_inv checks (cm_stores mgr, next', h')"
    using register_stores_inv [OF m(1) inv assms(2)] m(2) by simp
qed

text \<open>Counting in the memory store: the value found, and what an increment leaves.\<close>

definition counter_at :: "nat \<Rightarrow> mem_store \<Rightarrow> string \<Rightarrow> int \<Rightarrow> bool" where
  "counter_at t m k z \<longleftrightarrow>
     i64_range z \<and> (case mem_view t m k of None \<Rightarrow> z = 0 | Some b \<Rightarrow> b = show_int z)"

fun run_increments ::
  "bool \<Rightarrow> string \<Rightarrow> (nat \<times> int) list \<Rightarrow> mem_store \<Rightarrow> ((CacheError + int) list \<times> mem_store) option" where
  "run_increments checks k [] m = Some ([], m)"
| "run_increments checks k ((t, n) # xs) m =
     (case mem_increment checks t k n m of
        None \<Rightarrow> None
      | Some (r, m') \<Rightarrow>
          (case run_increments checks k xs m' of
             None \<Rightarrow> None
           | Some (rs, m'') \<Rightarrow> Some (r # rs, m'')))"

fun running_sums :: "int \<Rightarrow> int list \<Rightarrow> int list" where
  "running_sums z [] = []"
| "running_sums z (n # ns) = (z + n) # running_sums (z + n) ns"

lemma mem_increment_counter:
  assumes "counter_at t m k z" "i64_range (z + n)"
  shows "mem_increment checks t k n m
    = Some (Inr (z + n), m(k \<mapsto> \<lparr>ce_value = show_int (z + n), ce_expires = None\<rparr>))"
  using assms
  by (auto simp: counter_at_def mem_increment_def mem_defs i64_result_def parse_i64_show_int
      split: option.splits if_splits)

lemma counter_permanent:
  "i64_range z \<Longrightarrow> counter_at t (m(k \<mapsto> \<lparr>ce_value = show_int z, ce_expires = None\<rparr>)) k z"
  by (simp add: counter_at_def mem_defs)

lemma run_increments_counter:
  assumes "xs \<noteq> []" "counter_at (fst (hd xs)) m k z"
    and "\<forall>w\<in>set (running_sums z (map snd xs)). i64_range w"
  shows "\<exists>m'. run_increments checks k xs m = Some (map Inr (running_sums z (map snd xs)), m')
    \<and> (\<forall>t. mem_view t m' k = Some (show_int (z + sum_list (map snd xs))))"
  using assms
proof (induction xs arbitrary: m z)
  case (Cons x xs)
  obtain t n where x: "x = (t, n)" by (cases x)
  let ?m = "m(k \<mapsto> \<lparr>ce_value = show_int (z + n), ce_expires = None\<rparr>)"
  have rng: "i64_range (z + n)" using Cons.prems(3) by (simp add: x)
  have inc: "mem_increment checks t k n m = Some (Inr (z + n), ?m)"
    using Cons.prems(2) rng by (intro mem_increment_counter) (simp_all add: x)
  show ?case
  proof (cases "xs = []")
    case True
    with inc show ?thesis by (simp add: x mem_defs)
  next
    case False
    have "\<exists>m'. run_increments checks k xs ?m = Some (map Inr (running_sums (z + n) (map snd xs)), m')
      \<and> (\<forall>t. mem_view t m' k = Some (show_int (z + n + sum_list (map snd xs))))"
      by (rule Cons.IH [OF False counter_permanent [OF rng]])
        (use Cons.prems(3) in \<open>simp add: x\<close>)
    with inc show ?thesis by (auto simp: x add.assoc)
  qed
qed simp

section \<open>Properties\<close>

text \<open>A manager built from a configuration always hands out a default repository, whatever
  driver the default store names and even when a Redis store was left unregistered: its prefix is
  the configured one, which carries the marker. The hypothesis on \<open>open_redis\<close> says that
  opening a pool does not return a memory store.\<close>

lemma manager_always_serves:
  assumes "manager_from_config checks feature open_redis quote redis_url c next h = Inr (mgr, next', h')"
    and "opens_no_memory checks open_redis"
  shows "\<exists>r. manager_repository mgr = Inr r \<and> r_prefix r = cc_prefix c
    \<and> contains ''-cache-'' (r_prefix r) \<and> r_context r = None"
proof -
  note facts = manager_from_config_Inr [OF assms]
  have "contains ''-cache-'' (cc_prefix c)"
    using facts(1) by (simp add: validate_def split: if_splits)
  moreover obtain ops where "cm_stores mgr MEMORY_STORE = Some ops"
    using facts(4) by (auto simp: stores_inv_def)
  ultimately show ?thesis
    using facts(2,3)
    by (auto simp: manager_repository_def manager_store_def with_prefix_def repo_new_def
        split: option.splits)
qed

definition demo_config :: CacheConfig where
  "demo_config = \<lparr>cc_default = ''redis'', cc_prefix = ''app-cache-'',
     cc_stores = [(''redis'', \<lparr>sc_driver = ''redis'', sc_connection = None, sc_url = None\<rparr>),
                  (''sessions'', \<lparr>sc_driver = '' Array '', sc_connection = None, sc_url = None\<rparr>)]\<rparr>"

definition no_redis :: "string \<Rightarrow> string \<Rightarrow> CacheError + heap store_ops" where
  "no_redis name url = Inl (StoreUnavailable url)"

definition demo_manager :: manager where
  "demo_manager = \<lparr>cm_stores = [''memory'' \<mapsto> mem_at True 0, ''sessions'' \<mapsto> mem_at True 1],
     cm_default = ''redis'', cm_prefix = ''app-cache-''\<rparr>"

lemma demo_manager_built:
  "manager_from_config True False no_redis id None demo_config 0 (\<lambda>_. Map.empty)
   = Inr (demo_manager, 2, \<lambda>_. Map.empty)"
proof -
  have kinds: "driver_kind \<lparr>sc_driver = ''redis'', sc_connection = None, sc_url = None\<rparr> = Inr Redis"
    "driver_kind \<lparr>sc_driver = '' Array '', sc_connection = None, sc_url = None\<rparr> = Inr Memory"
    by code_simp+
  then have "validate demo_config = Inr ()"
    by (simp add: validate_def demo_config_def)
  with kinds show ?thesis
    by (simp add: manager_from_config_def demo_config_def demo_manager_def MEMORY_STORE_def fun_eq_iff)
qed

lemma manager_always_serves_example:
  "\<exists>r. manager_repository demo_manager = Inr r \<and> r_prefix r = ''app-cache-''"
proof -
  have "opens_no_memory True no_redis" by (simp add: opens_no_memory_def no_redis_def)
  from manager_always_serves [OF demo_manager_built this] show ?thesis
    by (auto simp: demo_config_def)
qed

text \<open>Stores are isolated by name: in a manager built from a configuration, a value put
  through one memory store leaves every read through a memory store of another name unchanged.\<close>

lemma manager_stores_isolated:
  assumes "manager_from_config checks feature open_redis quote redis_url c next h0 = Inr (mgr, next', h')"
    and "opens_no_memory checks open_redis" "n1 \<noteq> n2"
    and "manager_store n1 mgr = Inr r1" "manager_store n2 mgr = Inr r2"
    and "r_store r1 = mem_at checks a" "r_store r2 = mem_at checks b"
  shows "fst (repo_get dec t' r2 k2 (snd (repo_put enc t r1 k1 v ttl h))) = fst (repo_get dec t' r2 k2 h)"
proof -
  have "cm_stores mgr n1 = Some (mem_at checks a)" "cm_stores mgr n2 = Some (mem_at checks b)"
    using assms(4-7) by (auto simp: manager_store_def with_prefix_def repo_new_def split: option.splits)
  with manager_from_config_Inr(4) [OF assms(1,2)] assms(3) have "a \<noteq> b"
    by (auto simp: stores_inv_def)
  then have "heap_view b t' (snd (repo_put enc t r1 k1 v ttl h)) = heap_view b t' h"
    using assms(6) by (auto simp: repo_put_def mem_at_def heap_view_def split: sum.splits)
  then show ?thesis
    using assms(7) by (simp add: heap.repo_get_eq)
qed

lemma manager_stores_isolated_example:
  "fst (repo_get dec_nat 0 (with_prefix ''app-cache-'' (repo_new (mem_at True 1))) ''n''
      (snd (repo_put enc_nat 0 (with_prefix ''app-cache-'' (repo_new (mem_at True 0))) ''n'' 7 0
        (\<lambda>_. Map.empty))))
   = fst (repo_get dec_nat 0 (with_prefix ''app-cache-'' (repo_new (mem_at True 1))) ''n'' (\<lambda>_. Map.empty))"
proof -
  have "opens_no_memory True no_redis" by (simp add: opens_no_memory_def no_redis_def)
  moreover have "manager_store ''memory'' demo_manager
      = Inr (with_prefix ''app-cache-'' (repo_new (mem_at True 0)))"
    "manager_store ''sessions'' demo_manager
      = Inr (with_prefix ''app-cache-'' (repo_new (mem_at True 1)))"
    by (simp_all add: manager_store_def demo_manager_def)
  ultimately show ?thesis
    by (intro manager_stores_isolated [OF demo_manager_built, where a = 0 and b = 1])
      (simp_all add: with_prefix_def repo_new_def)
qed

text \<open>Counters: a run of increments on a key that holds a number (or nothing), with all
  running sums in the range of \<^verbatim>\<open>i64\<close>, returns exactly the running sums, and the key then
  reads as the total at every later instant: an increment makes the entry permanent, also when
  the entry had a time to live.\<close>

lemma counter_running_sums:
  assumes "xs \<noteq> []" "counter_at (fst (hd xs)) m k z"
    and "\<forall>w\<in>set (running_sums z (map snd xs)). i64_range w"
  shows "\<exists>m'. run_increments checks k xs m = Some (map Inr (running_sums z (map snd xs)), m')
    \<and> (\<forall>t. mem_view t m' k = Some (show_int (z + sum_list (map snd xs))))"
  using assms by (rule run_increments_counter)

lemma counter_running_sums_example:
  "\<exists>m'. run_increments True ''hits'' [(1, 5), (9, - 2)]
      [''hits'' \<mapsto> \<lparr>ce_value = show_int 3, ce_expires = Some 2\<rparr>] = Some ([Inr 8, Inr 6], m')
    \<and> mem_view 100 m' ''hits'' = Some (show_int 6)"
proof -
  let ?m = "[''hits'' \<mapsto> \<lparr>ce_value = show_int 3, ce_expires = Some 2\<rparr>] :: mem_store"
  have "counter_at 1 ?m ''hits'' 3" by (simp add: counter_at_def mem_defs i64_range_def)
  then show ?thesis
    using counter_running_sums [of "[(1, 5), (9, - 2)]" ?m "''hits''" 3 True]
    by (auto simp: i64_range_def)
qed

end
