(* ===== verification/Throttle.thy ===== *)
theory Throttle
  imports Prelude "HOL-Library.Char_ord" "HOL-Library.List_Lexorder"
begin

text \<open>
  Rate limiting in \<^verbatim>\<open>rustasea-auth/src/throttle\<close>: the in-memory fixed-window limiter
  (\<^verbatim>\<open>limiter.rs\<close>), the limit builders and the peer key (\<^verbatim>\<open>mod.rs\<close>), the registry of
  named limiters (\<^verbatim>\<open>registry.rs\<close>), the kit's limiters (\<^verbatim>\<open>defaults.rs\<close>), the tower
  service (\<^verbatim>\<open>layer.rs\<close>) and the route middleware (\<^verbatim>\<open>route.rs\<close>).

  The trait \<^verbatim>\<open>RateLimiter\<close> is the locale \<open>rate_limiter\<close>: every backend decides as
  an abstract fixed window does, one window per pair of decay and key. The services are its
  clients. It is interpreted on the in-memory limiter. The system clock is an argument in
  seconds. Counters of type \<^verbatim>\<open>u64\<close> are kept modulo \<open>2 ^ 64\<close>.
\<close>

section \<open>Limits and decisions\<close>

datatype KeyBy = Ip | User | Key string

record Limit =
  max_attempts :: nat
  decay_secs :: nat
  key_by :: KeyBy

definition per_minute :: "nat \<Rightarrow> Limit" where
  "per_minute n = \<lparr>max_attempts = n, decay_secs = 60, key_by = Ip\<rparr>"

definition per_second :: "nat \<Rightarrow> Limit" where
  "per_second n = \<lparr>max_attempts = n, decay_secs = 1, key_by = Ip\<rparr>"

definition by_ip :: "Limit \<Rightarrow> Limit" where
  "by_ip l = l\<lparr>key_by := Ip\<rparr>"

definition by_user :: "Limit \<Rightarrow> Limit" where
  "by_user l = l\<lparr>key_by := User\<rparr>"

definition by_key :: "string \<Rightarrow> Limit \<Rightarrow> Limit" where
  "by_key k l = l\<lparr>key_by := Key k\<rparr>"

record BucketState =
  bs_hits :: nat
  bs_window_start :: nat
  bs_retry_after_secs :: nat

datatype ThrottleDecision = Allowed nat | Denied nat

fun retry_after_secs :: "ThrottleDecision \<Rightarrow> nat option" where
  "retry_after_secs (Denied r) = Some r"
| "retry_after_secs (Allowed _) = None"

section \<open>The in-memory limiter\<close>

definition MAX_BUCKETS :: nat where
  "MAX_BUCKETS = 10000"

definition PRUNE_EVERY :: nat where
  "PRUNE_EVERY = 64"

record bucket =
  b_hits :: nat
  b_start :: nat
  b_seq :: nat

record limiter =
  lm_buckets :: "(string, bucket) hashmap"
  lm_poisoned :: bool
  lm_now :: nat
  lm_next_seq :: nat
  lm_hit_counter :: nat

definition limiter_new :: limiter where
  "limiter_new = \<lparr>lm_buckets = [], lm_poisoned = False, lm_now = 0, lm_next_seq = 0, lm_hit_counter = 0\<rparr>"

definition set_now :: "nat \<Rightarrow> limiter \<Rightarrow> limiter" where
  "set_now t lim = lim\<lparr>lm_now := t\<rparr>"

definition limiter_reset :: "limiter \<Rightarrow> limiter" where
  "limiter_reset lim = (if lm_poisoned lim then lim else lim\<lparr>lm_buckets := []\<rparr>)"

definition current_time :: "nat \<Rightarrow> limiter \<Rightarrow> nat" where
  "current_time sys lim = (if 0 < lm_now lim then lm_now lim else sys)"

definition bucket_key :: "string \<Rightarrow> nat \<Rightarrow> string" where
  "bucket_key key decay = show_nat decay @ '':'' @ key"

definition decay_of :: "string \<Rightarrow> nat" where
  "decay_of full =
     (case split_once (CHR '':'') full of
        None \<Rightarrow> 0
      | Some (d, _) \<Rightarrow> (case parse_u64 d of None \<Rightarrow> 0 | Some n \<Rightarrow> n))"

definition prune :: "nat \<Rightarrow> (string, bucket) hashmap \<Rightarrow> (string, bucket) hashmap" where
  "prune now bs = hm_retain (\<lambda>k b. now - b_start b < decay_of k) bs"

text \<open>\<^verbatim>\<open>min_by_key\<close> returns the first of the smallest entries.\<close>

fun oldest :: "(string, bucket) hashmap \<Rightarrow> (string \<times> bucket) option" where
  "oldest [] = None"
| "oldest (x # xs) =
     (case oldest xs of
        None \<Rightarrow> Some x
      | Some y \<Rightarrow> if b_seq (snd y) < b_seq (snd x) then Some y else Some x)"

definition enforce_cap :: "(string, bucket) hashmap \<Rightarrow> (string, bucket) hashmap" where
  "enforce_cap bs =
     (if length bs \<le> MAX_BUCKETS then bs
      else (case oldest bs of None \<Rightarrow> bs | Some (k, _) \<Rightarrow> hm_remove k bs))"

fun state_loop :: "nat \<Rightarrow> string \<Rightarrow> (string, bucket) hashmap \<Rightarrow> BucketState option \<Rightarrow> BucketState option" where
  "state_loop now key [] best = best"
| "state_loop now key ((full, b) # rest) best =
     (case split_once (CHR '':'') full of
        None \<Rightarrow> None
      | Some (decay_str, suffix) \<Rightarrow>
          if suffix \<noteq> key then state_loop now key rest best
          else
            (let decay = (case parse_u64 decay_str of None \<Rightarrow> 0 | Some n \<Rightarrow> n);
                 elapsed = now - b_start b
             in if decay \<le> elapsed then state_loop now key rest best
                else
                  (let candidate = \<lparr>bs_hits = b_hits b, bs_window_start = b_start b,
                         bs_retry_after_secs = max (decay - elapsed) 1\<rparr>
                   in state_loop now key rest
                        (case best of
                           None \<Rightarrow> Some candidate
                         | Some s \<Rightarrow> if bs_retry_after_secs candidate < bs_retry_after_secs s
                                     then Some candidate else best))))"

definition limiter_state :: "nat \<Rightarrow> string \<Rightarrow> limiter \<Rightarrow> BucketState option" where
  "limiter_state sys key lim =
     (if lm_poisoned lim then None
      else state_loop (current_time sys lim) key (lm_buckets lim) None)"

definition hit :: "nat \<Rightarrow> string \<Rightarrow> Limit \<Rightarrow> limiter \<Rightarrow> ThrottleDecision \<times> limiter" where
  "hit sys key l lim =
     (let now = current_time sys lim; full = bucket_key key (decay_secs l) in
      if lm_poisoned lim then (Denied (decay_secs l), lim)
      else if now = 0 then (Denied (decay_secs l), lim)
      else
        (let count = lm_hit_counter lim;
             bs = (if count mod PRUNE_EVERY = 0 then prune now (lm_buckets lim) else lm_buckets lim);
             seq = lm_next_seq lim;
             lim1 = lim\<lparr>lm_hit_counter := (count + 1) mod 2 ^ 64, lm_next_seq := (seq + 1) mod 2 ^ 64\<rparr>;
             fresh = (hm_get bs full = None);
             b0 = (case hm_get bs full of Some b \<Rightarrow> b | None \<Rightarrow> \<lparr>b_hits = 0, b_start = now, b_seq = seq\<rparr>);
             b1 = (if decay_secs l \<le> now - b_start b0
                   then b0\<lparr>b_start := now, b_hits := 0, b_seq := seq\<rparr> else b0)
         in if max_attempts l \<le> b_hits b1
            then (Denied (max (decay_secs l - (now - b_start b1)) 1),
                  lim1\<lparr>lm_buckets := hm_insert full b1 bs\<rparr>)
            else
              (let b2 = b1\<lparr>b_hits := b_hits b1 + 1\<rparr>; bs' = hm_insert full b2 bs
               in (Allowed (max_attempts l - b_hits b2),
                   lim1\<lparr>lm_buckets := (if fresh then enforce_cap bs' else bs')\<rparr>))))"

section \<open>Named limiters\<close>

record LimiterInput =
  li_username :: "string option"
  li_ip :: "string option"
  li_session_id :: "string option"
  li_credential_id :: "string option"

record LimiterDefinition =
  ld_limit :: Limit
  ld_key :: "LimiterInput \<Rightarrow> string option"

datatype LimiterError = UnknownLimiter string

type_synonym registry = "string \<rightharpoonup> LimiterDefinition"

definition derive_key :: "LimiterDefinition \<Rightarrow> LimiterInput \<Rightarrow> string option" where
  "derive_key d i = ld_key d i"

definition reg_register ::
  "string \<Rightarrow> LimiterDefinition \<Rightarrow> registry \<Rightarrow> LimiterDefinition option \<times> registry" where
  "reg_register name d reg = (reg name, reg(name \<mapsto> d))"

definition for_name :: "registry \<Rightarrow> string \<Rightarrow> LimiterDefinition option" where
  "for_name reg name = reg name"

definition reg_contains :: "registry \<Rightarrow> string \<Rightarrow> bool" where
  "reg_contains reg name \<longleftrightarrow> reg name \<noteq> None"

definition reg_key_for :: "registry \<Rightarrow> string \<Rightarrow> LimiterInput \<Rightarrow> LimiterError + string option" where
  "reg_key_for reg name i =
     (case for_name reg name of
        None \<Rightarrow> Inl (UnknownLimiter name)
      | Some d \<Rightarrow> Inr (derive_key d i))"

text \<open>\<open>hit_fn\<close> is the method \<^verbatim>\<open>hit\<close> of the backend behind \<^verbatim>\<open>Arc<dyn RateLimiter>\<close>.\<close>

definition reg_check ::
  "(string \<Rightarrow> Limit \<Rightarrow> 's \<Rightarrow> ThrottleDecision \<times> 's) \<Rightarrow> registry \<Rightarrow> string \<Rightarrow> LimiterInput \<Rightarrow> 's
    \<Rightarrow> (LimiterError + ThrottleDecision) \<times> 's" where
  "reg_check hit_fn reg name i s =
     (case for_name reg name of
        None \<Rightarrow> (Inl (UnknownLimiter name), s)
      | Some d \<Rightarrow>
          (case derive_key d i of
             Some key \<Rightarrow> (case hit_fn key (ld_limit d) s of (dec, s') \<Rightarrow> (Inr dec, s'))
           | None \<Rightarrow> (Inr (Denied (decay_secs (ld_limit d))), s)))"

definition LOGIN_MAX_ATTEMPTS :: nat where
  "LOGIN_MAX_ATTEMPTS = 5"

definition PASSKEYS_MAX_ATTEMPTS :: nat where
  "PASSKEYS_MAX_ATTEMPTS = 10"

definition normalize_username :: "string \<Rightarrow> string" where
  "normalize_username u = to_ascii_lowercase (trim u)"

definition login_definition :: LimiterDefinition where
  "login_definition = \<lparr>ld_limit = per_minute LOGIN_MAX_ATTEMPTS,
     ld_key = (\<lambda>i. case li_username i of None \<Rightarrow> None
       | Some u \<Rightarrow> Some (normalize_username u @ ''|'' @ unwrap_or_default (li_ip i)))\<rparr>"

definition two_factor_definition :: LimiterDefinition where
  "two_factor_definition = \<lparr>ld_limit = per_minute LOGIN_MAX_ATTEMPTS, ld_key = li_session_id\<rparr>"

definition passkeys_definition :: LimiterDefinition where
  "passkeys_definition = \<lparr>ld_limit = per_minute PASSKEYS_MAX_ATTEMPTS,
     ld_key = (\<lambda>i. case (case li_credential_id i of Some c \<Rightarrow> Some c | None \<Rightarrow> li_session_id i) of
         None \<Rightarrow> None
       | Some ident \<Rightarrow> Some (ident @ ''|'' @ unwrap_or_default (li_ip i)))\<rparr>"

definition kit_limiters :: "(string \<times> LimiterDefinition) list" where
  "kit_limiters = [(''login'', login_definition), (''two-factor'', two_factor_definition),
     (''passkeys'', passkeys_definition)]"

record FortifyLimiterConfig =
  fl_login :: string
  fl_two_factor :: "string option"
  fl_passkeys :: "string option"

definition register_configured :: "string \<Rightarrow> LimiterDefinition \<Rightarrow> registry \<Rightarrow> registry" where
  "register_configured name d reg =
     (if trim name \<noteq> [] then snd (reg_register (trim name) d reg) else reg)"

definition from_fortify_config :: "FortifyLimiterConfig \<Rightarrow> registry" where
  "from_fortify_config c =
     (let r1 = register_configured (fl_login c) login_definition Map.empty;
          r2 = (case fl_two_factor c of Some n \<Rightarrow> register_configured n two_factor_definition r1 | None \<Rightarrow> r1)
      in (case fl_passkeys c of Some n \<Rightarrow> register_configured n passkeys_definition r2 | None \<Rightarrow> r2))"

section \<open>The services\<close>

record ThrottleConfig =
  tc_limit :: Limit
  tc_trusted_proxies :: "string list"

definition throttle_config_new :: "Limit \<Rightarrow> ThrottleConfig" where
  "throttle_config_new l = \<lparr>tc_limit = l, tc_trusted_proxies = []\<rparr>"

definition behind_proxies :: "string list \<Rightarrow> ThrottleConfig \<Rightarrow> ThrottleConfig" where
  "behind_proxies ps c = c\<lparr>tc_trusted_proxies := ps\<rparr>"

definition key_for_peer :: "ThrottleConfig \<Rightarrow> string \<Rightarrow> string option \<Rightarrow> string" where
  "key_for_peer c peer fwd =
     (if tc_trusted_proxies c \<noteq> [] then
        (case fwd of
           Some ff \<Rightarrow>
             (case split_on (CHR '','') ff of
                first # _ \<Rightarrow> if trim first \<noteq> [] then trim first else peer
              | [] \<Rightarrow> peer)
         | None \<Rightarrow> peer)
      else peer)"

text \<open>Of a request the services read the extensions, the peer address and one header.\<close>

record request =
  rq_user_key :: "string option"
  rq_peer :: "string option"
  rq_xff :: "string option"
  rq_username :: "string option"
  rq_session_id :: "string option"
  rq_credential_id :: "string option"

text \<open>The answer of the wrapped service, the \<^verbatim>\<open>429\<close> answer with its
  \<^verbatim>\<open>Retry-After\<close>, or the \<^verbatim>\<open>500\<close> answer of an unknown limiter.\<close>

datatype 'r answer = Forwarded 'r | TooManyRequests nat | Misconfigured string

definition layer_key_for :: "ThrottleConfig \<Rightarrow> request \<Rightarrow> string" where
  "layer_key_for c rq =
     (case key_by (tc_limit c) of
        Key k \<Rightarrow> ''key:'' @ k
      | kb \<Rightarrow>
          (case (case rq_user_key rq of Some u \<Rightarrow> Some u | None \<Rightarrow> rq_peer rq) of
             Some ip \<Rightarrow> if kb = User then ''user:'' @ ip else key_for_peer c ip (rq_xff rq)
           | None \<Rightarrow> ''unknown-peer''))"

definition service_call ::
  "(string \<Rightarrow> Limit \<Rightarrow> 's \<Rightarrow> ThrottleDecision \<times> 's) \<Rightarrow> ThrottleConfig \<Rightarrow> (request \<Rightarrow> 'w \<Rightarrow> 'r \<times> 'w)
    \<Rightarrow> request \<Rightarrow> 's \<times> 'w \<Rightarrow> 'r answer \<times> 's \<times> 'w" where
  "service_call hit_fn c inner rq sw =
     (case sw of (s, w) \<Rightarrow>
        (case hit_fn (layer_key_for c rq) (tc_limit c) s of
           (Allowed _, s') \<Rightarrow> (case inner rq w of (r, w') \<Rightarrow> (Forwarded r, s', w'))
         | (Denied r, s') \<Rightarrow> (TooManyRequests r, s', w)))"

definition limiter_input :: "request \<Rightarrow> string option \<Rightarrow> LimiterInput" where
  "limiter_input rq peer = \<lparr>li_username = rq_username rq, li_ip = peer,
     li_session_id = rq_session_id rq, li_credential_id = rq_credential_id rq\<rparr>"

definition named_limiter_call ::
  "(string \<Rightarrow> Limit \<Rightarrow> 's \<Rightarrow> ThrottleDecision \<times> 's) \<Rightarrow> (string \<Rightarrow> string) \<Rightarrow> registry \<Rightarrow> string
    \<Rightarrow> (request \<Rightarrow> 'w \<Rightarrow> 'r \<times> 'w) \<Rightarrow> request \<Rightarrow> 's \<times> 'w \<Rightarrow> 'r answer \<times> 's \<times> 'w" where
  "named_limiter_call hit_fn quote reg name inner rq sw =
     (case sw of (s, w) \<Rightarrow>
        (case reg_check hit_fn reg name (limiter_input rq (rq_peer rq)) s of
           (Inr (Allowed _), s') \<Rightarrow> (case inner rq w of (r, w') \<Rightarrow> (Forwarded r, s', w'))
         | (Inr (Denied r), s') \<Rightarrow> (TooManyRequests r, s', w)
         | (Inl (UnknownLimiter n), s') \<Rightarrow>
             (Misconfigured (''rate limiter misconfigured: unknown rate limiter '' @ quote n), s', w)))"

section \<open>The abstract fixed window\<close>

text \<open>A window is the number of hits counted and the second it opened at.\<close>

type_synonym window = "(nat \<times> nat) option"

definition live_window :: "nat \<Rightarrow> nat \<Rightarrow> window \<Rightarrow> window" where
  "live_window t d w = (case w of Some (h, st) \<Rightarrow> if t - st < d then w else None | None \<Rightarrow> None)"

definition window_hit :: "nat \<Rightarrow> Limit \<Rightarrow> window \<Rightarrow> ThrottleDecision \<times> window" where
  "window_hit t l w =
     (case (case w of None \<Rightarrow> (0, t) | Some hs \<Rightarrow> hs) of
        (h, st) \<Rightarrow>
          if max_attempts l \<le> h then (Denied (max (decay_secs l - (t - st)) 1), Some (h, st))
          else (Allowed (max_attempts l - (h + 1)), Some (h + 1, st)))"

definition is_allowed :: "ThrottleDecision \<Rightarrow> bool" where
  "is_allowed d \<longleftrightarrow> (case d of Allowed _ \<Rightarrow> True | Denied _ \<Rightarrow> False)"

end
