(* ===== verification/Throttle_Props.thy ===== *)
theory Throttle_Props
  imports Throttle
begin

text \<open>
  What the rate limiter guarantees. The locale \<open>rate_limiter\<close> states the contract of the
  trait \<^verbatim>\<open>RateLimiter\<close> against the abstract fixed window; in it the bound on the number
  of allowed requests is proved for every interleaving of keys. It is interpreted on the in-memory
  limiter: pruning, the bucket cap and the encoding of windows in map keys are shown not to
  change decisions while fewer than \<open>MAX_BUCKETS\<close> buckets are live.
\<close>

section \<open>The contract of a rate limiter\<close>

fun run_hits ::
  "(nat \<Rightarrow> string \<Rightarrow> Limit \<Rightarrow> 's \<Rightarrow> ThrottleDecision \<times> 's) \<Rightarrow> (nat \<times> string \<times> Limit) list \<Rightarrow> 's
    \<Rightarrow> ThrottleDecision list \<times> 's" where
  "run_hits f [] s = ([], s)"
| "run_hits f ((t, k, l) # xs) s =
     (case f t k l s of (d, s') \<Rightarrow> (case run_hits f xs s' of (ds, s'') \<Rightarrow> (d # ds, s'')))"

definition allowed_count ::
  "string \<Rightarrow> Limit \<Rightarrow> (nat \<times> string \<times> Limit) list \<Rightarrow> ThrottleDecision list \<Rightarrow> nat" where
  "allowed_count k l tr ds =
     length (filter (\<lambda>((t, k', l'), d). k' = k \<and> l' = l \<and> is_allowed d) (zip tr ds))"

text \<open>\<open>ok n s\<close>: the backend is in order and can take \<open>n\<close> more hits; \<open>room n s\<close>: it
  can track \<open>n\<close> more keys without evicting one.\<close>

locale rate_limiter =
  fixes hit_at :: "nat \<Rightarrow> string \<Rightarrow> Limit \<Rightarrow> 's \<Rightarrow> ThrottleDecision \<times> 's"
    and window :: "nat \<Rightarrow> 's \<Rightarrow> nat \<Rightarrow> string \<Rightarrow> window"
    and ok :: "nat \<Rightarrow> 's \<Rightarrow> bool"
    and room :: "nat \<Rightarrow> 's \<Rightarrow> bool"
  assumes hit_ok: "ok (Suc n) s \<Longrightarrow> ok n (snd (hit_at t k l s))"
    and hit_room: "ok (Suc n) s \<Longrightarrow> room (Suc n) s \<Longrightarrow> room n (snd (hit_at t k l s))"
    and hit_decision: "ok (Suc n) s \<Longrightarrow> 0 < t \<Longrightarrow> decay_secs l < 2 ^ 64
      \<Longrightarrow> fst (hit_at t k l s) = fst (window_hit t l (window t s (decay_secs l) k))"
    and hit_window: "ok (Suc n) s \<Longrightarrow> 0 < t \<Longrightarrow> decay_secs l < 2 ^ 64 \<Longrightarrow> t \<le> t'
      \<Longrightarrow> window t' (snd (hit_at t k l s)) (decay_secs l) k
        = live_window t' (decay_secs l) (snd (window_hit t l (window t s (decay_secs l) k)))"
    and hit_other: "ok (Suc n) s \<Longrightarrow> room (Suc n) s \<Longrightarrow> 0 < t \<Longrightarrow> d < 2 ^ 64 \<Longrightarrow> t \<le> t'
      \<Longrightarrow> (d, k') \<noteq> (decay_secs l, k)
      \<Longrightarrow> window t' (snd (hit_at t k l s)) d k' = window t' s d k'"
    and window_later: "t \<le> t' \<Longrightarrow> window t' s d k = live_window t' d (window t s d k)"

text \<open>How many requests a window still lets through before the second \<open>t0 + decay\<close>.\<close>

definition window_budget :: "nat \<Rightarrow> Limit \<Rightarrow> window \<Rightarrow> nat" where
  "window_budget t0 l w =
     (case w of None \<Rightarrow> max_attempts l
      | Some (h, st) \<Rightarrow> (max_attempts l - h) + (if st < t0 then max_attempts l else 0))"

lemma budget_live:
  assumes "t0 \<le> t" "t < t0 + decay_secs l" "decay_secs l = d"
  shows "window_budget t0 l (live_window t d w) \<le> window_budget t0 l w"
  using assms by (auto simp: window_budget_def live_window_def split: option.splits)

lemma budget_hit:
  assumes "t0 \<le> t" "t < t0 + decay_secs l" "decay_secs l' = decay_secs l"
  shows "window_budget t0 l (snd (window_hit t l' w)) \<le> window_budget t0 l w"
    and "is_allowed (fst (window_hit t l w)) \<Longrightarrow>
      Suc (window_budget t0 l (snd (window_hit t l w))) \<le> window_budget t0 l w"
  using assms
  by (auto simp: window_budget_def window_hit_def is_allowed_def split: option.splits if_splits)

context rate_limiter
begin

lemma hit_budget:
  assumes "ok (Suc n) s" "room (Suc n) s" "0 < t" "decay_secs l < 2 ^ 64" "decay_secs l' < 2 ^ 64"
    and "t0 \<le> t" "t \<le> t'" "t' < t0 + decay_secs l"
  shows "window_budget t0 l (window t' (snd (hit_at t k' l' s)) (decay_secs l) k)
      + (if k' = k \<and> l' = l \<and> is_allowed (fst (hit_at t k' l' s)) then 1 else 0)
    \<le> window_budget t0 l (window t s (decay_secs l) k)"
proof (cases "(decay_secs l, k) = (decay_secs l', k')")
  case True
  then have eq: "decay_secs l' = decay_secs l" "k' = k" by auto
  let ?w = "window t s (decay_secs l) k"
  have le: "t0 \<le> t'" using assms(6,7) by simp
  have "window_budget t0 l (window t' (snd (hit_at t k' l' s)) (decay_secs l) k)
      \<le> window_budget t0 l (snd (window_hit t l' ?w))"
    using hit_window [OF assms(1,3,5,7), of k'] budget_live [OF le assms(8)] eq by simp
  moreover have "fst (hit_at t k' l' s) = fst (window_hit t l' ?w)"
    using hit_decision [OF assms(1,3,5), of k'] eq by simp
  ultimately show ?thesis
    using budget_hit [of t0 t l l' ?w] assms(6-8) eq by fastforce
next
  case False
  then have "window t' (snd (hit_at t k' l' s)) (decay_secs l) k = window t' s (decay_secs l) k"
    using assms by (intro hit_other) auto
  also have "\<dots> = live_window t' (decay_secs l) (window t s (decay_secs l) k)"
    using assms(7) by (rule window_later)
  finally show ?thesis
    using budget_live [of t0 t' l] assms(6-8) False by auto
qed

lemma allowed_within_budget:
  assumes "ok (length tr) s" "room (length tr) s" "sorted (map fst tr)"
    and "\<forall>(t, k', l')\<in>set tr. 0 < t \<and> t0 \<le> t \<and> t < t0 + decay_secs l \<and> decay_secs l' < 2 ^ 64"
    and "decay_secs l < 2 ^ 64" "tr \<noteq> []"
  shows "allowed_count k l tr (fst (run_hits hit_at tr s))
    \<le> window_budget t0 l (window (fst (hd tr)) s (decay_secs l) k)"
  using assms
proof (induction tr arbitrary: s)
  case (Cons x tr)
  obtain t k' l' where x: "x = (t, k', l')" by (cases x)
  obtain d s' where hit: "hit_at t k' l' s = (d, s')" by fastforce
  have ok: "ok (Suc (length tr)) s" "room (Suc (length tr)) s"
    using Cons.prems(1,2) by simp_all
  have t: "0 < t" "t0 \<le> t" "t < t0 + decay_secs l" "decay_secs l' < 2 ^ 64"
    using Cons.prems(4) by (simp_all add: x)
  define c where "c = (if k' = k \<and> l' = l \<and> is_allowed d then 1 else 0 :: nat)"
  have split: "allowed_count k l (x # tr) (fst (run_hits hit_at (x # tr) s))
      = c + allowed_count k l tr (fst (run_hits hit_at tr s'))"
    by (simp add: allowed_count_def x hit c_def split: prod.splits)
  show ?case
  proof (cases "tr = []")
    case True
    then show ?thesis
      using hit_budget [OF ok t(1) Cons.prems(5) t(4) t(2) order.refl t(3), of k' k] split hit
      by (simp add: x c_def allowed_count_def)
  next
    case False
    let ?t = "fst (hd tr)"
    have le: "t \<le> ?t" "?t < t0 + decay_secs l"
      using Cons.prems(3,4) False by (cases tr; auto simp: x)+
    have "allowed_count k l tr (fst (run_hits hit_at tr s'))
        \<le> window_budget t0 l (window ?t s' (decay_secs l) k)"
      using Cons.prems hit_ok [OF ok(1), of t k' l'] hit_room [OF ok, of t k' l'] hit False
      by (intro Cons.IH) auto
    then show ?thesis
      using hit_budget [OF ok t(1) Cons.prems(5) t(4) t(2) le, of k' k] split hit
      by (simp add: x c_def)
  qed
qed simp

lemma allowed_bound:
  assumes "ok (length tr) s" "room (length tr) s" "sorted (map fst tr)"
    and "\<forall>(t, k', l')\<in>set tr. 0 < t \<and> t0 \<le> t \<and> t < t0 + decay_secs l \<and> decay_secs l' < 2 ^ 64"
    and "decay_secs l < 2 ^ 64"
  shows "allowed_count k l tr (fst (run_hits hit_at tr s)) \<le> 2 * max_attempts l"
    and "window t0 s (decay_secs l) k = None \<Longrightarrow>
      allowed_count k l tr (fst (run_hits hit_at tr s)) \<le> max_attempts l"
proof -
  have budget: "allowed_count k l tr (fst (run_hits hit_at tr s))
      \<le> window_budget t0 l (window (fst (hd tr)) s (decay_secs l) k)" if "tr \<noteq> []"
    using assms that by (rule allowed_within_budget)
  have "window_budget t0 l w \<le> 2 * max_attempts l" for w
    by (auto simp: window_budget_def split: option.splits)
  then show "allowed_count k l tr (fst (run_hits hit_at tr s)) \<le> 2 * max_attempts l"
    using budget by (cases "tr = []") (auto simp: allowed_count_def intro: order.trans)
  assume none: "window t0 s (decay_secs l) k = None"
  show "allowed_count k l tr (fst (run_hits hit_at tr s)) \<le> max_attempts l"
  proof (cases "tr = []")
    case False
    then have "t0 \<le> fst (hd tr)" using assms(4) by (cases tr) auto
    then have "window (fst (hd tr)) s (decay_secs l) k = None"
      using window_later [of t0 "fst (hd tr)" s "decay_secs l" k] none
      by (simp add: live_window_def)
    with budget [OF False] show ?thesis by (simp add: window_budget_def)
  qed (simp add: allowed_count_def)
qed

end

section \<open>The in-memory limiter\<close>

definition mem_window :: "nat \<Rightarrow> limiter \<Rightarrow> nat \<Rightarrow> string \<Rightarrow> window" where
  "mem_window t lim d k = live_window t d
     (map_option (\<lambda>b. (b_hits b, b_start b)) (hm_get (lm_buckets lim) (bucket_key k d)))"

definition limiter_ok :: "nat \<Rightarrow> limiter \<Rightarrow> bool" where
  "limiter_ok n lim \<longleftrightarrow>
     \<not> lm_poisoned lim \<and> lm_now lim = 0 \<and> hm_wf (lm_buckets lim)
     \<and> (\<forall>kb\<in>set (lm_buckets lim). b_seq (snd kb) < lm_next_seq lim)
     \<and> lm_next_seq lim + n < 2 ^ 64"

definition limiter_room :: "nat \<Rightarrow> limiter \<Rightarrow> bool" where
  "limiter_room n lim \<longleftrightarrow> length (lm_buckets lim) + n \<le> MAX_BUCKETS"

lemma split_bucket_key: "split_once (CHR '':'') (bucket_key k d) = Some (show_nat d, k)"
  by (simp add: bucket_key_def split_once_append show_nat_no_colon)

lemma bucket_key_inj [simp]: "bucket_key k d = bucket_key k' d' \<longleftrightarrow> k = k' \<and> d = d'"
proof
  assume "bucket_key k d = bucket_key k' d'"
  then have "show_nat d = show_nat d' \<and> k = k'"
    using split_bucket_key [of k d] split_bucket_key [of k' d'] by simp
  then show "k = k' \<and> d = d'" by (metis digits_val_show_nat)
qed simp

lemma decay_of_bucket_key: "d < 2 ^ 64 \<Longrightarrow> decay_of (bucket_key k d) = d"
  by (simp add: decay_of_def split_bucket_key parse_u64_show_nat)

lemma oldest_Some:
  "oldest bs = Some x \<Longrightarrow> x \<in> set bs \<and> (\<forall>y\<in>set bs. b_seq (snd x) \<le> b_seq (snd y))"
proof (induction bs arbitrary: x)
  case (Cons z bs)
  show ?case
  proof (cases "oldest bs")
    case None
    then have "bs = []" by (cases bs) (auto split: option.splits if_splits)
    with Cons.prems show ?thesis by simp
  next
    case (Some y)
    with Cons.IH [OF Some] Cons.prems show ?thesis
      by (fastforce split: if_splits)
  qed
qed simp

lemma oldest_None: "oldest bs = None \<longleftrightarrow> bs = []"
  by (cases bs) (auto split: option.splits)

lemma enforce_cap_wf: "hm_wf bs \<Longrightarrow> hm_wf (enforce_cap bs)"
  by (auto simp: enforce_cap_def split: option.splits)

lemma enforce_cap_sub: "set (enforce_cap bs) \<subseteq> set bs"
  by (auto simp: enforce_cap_def hm_remove_def AList.delete_eq split: option.splits)

lemma enforce_cap_length: "length bs \<le> Suc MAX_BUCKETS \<Longrightarrow> length (enforce_cap bs) \<le> MAX_BUCKETS"
proof -
  assume len: "length bs \<le> Suc MAX_BUCKETS"
  show ?thesis
  proof (cases "length bs \<le> MAX_BUCKETS")
    case False
    then have "bs \<noteq> []" by auto
    then obtain x where x: "oldest bs = Some x" using oldest_None by fastforce
    then have "fst x \<in> fst ` set bs" using oldest_Some by blast
    then have "hm_get bs (fst x) \<noteq> None"
      by (simp add: hm_get_def map_of_eq_None_iff)
    then have "length (hm_remove (fst x) bs) < length bs" by (rule length_hm_remove_less)
    with x len False show ?thesis by (cases x) (simp add: enforce_cap_def)
  qed (simp add: enforce_cap_def)
qed

text \<open>The entry inserted last is not the one evicted.\<close>

lemma enforce_cap_newest:
  assumes "hm_wf bs" "hm_get bs full = Some b"
    and "\<forall>kb\<in>set bs. fst kb \<noteq> full \<longrightarrow> b_seq (snd kb) < b_seq b"
  shows "hm_get (enforce_cap bs) full = Some b"
proof (cases "length bs \<le> MAX_BUCKETS")
  case True
  with assms show ?thesis by (simp add: enforce_cap_def)
next
  case False
  then have "2 \<le> length bs" by (simp add: MAX_BUCKETS_def)
  have "\<exists>kb\<in>set bs. fst kb \<noteq> full"
  proof (rule ccontr)
    assume "\<not> (\<exists>kb\<in>set bs. fst kb \<noteq> full)"
    then have "fst ` set bs \<subseteq> {full}" by auto
    then have "card (fst ` set bs) \<le> 1" by (metis card.empty card_insert_disjoint card_mono
          empty_iff finite.emptyI finite.insertI One_nat_def)
    with assms(1) have "length bs \<le> 1"
      by (metis distinct_card hm_wf_def length_map set_map)
    with \<open>2 \<le> length bs\<close> show False by simp
  qed
  then obtain kb where kb: "kb \<in> set bs" "fst kb \<noteq> full" by blast
  then obtain k b' where old: "oldest bs = Some (k, b')"
    using oldest_None [of bs] by (cases "oldest bs") auto
  have "(k, b') \<in> set bs" "b_seq b' \<le> b_seq (snd kb)"
    using oldest_Some [OF old] kb(1) by auto
  moreover have "b_seq (snd kb) < b_seq b" using assms(3) kb by blast
  ultimately have "k \<noteq> full"
    using assms(1,2) hm_in_set_get [of bs k b'] by auto
  with False old assms(2) show ?thesis by (simp add: enforce_cap_def)
qed

lemma get_prune:
  "hm_wf bs \<Longrightarrow> hm_get (prune t bs) k =
     (case hm_get bs k of None \<Rightarrow> None | Some b \<Rightarrow> if t - b_start b < decay_of k then Some b else None)"
  by (simp add: prune_def hm_get_retain)

lemma prune_sub: "set (prune t bs) \<subseteq> set bs" "length (prune t bs) \<le> length bs"
  by (auto simp: prune_def hm_retain_def)

lemma prune_wf: "hm_wf bs \<Longrightarrow> hm_wf (prune t bs)"
  by (simp add: prune_def)

text \<open>The map a hit works on: swept or not.\<close>

definition swept :: "nat \<Rightarrow> limiter \<Rightarrow> (string, bucket) hashmap" where
  "swept t lim =
     (if lm_hit_counter lim mod PRUNE_EVERY = 0 then prune t (lm_buckets lim) else lm_buckets lim)"

lemma swept_facts:
  assumes "hm_wf (lm_buckets lim)"
  shows "hm_wf (swept t lim)" "set (swept t lim) \<subseteq> set (lm_buckets lim)"
    "length (swept t lim) \<le> length (lm_buckets lim)"
  using assms prune_sub prune_wf by (auto simp: swept_def)

text \<open>Sweeping does not change what a live window is, now or later.\<close>

lemma swept_window:
  assumes "hm_wf (lm_buckets lim)" "d < 2 ^ 64" "t \<le> t'"
  shows "live_window t' d (map_option (\<lambda>b. (b_hits b, b_start b)) (hm_get (swept t lim) (bucket_key k d)))
    = mem_window t' lim d k"
  using assms
  by (auto simp: swept_def mem_window_def get_prune live_window_def decay_of_bucket_key
      split: option.splits if_splits)

text \<open>One hit in terms of the abstract window.\<close>

definition hit_effect ::
  "nat \<Rightarrow> string \<Rightarrow> Limit \<Rightarrow> limiter \<Rightarrow> bucket \<Rightarrow> ThrottleDecision \<Rightarrow> limiter \<Rightarrow> bool" where
  "hit_effect t k l lim b d lim' \<longleftrightarrow>
     (let full = bucket_key k (decay_secs l); bs = swept t lim in
      hit t k l lim = (d, lim')
      \<and> (d, Some (b_hits b, b_start b)) = window_hit t l (live_window t (decay_secs l)
           (map_option (\<lambda>b. (b_hits b, b_start b)) (hm_get bs full)))
      \<and> (hm_get bs full = None \<longrightarrow> b_seq b = lm_next_seq lim)
      \<and> b_seq b \<le> lm_next_seq lim
      \<and> lim' = lim\<lparr>lm_hit_counter := (lm_hit_counter lim + 1) mod 2 ^ 64,
           lm_next_seq := lm_next_seq lim + 1,
           lm_buckets := (if hm_get bs full = None \<and> is_allowed d
             then enforce_cap (hm_insert full b bs) else hm_insert full b bs)\<rparr>)"

lemma hit_effectD:
  assumes "hit_effect t k l lim b d lim'"
  shows "hit t k l lim = (d, lim')"
    "(d, Some (b_hits b, b_start b)) = window_hit t l (live_window t (decay_secs l)
       (map_option (\<lambda>b. (b_hits b, b_start b))
         (hm_get (swept t lim) (bucket_key k (decay_secs l)))))"
    "hm_get (swept t lim) (bucket_key k (decay_secs l)) = None \<Longrightarrow> b_seq b = lm_next_seq lim"
    "b_seq b \<le> lm_next_seq lim"
    "lm_buckets lim' = (if hm_get (swept t lim) (bucket_key k (decay_secs l)) = None \<and> is_allowed d
       then enforce_cap (hm_insert (bucket_key k (decay_secs l)) b (swept t lim))
       else hm_insert (bucket_key k (decay_secs l)) b (swept t lim))"
    "lm_next_seq lim' = lm_next_seq lim + 1" "lm_now lim' = lm_now lim"
    "lm_poisoned lim' = lm_poisoned lim"
  using assms unfolding hit_effect_def Let_def by (elim conjE; simp)+

lemma hit_shape:
  assumes ok: "limiter_ok (Suc n) lim" and t: "0 < t"
  shows "\<exists>b d lim'. hit_effect t k l lim b d lim'"
proof -
  let ?full = "bucket_key k (decay_secs l)" and ?bs = "swept t lim"
  define b0 where "b0 = (case hm_get ?bs ?full of Some b \<Rightarrow> b
    | None \<Rightarrow> \<lparr>b_hits = 0, b_start = t, b_seq = lm_next_seq lim\<rparr>)"
  define b1 where "b1 = (if decay_secs l \<le> t - b_start b0
    then b0\<lparr>b_start := t, b_hits := 0, b_seq := lm_next_seq lim\<rparr> else b0)"
  define b2 where "b2 = (if max_attempts l \<le> b_hits b1 then b1 else b1\<lparr>b_hits := b_hits b1 + 1\<rparr>)"
  have basics: "\<not> lm_poisoned lim" "current_time t lim = t" "hm_wf (lm_buckets lim)"
    "(lm_next_seq lim + 1) mod 2 ^ 64 = lm_next_seq lim + 1"
    using ok by (auto simp: limiter_ok_def current_time_def)
  have seq0: "b_seq b0 \<le> lm_next_seq lim"
  proof (cases "hm_get ?bs ?full")
    case (Some b)
    then have "(?full, b) \<in> set (lm_buckets lim)"
      using hm_get_in_set swept_facts(2) [OF basics(3)] by fastforce
    with ok Some show ?thesis by (force simp: limiter_ok_def b0_def)
  qed (simp add: b0_def)
  let ?d = "fst (hit t k l lim)" and ?lim' = "snd (hit t k l lim)"
  note hd = hit_def [of t k l lim, unfolded Let_def basics(2), folded swept_def, folded b0_def, folded b1_def]
  have "(?d, Some (b_hits b2, b_start b2)) = window_hit t l (live_window t (decay_secs l)
      (map_option (\<lambda>b. (b_hits b, b_start b)) (hm_get ?bs ?full)))"
    using t basics unfolding hd
    by (auto simp: b2_def b1_def b0_def window_hit_def live_window_def split: option.splits)
  moreover have "hm_get ?bs ?full = None \<longrightarrow> b_seq b2 = lm_next_seq lim"
    by (simp add: b2_def b1_def b0_def)
  moreover have "b_seq b2 \<le> lm_next_seq lim"
    using seq0 by (simp add: b2_def b1_def)
  moreover have "?lim' = lim\<lparr>lm_hit_counter := (lm_hit_counter lim + 1) mod 2 ^ 64,
     lm_next_seq := lm_next_seq lim + 1,
     lm_buckets := (if hm_get ?bs ?full = None \<and> is_allowed ?d
       then enforce_cap (hm_insert ?full b2 ?bs) else hm_insert ?full b2 ?bs)\<rparr>"
    using t basics unfolding hd by (auto simp: b2_def is_allowed_def)
  ultimately have "hit_effect t k l lim b2 ?d ?lim'"
    unfolding hit_effect_def Let_def by (intro conjI prod.collapse [symmetric])
  then show ?thesis by blast
qed

lemma hit_not_running:
  assumes "limiter_ok n lim" "t = 0"
  shows "hit t k l lim = (Denied (decay_secs l), lim)"
  using assms by (simp add: hit_def Let_def limiter_ok_def current_time_def)

lemma limiter_ok_less: "limiter_ok (Suc n) lim \<Longrightarrow> limiter_ok n lim"
  by (simp add: limiter_ok_def)

lemma hit_keeps_ok:
  assumes ok: "limiter_ok (Suc n) lim"
  shows "limiter_ok n (snd (hit t k l lim))"
proof (cases "t = 0")
  case True
  with ok show ?thesis using hit_not_running limiter_ok_less by fastforce
next
  case False
  let ?full = "bucket_key k (decay_secs l)"
  obtain b d lim' where eff: "hit_effect t k l lim b d lim'"
    using hit_shape [OF ok, of t k l] False by blast
  note h = hit_effectD [OF eff]
  have wf: "hm_wf (lm_buckets lim)" using ok by (simp add: limiter_ok_def)
  note sw = swept_facts [OF wf, of t]
  have old: "\<forall>kb\<in>set (swept t lim). b_seq (snd kb) < lm_next_seq lim + 1"
    using ok sw(2) by (force simp: limiter_ok_def)
  have "set (hm_insert ?full b (swept t lim)) \<subseteq> insert (?full, b) (set (swept t lim))"
    by (rule hm_insert_sub)
  with old h(4) have new: "\<forall>kb\<in>set (hm_insert ?full b (swept t lim)). b_seq (snd kb) < lm_next_seq lim + 1"
    by fastforce
  then have "\<forall>kb\<in>set (lm_buckets lim'). b_seq (snd kb) < lm_next_seq lim + 1"
    using enforce_cap_sub h(5) by auto
  moreover have "hm_wf (lm_buckets lim')"
    using sw(1) enforce_cap_wf h(5) by simp
  ultimately show ?thesis
    using ok h(1,6,7,8) by (simp add: limiter_ok_def)
qed

lemma hit_length:
  assumes ok: "limiter_ok (Suc n) lim"
  shows "length (lm_buckets (snd (hit t k l lim))) \<le> Suc (length (lm_buckets lim))"
proof (cases "t = 0")
  case True
  with ok show ?thesis using hit_not_running by fastforce
next
  case False
  let ?full = "bucket_key k (decay_secs l)"
  obtain b d lim' where eff: "hit_effect t k l lim b d lim'"
    using hit_shape [OF ok, of t k l] False by blast
  note h = hit_effectD [OF eff]
  have wf: "hm_wf (lm_buckets lim)" using ok by (simp add: limiter_ok_def)
  have "length (hm_insert ?full b (swept t lim)) \<le> Suc (length (lm_buckets lim))"
    using swept_facts(3) [OF wf, of t] by (simp add: length_hm_insert)
  moreover have "length (enforce_cap bs) \<le> length bs" for bs
    by (auto simp: enforce_cap_def hm_remove_def length_delete_le split: option.splits)
  ultimately show ?thesis
    using h(1,5) by (auto intro: order.trans)
qed

lemma hit_bounded:
  assumes ok: "limiter_ok (Suc n) lim" and le: "length (lm_buckets lim) \<le> MAX_BUCKETS"
    and pos: "0 < max_attempts l"
  shows "length (lm_buckets (snd (hit t k l lim))) \<le> MAX_BUCKETS"
proof (cases "t = 0")
  case True
  with ok le show ?thesis using hit_not_running by fastforce
next
  case False
  let ?full = "bucket_key k (decay_secs l)"
  obtain b d lim' where eff: "hit_effect t k l lim b d lim'"
    using hit_shape [OF ok, of t k l] False by blast
  note h = hit_effectD [OF eff]
  have wf: "hm_wf (lm_buckets lim)" using ok by (simp add: limiter_ok_def)
  note sw = swept_facts(3) [OF wf, of t]
  show ?thesis
  proof (cases "hm_get (swept t lim) ?full")
    case None
    then have "is_allowed d"
      using h(2) pos by (simp add: window_hit_def live_window_def is_allowed_def)
    with None h(1,5) sw le show ?thesis
      by (simp add: enforce_cap_length length_hm_insert)
  next
    case (Some b')
    with h(1,5) sw le show ?thesis by (simp add: length_hm_insert)
  qed
qed

lemma hit_own_bucket:
  assumes ok: "limiter_ok (Suc n) lim" and t: "0 < t"
  shows "\<exists>b. hm_get (lm_buckets (snd (hit t k l lim))) (bucket_key k (decay_secs l)) = Some b
    \<and> (fst (hit t k l lim), Some (b_hits b, b_start b)) = window_hit t l (live_window t (decay_secs l)
       (map_option (\<lambda>b. (b_hits b, b_start b)) (hm_get (swept t lim) (bucket_key k (decay_secs l)))))"
proof -
  let ?full = "bucket_key k (decay_secs l)" and ?bs = "swept t lim"
  obtain b d lim' where eff: "hit_effect t k l lim b d lim'"
    using hit_shape [OF ok, of t k l] t by blast
  note h = hit_effectD [OF eff]
  have wf: "hm_wf (lm_buckets lim)" using ok by (simp add: limiter_ok_def)
  note sw = swept_facts [OF wf, of t]
  have "hm_get (enforce_cap (hm_insert ?full b ?bs)) ?full = Some b" if none: "hm_get ?bs ?full = None"
  proof (rule enforce_cap_newest)
    show "hm_wf (hm_insert ?full b ?bs)" using sw(1) by simp
    show "\<forall>kb\<in>set (hm_insert ?full b ?bs). fst kb \<noteq> ?full \<longrightarrow> b_seq (snd kb) < b_seq b"
      using none h(3) ok sw(2) by (force simp: hm_insert_absent limiter_ok_def)
  qed simp
  then have "hm_get (lm_buckets lim') ?full = Some b"
    using h(5) by simp
  with h(1,2) show ?thesis by auto
qed

interpretation limiter: rate_limiter hit mem_window limiter_ok limiter_room
proof (unfold_locales, goal_cases)
  case (1 n s t k l)
  then show ?case by (rule hit_keeps_ok)
next
  case (2 n s t k l)
  then show ?case using hit_length [OF 2(1), of t k l] by (simp add: limiter_room_def)
next
  case (3 n s t l k)
  have "hm_wf (lm_buckets s)" using 3(1) by (simp add: limiter_ok_def)
  then show ?case
    using hit_own_bucket [OF 3(1,2), of k l] swept_window [of s "decay_secs l" t t k] 3(3)
    by (metis fst_conv order.refl)
next
  case (4 n s t l t' k)
  have "hm_wf (lm_buckets s)" using 4(1) by (simp add: limiter_ok_def)
  then have "live_window t (decay_secs l) (map_option (\<lambda>b. (b_hits b, b_start b))
      (hm_get (swept t s) (bucket_key k (decay_secs l)))) = mem_window t s (decay_secs l) k"
    using swept_window [of s "decay_secs l" t t k] 4(3) by simp
  then obtain b where "hm_get (lm_buckets (snd (hit t k l s))) (bucket_key k (decay_secs l)) = Some b"
    "Some (b_hits b, b_start b) = snd (window_hit t l (mem_window t s (decay_secs l) k))"
    using hit_own_bucket [OF 4(1,2), of k l] by (metis snd_conv)
  then show ?case
    by (simp add: mem_window_def)
next
  case (5 n s t d t' k' l k)
  let ?full = "bucket_key k (decay_secs l)" and ?bs = "swept t s"
  obtain b x lim' where eff: "hit_effect t k l s b x lim'"
    using hit_shape [OF 5(1,3), of k l] by blast
  note h = hit_effectD [OF eff]
  have wf: "hm_wf (lm_buckets s)" using 5(1) by (simp add: limiter_ok_def)
  have "length (hm_insert ?full b ?bs) \<le> MAX_BUCKETS"
    using swept_facts(3) [OF wf, of t] 5(2) by (simp add: length_hm_insert limiter_room_def)
  then have "lm_buckets lim' = hm_insert ?full b ?bs"
    using h(5) by (simp add: enforce_cap_def)
  then have "hm_get (lm_buckets lim') (bucket_key k' d) = hm_get ?bs (bucket_key k' d)"
    using 5(6) by auto
  then show ?case
    using swept_window [OF wf 5(4,5), of k'] h(1) by (simp add: mem_window_def)
next
  case (6 t t' s d k)
  then show ?case
    by (auto simp: mem_window_def live_window_def split: option.splits if_splits)
qed

section \<open>Requests through a named limiter\<close>

fun run_named ::
  "(nat \<Rightarrow> string \<Rightarrow> Limit \<Rightarrow> 's \<Rightarrow> ThrottleDecision \<times> 's) \<Rightarrow> (string \<Rightarrow> string) \<Rightarrow> registry \<Rightarrow> string
    \<Rightarrow> (request \<Rightarrow> 'w \<Rightarrow> 'r \<times> 'w) \<Rightarrow> (nat \<times> request) list \<Rightarrow> 's \<times> 'w \<Rightarrow> 'r answer list \<times> 's \<times> 'w" where
  "run_named f quote reg name inner [] sw = ([], sw)"
| "run_named f quote reg name inner ((t, rq) # xs) sw =
     (case named_limiter_call (f t) quote reg name inner rq sw of
        (a, sw') \<Rightarrow> (case run_named f quote reg name inner xs sw' of (as, sw'') \<Rightarrow> (a # as, sw'')))"

definition is_forwarded :: "'r answer \<Rightarrow> bool" where
  "is_forwarded a \<longleftrightarrow> (case a of Forwarded _ \<Rightarrow> True | _ \<Rightarrow> False)"

definition request_key :: "LimiterDefinition \<Rightarrow> request \<Rightarrow> string option" where
  "request_key d rq = derive_key d (limiter_input rq (rq_peer rq))"

definition forwarded_count ::
  "LimiterDefinition \<Rightarrow> string \<Rightarrow> (nat \<times> request) list \<Rightarrow> 'r answer list \<Rightarrow> nat" where
  "forwarded_count d k rqs as =
     length (filter (\<lambda>((t, rq), a). request_key d rq = Some k \<and> is_forwarded a) (zip rqs as))"

text \<open>The hits a list of requests causes: one for each request whose key can be derived.\<close>

fun hits_of :: "LimiterDefinition \<Rightarrow> (nat \<times> request) list \<Rightarrow> (nat \<times> string \<times> Limit) list" where
  "hits_of d [] = []"
| "hits_of d ((t, rq) # xs) =
     (case request_key d rq of
        None \<Rightarrow> hits_of d xs
      | Some k \<Rightarrow> (t, k, ld_limit d) # hits_of d xs)"

lemma named_call_cases:
  assumes "reg name = Some d"
  shows "named_limiter_call f quote reg name inner rq (s, w) =
    (case request_key d rq of
       None \<Rightarrow> (TooManyRequests (decay_secs (ld_limit d)), s, w)
     | Some k \<Rightarrow>
         (case f k (ld_limit d) s of
            (Allowed _, s') \<Rightarrow> (case inner rq w of (r, w') \<Rightarrow> (Forwarded r, s', w'))
          | (Denied r, s') \<Rightarrow> (TooManyRequests r, s', w)))"
  using assms
  by (auto simp: named_limiter_call_def reg_check_def for_name_def request_key_def
      split: option.splits prod.splits ThrottleDecision.splits)

lemma forwarded_is_allowed:
  assumes "reg name = Some d"
  shows "forwarded_count d k rqs (fst (run_named f quote reg name inner rqs (s, w)))
    = allowed_count k (ld_limit d) (hits_of d rqs) (fst (run_hits f (hits_of d rqs) s))"
proof (induction rqs arbitrary: s w)
  case (Cons x rqs)
  obtain t rq where x: "x = (t, rq)" by (cases x)
  show ?case
  proof (cases "request_key d rq")
    case None
    then show ?thesis
      using Cons.IH [of s w] assms
      by (auto simp: x named_call_cases forwarded_count_def split: prod.splits)
  next
    case (Some k')
    obtain dec s' where hit: "f t k' (ld_limit d) s = (dec, s')" by fastforce
    show ?thesis
    proof (cases dec)
      case (Allowed n)
      obtain r w' where "inner rq w = (r, w')" by fastforce
      with Allowed hit Some show ?thesis
        using Cons.IH [of s' w'] assms
        by (auto simp: x named_call_cases forwarded_count_def allowed_count_def is_forwarded_def
            is_allowed_def split: prod.splits)
    next
      case (Denied n)
      with hit Some show ?thesis
        using Cons.IH [of s' w] assms
        by (auto simp: x named_call_cases forwarded_count_def allowed_count_def is_forwarded_def
            is_allowed_def split: prod.splits)
    qed
  qed
qed (simp add: forwarded_count_def allowed_count_def)

lemma hits_of_mem: "(t, k, l) \<in> set (hits_of d rqs) \<Longrightarrow> l = ld_limit d \<and> t \<in> fst ` set rqs"
  by (induction rqs) (auto split: option.splits)

lemma hits_of_length: "length (hits_of d rqs) \<le> length rqs"
  by (induction rqs) (auto split: option.splits)

lemma hits_of_sorted: "sorted (map fst rqs) \<Longrightarrow> sorted (map fst (hits_of d rqs))"
proof (induction rqs)
  case (Cons x rqs)
  then show ?case by (cases x) (fastforce split: option.splits dest: hits_of_mem)
qed simp

lemma limiter_ok_mono: "limiter_ok n lim \<Longrightarrow> m \<le> n \<Longrightarrow> limiter_ok m lim"
  by (simp add: limiter_ok_def)

lemma limiter_room_mono: "limiter_room n lim \<Longrightarrow> m \<le> n \<Longrightarrow> limiter_room m lim"
  by (simp add: limiter_room_def)

text \<open>With a trusted proxy configured the key comes from the header whoever the peer is.\<close>

lemma forwarded_header_wins:
  assumes "tc_trusted_proxies c \<noteq> []" "trim (takeWhile (\<lambda>x. x \<noteq> CHR '','') ff) \<noteq> []"
  shows "key_for_peer c peer (Some ff) = trim (takeWhile (\<lambda>x. x \<noteq> CHR '','') ff)"
proof -
  obtain first rest where "split_on (CHR '','') ff = first # rest"
    using split_on_ne [of "CHR '',''" ff] by (cases "split_on (CHR '','') ff") auto
  with split_on_hd [of "CHR '',''" ff] assms show ?thesis
    by (simp add: key_for_peer_def)
qed

section \<open>Properties\<close>

text \<open>C27. The in-memory limiter implements the fixed window: its decision is that of the
  abstract window of the pair of key and decay, it leaves exactly the abstract successor window,
  and a denial asks the client to wait between one second and the whole window. Sweeps, the
  eviction of another key and the text form of the map key make no difference to the key that
  was hit.\<close>

theorem limiter_refines_fixed_window:
  assumes "limiter_ok (Suc n) lim" "0 < t" "decay_secs l < 2 ^ 64" "t \<le> t'"
  shows "fst (hit t k l lim) = fst (window_hit t l (mem_window t lim (decay_secs l) k))
    \<and> mem_window t' (snd (hit t k l lim)) (decay_secs l) k
      = live_window t' (decay_secs l) (snd (window_hit t l (mem_window t lim (decay_secs l) k)))
    \<and> (\<forall>r. fst (hit t k l lim) = Denied r \<longrightarrow> 1 \<le> r \<and> r \<le> max (decay_secs l) 1)"
proof (intro conjI allI impI)
  show dec: "fst (hit t k l lim) = fst (window_hit t l (mem_window t lim (decay_secs l) k))"
    using assms(1-3) by (rule limiter.hit_decision)
  show "mem_window t' (snd (hit t k l lim)) (decay_secs l) k
      = live_window t' (decay_secs l) (snd (window_hit t l (mem_window t lim (decay_secs l) k)))"
    using assms by (rule limiter.hit_window)
  fix r
  assume "fst (hit t k l lim) = Denied r"
  then show "1 \<le> r" "r \<le> max (decay_secs l) 1"
    unfolding dec by (auto simp: window_hit_def split: option.splits prod.splits if_splits)
qed

lemma limiter_new_ok: "n < 2 ^ 64 \<Longrightarrow> limiter_ok n limiter_new"
  by (simp add: limiter_ok_def limiter_new_def)

theorem limiter_refines_fixed_window_witness:
  "fst (hit 100 ''ip'' (per_minute 3) limiter_new) = Allowed 2
   \<and> mem_window 120 (snd (hit 100 ''ip'' (per_minute 3) limiter_new)) 60 ''ip'' = Some (1, 100)"
  using limiter_refines_fixed_window [of 0 limiter_new 100 "per_minute 3" 120 "''ip''"]
    limiter_new_ok [of "Suc 0"]
  by (simp add: per_minute_def window_hit_def live_window_def mem_window_def limiter_new_def)


definition login_request :: request where
  "login_request = \<lparr>rq_user_key = None, rq_peer = Some ''10.0.0.1'', rq_xff = None,
     rq_username = Some '' Bob '', rq_session_id = None, rq_credential_id = None\<rparr>"

definition kit_registry :: registry where
  "kit_registry = from_fortify_config \<lparr>fl_login = ''login'', fl_two_factor = None, fl_passkeys = None\<rparr>"

lemma kit_registry_login: "kit_registry ''login'' = Some login_definition"
proof -
  have "trim ''login'' = ''login''" by code_simp
  then show ?thesis
    by (simp add: kit_registry_def from_fortify_config_def register_configured_def reg_register_def)
qed


text \<open>C28. Fail closed: a request reaches the handler only when the limiter's name is registered,
  the request carries the identity the limiter needs and the backend allows the hit. An unknown
  name is answered with an error and a missing identity with a denial for the whole window, and in
  both cases neither the backend nor the handler is touched.\<close>

theorem named_limiter_fails_closed:
  "case named_limiter_call hit_fn quote reg name inner rq (s, w) of
     (Forwarded r, s', w') \<Rightarrow>
       \<exists>d k n. reg name = Some d \<and> request_key d rq = Some k
         \<and> hit_fn k (ld_limit d) s = (Allowed n, s') \<and> inner rq w = (r, w')
   | (TooManyRequests r, s', w') \<Rightarrow>
       w' = w \<and> (\<exists>d. reg name = Some d \<and>
         (case request_key d rq of
            None \<Rightarrow> r = decay_secs (ld_limit d) \<and> s' = s
          | Some k \<Rightarrow> hit_fn k (ld_limit d) s = (Denied r, s')))
   | (Misconfigured m, s', w') \<Rightarrow> w' = w \<and> s' = s \<and> reg name = None"
proof (cases "reg name")
  case None
  then show ?thesis
    by (simp add: named_limiter_call_def reg_check_def for_name_def)
next
  case (Some d)
  then show ?thesis
    unfolding named_call_cases [of reg name d, OF Some]
    by (auto split: option.splits prod.splits ThrottleDecision.splits)
qed

lemma run_hits_bounded:
  assumes "limiter_ok (length tr) lim" "length (lm_buckets lim) \<le> MAX_BUCKETS"
    and "\<forall>(t, k, l)\<in>set tr. 0 < max_attempts l"
  shows "length (lm_buckets (snd (run_hits hit tr lim))) \<le> MAX_BUCKETS"
  using assms
proof (induction tr arbitrary: lim)
  case (Cons x tr)
  obtain t k l where x: "x = (t, k, l)" by (cases x)
  obtain d lim' where h: "hit t k l lim = (d, lim')" by fastforce
  have "limiter_ok (length tr) lim'" "length (lm_buckets lim') \<le> MAX_BUCKETS"
    using Cons.prems hit_keeps_ok [of "length tr" lim t k l] hit_bounded [of "length tr" lim l t k] h
    by (auto simp: x)
  then show ?case
    using Cons.IH [of lim'] Cons.prems(3) h by (auto simp: x split: prod.splits)
qed simp

text \<open>Memory stays bounded: any sequence of fewer than \<open>2 ^ 64\<close> hits whose limits allow
  at least one attempt keeps the number of buckets at most \<open>MAX_BUCKETS\<close>.\<close>

lemma limiter_buckets_bounded:
  assumes "length tr < 2 ^ 64" "\<forall>(t, k, l)\<in>set tr. 0 < max_attempts l"
  shows "length (lm_buckets (snd (run_hits hit tr limiter_new))) \<le> MAX_BUCKETS"
  using assms by (intro run_hits_bounded) (simp_all add: limiter_new_ok, simp add: limiter_new_def)

lemma limiter_buckets_bounded_example:
  "length (lm_buckets (snd (run_hits hit [(5, ''a'', per_second 1), (5, ''b'', per_minute 2)] limiter_new)))
   \<le> MAX_BUCKETS"
  using limiter_buckets_bounded [of "[(5, ''a'', per_second 1), (5, ''b'', per_minute 2)]"]
  by (simp add: per_second_def per_minute_def)

text \<open>A limit of zero attempts: every denied hit of a new key leaves its bucket behind.\<close>

definition opened_at :: "nat \<Rightarrow> nat \<Rightarrow> string set \<Rightarrow> limiter \<Rightarrow> bool" where
  "opened_at t d ks lim \<longleftrightarrow> (\<forall>(full, b)\<in>set (lm_buckets lim).
     \<exists>k\<in>ks. full = bucket_key k d \<and> b_start b = t)"

lemma zero_limit_hit:
  assumes ok: "limiter_ok (Suc n) lim" and t: "0 < t" and d: "0 < decay_secs l" "decay_secs l < 2 ^ 64"
    and zero: "max_attempts l = 0" and opened: "opened_at t (decay_secs l) ks lim" and k: "k \<notin> ks"
  shows "length (lm_buckets (snd (hit t k l lim))) = Suc (length (lm_buckets lim))
    \<and> opened_at t (decay_secs l) (insert k ks) (snd (hit t k l lim))"
proof -
  let ?full = "bucket_key k (decay_secs l)"
  obtain b x lim' where eff: "hit_effect t k l lim b x lim'" using hit_shape [OF ok t] by blast
  note h = hit_effectD [OF eff]
  have sw: "swept t lim = lm_buckets lim"
    using opened d by (force simp: swept_def prune_def hm_retain_def opened_at_def
        decay_of_bucket_key intro!: filter_True)
  have none: "hm_get (lm_buckets lim) ?full = None"
  proof (rule ccontr)
    assume "hm_get (lm_buckets lim) ?full \<noteq> None"
    then obtain b' where "(?full, b') \<in> set (lm_buckets lim)" using hm_get_in_set by fastforce
    with opened k show False by (auto simp: opened_at_def)
  qed
  then have "\<not> is_allowed x" "b_start b = t"
    using h(2) zero by (simp_all add: sw window_hit_def live_window_def is_allowed_def)
  with none h(1,5) have "lm_buckets (snd (hit t k l lim)) = lm_buckets lim @ [(?full, b)]"
    by (simp add: sw hm_insert_absent)
  with opened \<open>b_start b = t\<close> show ?thesis
    by (auto simp: opened_at_def)
qed

lemma zero_limit_run:
  assumes "limiter_ok (length ks) lim" "0 < t" "0 < decay_secs l" "decay_secs l < 2 ^ 64"
    and "max_attempts l = 0" "opened_at t (decay_secs l) seen lim" "distinct ks" "set ks \<inter> seen = {}"
  shows "length (lm_buckets (snd (run_hits hit (map (\<lambda>k. (t, k, l)) ks) lim)))
    = length (lm_buckets lim) + length ks"
  using assms
proof (induction ks arbitrary: lim seen)
  case (Cons k ks)
  obtain d lim' where h: "hit t k l lim = (d, lim')" by fastforce
  have ok: "limiter_ok (Suc (length ks)) lim" using Cons.prems(1) by simp
  have "length (lm_buckets lim') = Suc (length (lm_buckets lim))"
    "opened_at t (decay_secs l) (insert k seen) lim'"
    using zero_limit_hit [OF ok Cons.prems(2-6), of k] Cons.prems(8) h by auto
  moreover have "limiter_ok (length ks) lim'" using hit_keeps_ok [OF ok, of t k l] h by simp
  moreover have "set ks \<inter> insert k seen = {}" using Cons.prems(7,8) by auto
  ultimately show ?case
    using Cons.IH [of lim' "insert k seen"] Cons.prems(2-5,7) h by (auto split: prod.splits)
qed simp

text \<open>The cap does not cover a limit of zero attempts: the denial returns before the cap is
  enforced, so a flood of distinct keys within one window adds one bucket per key, without
  bound.\<close>

lemma limiter_zero_limit_unbounded:
  assumes "distinct ks" "length ks < 2 ^ 64" "0 < t" "0 < decay_secs l" "decay_secs l < 2 ^ 64"
    and "max_attempts l = 0"
  shows "length (lm_buckets (snd (run_hits hit (map (\<lambda>k. (t, k, l)) ks) limiter_new))) = length ks"
proof -
  have "opened_at t (decay_secs l) {} limiter_new" by (simp add: opened_at_def limiter_new_def)
  then show ?thesis
    using zero_limit_run [OF limiter_new_ok [OF assms(2)] assms(3-6) _ assms(1), of "{}"]
    by (simp add: limiter_new_def)
qed

lemma limiter_zero_limit_unbounded_example:
  "length (lm_buckets (snd (run_hits hit (map (\<lambda>k. (7, k, per_minute 0)) [''a'', ''b'', ''c'']) limiter_new))) = 3"
  using limiter_zero_limit_unbounded [of "[''a'', ''b'', ''c'']" 7 "per_minute 0"]
  by (simp add: per_minute_def)

end
