(* ===== verification/Queue.thy ===== *)
theory Queue
  imports Cache "HOL-Library.Multiset" "HOL-Library.Char_ord" "HOL-Library.List_Lexorder"
begin

text \<open>
  The queue, \<^verbatim>\<open>rustasea-queue\<close>: retry policies (\<^verbatim>\<open>retry.rs\<close>, \<^verbatim>\<open>policy.rs\<close>),
  jobs and one execution attempt (\<^verbatim>\<open>job.rs\<close>), the driver contract with the in-memory
  \<^verbatim>\<open>sync\<close> driver (\<^verbatim>\<open>driver.rs\<close>) and the \<^verbatim>\<open>database\<close> driver
  (\<^verbatim>\<open>driver/database.rs\<close>).

  Durations and instants are natural numbers of nanoseconds. JSON values are their texts; the
  codec of the job envelope (\<^verbatim>\<open>serde_json\<close>) is a parameter, as is the conversion of a
  duration by \<^verbatim>\<open>chrono\<close>, which fails out of its range. Random identifiers are arguments.
  The tables of the database driver are lists of rows, on which its SQL statements have their
  relational meaning; a statement or transaction is one step. A job body acts on an environment
  \<open>'e\<close>.
\<close>

section \<open>Policies\<close>

definition DURATION_MAX :: nat where
  "DURATION_MAX = 2 ^ 64 * 10 ^ 9 - 1"

definition saturating_mul :: "nat \<Rightarrow> nat \<Rightarrow> nat" where
  "saturating_mul d k = min (d * k) DURATION_MAX"

record RetryPolicy =
  rp_tries :: nat
  rp_backoff :: nat

definition retry_policy_none :: RetryPolicy where
  "retry_policy_none = \<lparr>rp_tries = 1, rp_backoff = 0\<rparr>"

definition delay_for_retry :: "RetryPolicy \<Rightarrow> nat \<Rightarrow> nat" where
  "delay_for_retry p n =
     (if n \<le> 1 \<or> rp_backoff p = 0 then rp_backoff p
      else saturating_mul (rp_backoff p) (2 ^ min (n - 1) 30))"

record JobPolicy =
  max_tries :: nat
  jp_backoff :: nat
  jp_timeout :: nat

definition policy_new :: "nat \<Rightarrow> nat \<Rightarrow> nat \<Rightarrow> JobPolicy" where
  "policy_new n b t = \<lparr>max_tries = n, jp_backoff = b, jp_timeout = t\<rparr>"

text \<open>\<^verbatim>\<open>from_seconds\<close> truncates the number of tries to 32 bits.\<close>

definition policy_from_seconds :: "nat \<Rightarrow> nat \<Rightarrow> nat \<Rightarrow> JobPolicy" where
  "policy_from_seconds n b t = \<lparr>max_tries = n mod 2 ^ 32, jp_backoff = b * 10 ^ 9, jp_timeout = t * 10 ^ 9\<rparr>"

definition policy_none :: JobPolicy where
  "policy_none = \<lparr>max_tries = 1, jp_backoff = 0, jp_timeout = 0\<rparr>"

definition allows_retry :: "JobPolicy \<Rightarrow> nat \<Rightarrow> bool" where
  "allows_retry p attempts \<longleftrightarrow> attempts < max_tries p"

definition delay_for_attempt :: "JobPolicy \<Rightarrow> nat \<Rightarrow> nat" where
  "delay_for_attempt p n =
     (if jp_backoff p = 0 \<or> n \<le> 1 then jp_backoff p
      else saturating_mul (jp_backoff p) (2 ^ min (n - 1) 30))"

section \<open>Jobs\<close>

type_synonym json = string

definition json_null :: json where
  "json_null = ''null''"

datatype JobError = Timeout | MaxAttemptsExceeded | Exception string

fun job_error_text :: "JobError \<Rightarrow> string" where
  "job_error_text Timeout = ''job timed out''"
| "job_error_text MaxAttemptsExceeded = ''max attempts exceeded''"
| "job_error_text (Exception m) = m"

datatype QueueError =
    DuplicateRoute string
  | UnknownConnection string
  | QStoreUnavailable string
  | QSerialization string
  | Unrouted string
  | RegistryPoisoned
  | QEmpty string
  | QConfig string

datatype JobOutcome =
    Succeeded
  | Skipped
  | Failed string
  | Retrying nat nat string

record JobPayload =
  jp_queue :: string
  jp_connection :: string
  jp_available_at :: "nat option"
  jp_attempts :: nat
  jp_id :: "string option"
  jp_job :: "string option"
  jp_batch_id :: "string option"
  jp_payload :: json

definition payload_new :: "string \<Rightarrow> string \<Rightarrow> string option \<Rightarrow> json \<Rightarrow> JobPayload" where
  "payload_new queue connection job body = \<lparr>jp_queue = queue, jp_connection = connection,
     jp_available_at = None, jp_attempts = 1, jp_id = None, jp_job = job, jp_batch_id = None,
     jp_payload = body\<rparr>"

text \<open>The body of a job: its serialized form (\<open>None\<close> when serialization fails), whether its
  model is missing, what recording the skip does, and its handler, run to its result or for a
  limited time (\<open>None\<close> when it has not returned by then).\<close>

record 'e job_body =
  jb_json :: "json option"
  jb_suppressed :: "'e \<Rightarrow> bool"
  jb_on_skip :: "'e \<Rightarrow> 'e"
  jb_handle :: "'e \<Rightarrow> (JobError + unit) \<times> 'e"
  jb_handle_for :: "nat \<Rightarrow> 'e \<Rightarrow> (JobError + unit) option \<times> 'e"
  jb_on_timeout :: "'e \<Rightarrow> 'e"

record 'e erased_job =
  ej_body :: "'e job_body option"
  ej_key :: string
  ej_policy :: JobPolicy

definition as_json :: "'e erased_job \<Rightarrow> json" where
  "as_json j =
     (case ej_body j of
        None \<Rightarrow> json_null
      | Some b \<Rightarrow> (case jb_json b of None \<Rightarrow> json_null | Some x \<Rightarrow> x))"

definition on_timeout :: "'e erased_job \<Rightarrow> 'e \<Rightarrow> 'e" where
  "on_timeout j e = (case ej_body j of None \<Rightarrow> e | Some b \<Rightarrow> jb_on_timeout b e)"

definition attempt_result ::
  "'e erased_job \<Rightarrow> 'e job_body \<Rightarrow> 'e \<Rightarrow> (JobError + unit) \<times> 'e" where
  "attempt_result taken b e =
     (if jp_timeout (ej_policy taken) = 0 then jb_handle b e
      else
        (case jb_handle_for b (jp_timeout (ej_policy taken)) e of
           (Some r, e') \<Rightarrow> (r, e')
         | (None, e') \<Rightarrow> (Inl Timeout, on_timeout taken e')))"

text \<open>\<^verbatim>\<open>ErasedJob::run\<close>: \<open>None\<close> is the panic of a second run.\<close>

definition run_erased ::
  "'e erased_job \<Rightarrow> 'e \<Rightarrow> JobOutcome option \<times> 'e erased_job \<times> 'e" where
  "run_erased j e =
     (case ej_body j of
        None \<Rightarrow> (None, j, e)
      | Some b \<Rightarrow>
          if jb_suppressed b e then (Some Skipped, j, jb_on_skip b e)
          else
            (let taken = j\<lparr>ej_body := None\<rparr> in
             case attempt_result taken b e of
               (Inr _, e') \<Rightarrow> (Some Succeeded, taken, e')
             | (Inl err, e') \<Rightarrow>
                 (Some (if allows_retry (ej_policy j) 1
                        then Retrying 2 (delay_for_attempt (ej_policy j) 1) (job_error_text err)
                        else Failed (job_error_text err)),
                  taken, e')))"

record FailedJob =
  fj_id :: string
  fj_connection :: string
  fj_queue :: string
  fj_payload :: json
  fj_exception :: string
  fj_failed_at :: nat

definition failed_new ::
  "string \<Rightarrow> nat \<Rightarrow> string \<Rightarrow> string \<Rightarrow> json \<Rightarrow> string \<Rightarrow> FailedJob" where
  "failed_new uuid now connection queue body exc = \<lparr>fj_id = uuid, fj_connection = connection,
     fj_queue = queue, fj_payload = body, fj_exception = exc, fj_failed_at = now\<rparr>"

section \<open>Drivers\<close>

record 'd driver_ops =
  d_push :: "string \<Rightarrow> nat \<Rightarrow> JobPayload \<Rightarrow> 'd \<Rightarrow> (QueueError + unit) \<times> 'd"
  d_pop :: "nat \<Rightarrow> string \<Rightarrow> nat \<Rightarrow> 'd \<Rightarrow> (QueueError + JobPayload option) \<times> 'd"
  d_ack :: "JobPayload \<Rightarrow> 'd \<Rightarrow> (QueueError + unit) \<times> 'd"
  d_release :: "nat \<Rightarrow> JobPayload \<Rightarrow> nat \<Rightarrow> 'd \<Rightarrow> (QueueError + unit) \<times> 'd"
  d_dead_letter :: "FailedJob \<Rightarrow> 'd \<Rightarrow> (QueueError + unit) \<times> 'd"

definition saturating_add_u32 :: "nat \<Rightarrow> nat \<Rightarrow> nat" where
  "saturating_add_u32 a b = min (a + b) (2 ^ 32 - 1)"

text \<open>\<open>from_std\<close> is \<^verbatim>\<open>chrono::Duration::from_std\<close>; the code takes zero when it fails.\<close>

definition chrono_or_zero :: "(nat \<Rightarrow> nat option) \<Rightarrow> nat \<Rightarrow> nat" where
  "chrono_or_zero from_std d = (case from_std d of None \<Rightarrow> 0 | Some x \<Rightarrow> x)"

text \<open>The trait's default \<^verbatim>\<open>release\<close>: the payload a driver pushes again.\<close>

definition default_release_payload ::
  "(nat \<Rightarrow> nat option) \<Rightarrow> nat \<Rightarrow> JobPayload \<Rightarrow> nat \<Rightarrow> JobPayload" where
  "default_release_payload from_std now p delay =
     p\<lparr>jp_attempts := saturating_add_u32 (jp_attempts p) 1,
       jp_available_at := (if delay = 0 then None else Some (now + chrono_or_zero from_std delay))\<rparr>"

subsection \<open>The sync driver and the dead-letter sink\<close>

text \<open>The buffer, with the process-wide sink of failed jobs beside it.\<close>

record sync_driver =
  sd_pending :: "JobPayload list"
  sd_failed :: "FailedJob list"

definition sync_push :: "JobPayload \<Rightarrow> sync_driver \<Rightarrow> (QueueError + unit) \<times> sync_driver" where
  "sync_push p d = (Inr (), d\<lparr>sd_pending := sd_pending d @ [p]\<rparr>)"

definition sync_pop :: "sync_driver \<Rightarrow> (QueueError + JobPayload option) \<times> sync_driver" where
  "sync_pop d =
     (case sd_pending d of
        [] \<Rightarrow> (Inr None, d)
      | p # ps \<Rightarrow> (Inr (Some p), d\<lparr>sd_pending := ps\<rparr>))"

definition sync_pending_size :: "sync_driver \<Rightarrow> nat" where
  "sync_pending_size d = length (sd_pending d)"

definition record_failed :: "FailedJob \<Rightarrow> sync_driver \<Rightarrow> sync_driver" where
  "record_failed f d = d\<lparr>sd_failed := sd_failed d @ [f]\<rparr>"

definition remove_at :: "nat \<Rightarrow> 'a list \<Rightarrow> 'a list" where
  "remove_at i xs = take i xs @ drop (Suc i) xs"

definition retry_failed :: "string \<Rightarrow> sync_driver \<Rightarrow> (QueueError + unit) \<times> sync_driver" where
  "retry_failed i d =
     (case position_of (\<lambda>f. fj_id f = i) (sd_failed d) of
        None \<Rightarrow> (Inl (QEmpty i), d)
      | Some k \<Rightarrow> (Inr (), d\<lparr>sd_failed := remove_at k (sd_failed d)\<rparr>))"

definition forget_failed :: "string \<Rightarrow> sync_driver \<Rightarrow> (QueueError + bool) \<times> sync_driver" where
  "forget_failed i d =
     (case position_of (\<lambda>f. fj_id f = i) (sd_failed d) of
        None \<Rightarrow> (Inr False, d)
      | Some k \<Rightarrow> (Inr True, d\<lparr>sd_failed := remove_at k (sd_failed d)\<rparr>))"

definition sync_ops :: "(nat \<Rightarrow> nat option) \<Rightarrow> sync_driver driver_ops" where
  "sync_ops from_std =
     \<lparr>d_push = (\<lambda>uuid now p. sync_push p),
      d_pop = (\<lambda>now queue timeout. sync_pop),
      d_ack = (\<lambda>p d. (Inr (), d)),
      d_release = (\<lambda>now p delay. sync_push (default_release_payload from_std now p delay)),
      d_dead_letter = (\<lambda>f d. (Inr (), record_failed f d))\<rparr>"

subsection \<open>The database driver\<close>

record job_row =
  jr_id :: string
  jr_queue :: string
  jr_payload :: json
  jr_attempts :: nat
  jr_reserved_at :: "nat option"
  jr_available_at :: nat
  jr_created_at :: nat

record database =
  db_jobs :: "job_row list"
  db_failed :: "FailedJob list"

record codec =
  cd_enc :: "JobPayload \<Rightarrow> string + json"
  cd_dec :: "json \<Rightarrow> string + JobPayload"
  cd_string :: "string \<Rightarrow> json"

text \<open>\<open>cd_string\<close> is the JSON string with the given characters. A stored timestamp is a text of
  microseconds, whose order is that of the instants; \<open>micros\<close> is the instant it denotes.\<close>

definition micros :: "nat \<Rightarrow> nat" where
  "micros t = t - t mod 1000"

definition db_push ::
  "codec \<Rightarrow> string \<Rightarrow> nat \<Rightarrow> JobPayload \<Rightarrow> database \<Rightarrow> (QueueError + unit) \<times> database" where
  "db_push cd uuid now p db =
     (case cd_enc cd p of
        Inl e \<Rightarrow> (Inl (QSerialization e), db)
      | Inr body \<Rightarrow>
          (Inr (), db\<lparr>db_jobs := db_jobs db @
             [\<lparr>jr_id = uuid, jr_queue = jp_queue p, jr_payload = body, jr_attempts = jp_attempts p,
               jr_reserved_at = None,
               jr_available_at = micros (case jp_available_at p of None \<Rightarrow> now | Some t \<Rightarrow> t),
               jr_created_at = micros now\<rparr>]\<rparr>))"

text \<open>\<^verbatim>\<open>ORDER BY available_at, created_at, id LIMIT 1\<close>.\<close>

definition row_before :: "job_row \<Rightarrow> job_row \<Rightarrow> bool" where
  "row_before a b \<longleftrightarrow>
     jr_available_at a < jr_available_at b
     \<or> (jr_available_at a = jr_available_at b
        \<and> (jr_created_at a < jr_created_at b
           \<or> (jr_created_at a = jr_created_at b \<and> jr_id a < jr_id b)))"

fun first_row :: "job_row list \<Rightarrow> job_row option" where
  "first_row [] = None"
| "first_row (r # rs) =
     (case first_row rs of
        None \<Rightarrow> Some r
      | Some x \<Rightarrow> if row_before x r then Some x else Some r)"

definition available :: "nat \<Rightarrow> string \<Rightarrow> job_row \<Rightarrow> bool" where
  "available now queue r \<longleftrightarrow>
     jr_queue r = queue \<and> jr_reserved_at r = None \<and> jr_available_at r \<le> micros now"

definition reserve_row :: "nat \<Rightarrow> string \<Rightarrow> job_row list \<Rightarrow> job_row list" where
  "reserve_row now i rs =
     map (\<lambda>r. if jr_id r = i \<and> jr_reserved_at r = None then r\<lparr>jr_reserved_at := Some (micros now)\<rparr> else r) rs"

definition db_claim ::
  "codec \<Rightarrow> nat \<Rightarrow> string \<Rightarrow> database \<Rightarrow> (QueueError + JobPayload option) \<times> database" where
  "db_claim cd now queue db =
     (case first_row (filter (available now queue) (db_jobs db)) of
        None \<Rightarrow> (Inr None, db)
      | Some r \<Rightarrow>
          if length (filter (\<lambda>x. jr_id x = jr_id r \<and> jr_reserved_at x = None) (db_jobs db)) = 0
          then (Inr None, db)
          else
            (let db' = db\<lparr>db_jobs := reserve_row now (jr_id r) (db_jobs db)\<rparr> in
             case cd_dec cd (jr_payload r) of
               Inl e \<Rightarrow> (Inl (QSerialization e), db')
             | Inr p \<Rightarrow> (Inr (Some (p\<lparr>jp_attempts := jr_attempts r, jp_id := Some (jr_id r)\<rparr>)), db')))"

definition POLL_INTERVAL :: nat where
  "POLL_INTERVAL = 25 * 10 ^ 6"

text \<open>The poll loop of \<^verbatim>\<open>pop\<close>, with nobody else at the tables and each sleep of exactly one
  interval.\<close>

function db_pop_from ::
  "codec \<Rightarrow> nat \<Rightarrow> nat \<Rightarrow> string \<Rightarrow> database \<Rightarrow> (QueueError + JobPayload option) \<times> database" where
  "db_pop_from cd now deadline queue db =
     (case db_claim cd now queue db of
        (Inl e, db') \<Rightarrow> (Inl e, db')
      | (Inr (Some p), db') \<Rightarrow> (Inr (Some p), db')
      | (Inr None, db') \<Rightarrow>
          if deadline \<le> now then (Inr None, db')
          else db_pop_from cd (now + POLL_INTERVAL) deadline queue db')"
  by pat_completeness auto

termination
  by (relation "measure (\<lambda>(cd, now, deadline, q, db). deadline - now)") (auto simp: POLL_INTERVAL_def)

declare db_pop_from.simps [simp del]

definition db_pop ::
  "codec \<Rightarrow> nat \<Rightarrow> string \<Rightarrow> nat \<Rightarrow> database \<Rightarrow> (QueueError + JobPayload option) \<times> database" where
  "db_pop cd now queue timeout db = db_pop_from cd now (now + timeout) queue db"

definition db_pending_size :: "nat \<Rightarrow> string \<Rightarrow> database \<Rightarrow> nat" where
  "db_pending_size now queue db =
     length (filter (\<lambda>r. jr_queue r = queue \<and> jr_reserved_at r = None \<and> jr_available_at r \<le> micros now) (db_jobs db))"

definition db_delayed_size :: "nat \<Rightarrow> string \<Rightarrow> database \<Rightarrow> nat" where
  "db_delayed_size now queue db =
     length (filter (\<lambda>r. jr_queue r = queue \<and> jr_reserved_at r = None \<and> micros now < jr_available_at r) (db_jobs db))"

definition db_reserved_size :: "string \<Rightarrow> database \<Rightarrow> nat" where
  "db_reserved_size queue db =
     length (filter (\<lambda>r. jr_queue r = queue \<and> jr_reserved_at r \<noteq> None) (db_jobs db))"

definition db_oldest_pending :: "nat \<Rightarrow> string \<Rightarrow> database \<Rightarrow> nat option" where
  "db_oldest_pending now queue db =
     (case map jr_available_at (filter (available now queue) (db_jobs db)) of
        [] \<Rightarrow> None
      | t # ts \<Rightarrow> Some (foldl min t ts))"

definition delete_row :: "string \<Rightarrow> job_row list \<Rightarrow> job_row list" where
  "delete_row i rs = filter (\<lambda>r. jr_id r \<noteq> i) rs"

definition db_ack :: "JobPayload \<Rightarrow> database \<Rightarrow> (QueueError + unit) \<times> database" where
  "db_ack p db =
     (case jp_id p of
        None \<Rightarrow> (Inr (), db)
      | Some i \<Rightarrow> (Inr (), db\<lparr>db_jobs := delete_row i (db_jobs db)\<rparr>))"

definition release_row :: "nat \<Rightarrow> nat \<Rightarrow> string \<Rightarrow> job_row list \<Rightarrow> job_row list" where
  "release_row t attempts i rs =
     map (\<lambda>r. if jr_id r = i
       then r\<lparr>jr_reserved_at := None, jr_available_at := t, jr_attempts := attempts\<rparr> else r) rs"

definition db_release ::
  "(nat \<Rightarrow> nat option) \<Rightarrow> nat \<Rightarrow> JobPayload \<Rightarrow> nat \<Rightarrow> database \<Rightarrow> (QueueError + unit) \<times> database" where
  "db_release from_std now p delay db =
     (case jp_id p of
        None \<Rightarrow> (Inr (), db)
      | Some i \<Rightarrow>
          (Inr (), db\<lparr>db_jobs := release_row (micros (now + chrono_or_zero from_std delay))
             (saturating_add_u32 (jp_attempts p) 1) i (db_jobs db)\<rparr>))"

definition stored_failure :: "FailedJob \<Rightarrow> FailedJob" where
  "stored_failure f = f\<lparr>fj_failed_at := micros (fj_failed_at f)\<rparr>"

definition db_dead_letter :: "FailedJob \<Rightarrow> database \<Rightarrow> (QueueError + unit) \<times> database" where
  "db_dead_letter f db = (Inr (), db\<lparr>db_failed := db_failed db @ [stored_failure f]\<rparr>)"

definition db_retry_failed ::
  "codec \<Rightarrow> string \<Rightarrow> nat \<Rightarrow> string \<Rightarrow> database \<Rightarrow> (QueueError + unit) \<times> database" where
  "db_retry_failed cd uuid now i db =
     (case filter (\<lambda>f. fj_id f = i) (db_failed db) of
        [] \<Rightarrow> (Inl (QEmpty i), db)
      | f # _ \<Rightarrow>
          (let p = (case cd_dec cd (fj_payload f) of
                      Inr p \<Rightarrow> p
                    | Inl _ \<Rightarrow> payload_new (fj_queue f) (fj_connection f) None
                                (cd_string cd (fj_payload f)));
               p' = p\<lparr>jp_id := None, jp_attempts := 1, jp_available_at := None\<rparr>
           in (case db_push cd uuid now p' db of
                 (Inl e, db') \<Rightarrow> (Inl e, db')
               | (Inr _, db') \<Rightarrow>
                   (Inr (), db'\<lparr>db_failed := filter (\<lambda>f. fj_id f \<noteq> i) (db_failed db')\<rparr>))))"

definition db_forget_failed :: "string \<Rightarrow> database \<Rightarrow> (QueueError + bool) \<times> database" where
  "db_forget_failed i db =
     (Inr (filter (\<lambda>f. fj_id f = i) (db_failed db) \<noteq> []),
      db\<lparr>db_failed := filter (\<lambda>f. fj_id f \<noteq> i) (db_failed db)\<rparr>)"

definition database_ops :: "codec \<Rightarrow> (nat \<Rightarrow> nat option) \<Rightarrow> database driver_ops" where
  "database_ops cd from_std =
     \<lparr>d_push = db_push cd, d_pop = db_pop cd, d_ack = db_ack, d_release = db_release from_std,
      d_dead_letter = db_dead_letter\<rparr>"

end
