(* ===== verification/Queue_Worker.thy ===== *)
theory Queue_Worker
  imports Queue
begin

text \<open>
  The worker loop (\<^verbatim>\<open>rustasea-queue/src/driver/worker.rs\<close>), the unique leases
  (\<^verbatim>\<open>unique.rs\<close>) and the dispatch gate with its route registry (\<^verbatim>\<open>dispatch.rs\<close>,
  \<^verbatim>\<open>registry.rs\<close>, \<^verbatim>\<open>registry/helpers.rs\<close>). The batch repository is the
  theory Batch; here the calls that record a batch outcome are kept as a log. The cache error text and the heartbeat
  stamp (a dashboard value) are left out.
\<close>

section \<open>Unique leases\<close>

record 's unique_cfg =
  uc_store :: "'s store_ops option"
  uc_spec :: "string \<Rightarrow> json \<Rightarrow> (string \<times> nat) option"

definition DEFAULT_UNIQUE_FOR :: nat where
  "DEFAULT_UNIQUE_FOR = 3600 * 10 ^ 9"

definition effective_ttl :: "nat \<Rightarrow> nat" where
  "effective_ttl ttl = (if ttl = 0 then DEFAULT_UNIQUE_FOR else ttl)"

definition unique_key :: "string \<Rightarrow> string" where
  "unique_key i = ''queue:unique:'' @ i"

datatype LeaseState = Acquired string | Held string | NotApplicable

definition acquire_lease ::
  "'s unique_cfg \<Rightarrow> (CacheError \<Rightarrow> string) \<Rightarrow> string \<Rightarrow> nat \<Rightarrow> string \<Rightarrow> json \<Rightarrow> 's \<Rightarrow> (QueueError + LeaseState) \<times> 's" where
  "acquire_lease uc render uuid now type_key body s =
     (case uc_store uc of
        None \<Rightarrow> (Inr NotApplicable, s)
      | Some ops \<Rightarrow>
          (case uc_spec uc type_key body of
             None \<Rightarrow> (Inr NotApplicable, s)
           | Some (i, unique_for) \<Rightarrow>
               (case op_put_if_absent ops now (unique_key i) (''unique-'' @ uuid)
                       (effective_ttl unique_for) s of
                  (Inr True, s') \<Rightarrow> (Inr (Acquired i), s')
                | (Inr False, s') \<Rightarrow> (Inr (Held i), s')
                | (Inl e, s') \<Rightarrow> (Inl (QStoreUnavailable (render e)), s'))))"

definition release_unique ::
  "'s unique_cfg \<Rightarrow> (CacheError \<Rightarrow> string) \<Rightarrow> nat \<Rightarrow> string \<Rightarrow> json \<Rightarrow> 's \<Rightarrow> (QueueError + unit) \<times> 's" where
  "release_unique uc render now type_key body s =
     (case uc_store uc of
        None \<Rightarrow> (Inr (), s)
      | Some ops \<Rightarrow>
          (case uc_spec uc type_key body of
             None \<Rightarrow> (Inr (), s)
           | Some (i, _) \<Rightarrow>
               (case op_forget ops now (unique_key i) s of
                  (Inl e, s') \<Rightarrow> (Inl (QStoreUnavailable (render e)), s')
                | (Inr _, s') \<Rightarrow> (Inr (), s'))))"

section \<open>The worker\<close>

record ('d, 's, 'e) world =
  w_driver :: 'd
  w_unique :: 's
  w_batches :: "(string \<times> string option) list"
  w_env :: 'e

text \<open>What the worker is given: the driver, the unique configuration, the envelope codec, the
  text of a cache error, and the source of random identifiers.\<close>

record ('d, 's) worker_cfg =
  wc_driver :: "'d driver_ops"
  wc_unique :: "'s unique_cfg"
  wc_codec :: codec
  wc_render :: "CacheError \<Rightarrow> string"

definition dead_letter_payload :: "codec \<Rightarrow> JobPayload \<Rightarrow> json" where
  "dead_letter_payload cd p = (case cd_enc cd p of Inr j \<Rightarrow> j | Inl _ \<Rightarrow> jp_payload p)"

definition release_lease ::
  "('d, 's) worker_cfg \<Rightarrow> nat \<Rightarrow> JobPayload \<Rightarrow> ('d, 's, 'e) world \<Rightarrow> ('d, 's, 'e) world" where
  "release_lease wc now p w =
     (case jp_job p of
        None \<Rightarrow> w
      | Some type_key \<Rightarrow>
          w\<lparr>w_unique := snd (release_unique (wc_unique wc) (wc_render wc) now type_key (jp_payload p) (w_unique w))\<rparr>)"

definition record_batch ::
  "string \<Rightarrow> JobPayload \<Rightarrow> bool \<Rightarrow> ('d, 's, 'e) world \<Rightarrow> ('d, 's, 'e) world" where
  "record_batch uuid p failed w =
     (case jp_batch_id p of
        None \<Rightarrow> w
      | Some b \<Rightarrow>
          w\<lparr>w_batches := w_batches w @
             [(b, if failed then Some (case jp_id p of Some i \<Rightarrow> i | None \<Rightarrow> uuid) else None)]\<rparr>)"

text \<open>A step on the driver that returns nothing, followed by \<open>k\<close> unless it fails.\<close>

definition driver_then ::
  "('d \<Rightarrow> (QueueError + unit) \<times> 'd) \<Rightarrow> (('d, 's, 'e) world \<Rightarrow> (QueueError + unit) option \<times> ('d, 's, 'e) world)
    \<Rightarrow> ('d, 's, 'e) world \<Rightarrow> (QueueError + unit) option \<times> ('d, 's, 'e) world" where
  "driver_then f k w =
     (case f (w_driver w) of
        (Inl e, d) \<Rightarrow> (Some (Inl e), w\<lparr>w_driver := d\<rparr>)
      | (Inr _, d) \<Rightarrow> k (w\<lparr>w_driver := d\<rparr>))"

text \<open>\<^verbatim>\<open>process_one\<close>; \<open>None\<close> is a panic of the job. \<open>uuid\<close> names the dead letter,
  \<open>uuid'\<close> a failure without an identifier.\<close>

definition process_one ::
  "('d, 's) worker_cfg \<Rightarrow> string \<Rightarrow> string \<Rightarrow> nat \<Rightarrow> (JobPayload \<Rightarrow> 'e erased_job option) \<Rightarrow> JobPayload
    \<Rightarrow> ('d, 's, 'e) world \<Rightarrow> (QueueError + unit) option \<times> ('d, 's, 'e) world" where
  "process_one wc uuid uuid' now resolver p w =
     (let ops = wc_driver wc;
          dead = (\<lambda>exc. failed_new uuid now (jp_connection p) (jp_queue p)
                    (dead_letter_payload (wc_codec wc) p) exc)
      in case resolver p of
           None \<Rightarrow>
             driver_then (d_dead_letter ops (dead ''no handler registered for job payload''))
               (driver_then (d_ack ops p)
                 (\<lambda>w. (Some (Inr ()), record_batch uuid' p True w))) w
         | Some j \<Rightarrow>
             (case run_erased j (w_env w) of
                (None, _, e) \<Rightarrow> (None, w\<lparr>w_env := e\<rparr>)
              | (Some outcome, _, e) \<Rightarrow>
                  (let w1 = w\<lparr>w_env := e\<rparr>;
                       fail = (\<lambda>exc.
                         driver_then (d_dead_letter ops (dead (''JobError::MaxAttemptsExceeded: '' @ exc)))
                           (driver_then (d_ack ops p)
                             (\<lambda>w. (Some (Inr ()), record_batch uuid' p True (release_lease wc now p w)))) w1)
                   in (case outcome of
                         Succeeded \<Rightarrow>
                           driver_then (d_ack ops p)
                             (\<lambda>w. (Some (Inr ()), record_batch uuid' p False (release_lease wc now p w))) w1
                       | Skipped \<Rightarrow>
                           driver_then (d_ack ops p)
                             (\<lambda>w. (Some (Inr ()), record_batch uuid' p False (release_lease wc now p w))) w1
                       | Retrying _ _ exc \<Rightarrow>
                           if allows_retry (ej_policy j) (jp_attempts p)
                           then driver_then
                                  (d_release ops now p (delay_for_attempt (ej_policy j) (jp_attempts p)))
                                  (\<lambda>w. (Some (Inr ()), w)) w1
                           else fail exc
                       | Failed exc \<Rightarrow> fail exc))))"

definition POP_TIMEOUT :: nat where
  "POP_TIMEOUT = 250 * 10 ^ 6"

text \<open>The loop of \<^verbatim>\<open>run_worker_with\<close>. Iteration \<open>cursor\<close> starts at the instant
  \<open>at cursor\<close> and uses the identifiers \<open>ids cursor\<close>.\<close>

function worker_loop ::
  "('d, 's) worker_cfg \<Rightarrow> (nat \<Rightarrow> nat) \<Rightarrow> (nat \<Rightarrow> string \<times> string) \<Rightarrow> (JobPayload \<Rightarrow> 'e erased_job option)
    \<Rightarrow> string list \<Rightarrow> nat \<Rightarrow> nat \<Rightarrow> nat \<Rightarrow> nat \<Rightarrow> ('d, 's, 'e) world
    \<Rightarrow> (QueueError + nat) option \<times> ('d, 's, 'e) world" where
  "worker_loop wc at ids resolver queues max_jobs processed cursor misses w =
     (if processed < max_jobs then
        (case d_pop (wc_driver wc) (at cursor) (queues ! (cursor mod length queues)) POP_TIMEOUT (w_driver w) of
           (Inl e, d) \<Rightarrow> (Some (Inl e), w\<lparr>w_driver := d\<rparr>)
         | (Inr None, d) \<Rightarrow>
             if length queues \<le> misses + 1 then (Some (Inr processed), w\<lparr>w_driver := d\<rparr>)
             else worker_loop wc at ids resolver queues max_jobs processed (cursor + 1) (misses + 1)
                    (w\<lparr>w_driver := d\<rparr>)
         | (Inr (Some p), d) \<Rightarrow>
             (case process_one wc (fst (ids cursor)) (snd (ids cursor)) (at cursor) resolver p (w\<lparr>w_driver := d\<rparr>) of
                (Some (Inr _), w') \<Rightarrow>
                  worker_loop wc at ids resolver queues max_jobs (processed + 1) (cursor + 1) 0 w'
              | (Some (Inl e), w') \<Rightarrow> (Some (Inl e), w')
              | (None, w') \<Rightarrow> (None, w')))
      else (Some (Inr processed), w))"
  by pat_completeness auto

termination
  by (relation "measures [\<lambda>(wc, at, ids, res, qs, m, p, c, mi, w). m - p,
      \<lambda>(wc, at, ids, res, qs, m, p, c, mi, w). length qs - mi]") auto

declare worker_loop.simps [simp del]

definition run_worker_with ::
  "('d, 's) worker_cfg \<Rightarrow> (nat \<Rightarrow> nat) \<Rightarrow> (nat \<Rightarrow> string \<times> string) \<Rightarrow> (JobPayload \<Rightarrow> 'e erased_job option)
    \<Rightarrow> string list \<Rightarrow> nat \<Rightarrow> ('d, 's, 'e) world \<Rightarrow> (QueueError + nat) option \<times> ('d, 's, 'e) world" where
  "run_worker_with wc at ids resolver queues max_jobs w =
     (if queues = [] \<or> max_jobs = 0 then (Some (Inr 0), w)
      else worker_loop wc at ids resolver queues max_jobs 0 0 0 w)"

text \<open>The registry of handlers.\<close>

type_synonym 'e handlers = "string \<rightharpoonup> (json \<Rightarrow> 'e erased_job option)"

definition register_job_handler ::
  "string \<Rightarrow> (json \<Rightarrow> 'e erased_job option) \<Rightarrow> 'e handlers \<Rightarrow> 'e handlers" where
  "register_job_handler key factory h = h(key \<mapsto> factory)"

definition default_resolver :: "'e handlers \<Rightarrow> JobPayload \<Rightarrow> 'e erased_job option" where
  "default_resolver h p =
     (case jp_job p of
        None \<Rightarrow> None
      | Some key \<Rightarrow> (case h key of None \<Rightarrow> None | Some factory \<Rightarrow> factory (jp_payload p)))"

definition run_worker ::
  "('d, 's) worker_cfg \<Rightarrow> (nat \<Rightarrow> nat) \<Rightarrow> (nat \<Rightarrow> string \<times> string) \<Rightarrow> 'e handlers \<Rightarrow> string list \<Rightarrow> nat
    \<Rightarrow> ('d, 's, 'e) world \<Rightarrow> (QueueError + nat) option \<times> ('d, 's, 'e) world" where
  "run_worker wc at ids h queues max_jobs w =
     run_worker_with wc at ids (default_resolver h) queues max_jobs w"

section \<open>Dispatch\<close>

record Route =
  rt_connection :: string
  rt_queue :: string

definition insert_route ::
  "string \<Rightarrow> Route \<Rightarrow> (string \<rightharpoonup> Route) \<Rightarrow> (QueueError + unit) \<times> (string \<rightharpoonup> Route)" where
  "insert_route key r routes =
     (if routes key \<noteq> None then (Inl (DuplicateRoute key), routes)
      else (Inr (), routes(key \<mapsto> r)))"

definition resolve_route :: "(string \<rightharpoonup> Route) \<Rightarrow> string \<Rightarrow> QueueError + Route" where
  "resolve_route routes key =
     (case routes key of None \<Rightarrow> Inl (Unrouted key) | Some r \<Rightarrow> Inr r)"

definition to_payload ::
  "(nat \<Rightarrow> nat option) \<Rightarrow> nat \<Rightarrow> string \<Rightarrow> json \<Rightarrow> string \<Rightarrow> string \<Rightarrow> nat \<Rightarrow> string option \<Rightarrow> JobPayload" where
  "to_payload from_std now job body queue connection delay batch =
     \<lparr>jp_queue = queue, jp_connection = connection,
      jp_available_at = (if delay = 0 then None else Some (now + chrono_or_zero from_std delay)),
      jp_attempts = 1, jp_id = None, jp_job = Some job, jp_batch_id = batch, jp_payload = body\<rparr>"

record 'e dispatch_handle =
  dh_exec :: "'e erased_job"
  dh_queue :: "string option"
  dh_connection :: "string option"
  dh_delay :: nat
  dh_batch_id :: "string option"

definition handle_new :: "'e erased_job \<Rightarrow> 'e dispatch_handle" where
  "handle_new j = \<lparr>dh_exec = j, dh_queue = None, dh_connection = None, dh_delay = 0, dh_batch_id = None\<rparr>"

datatype DispatchOutcome = Enqueued string | Deduplicated string

text \<open>The state dispatch works on: the connections' drivers share one state, the sink of failed
  jobs, the unique store, the batch log and the jobs' environment.\<close>

record ('d, 's, 'e) queue_sys =
  q_drivers :: "string \<rightharpoonup> 'd driver_ops"
  q_routes :: "string \<rightharpoonup> Route"
  q_state :: 'd
  q_sink :: "FailedJob list"
  q_unique :: 's
  q_batches :: "(string \<times> string option) list"
  q_env :: 'e

definition execute_sync ::
  "string \<Rightarrow> nat \<Rightarrow> 'e dispatch_handle \<Rightarrow> ('d, 's, 'e) queue_sys \<Rightarrow> JobOutcome option \<times> ('d, 's, 'e) queue_sys" where
  "execute_sync uuid now dh q =
     (case run_erased (dh_exec dh) (q_env q) of
        (None, _, e) \<Rightarrow> (None, q\<lparr>q_env := e\<rparr>)
      | (Some outcome, j, e) \<Rightarrow>
          (let q1 = q\<lparr>q_env := e\<rparr>;
               dead = (\<lambda>trace. q1\<lparr>q_sink := q_sink q1 @ [failed_new uuid now ''sync'' (ej_key j) (as_json j)
                         (''JobError::MaxAttemptsExceeded: '' @ trace)]\<rparr>)
           in (case outcome of
                 Failed exc \<Rightarrow> (Some outcome, dead exc)
               | Retrying n _ exc \<Rightarrow>
                   (Some outcome, dead (exc @ '' (sync retry '' @ show_nat n @ '' not schedulable)''))
               | _ \<Rightarrow> (Some outcome, q1))))"

definition sync_batch_failure_id :: "string \<Rightarrow> JobOutcome \<Rightarrow> string option" where
  "sync_batch_failure_id uuid outcome =
     (case outcome of Succeeded \<Rightarrow> None | Skipped \<Rightarrow> None | _ \<Rightarrow> Some uuid)"

definition dispatch_outcome ::
  "'s unique_cfg \<Rightarrow> (CacheError \<Rightarrow> string) \<Rightarrow> (nat \<Rightarrow> nat option) \<Rightarrow> (nat \<Rightarrow> string) \<Rightarrow> nat
    \<Rightarrow> 'e dispatch_handle \<Rightarrow> ('d, 's, 'e) queue_sys
    \<Rightarrow> (QueueError + DispatchOutcome) option \<times> ('d, 's, 'e) queue_sys" where
  "dispatch_outcome uc render from_std ids now dh q =
     (let type_key = ej_key (dh_exec dh);
          routed = q_routes q type_key;
          connection = (case dh_connection dh of Some c \<Rightarrow> Some c | None \<Rightarrow> map_option rt_connection routed);
          queue = (case dh_queue dh of Some x \<Rightarrow> Some x | None \<Rightarrow> map_option rt_queue routed)
      in case connection of
           None \<Rightarrow> (Some (Inl (Unrouted type_key)), q)
         | Some conn \<Rightarrow>
      (case queue of
           None \<Rightarrow> (Some (Inl (Unrouted type_key)), q)
         | Some qn \<Rightarrow>
      (let body = as_json (dh_exec dh) in
       case acquire_lease uc render (ids 0) now type_key body (q_unique q) of
           (Inl e, s) \<Rightarrow> (Some (Inl e), q\<lparr>q_unique := s\<rparr>)
         | (Inr (Held i), s) \<Rightarrow> (Some (Inr (Deduplicated i)), q\<lparr>q_unique := s\<rparr>)
         | (Inr lease, s) \<Rightarrow>
             (let leased = (lease \<noteq> NotApplicable);
                  q1 = q\<lparr>q_unique := s\<rparr>;
                  unlock = (\<lambda>q. if leased
                    then q\<lparr>q_unique := snd (release_unique uc render now type_key body (q_unique q))\<rparr> else q)
              in if conn = ''sync'' then
                   (case execute_sync (ids 1) now dh q1 of
                      (None, q2) \<Rightarrow> (None, q2)
                    | (Some outcome, q2) \<Rightarrow>
                        (let q3 = unlock q2;
                             q4 = (case dh_batch_id dh of
                                     None \<Rightarrow> q3
                                   | Some b \<Rightarrow> q3\<lparr>q_batches := q_batches q3 @
                                       [(b, sync_batch_failure_id (ids 2) outcome)]\<rparr>)
                         in (Some (Inr (Enqueued (ids 3))), q4)))
                 else
                   (case q_drivers q1 conn of
                      None \<Rightarrow> (Some (Inl (UnknownConnection conn)), q1)
                    | Some ops \<Rightarrow>
                        (case d_push ops (ids 4) now
                                (to_payload from_std now type_key body qn conn (dh_delay dh) (dh_batch_id dh))
                                (q_state q1) of
                           (Inl e, d) \<Rightarrow> (Some (Inl e), unlock (q1\<lparr>q_state := d\<rparr>))
                         | (Inr _, d) \<Rightarrow> (Some (Inr (Enqueued (ids 3))), q1\<lparr>q_state := d\<rparr>)))))))"

end
