(* ===== verification/Queue_Props.thy ===== *)
theory Queue_Props
  imports Queue_Worker
begin

text \<open>
  What the queue guarantees. The locale \<open>queue_driver\<close> states the contract of the trait
  \<^verbatim>\<open>QueueDriver\<close> on an abstract view of a driver: the multiset of pending jobs and the
  multiset of dead letters. The worker is its client: each popped job is finalized exactly once.
  The locale is interpreted on the sync driver and on the database driver.
\<close>

section \<open>The driver contract\<close>

text \<open>A job without its reservation token and availability.\<close>

definition core :: "JobPayload \<Rightarrow> JobPayload" where
  "core p = p\<lparr>jp_id := None, jp_available_at := None\<rparr>"

definition next_attempt :: "JobPayload \<Rightarrow> JobPayload" where
  "next_attempt p = p\<lparr>jp_attempts := saturating_add_u32 (jp_attempts p) 1\<rparr>"

lemma core_next_attempt: "core (next_attempt p) = next_attempt (core p)"
  by (simp add: core_def next_attempt_def)

locale queue_driver =
  fixes ops :: "'d driver_ops"
    and pend :: "'d \<Rightarrow> JobPayload multiset"
    and dead :: "'d \<Rightarrow> FailedJob multiset"
    and inv :: "'d \<Rightarrow> bool"
    and holds :: "'d \<Rightarrow> JobPayload \<Rightarrow> bool"
    and stored :: "FailedJob \<Rightarrow> FailedJob"
  assumes pop_some: "inv d \<Longrightarrow> d_pop ops t q to d = (Inr (Some p), d')
      \<Longrightarrow> inv d' \<and> holds d' p \<and> pend d = add_mset (core p) (pend d') \<and> dead d' = dead d"
    and pop_none: "inv d \<Longrightarrow> d_pop ops t q to d = (Inr None, d')
      \<Longrightarrow> inv d' \<and> pend d' = pend d \<and> dead d' = dead d"
    and ack_ok: "inv d \<Longrightarrow> holds d p \<Longrightarrow> \<exists>d'. d_ack ops p d = (Inr (), d')
      \<and> inv d' \<and> pend d' = pend d \<and> dead d' = dead d"
    and release_ok: "inv d \<Longrightarrow> holds d p \<Longrightarrow> \<exists>d'. d_release ops t p delay d = (Inr (), d')
      \<and> inv d' \<and> pend d' = add_mset (core (next_attempt p)) (pend d) \<and> dead d' = dead d"
    and dead_letter_ok: "inv d \<Longrightarrow> holds d p \<Longrightarrow> \<exists>d'. d_dead_letter ops f d = (Inr (), d')
      \<and> inv d' \<and> holds d' p \<and> pend d' = pend d \<and> dead d' = add_mset (stored f) (dead d)"

text \<open>What becomes of a popped job.\<close>

datatype disposition = Completed | Requeued | Buried string

definition disposition :: "(JobPayload \<Rightarrow> 'e erased_job option) \<Rightarrow> JobPayload \<Rightarrow> 'e \<Rightarrow> disposition" where
  "disposition resolver p e =
     (case resolver p of
        None \<Rightarrow> Buried ''no handler registered for job payload''
      | Some j \<Rightarrow>
          (case fst (run_erased j e) of
             Some (Failed exc) \<Rightarrow> Buried (''JobError::MaxAttemptsExceeded: '' @ exc)
           | Some (Retrying _ _ exc) \<Rightarrow>
               if allows_retry (ej_policy j) (jp_attempts p) then Requeued
               else Buried (''JobError::MaxAttemptsExceeded: '' @ exc)
           | _ \<Rightarrow> Completed))"

definition dead_record :: "codec \<Rightarrow> string \<Rightarrow> nat \<Rightarrow> JobPayload \<Rightarrow> string \<Rightarrow> FailedJob" where
  "dead_record cd uuid now p exc =
     failed_new uuid now (jp_connection p) (jp_queue p) (dead_letter_payload cd p) exc"

lemma world_upd [simp]:
  "w_driver (record_batch u p b w) = w_driver w" "w_driver (release_lease wc now p w) = w_driver w"
  "w_env (record_batch u p b w) = w_env w" "w_env (release_lease wc now p w) = w_env w"
  by (auto simp: record_batch_def release_lease_def split: option.splits)

lemma run_erased_fresh: "ej_body j \<noteq> None \<Longrightarrow> fst (run_erased j e) \<noteq> None"
  by (auto simp: run_erased_def Let_def split: prod.splits sum.splits)

context queue_driver
begin

lemma ack_then:
  assumes "inv (w_driver w)" "holds (w_driver w) p"
  shows "\<exists>d'. driver_then (d_ack ops p) k w = k (w\<lparr>w_driver := d'\<rparr>)
    \<and> inv d' \<and> pend d' = pend (w_driver w) \<and> dead d' = dead (w_driver w)"
  using ack_ok [OF assms] by (auto simp: driver_then_def)

lemma bury_then:
  assumes "inv (w_driver w)" "holds (w_driver w) p"
  shows "\<exists>d'. driver_then (d_dead_letter ops f) (driver_then (d_ack ops p) k) w = k (w\<lparr>w_driver := d'\<rparr>)
    \<and> inv d' \<and> pend d' = pend (w_driver w) \<and> dead d' = add_mset (stored f) (dead (w_driver w))"
proof -
  obtain d where d: "d_dead_letter ops f (w_driver w) = (Inr (), d)" "inv d" "holds d p"
    "pend d = pend (w_driver w)" "dead d = add_mset (stored f) (dead (w_driver w))"
    using dead_letter_ok [OF assms] by blast
  obtain d' where "d_ack ops p d = (Inr (), d')" "inv d'" "pend d' = pend d" "dead d' = dead d"
    using ack_ok [OF d(2,3)] by blast
  with d show ?thesis by (auto simp: driver_then_def)
qed

lemma process_one_finalizes:
  assumes ops: "wc_driver wc = ops" and inv: "inv (w_driver w)" and holds: "holds (w_driver w) p"
    and fresh: "\<And>j. resolver p = Some j \<Longrightarrow> ej_body j \<noteq> None"
    and run: "process_one wc uuid uuid' now resolver p w = (r, w')"
  shows "r = Some (Inr ()) \<and> inv (w_driver w') \<and>
    (case disposition resolver p (w_env w) of
       Completed \<Rightarrow> pend (w_driver w') = pend (w_driver w) \<and> dead (w_driver w') = dead (w_driver w)
     | Requeued \<Rightarrow> pend (w_driver w') = add_mset (core (next_attempt p)) (pend (w_driver w))
         \<and> dead (w_driver w') = dead (w_driver w)
     | Buried exc \<Rightarrow> pend (w_driver w') = pend (w_driver w)
         \<and> dead (w_driver w') = add_mset (stored (dead_record (wc_codec wc) uuid now p exc)) (dead (w_driver w)))"
proof (cases "resolver p")
  case None
  then show ?thesis
    using run bury_then [OF inv holds, of "dead_record (wc_codec wc) uuid now p
        ''no handler registered for job payload''" "\<lambda>w. (Some (Inr ()), record_batch uuid' p True w)"]
    by (auto simp: process_one_def ops disposition_def dead_record_def)
next
  case (Some j)
  obtain out j' e where out: "run_erased j (w_env w) = (Some out, j', e)"
    using run_erased_fresh [OF fresh [OF Some], of "w_env w"] by (cases "run_erased j (w_env w)") auto
  let ?w = "w\<lparr>w_env := e\<rparr>"
  have w: "inv (w_driver ?w)" "holds (w_driver ?w) p" using inv holds by simp_all
  let ?done = "\<lambda>w. (Some (Inr ()), record_batch uuid' p False (release_lease wc now p w))"
  let ?buried = "\<lambda>w. (Some (Inr ()), record_batch uuid' p True (release_lease wc now p w))"
  show ?thesis
  proof (cases out)
    case Succeeded
    then show ?thesis
      using run Some out ack_then [OF w, of ?done] by (auto simp: process_one_def ops disposition_def)
  next
    case Skipped
    then show ?thesis
      using run Some out ack_then [OF w, of ?done] by (auto simp: process_one_def ops disposition_def)
  next
    case (Failed exc)
    then show ?thesis
      using run Some out bury_then [OF w, of "dead_record (wc_codec wc) uuid now p
          (''JobError::MaxAttemptsExceeded: '' @ exc)" ?buried]
      by (auto simp: process_one_def ops disposition_def dead_record_def)
  next
    case (Retrying n d exc)
    then show ?thesis
      using run Some out release_ok [OF w, of now "delay_for_attempt (ej_policy j) (jp_attempts p)"]
        bury_then [OF w, of "dead_record (wc_codec wc) uuid now p
          (''JobError::MaxAttemptsExceeded: '' @ exc)" ?buried]
      by (cases "allows_retry (ej_policy j) (jp_attempts p)")
        (auto simp: process_one_def ops disposition_def dead_record_def driver_then_def)
  qed
qed

end

section \<open>The sync driver\<close>

interpretation sync: queue_driver "sync_ops from_std" "\<lambda>d. image_mset core (mset (sd_pending d))"
  "\<lambda>d. mset (sd_failed d)" "\<lambda>_. True" "\<lambda>_ _. True" "\<lambda>f. f"
proof (unfold_locales, goal_cases)
  case (4 d p t delay)
  then show ?case
    by (auto simp: sync_ops_def sync_push_def default_release_payload_def core_def next_attempt_def)
qed (auto simp: sync_ops_def sync_pop_def record_failed_def split: list.splits)

section \<open>The database driver\<close>

definition row_core :: "codec \<Rightarrow> job_row \<Rightarrow> JobPayload" where
  "row_core cd r =
     (case cd_dec cd (jr_payload r) of
        Inr p \<Rightarrow> core (p\<lparr>jp_attempts := jr_attempts r\<rparr>)
      | Inl _ \<Rightarrow> payload_new [] [] None (jr_payload r))"

definition db_pend :: "codec \<Rightarrow> database \<Rightarrow> JobPayload multiset" where
  "db_pend cd db = mset (map (row_core cd) (filter (\<lambda>r. jr_reserved_at r = None) (db_jobs db)))"

definition db_inv :: "codec \<Rightarrow> database \<Rightarrow> bool" where
  "db_inv cd db \<longleftrightarrow> distinct (map jr_id (db_jobs db))
     \<and> (\<forall>r\<in>set (db_jobs db). \<exists>p. cd_dec cd (jr_payload r) = Inr p)"

definition db_holds :: "codec \<Rightarrow> database \<Rightarrow> JobPayload \<Rightarrow> bool" where
  "db_holds cd db p \<longleftrightarrow> (\<exists>r\<in>set (db_jobs db).
     jp_id p = Some (jr_id r) \<and> jr_reserved_at r \<noteq> None \<and> row_core cd r = core p)"

lemma split_row:
  assumes "distinct (map jr_id rs)" "r \<in> set rs"
  obtains xs ys where "rs = xs @ r # ys" "\<forall>x\<in>set xs \<union> set ys. jr_id x \<noteq> jr_id r"
proof -
  obtain xs ys where rs: "rs = xs @ r # ys" using split_list [OF assms(2)] by blast
  moreover have "\<forall>x\<in>set xs \<union> set ys. jr_id x \<noteq> jr_id r"
    using assms(1) rs by (auto simp: image_iff)
  ultimately show thesis by (rule that)
qed

lemma row_updates:
  assumes "\<forall>x\<in>set xs \<union> set ys. jr_id x \<noteq> jr_id r"
  shows "jr_reserved_at r = None \<Longrightarrow>
      reserve_row now (jr_id r) (xs @ r # ys) = xs @ r\<lparr>jr_reserved_at := Some (micros now)\<rparr> # ys"
    and "release_row t n (jr_id r) (xs @ r # ys)
      = xs @ r\<lparr>jr_reserved_at := None, jr_available_at := t, jr_attempts := n\<rparr> # ys"
    and "delete_row (jr_id r) (xs @ r # ys) = xs @ ys"
  using assms
  by (auto simp: reserve_row_def release_row_def delete_row_def map_idI filter_id_conv)

lemma first_row_in: "first_row rs = Some r \<Longrightarrow> r \<in> set rs"
  by (induction rs arbitrary: r) (auto split: option.splits if_splits)

lemma first_row_None: "first_row rs = None \<longleftrightarrow> rs = []"
  by (cases rs) (auto split: option.splits)

lemma row_before_total: "\<not> row_before a b \<Longrightarrow> \<not> row_before b c \<Longrightarrow> \<not> row_before a c"
  by (auto simp: row_before_def)

lemma row_before_asym: "row_before a b \<Longrightarrow> \<not> row_before b a"
  by (auto simp: row_before_def)

lemma first_row_least: "first_row rs = Some r \<Longrightarrow> x \<in> set rs \<Longrightarrow> \<not> row_before x r"
proof (induction rs arbitrary: r)
  case (Cons y rs)
  show ?case
  proof (cases "first_row rs")
    case None
    with Cons.prems show ?thesis by (auto simp: first_row_None row_before_def)
  next
    case (Some z)
    then show ?thesis
      using Cons.prems Cons.IH [OF Some] row_before_asym [of z y] row_before_total [of x z y]
      by (auto simp: row_before_def split: if_splits)
  qed
qed simp

lemma db_claim_Some:
  assumes "db_claim cd t q db = (x, db')" "x \<noteq> Inr None"
  obtains r where "r \<in> set (db_jobs db)" "available t q r"
    "\<forall>y\<in>set (db_jobs db). available t q y \<longrightarrow> \<not> row_before y r"
    "db' = db\<lparr>db_jobs := reserve_row t (jr_id r) (db_jobs db)\<rparr>"
    "x = (case cd_dec cd (jr_payload r) of Inl e \<Rightarrow> Inl (QSerialization e)
      | Inr p \<Rightarrow> Inr (Some (p\<lparr>jp_attempts := jr_attempts r, jp_id := Some (jr_id r)\<rparr>)))"
proof -
  obtain r where r: "first_row (filter (available t q) (db_jobs db)) = Some r"
    using assms by (auto simp: db_claim_def split: option.splits)
  have "r \<in> set (db_jobs db)" "available t q r"
    using first_row_in [OF r] by auto
  moreover have "\<forall>y\<in>set (db_jobs db). available t q y \<longrightarrow> \<not> row_before y r"
    using first_row_least [OF r] by simp
  moreover have "db' = db\<lparr>db_jobs := reserve_row t (jr_id r) (db_jobs db)\<rparr>"
    "x = (case cd_dec cd (jr_payload r) of Inl e \<Rightarrow> Inl (QSerialization e)
      | Inr p \<Rightarrow> Inr (Some (p\<lparr>jp_attempts := jr_attempts r, jp_id := Some (jr_id r)\<rparr>)))"
    using assms r by (auto simp: db_claim_def Let_def split: if_splits sum.splits)
  ultimately show thesis by (rule that)
qed

lemma db_claim_None: "db_claim cd t q db = (Inr None, db') \<Longrightarrow> db' = db"
  by (auto simp: db_claim_def Let_def split: option.splits if_splits sum.splits)

lemma db_pop_from_cases:
  "db_pop_from cd t dl q db = (x, db') \<Longrightarrow>
     (x = Inr None \<and> db' = db) \<or> (x \<noteq> Inr None \<and> (\<exists>t'\<ge>t. db_claim cd t' q db = (x, db')))"
proof (induction cd t dl q db rule: db_pop_from.induct)
  case (1 cd t dl q db)
  obtain y db1 where claim: "db_claim cd t q db = (y, db1)" by fastforce
  show ?case
  proof (cases "y = Inr None")
    case True
    then have "db1 = db" using claim db_claim_None by simp
    show ?thesis
    proof (cases "dl \<le> t")
      case True
      with "1.prems" claim \<open>y = Inr None\<close> \<open>db1 = db\<close> show ?thesis
        by (simp add: db_pop_from.simps [of cd t])
    next
      case False
      with "1.prems" claim \<open>y = Inr None\<close> have "db_pop_from cd (t + POLL_INTERVAL) dl q db = (x, db')"
        using \<open>db1 = db\<close> by (simp add: db_pop_from.simps [of cd t])
      then have "(x = Inr None \<and> db' = db)
          \<or> (x \<noteq> Inr None \<and> (\<exists>t'\<ge>t + POLL_INTERVAL. db_claim cd t' q db = (x, db')))"
        using "1.IH" [OF claim [symmetric] \<open>y = Inr None\<close> refl False] \<open>db1 = db\<close> by simp
      then show ?thesis by (meson add_leD1)
    qed
  next
    case False
    then have "x = y \<and> db' = db1"
      using "1.prems" claim by (auto simp: db_pop_from.simps [of cd t] split: sum.splits option.splits)
    with claim False show ?thesis by blast
  qed
qed

lemma row_core_reserved [simp]: "row_core cd (r\<lparr>jr_reserved_at := x\<rparr>) = row_core cd r"
  by (simp add: row_core_def split: sum.splits)

lemma core_simps [simp]:
  "core (p\<lparr>jp_attempts := n, jp_id := i\<rparr>) = core (p\<lparr>jp_attempts := n\<rparr>)"
  "core p\<lparr>jp_attempts := n\<rparr> = core (p\<lparr>jp_attempts := n\<rparr>)"
  by (simp_all add: core_def)

lemma claim_effect:
  assumes inv: "db_inv cd db" and claim: "db_claim cd t q db = (Inr (Some p), db')"
  shows "db_inv cd db' \<and> db_holds cd db' p \<and> db_pend cd db = add_mset (core p) (db_pend cd db')
    \<and> db_failed db' = db_failed db"
proof -
  obtain r where r: "r \<in> set (db_jobs db)" "available t q r"
    "db' = db\<lparr>db_jobs := reserve_row t (jr_id r) (db_jobs db)\<rparr>"
    "Inr (Some p) = (case cd_dec cd (jr_payload r) of Inl e \<Rightarrow> Inl (QSerialization e)
      | Inr p \<Rightarrow> Inr (Some (p\<lparr>jp_attempts := jr_attempts r, jp_id := Some (jr_id r)\<rparr>)))"
    using db_claim_Some [OF claim] by blast
  then obtain p0 where p0: "cd_dec cd (jr_payload r) = Inr p0"
    "p = p0\<lparr>jp_attempts := jr_attempts r, jp_id := Some (jr_id r)\<rparr>"
    by (auto split: sum.splits)
  then have core: "core p = row_core cd r" by (simp add: row_core_def)
  have free: "jr_reserved_at r = None" using r(2) by (simp add: available_def)
  obtain xs ys where split: "db_jobs db = xs @ r # ys" "\<forall>x\<in>set xs \<union> set ys. jr_id x \<noteq> jr_id r"
    using split_row [of "db_jobs db" r] inv r(1) by (auto simp: db_inv_def)
  then have jobs: "db_jobs db' = xs @ r\<lparr>jr_reserved_at := Some (micros t)\<rparr> # ys"
    using r(3) row_updates(1) [OF split(2) free] by simp
  have "db_holds cd db' p"
    using jobs p0(2) core by (auto simp: db_holds_def intro!: bexI [of _ "r\<lparr>jr_reserved_at := Some (micros t)\<rparr>"])
  moreover have "db_inv cd db'"
    using inv by (simp add: db_inv_def jobs split(1))
  moreover have "db_pend cd db = add_mset (core p) (db_pend cd db')"
    using free by (simp add: db_pend_def jobs split(1) core)
  ultimately show ?thesis using r(3) by simp
qed

interpretation db: queue_driver "database_ops cd from_std" "db_pend cd" "\<lambda>d. mset (db_failed d)"
  "db_inv cd" "db_holds cd" stored_failure
proof (unfold_locales, goal_cases)
  case (1 d t q to p d')
  then obtain t' where "db_claim cd t' q d = (Inr (Some p), d')"
    using db_pop_from_cases [of cd t "t + to" q d "Inr (Some p)" d']
    by (auto simp: database_ops_def db_pop_def)
  from claim_effect [OF 1(1) this] show ?case by simp
next
  case (2 d t q to d')
  then have "d' = d"
    using db_pop_from_cases [of cd t "t + to" q d "Inr None" d'] by (simp add: database_ops_def db_pop_def)
  with 2 show ?case by simp
next
  case (3 d p)
  obtain r where r: "r \<in> set (db_jobs d)" "jp_id p = Some (jr_id r)" "jr_reserved_at r \<noteq> None"
    using 3(2) by (auto simp: db_holds_def)
  obtain xs ys where split: "db_jobs d = xs @ r # ys" "\<forall>x\<in>set xs \<union> set ys. jr_id x \<noteq> jr_id r"
    using split_row [of "db_jobs d" r] 3(1) r(1) by (auto simp: db_inv_def)
  have del: "delete_row (jr_id r) (db_jobs d) = xs @ ys"
    unfolding split(1) by (rule row_updates(3) [OF split(2)])
  have "db_inv cd (d\<lparr>db_jobs := xs @ ys\<rparr>)" "db_pend cd (d\<lparr>db_jobs := xs @ ys\<rparr>) = db_pend cd d"
    using 3(1) r(3) by (auto simp: db_inv_def db_pend_def split(1))
  with r(2) del show ?case by (simp add: database_ops_def db_ack_def)
next
  case (4 d p t delay)
  obtain r where r: "r \<in> set (db_jobs d)" "jp_id p = Some (jr_id r)" "jr_reserved_at r \<noteq> None"
    "row_core cd r = core p"
    using 4(2) by (auto simp: db_holds_def)
  obtain xs ys where split: "db_jobs d = xs @ r # ys" "\<forall>x\<in>set xs \<union> set ys. jr_id x \<noteq> jr_id r"
    using split_row [of "db_jobs d" r] 4(1) r(1) by (auto simp: db_inv_def)
  define r' where "r' = r\<lparr>jr_reserved_at := None, jr_available_at := micros (t + chrono_or_zero from_std delay),
    jr_attempts := saturating_add_u32 (jp_attempts p) 1\<rparr>"
  have rel: "release_row (micros (t + chrono_or_zero from_std delay)) (saturating_add_u32 (jp_attempts p) 1) (jr_id r)
      (db_jobs d) = xs @ r' # ys"
    unfolding split(1) r'_def by (rule row_updates(2) [OF split(2)])
  obtain p0 where p0: "cd_dec cd (jr_payload r) = Inr p0" using 4(1) r(1) by (auto simp: db_inv_def)
  have "row_core cd r' = (row_core cd r)\<lparr>jp_attempts := saturating_add_u32 (jp_attempts p) 1\<rparr>"
    using p0 by (simp add: row_core_def r'_def)
  then have core: "row_core cd r' = core (next_attempt p)"
    using r(4) by (simp add: next_attempt_def)
  have "db_inv cd (d\<lparr>db_jobs := xs @ r' # ys\<rparr>)"
    using 4(1) by (simp add: db_inv_def split(1) r'_def)
  moreover have "db_pend cd (d\<lparr>db_jobs := xs @ r' # ys\<rparr>) = add_mset (core (next_attempt p)) (db_pend cd d)"
    using r(3) core by (simp add: db_pend_def split(1)) (simp add: r'_def)
  ultimately show ?case
    using r(2) rel by (simp add: database_ops_def db_release_def)
next
  case (5 d p f)
  then show ?case
    by (simp add: database_ops_def db_dead_letter_def db_inv_def db_holds_def db_pend_def)
qed

end
