(* ===== verification/Queue_Claims.thy ===== *)
theory Queue_Claims
  imports Queue_Props
begin

text \<open>
  The properties of the queue: finalization of popped jobs, the retry budget, exclusive claims,
  backoff, dispatch of unique jobs and inline dispatch.
\<close>

section \<open>Examples\<close>

text \<open>An envelope codec that keeps the body, a job that always fails and counts its runs.\<close>

definition demo_codec :: codec where
  "demo_codec = \<lparr>cd_enc = (\<lambda>p. Inr (jp_payload p)),
     cd_dec = (\<lambda>j. Inr (payload_new ''q'' ''database'' (Some ''t'') j)), cd_string = (\<lambda>s. s)\<rparr>"

definition failing_body :: "json \<Rightarrow> nat job_body" where
  "failing_body j = \<lparr>jb_json = Some j, jb_suppressed = (\<lambda>_. False), jb_on_skip = (\<lambda>e. e),
     jb_handle = (\<lambda>e. (Inl (Exception ''boom''), Suc e)),
     jb_handle_for = (\<lambda>_ e. (Some (Inl (Exception ''boom'')), Suc e)), jb_on_timeout = (\<lambda>e. e)\<rparr>"

definition failing_job :: "nat \<Rightarrow> json \<Rightarrow> nat erased_job" where
  "failing_job n j = \<lparr>ej_body = Some (failing_body j), ej_key = ''t'', ej_policy = policy_new n 5 0\<rparr>"

definition no_unique :: "unit unique_cfg" where
  "no_unique = \<lparr>uc_store = None, uc_spec = (\<lambda>_ _. None)\<rparr>"

section \<open>Finalization\<close>


definition demo_row :: job_row where
  "demo_row = \<lparr>jr_id = ''r1'', jr_queue = ''q'', jr_payload = ''{}'', jr_attempts = 1,
     jr_reserved_at = None, jr_available_at = 1000, jr_created_at = 1000\<rparr>"

definition demo_db_cfg :: "(database, unit) worker_cfg" where
  "demo_db_cfg = \<lparr>wc_driver = database_ops demo_codec Some, wc_unique = no_unique,
     wc_codec = demo_codec, wc_render = (\<lambda>_. [])\<rparr>"

definition demo_db_world :: "(database, unit, nat) world" where
  "demo_db_world = \<lparr>w_driver = \<lparr>db_jobs = [demo_row], db_failed = []\<rparr>, w_unique = (), w_batches = [], w_env = 0\<rparr>"

definition demo_popped :: JobPayload where
  "demo_popped = (payload_new ''q'' ''database'' (Some ''t'') ''{}'')\<lparr>jp_id := Some ''r1''\<rparr>"


section \<open>The retry budget\<close>

text \<open>A job that is not suppressed and whose attempts all fail.\<close>

definition always_fails :: "'e erased_job \<Rightarrow> bool" where
  "always_fails j \<longleftrightarrow> (\<forall>e. case fst (run_erased j e) of
     Some (Failed _) \<Rightarrow> \<not> allows_retry (ej_policy j) 1
   | Some (Retrying _ _ _) \<Rightarrow> allows_retry (ej_policy j) 1
   | _ \<Rightarrow> False)"

definition after_run :: "'e erased_job \<Rightarrow> 'e \<Rightarrow> 'e" where
  "after_run j e = snd (snd (run_erased j e))"

definition sync_cfg :: "(nat \<Rightarrow> nat option) \<Rightarrow> codec \<Rightarrow> 's unique_cfg \<Rightarrow> (CacheError \<Rightarrow> string) \<Rightarrow> (sync_driver, 's) worker_cfg" where
  "sync_cfg from_std cd uc render = \<lparr>wc_driver = sync_ops from_std, wc_unique = uc, wc_codec = cd, wc_render = render\<rparr>"

lemma always_failsD:
  assumes "always_fails j"
  obtains out j' where "run_erased j e = (Some out, j', after_run j e)"
    "(\<exists>x. out = Failed x \<and> \<not> allows_retry (ej_policy j) 1)
     \<or> (\<exists>n d x. out = Retrying n d x \<and> allows_retry (ej_policy j) 1)"
proof -
  obtain res j' e' where run: "run_erased j e = (res, j', e')" by (metis prod_cases3)
  have "case res of
     Some (Failed _) \<Rightarrow> \<not> allows_retry (ej_policy j) 1
   | Some (Retrying _ _ _) \<Rightarrow> allows_retry (ej_policy j) 1
   | _ \<Rightarrow> False"
    using assms run unfolding always_fails_def by (metis fst_conv)
  then show thesis
    using run by (intro that [of "the res" j']) (auto simp: after_run_def split: option.splits JobOutcome.splits)
qed

text \<open>One step of the worker on a failing job alone in the buffer.\<close>

lemma failing_step_retry:
  assumes "always_fails j" "resolver p = Some j" "jp_attempts p < max_tries (ej_policy j)" "1 \<le> jp_attempts p"
  shows "process_one (sync_cfg from_std cd uc render) u u' t resolver p w
    = (Some (Inr ()), w\<lparr>w_env := after_run j (w_env w), w_driver := (w_driver w)\<lparr>sd_pending := sd_pending (w_driver w) @
        [default_release_payload from_std t p (delay_for_attempt (ej_policy j) (jp_attempts p))]\<rparr>\<rparr>)"
proof -
  have "allows_retry (ej_policy j) 1" using assms(3,4) by (simp add: allows_retry_def)
  then obtain n d x j' where "run_erased j (w_env w) = (Some (Retrying n d x), j', after_run j (w_env w))"
    using always_failsD [OF assms(1), of "w_env w"] by metis
  then show ?thesis
    using assms(2,3)
    by (simp add: process_one_def sync_cfg_def sync_ops_def sync_push_def driver_then_def allows_retry_def
        Let_def)
qed

lemma failing_step_last:
  assumes "always_fails j" "resolver p = Some j" "max_tries (ej_policy j) \<le> jp_attempts p"
  shows "\<exists>exc w'. process_one (sync_cfg from_std cd uc render) u u' t resolver p w = (Some (Inr ()), w')
    \<and> w_driver w' = (w_driver w)\<lparr>sd_failed := sd_failed (w_driver w) @
        [dead_record cd u t p (''JobError::MaxAttemptsExceeded: '' @ exc)]\<rparr>
    \<and> w_env w' = after_run j (w_env w)"
proof -
  obtain out j' where run: "run_erased j (w_env w) = (Some out, j', after_run j (w_env w))"
    "(\<exists>x. out = Failed x) \<or> (\<exists>n d x. out = Retrying n d x)"
    using always_failsD [OF assms(1), of "w_env w"] by metis
  then show ?thesis
    using assms(2,3)
    by (auto simp: process_one_def sync_cfg_def sync_ops_def record_failed_def driver_then_def
        allows_retry_def Let_def dead_record_def)
qed

lemma drained:
  assumes "sd_pending (w_driver w) = []"
  shows "worker_loop (sync_cfg from_std cd uc render) at ids resolver [q] m nd c 0 w = (Some (Inr nd), w)"
  using assms by (subst worker_loop.simps) (simp add: sync_cfg_def sync_ops_def sync_pop_def)

lemma pop_single:
  assumes "sd_pending (w_driver w) = [p]" "nd < m"
    and "process_one (sync_cfg from_std cd uc render) (fst (ids c)) (snd (ids c)) (at c) resolver p
      (w\<lparr>w_driver := (w_driver w)\<lparr>sd_pending := []\<rparr>\<rparr>) = (Some (Inr ()), w')"
  shows "worker_loop (sync_cfg from_std cd uc render) at ids resolver [q] m nd c 0 w
    = worker_loop (sync_cfg from_std cd uc render) at ids resolver [q] m (Suc nd) (Suc c) 0 w'"
proof -
  have "d_pop (wc_driver (sync_cfg from_std cd uc render)) t q' to (w_driver w)
      = (Inr (Some p), (w_driver w)\<lparr>sd_pending := []\<rparr>)" for t q' to
    using assms(1) by (simp add: sync_cfg_def sync_ops_def sync_pop_def)
  with assms(2,3) show ?thesis by (subst worker_loop.simps) simp
qed

text \<open>The job with a given attempt count, wherever it is made available.\<close>

definition same_job :: "JobPayload \<Rightarrow> JobPayload \<Rightarrow> bool" where
  "same_job p p' \<longleftrightarrow> (\<exists>n t. p' = p\<lparr>jp_attempts := n, jp_available_at := t\<rparr>)"

lemma same_job_release: "same_job p p' \<Longrightarrow> same_job p (default_release_payload from_std t p' d)"
  unfolding same_job_def default_release_payload_def by force

lemma failing_run:
  assumes "always_fails j" "\<And>p'. same_job p p' \<Longrightarrow> resolver p' = Some j"
    and "max_tries (ej_policy j) < 2 ^ 32"
    and "sd_pending (w_driver w) = [p']" "same_job p p'" "1 \<le> jp_attempts p'"
    and "max_tries (ej_policy j) = jp_attempts p' + k" "nd + Suc k \<le> m"
  shows "\<exists>w' u t p'' exc. worker_loop (sync_cfg from_std cd uc render) at ids resolver [q] m nd c 0 w
      = (Some (Inr (nd + Suc k)), w')
    \<and> sd_pending (w_driver w') = []
    \<and> sd_failed (w_driver w') = sd_failed (w_driver w) @ [dead_record cd u t p'' exc]
    \<and> same_job p p'' \<and> jp_attempts p'' = max_tries (ej_policy j)
    \<and> w_env w' = (after_run j ^^ Suc k) (w_env w)"
  using assms(4-8)
proof (induction k arbitrary: w p' nd c)
  case 0
  let ?w = "w\<lparr>w_driver := (w_driver w)\<lparr>sd_pending := []\<rparr>\<rparr>"
  obtain exc w' where step: "process_one (sync_cfg from_std cd uc render) (fst (ids c)) (snd (ids c)) (at c) resolver p' ?w
      = (Some (Inr ()), w')"
    "w_driver w' = (w_driver ?w)\<lparr>sd_failed := sd_failed (w_driver ?w) @
        [dead_record cd (fst (ids c)) (at c) p' (''JobError::MaxAttemptsExceeded: '' @ exc)]\<rparr>"
    "w_env w' = after_run j (w_env ?w)"
    using failing_step_last [where resolver = resolver and p = p', OF assms(1) assms(2) [OF 0(2)],
        of from_std cd uc render "fst (ids c)" "snd (ids c)" "at c" ?w] 0(4) by auto
  have "worker_loop (sync_cfg from_std cd uc render) at ids resolver [q] m nd c 0 w = (Some (Inr (nd + Suc 0)), w')"
    using pop_single [where at = at and ids = ids and c = c and nd = nd and m = m, OF 0(1) _ step(1)]
      drained [of w'] step(2) 0(5) by simp
  with step(2,3) 0(2,4) show ?case by auto
next
  case (Suc k)
  let ?w = "w\<lparr>w_driver := (w_driver w)\<lparr>sd_pending := []\<rparr>\<rparr>"
  define p1 where "p1 = default_release_payload from_std (at c) p' (delay_for_attempt (ej_policy j) (jp_attempts p'))"
  define w1 where "w1 = ?w\<lparr>w_env := after_run j (w_env ?w),
    w_driver := (w_driver ?w)\<lparr>sd_pending := sd_pending (w_driver ?w) @ [p1]\<rparr>\<rparr>"
  have "process_one (sync_cfg from_std cd uc render) (fst (ids c)) (snd (ids c)) (at c) resolver p' ?w = (Some (Inr ()), w1)"
    unfolding w1_def p1_def using Suc.prems(3,4)
    by (intro failing_step_retry [where resolver = resolver and p = p', OF assms(1) assms(2) [OF Suc.prems(2)]]) auto
  then have step: "worker_loop (sync_cfg from_std cd uc render) at ids resolver [q] m nd c 0 w
      = worker_loop (sync_cfg from_std cd uc render) at ids resolver [q] m (Suc nd) (Suc c) 0 w1"
    using Suc.prems(5) by (intro pop_single [where at = at and ids = ids and c = c, OF Suc.prems(1)]) auto
  have p1: "same_job p p1" "jp_attempts p1 = Suc (jp_attempts p')"
    unfolding p1_def using same_job_release [OF Suc.prems(2)] Suc.prems(4) assms(3)
    by (simp, simp add: default_release_payload_def saturating_add_u32_def)
  have w1: "sd_pending (w_driver w1) = [p1]" "sd_failed (w_driver w1) = sd_failed (w_driver w)"
    "w_env w1 = after_run j (w_env w)"
    by (simp_all add: w1_def)
  have "\<exists>w' u t p'' exc. worker_loop (sync_cfg from_std cd uc render) at ids resolver [q] m (Suc nd) (Suc c) 0 w1
      = (Some (Inr (Suc nd + Suc k)), w')
    \<and> sd_pending (w_driver w') = []
    \<and> sd_failed (w_driver w') = sd_failed (w_driver w1) @ [dead_record cd u t p'' exc]
    \<and> same_job p p'' \<and> jp_attempts p'' = max_tries (ej_policy j)
    \<and> w_env w' = (after_run j ^^ Suc k) (w_env w1)"
    using p1 Suc.prems(4,5) by (intro Suc.IH [OF w1(1)]) auto
  then show ?case
    unfolding step w1(2,3) by (simp add: funpow_swap1)
qed


lemma failing_always_fails: "always_fails (failing_job n j)"
  by (simp add: always_fails_def run_erased_def failing_job_def attempt_result_def policy_new_def
      failing_body_def Let_def)


section \<open>Exclusive claims\<close>

text \<open>Claims of any number of workers, one transaction after another; the tokens handed out.\<close>

fun run_claims :: "codec \<Rightarrow> (nat \<times> string) list \<Rightarrow> database \<Rightarrow> string list \<times> database" where
  "run_claims cd [] db = ([], db)"
| "run_claims cd ((t, q) # xs) db =
     (case db_claim cd t q db of
        (Inr (Some p), db') \<Rightarrow>
          (case run_claims cd xs db' of (is, db'') \<Rightarrow> ((case jp_id p of Some i \<Rightarrow> [i] | None \<Rightarrow> []) @ is, db''))
      | (_, db') \<Rightarrow> run_claims cd xs db')"

definition free_ids :: "database \<Rightarrow> string set" where
  "free_ids db = jr_id ` {r \<in> set (db_jobs db). jr_reserved_at r = None}"

lemma reserve_keeps: "map jr_id (reserve_row t i rs) = map jr_id rs"
  by (simp add: reserve_row_def)

lemma free_reserve:
  "free_ids (db\<lparr>db_jobs := reserve_row t i (db_jobs db)\<rparr>) = free_ids db - {i}"
proof -
  have "jr_id ` {r \<in> set (reserve_row t i rs). jr_reserved_at r = None}
      = jr_id ` {r \<in> set rs. jr_reserved_at r = None} - {i}" for rs
    by (induction rs) (auto simp: reserve_row_def split: if_splits)
  then show ?thesis by (simp add: free_ids_def)
qed

lemma claim_frees:
  assumes "db_claim cd t q db = (x, db')"
  shows "free_ids db' \<subseteq> free_ids db"
    and "x = Inr (Some p) \<Longrightarrow> \<exists>i. jp_id p = Some i \<and> i \<in> free_ids db \<and> i \<notin> free_ids db'"
proof -
  show "free_ids db' \<subseteq> free_ids db"
  proof (cases "x = Inr None")
    case True
    then show ?thesis using db_claim_None [of cd t q db db'] assms by simp
  next
    case False
    show ?thesis using db_claim_Some [OF assms False] free_reserve by (metis Diff_subset)
  qed
  assume x: "x = Inr (Some p)"
  obtain r where r: "r \<in> set (db_jobs db)" "available t q r"
    "db' = db\<lparr>db_jobs := reserve_row t (jr_id r) (db_jobs db)\<rparr>"
    "x = (case cd_dec cd (jr_payload r) of Inl e \<Rightarrow> Inl (QSerialization e)
      | Inr p \<Rightarrow> Inr (Some (p\<lparr>jp_attempts := jr_attempts r, jp_id := Some (jr_id r)\<rparr>)))"
    using db_claim_Some [OF assms] x by blast
  then have "jp_id p = Some (jr_id r)" using x by (auto split: sum.splits)
  then show "\<exists>i. jp_id p = Some i \<and> i \<in> free_ids db \<and> i \<notin> free_ids db'"
    using r(1-3) free_reserve [where db = db and t = t and i = "jr_id r"] by (auto simp: free_ids_def available_def image_iff)
qed

lemma run_claims_distinct:
  "distinct (fst (run_claims cd xs db)) \<and> set (fst (run_claims cd xs db)) \<subseteq> free_ids db"
proof (induction xs arbitrary: db)
  case (Cons x xs)
  obtain t q where x: "x = (t, q)" by (cases x)
  obtain y db' where claim: "db_claim cd t q db = (y, db')" by fastforce
  note ih = Cons.IH [of db'] and sub = claim_frees(1) [OF claim]
  show ?case
  proof (cases "\<exists>p. y = Inr (Some p)")
    case True
    then obtain p where y: "y = Inr (Some p)" by blast
    obtain i where "jp_id p = Some i" "i \<in> free_ids db" "i \<notin> free_ids db'"
      using claim_frees(2) [OF claim y] by blast
    with ih sub claim y show ?thesis by (auto simp: x split: prod.splits)
  next
    case False
    then have "run_claims cd (x # xs) db = run_claims cd xs db'"
      using claim by (auto simp: x split: sum.splits option.splits)
    with ih sub show ?thesis by auto
  qed
qed simp


section \<open>Backoff\<close>

text \<open>The backoff doubles from the first retry on, up to the 30th doubling and the largest
  duration, never decreases and never exceeds it. The policy of \<^verbatim>\<open>retry.rs\<close> computes the same
  function, so that retry attempt 2 waits twice the base, not the base.\<close>

lemma backoff_doubles:
  assumes "jp_backoff p \<le> DURATION_MAX" "1 \<le> n" "n \<le> m"
  shows "delay_for_attempt p n = min (jp_backoff p * 2 ^ min (n - 1) 30) DURATION_MAX
    \<and> delay_for_attempt p n \<le> delay_for_attempt p m \<and> delay_for_attempt p m \<le> DURATION_MAX
    \<and> delay_for_retry \<lparr>rp_tries = max_tries p, rp_backoff = jp_backoff p\<rparr> n = delay_for_attempt p n"
proof -
  have eq: "delay_for_attempt p k = min (jp_backoff p * 2 ^ min (k - 1) 30) DURATION_MAX" if "1 \<le> k" for k
    using that assms(1) by (auto simp: delay_for_attempt_def saturating_mul_def)
  have "(2 :: nat) ^ min (n - 1) 30 \<le> 2 ^ min (m - 1) 30"
    using assms(3) by (intro power_increasing) auto
  then have "jp_backoff p * 2 ^ min (n - 1) 30 \<le> jp_backoff p * 2 ^ min (m - 1) 30"
    by (rule mult_left_mono) simp
  then have "delay_for_attempt p n \<le> delay_for_attempt p m"
    using eq [OF assms(2)] eq [of m] assms(2,3) by (simp add: min.coboundedI1)
  moreover have "delay_for_retry \<lparr>rp_tries = max_tries p, rp_backoff = jp_backoff p\<rparr> n = delay_for_attempt p n"
    by (simp add: delay_for_retry_def delay_for_attempt_def disj_commute)
  moreover have "1 \<le> m" using assms(2,3) by simp
  then have "delay_for_attempt p m \<le> DURATION_MAX"
    using eq [of m] min.cobounded2 by metis
  ultimately show ?thesis
    using eq [OF assms(2)] by blast
qed

lemma backoff_doubles_example:
  "delay_for_attempt (policy_new 5 3 0) 3 = 12
   \<and> delay_for_retry \<lparr>rp_tries = 5, rp_backoff = 3\<rparr> 2 = 6"
  using backoff_doubles [of "policy_new 5 3 0" 3 3] backoff_doubles [of "policy_new 5 3 0" 2 2]
  by (simp add: policy_new_def DURATION_MAX_def)

section \<open>Unique dispatch\<close>

text \<open>The connection and the queue a dispatch goes to.\<close>

definition routed_to :: "'e dispatch_handle \<Rightarrow> ('d, 's, 'e) queue_sys \<Rightarrow> (string \<times> string) option" where
  "routed_to dh q =
     (let r = q_routes q (ej_key (dh_exec dh)) in
      case (case dh_connection dh of Some c \<Rightarrow> Some c | None \<Rightarrow> map_option rt_connection r) of
        None \<Rightarrow> None
      | Some c \<Rightarrow>
          map_option (Pair c) (case dh_queue dh of Some x \<Rightarrow> Some x | None \<Rightarrow> map_option rt_queue r))"

lemma dispatch_held:
  assumes "routed_to dh q = Some cq"
    and "acquire_lease uc render (ids 0) t (ej_key (dh_exec dh)) (as_json (dh_exec dh)) (q_unique q)
      = (Inr (Held i), s)"
  shows "dispatch_outcome uc render from_std ids t dh q = (Some (Inr (Deduplicated i)), q\<lparr>q_unique := s\<rparr>)"
  using assms
  by (cases cq) (auto simp: dispatch_outcome_def routed_to_def Let_def split: option.splits)

text \<open>What a dispatch to a queued connection does with the lease it has taken.\<close>

lemma dispatch_acquired:
  assumes "routed_to dh q = Some (conn, qn)" "conn \<noteq> ''sync''"
    and "acquire_lease uc render (ids 0) t (ej_key (dh_exec dh)) (as_json (dh_exec dh)) (q_unique q)
      = (Inr (Acquired i), s)"
  shows "dispatch_outcome uc render from_std ids t dh q =
    (case q_drivers q conn of
       None \<Rightarrow> (Some (Inl (UnknownConnection conn)), q\<lparr>q_unique := s\<rparr>)
     | Some ops \<Rightarrow>
         (case d_push ops (ids 4) t (to_payload from_std t (ej_key (dh_exec dh)) (as_json (dh_exec dh)) qn conn
                 (dh_delay dh) (dh_batch_id dh)) (q_state q) of
            (Inl e, d) \<Rightarrow> (Some (Inl e), q\<lparr>q_state := d,
              q_unique := snd (release_unique uc render t (ej_key (dh_exec dh)) (as_json (dh_exec dh)) s)\<rparr>)
          | (Inr _, d) \<Rightarrow> (Some (Inr (Enqueued (ids 3))), q\<lparr>q_unique := s, q_state := d\<rparr>)))"
  using assms
  by (auto simp: dispatch_outcome_def routed_to_def Let_def split: option.splits sum.splits prod.splits)

lemma lease_mem:
  assumes "uc_store uc = Some (memory_ops checks)" "uc_spec uc key body = Some (i, ttl)"
  shows "acquire_lease uc render uuid t key body m =
    (if mem_view t m (unique_key i) = None
     then (Inr (Acquired i), m(unique_key i \<mapsto> \<lparr>ce_value = ''unique-'' @ uuid, ce_expires = Some (t + effective_ttl ttl)\<rparr>))
     else (Inr (Held i), m))"
  using assms
  by (auto simp: acquire_lease_def memory_ops_def mem_put_if_absent_def mem_defs effective_ttl_def
      DEFAULT_UNIQUE_FOR_def split: option.splits)

lemma leased_then_held:
  assumes "uc_store uc = Some (memory_ops checks)" "uc_spec uc key body = Some (i, ttl)"
    and "mem_view t m (unique_key i) = None" "t \<le> t'" "t' < t + effective_ttl ttl"
    and "uc_spec uc key' body' = Some (i, ttl')"
  shows "acquire_lease uc render uuid' t' key' body' (snd (acquire_lease uc render uuid t key body m))
    = (Inr (Held i), snd (acquire_lease uc render uuid t key body m))"
  using assms
  by (simp add: lease_mem [OF assms(1,2)] lease_mem [OF assms(1,6)]) (simp add: mem_defs)


definition demo_unique :: "mem_store unique_cfg" where
  "demo_unique = \<lparr>uc_store = Some (memory_ops True), uc_spec = (\<lambda>k b. Some (k, 0))\<rparr>"

definition demo_sys :: "(sync_driver, mem_store, nat) queue_sys" where
  "demo_sys = \<lparr>q_drivers = [''redis'' \<mapsto> sync_ops Some],
     q_routes = [''t'' \<mapsto> \<lparr>rt_connection = ''redis'', rt_queue = ''q''\<rparr>],
     q_state = \<lparr>sd_pending = [], sd_failed = []\<rparr>, q_sink = [], q_unique = Map.empty, q_batches = [],
     q_env = 0\<rparr>"

lemmas demo_dispatch = demo_unique_def demo_sys_def failing_job_def handle_new_def routed_to_def

lemma demo_dispatched:
  "dispatch_outcome demo_unique (\<lambda>_. []) Some (\<lambda>_. ''a'') 5 (handle_new (failing_job 3 ''{}'')) demo_sys
   = (Some (Inr (Enqueued ''a'')),
      demo_sys\<lparr>q_unique := [unique_key ''t'' \<mapsto> \<lparr>ce_value = ''unique-a'', ce_expires = Some (5 + DEFAULT_UNIQUE_FOR)\<rparr>],
        q_state := \<lparr>sd_pending = [to_payload Some 5 ''t'' ''{}'' ''q'' ''redis'' 0 None], sd_failed = []\<rparr>\<rparr>)"
  by (simp add: demo_dispatch dispatch_outcome_def Let_def acquire_lease_def memory_ops_def as_json_def failing_body_def
      mem_put_if_absent_def effective_ttl_def expiry_def DEFAULT_UNIQUE_FOR_def sync_ops_def sync_push_def)


text \<open>A failed dispatch releases its lease, unless it fails because the connection has no
  driver: when the driver refuses the job the identifier is free again at once, but after
  \<open>UnknownConnection\<close> the lease stays and a corrected dispatch within it is
  deduplicated although no job was queued.\<close>

lemma dispatch_failure_lease:
  assumes "uc_store uc = Some (memory_ops checks)"
    and "uc_spec uc (ej_key (dh_exec dh)) (as_json (dh_exec dh)) = Some (i, ttl)"
    and "routed_to dh q = Some (conn, qn)" "conn \<noteq> ''sync''"
    and "mem_view t (q_unique q) (unique_key i) = None"
    and "dispatch_outcome uc render from_std ids t dh q = (Some (Inl e), q1)" "t \<le> t'"
  shows "if q_drivers q conn = None
    then e = UnknownConnection conn \<and> q_state q1 = q_state q
      \<and> (mem_view t' (q_unique q1) (unique_key i) = None) = (t + effective_ttl ttl \<le> t')
    else mem_view t' (q_unique q1) (unique_key i) = None"
proof -
  let ?acq = "acquire_lease uc render (ids 0) t (ej_key (dh_exec dh)) (as_json (dh_exec dh)) (q_unique q)"
  have acq: "?acq = (Inr (Acquired i), snd ?acq)"
    using assms(5) by (simp add: lease_mem [OF assms(1,2)])
  have kept: "(mem_view t' (snd ?acq) (unique_key i) = None) = (t + effective_ttl ttl \<le> t')"
    using assms(5) by (auto simp: lease_mem [OF assms(1,2)] mem_defs)
  have freed: "mem_view t' (snd (release_unique uc render t (ej_key (dh_exec dh)) (as_json (dh_exec dh)) s)) (unique_key i) = None" for s
    using assms(1,2) by (simp add: release_unique_def memory_ops_def mem_forget_def mem_defs)
  show ?thesis
    using assms(6) kept freed unfolding dispatch_acquired [where ids = ids, OF assms(3,4) acq]
    by (auto split: option.splits prod.splits sum.splits)
qed

lemma dispatch_failure_lease_example:
  "fst (dispatch_outcome demo_unique (\<lambda>_. []) Some (\<lambda>_. ''a'') 5
      ((handle_new (failing_job 3 ''{}''))\<lparr>dh_connection := Some ''sqs''\<rparr>) demo_sys) = Some (Inl (UnknownConnection ''sqs''))
   \<and> mem_view 9 (q_unique (snd (dispatch_outcome demo_unique (\<lambda>_. []) Some (\<lambda>_. ''a'') 5
      ((handle_new (failing_job 3 ''{}''))\<lparr>dh_connection := Some ''sqs''\<rparr>) demo_sys))) (unique_key ''t'') \<noteq> None"
proof -
  let ?dh = "(handle_new (failing_job 3 ''{}''))\<lparr>dh_connection := Some ''sqs''\<rparr>"
  let ?out = "dispatch_outcome demo_unique (\<lambda>_. []) Some (\<lambda>_. ''a'') 5 ?dh demo_sys"
  have fst: "fst ?out = Some (Inl (UnknownConnection ''sqs''))"
    by (simp add: demo_dispatch dispatch_outcome_def Let_def acquire_lease_def memory_ops_def
      mem_put_if_absent_def)
  then have out: "?out = (Some (Inl (UnknownConnection ''sqs'')), snd ?out)"
    by (metis prod.collapse)
  have "uc_store demo_unique = Some (memory_ops True)"
    "uc_spec demo_unique (ej_key (dh_exec ?dh)) (as_json (dh_exec ?dh)) = Some (''t'', 0)"
    "routed_to ?dh demo_sys = Some (''sqs'', ''q'')" "''sqs'' \<noteq> ''sync''"
    "mem_view 5 (q_unique demo_sys) (unique_key ''t'') = None" "q_drivers demo_sys ''sqs'' = None"
    by (simp_all add: demo_dispatch mem_defs)
  with dispatch_failure_lease [OF _ _ _ _ _ out, of True "''t''" 0 "''sqs''" "''q''" 9]
  have "(mem_view 9 (q_unique (snd ?out)) (unique_key ''t'') = None) = (5 + effective_ttl 0 \<le> 9)" by simp
  then have "mem_view 9 (q_unique (snd ?out)) (unique_key ''t'') \<noteq> None"
    by (simp add: effective_ttl_def DEFAULT_UNIQUE_FOR_def)
  with fst show ?thesis by blast
qed

section \<open>Inline dispatch\<close>

text \<open>A job run inline leaves exactly one dead letter when its attempt fails, whether or not its
  policy has attempts left, and none otherwise; the queue is not touched. The recorded body is
  the JSON null whatever the job was, because the body was taken by the run.\<close>

lemma execute_sync_dead_letter:
  "case execute_sync uuid t dh q of
     (None, q') \<Rightarrow> ej_body (dh_exec dh) = None \<and> q' = q
   | (Some out, q') \<Rightarrow> q_state q' = q_state q \<and> q_unique q' = q_unique q
       \<and> q_env q' = snd (snd (run_erased (dh_exec dh) (q_env q)))
       \<and> fst (run_erased (dh_exec dh) (q_env q)) = Some out
       \<and> (case out of
            Succeeded \<Rightarrow> q_sink q' = q_sink q
          | Skipped \<Rightarrow> q_sink q' = q_sink q
          | _ \<Rightarrow> \<exists>exc. q_sink q' = q_sink q @ [failed_new uuid t ''sync'' (ej_key (dh_exec dh)) json_null exc])"
proof (cases "ej_body (dh_exec dh)")
  case None
  then show ?thesis by (simp add: execute_sync_def run_erased_def)
next
  case (Some b)
  show ?thesis
  proof (cases "jb_suppressed b (q_env q)")
    case True
    with Some show ?thesis by (simp add: execute_sync_def run_erased_def Let_def)
  next
    case False
    obtain r e where "attempt_result ((dh_exec dh)\<lparr>ej_body := None\<rparr>) b (q_env q) = (r, e)" by fastforce
    with Some False show ?thesis
      by (cases r) (auto simp: execute_sync_def run_erased_def Let_def as_json_def)
  qed
qed

end
