(* ===== verification/Batch.thy ===== *)
theory Batch
  imports Queue_Worker
begin

text \<open>
  Batches of jobs: \<^verbatim>\<open>rustasea-queue/src/batch.rs\<close>, the repository of \<^verbatim>\<open>batch_db.rs\<close> with
  its rows (\<^verbatim>\<open>batch_db/record.rs\<close>) and callbacks (\<^verbatim>\<open>batch_db/callbacks.rs\<close>), and the
  batch and chain operations of \<^verbatim>\<open>registry.rs\<close>.

  The table \<^verbatim>\<open>job_batches\<close> is a map by primary key, and each SQL statement is one operation on it.
  The JSON and time codecs are parameters. A callback that fires is logged with the record it is given.
\<close>

section \<open>Accounting in memory\<close>

record BatchHandle =
  bh_total_jobs :: nat
  bh_pending_jobs :: nat
  bh_failed_jobs :: nat

definition batch_handle_new :: "nat \<Rightarrow> BatchHandle" where
  "batch_handle_new n = \<lparr>bh_total_jobs = n, bh_pending_jobs = n, bh_failed_jobs = 0\<rparr>"

definition complete_one :: "BatchHandle \<Rightarrow> BatchHandle" where
  "complete_one b = b\<lparr>bh_pending_jobs := bh_pending_jobs b - 1\<rparr>"

definition fail_one :: "BatchHandle \<Rightarrow> BatchHandle" where
  "fail_one b = b\<lparr>bh_failed_jobs := bh_failed_jobs b + 1, bh_pending_jobs := bh_pending_jobs b - 1\<rparr>"

section \<open>Rows\<close>

record batch_codec =
  bc_print_ids :: "string list \<Rightarrow> string"
  bc_parse_ids :: "string \<Rightarrow> string list option"
  bc_parse_json :: "string \<Rightarrow> json option"
  bc_rfc3339 :: "nat \<Rightarrow> string"
  bc_parse_ts :: "string \<Rightarrow> nat option"
  bc_conflict :: string

record batch_row =
  bt_id :: string
  bt_name :: string
  bt_total_jobs :: int
  bt_pending_jobs :: int
  bt_failed_jobs :: int
  bt_failed_job_ids :: string
  bt_options :: string
  bt_created_at :: string
  bt_finished_at :: "string option"
  bt_cancelled_at :: "string option"

type_synonym batch_table = "string \<rightharpoonup> batch_row"

record BatchRecord =
  br_id :: string
  br_name :: string
  br_total_jobs :: int
  br_pending_jobs :: int
  br_failed_jobs :: int
  br_failed_job_ids :: "string list"
  br_options :: json
  br_created_at :: nat
  br_finished_at :: "nat option"
  br_cancelled_at :: "nat option"

definition is_finished :: "BatchRecord \<Rightarrow> bool" where
  "is_finished r \<longleftrightarrow> br_finished_at r \<noteq> None"

definition has_failures :: "BatchRecord \<Rightarrow> bool" where
  "has_failures r \<longleftrightarrow> br_failed_jobs r > 0"

definition is_cancelled :: "BatchRecord \<Rightarrow> bool" where
  "is_cancelled r \<longleftrightarrow> br_cancelled_at r \<noteq> None"

definition is_complete :: "BatchRecord \<Rightarrow> bool" where
  "is_complete r \<longleftrightarrow> br_pending_jobs r \<le> 0"

definition parse_ids :: "batch_codec \<Rightarrow> string \<Rightarrow> string list" where
  "parse_ids cd text_value = (case bc_parse_ids cd text_value of None \<Rightarrow> [] | Some ids \<Rightarrow> ids)"

text \<open>An unreadable creation time is replaced by the clock.\<close>

definition batch_from_row :: "batch_codec \<Rightarrow> nat \<Rightarrow> batch_row \<Rightarrow> BatchRecord" where
  "batch_from_row cd now row =
     \<lparr>br_id = bt_id row, br_name = bt_name row, br_total_jobs = bt_total_jobs row, br_pending_jobs = bt_pending_jobs row,
      br_failed_jobs = bt_failed_jobs row, br_failed_job_ids = parse_ids cd (bt_failed_job_ids row),
      br_options = (case bc_parse_json cd (bt_options row) of None \<Rightarrow> json_null | Some j \<Rightarrow> j),
      br_created_at = (case bc_parse_ts cd (bt_created_at row) of None \<Rightarrow> now | Some t \<Rightarrow> t),
      br_finished_at = Option.bind (bt_finished_at row) (bc_parse_ts cd),
      br_cancelled_at = Option.bind (bt_cancelled_at row) (bc_parse_ts cd)\<rparr>"

section \<open>The repository\<close>

definition MAX_APPEND_RETRIES :: nat where
  "MAX_APPEND_RETRIES = 8"

definition I64_MAX :: int where
  "I64_MAX = 2 ^ 63 - 1"

text \<open>An insert fails with the driver's text when the key is taken.\<close>

definition batch_create ::
  "batch_codec \<Rightarrow> string \<Rightarrow> nat \<Rightarrow> string \<Rightarrow> nat \<Rightarrow> json \<Rightarrow> batch_table \<Rightarrow> (QueueError + BatchRecord) \<times> batch_table" where
  "batch_create cd uuid now name total_jobs options t =
     (let total = min (int total_jobs) I64_MAX;
          row = \<lparr>bt_id = uuid, bt_name = name, bt_total_jobs = total, bt_pending_jobs = total, bt_failed_jobs = 0,
            bt_failed_job_ids = ''[]'', bt_options = options, bt_created_at = bc_rfc3339 cd now, bt_finished_at = None,
            bt_cancelled_at = None\<rparr>
      in if t uuid \<noteq> None then (Inl (QStoreUnavailable (bc_conflict cd)), t)
         else
           (Inr \<lparr>br_id = uuid, br_name = name, br_total_jobs = total, br_pending_jobs = total, br_failed_jobs = 0,
              br_failed_job_ids = [], br_options = options, br_created_at = now, br_finished_at = None, br_cancelled_at = None\<rparr>,
            t(uuid \<mapsto> row)))"

definition batch_find :: "batch_codec \<Rightarrow> nat \<Rightarrow> string \<Rightarrow> batch_table \<Rightarrow> BatchRecord option" where
  "batch_find cd now i t = map_option (batch_from_row cd now) (t i)"

text \<open>The statements: each returns the number of rows it changed.\<close>

definition update_row :: "(batch_row \<Rightarrow> bool) \<Rightarrow> (batch_row \<Rightarrow> batch_row) \<Rightarrow> string \<Rightarrow> batch_table \<Rightarrow> nat \<times> batch_table" where
  "update_row cond f i t =
     (case t i of None \<Rightarrow> (0, t) | Some row \<Rightarrow> if cond row then (1, t(i \<mapsto> f row)) else (0, t))"

definition decrement_update :: "string \<Rightarrow> batch_table \<Rightarrow> nat \<times> batch_table" where
  "decrement_update = update_row (\<lambda>row. bt_pending_jobs row > 0) (\<lambda>row. row\<lparr>bt_pending_jobs := bt_pending_jobs row - 1\<rparr>)"

definition failure_update :: "string \<Rightarrow> string \<Rightarrow> string \<Rightarrow> batch_table \<Rightarrow> nat \<times> batch_table" where
  "failure_update ids_text prior_text =
     update_row (\<lambda>row. bt_pending_jobs row > 0 \<and> bt_failed_job_ids row = prior_text)
       (\<lambda>row. row\<lparr>bt_pending_jobs := bt_pending_jobs row - 1, bt_failed_jobs := bt_failed_jobs row + 1,
          bt_failed_job_ids := ids_text\<rparr>)"

definition finish_update :: "string \<Rightarrow> string \<Rightarrow> batch_table \<Rightarrow> nat \<times> batch_table" where
  "finish_update stamp = update_row (\<lambda>row. bt_finished_at row = None) (\<lambda>row. row\<lparr>bt_finished_at := Some stamp\<rparr>)"

definition cancel_update :: "string \<Rightarrow> string \<Rightarrow> batch_table \<Rightarrow> nat \<times> batch_table" where
  "cancel_update stamp = update_row (\<lambda>row. bt_cancelled_at row = None) (\<lambda>row. row\<lparr>bt_cancelled_at := Some stamp\<rparr>)"

definition decrement_pending :: "batch_codec \<Rightarrow> nat \<Rightarrow> string \<Rightarrow> batch_table \<Rightarrow> BatchRecord option \<times> batch_table" where
  "decrement_pending cd now i t = (let t' = snd (decrement_update i t) in (batch_find cd now i t', t'))"

datatype FailureTx = Missing | Recorded BatchRecord bool | Conflict

text \<open>The transaction of a failure: the first read, and what follows it in a table that other writers may have changed
  since. The update locks the row until the commit.\<close>

definition failure_write ::
  "batch_codec \<Rightarrow> nat \<Rightarrow> string \<Rightarrow> string \<Rightarrow> batch_row option \<Rightarrow> batch_table \<Rightarrow> FailureTx \<times> batch_table" where
  "failure_write cd now i failed read t =
     (case read of
        None \<Rightarrow> (Missing, t)
      | Some row \<Rightarrow>
          if bt_pending_jobs row \<le> 0 then (Recorded (batch_from_row cd now row) False, t)
          else
            (let ids = parse_ids cd (bt_failed_job_ids row); first_failure = (ids = []) in
             case failure_update (bc_print_ids cd (ids @ [failed])) (bt_failed_job_ids row) i t of
               (affected, t') \<Rightarrow>
                 if affected = 0 then (Conflict, t')
                 else
                   (case batch_find cd now i t' of
                      None \<Rightarrow> (Missing, t')
                    | Some r \<Rightarrow> (Recorded r first_failure, t'))))"

fun failure_retries ::
  "batch_codec \<Rightarrow> nat \<Rightarrow> string \<Rightarrow> string \<Rightarrow> nat \<Rightarrow> batch_table \<Rightarrow> (QueueError + (BatchRecord \<times> bool) option) \<times> batch_table" where
  "failure_retries cd now i failed 0 t = (Inl (QStoreUnavailable ''batch failure append contended beyond retry budget''), t)"
| "failure_retries cd now i failed (Suc n) t =
     (case failure_write cd now i failed (t i) t of
        (Missing, t') \<Rightarrow> (Inr None, t')
      | (Recorded r first_failure, t') \<Rightarrow> (Inr (Some (r, first_failure)), t')
      | (Conflict, t') \<Rightarrow> failure_retries cd now i failed n t')"

definition record_failure ::
  "batch_codec \<Rightarrow> nat \<Rightarrow> string \<Rightarrow> string \<Rightarrow> batch_table \<Rightarrow> (QueueError + (BatchRecord \<times> bool) option) \<times> batch_table" where
  "record_failure cd now i failed t = failure_retries cd now i failed MAX_APPEND_RETRIES t"

definition finish_batch ::
  "batch_codec \<Rightarrow> nat \<Rightarrow> string \<Rightarrow> batch_table \<Rightarrow> (BatchRecord \<times> bool) option \<times> batch_table" where
  "finish_batch cd now i t =
     (case finish_update (bc_rfc3339 cd now) i t of
        (affected, t') \<Rightarrow> (map_option (\<lambda>r. (r, affected > 0)) (batch_find cd now i t'), t'))"

definition cancel_batch :: "batch_codec \<Rightarrow> nat \<Rightarrow> string \<Rightarrow> batch_table \<Rightarrow> BatchRecord option \<times> batch_table" where
  "cancel_batch cd now i t = (let t' = snd (cancel_update (bc_rfc3339 cd now) i t) in (batch_find cd now i t', t'))"

section \<open>Callbacks\<close>

record 'c CallbackSet =
  cs_then :: "'c option"
  cs_catch :: "'c option"
  cs_finally :: "'c option"

definition no_callbacks :: "'c CallbackSet" where
  "no_callbacks = \<lparr>cs_then = None, cs_catch = None, cs_finally = None\<rparr>"

type_synonym 'c callbacks = "string \<rightharpoonup> 'c CallbackSet"

definition callback_entry :: "string \<Rightarrow> 'c callbacks \<Rightarrow> 'c CallbackSet" where
  "callback_entry i m = (case m i of None \<Rightarrow> no_callbacks | Some s \<Rightarrow> s)"

definition on_then :: "string \<Rightarrow> 'c \<Rightarrow> 'c callbacks \<Rightarrow> 'c callbacks" where
  "on_then i f m = m(i \<mapsto> (callback_entry i m)\<lparr>cs_then := Some f\<rparr>)"

definition on_catch :: "string \<Rightarrow> 'c \<Rightarrow> 'c callbacks \<Rightarrow> 'c callbacks" where
  "on_catch i f m = m(i \<mapsto> (callback_entry i m)\<lparr>cs_catch := Some f\<rparr>)"

definition on_finally :: "string \<Rightarrow> 'c \<Rightarrow> 'c callbacks \<Rightarrow> 'c callbacks" where
  "on_finally i f m = m(i \<mapsto> (callback_entry i m)\<lparr>cs_finally := Some f\<rparr>)"

definition forget_batch_callbacks :: "string \<Rightarrow> 'c callbacks \<Rightarrow> 'c callbacks" where
  "forget_batch_callbacks i m = m(i := None)"

definition take_callbacks :: "string \<Rightarrow> 'c callbacks \<Rightarrow> 'c CallbackSet \<times> 'c callbacks" where
  "take_callbacks i m = (callback_entry i m, m(i := None))"

text \<open>What a process holds: the rows, its callbacks, and the callbacks that fired.\<close>

record 'c batch_world =
  bw_rows :: batch_table
  bw_callbacks :: "'c callbacks"
  bw_fired :: "('c \<times> BatchRecord) list"

definition fire_catch :: "string \<Rightarrow> BatchRecord \<Rightarrow> 'c batch_world \<Rightarrow> 'c batch_world" where
  "fire_catch i r w =
     (case bw_callbacks w i of
        None \<Rightarrow> w
      | Some s \<Rightarrow>
          (case cs_catch s of
             None \<Rightarrow> w
           | Some f \<Rightarrow> w\<lparr>bw_callbacks := (bw_callbacks w)(i \<mapsto> s\<lparr>cs_catch := None\<rparr>), bw_fired := bw_fired w @ [(f, r)]\<rparr>))"

definition fire_completion :: "string \<Rightarrow> BatchRecord \<Rightarrow> 'c batch_world \<Rightarrow> 'c batch_world" where
  "fire_completion i r w =
     (case take_callbacks i (bw_callbacks w) of
        (s, m) \<Rightarrow>
          w\<lparr>bw_callbacks := m,
            bw_fired := bw_fired w
              @ (if br_failed_jobs r = 0 then (case cs_then s of None \<Rightarrow> [] | Some f \<Rightarrow> [(f, r)]) else [])
              @ (case cs_finally s of None \<Rightarrow> [] | Some f \<Rightarrow> [(f, r)])\<rparr>)"

section \<open>Recording an outcome\<close>

definition record_batch_outcome ::
  "batch_codec \<Rightarrow> bool \<Rightarrow> nat \<Rightarrow> string \<Rightarrow> string option \<Rightarrow> 'c batch_world \<Rightarrow> (QueueError + BatchRecord option) \<times> 'c batch_world" where
  "record_batch_outcome cd installed now i failed w =
     (if \<not> installed then (Inr None, w)
      else
        (case (case failed of
                 Some f \<Rightarrow> record_failure cd now i f (bw_rows w)
               | None \<Rightarrow> (case decrement_pending cd now i (bw_rows w) of (r, t) \<Rightarrow> (Inr (map_option (\<lambda>r. (r, False)) r), t))) of
           (Inl e, t) \<Rightarrow> (Inl e, w\<lparr>bw_rows := t\<rparr>)
         | (Inr None, t) \<Rightarrow> (Inr None, w\<lparr>bw_rows := t\<rparr>)
         | (Inr (Some (r, first_failure)), t) \<Rightarrow>
             (let w1 = w\<lparr>bw_rows := t\<rparr>; w2 = (if first_failure then fire_catch i r w1 else w1) in
              if br_pending_jobs r \<le> 0 \<and> \<not> is_finished r then
                (case finish_batch cd now i (bw_rows w2) of
                   (None, t') \<Rightarrow> (Inr None, w2\<lparr>bw_rows := t'\<rparr>)
                 | (Some (finished, claimed), t') \<Rightarrow>
                     (let w3 = w2\<lparr>bw_rows := t'\<rparr> in
                      (Inr (Some finished), if claimed then fire_completion i finished w3 else w3)))
              else (Inr (Some r), w2))))"

section \<open>Dispatching batches and chains\<close>

text \<open>\<open>parse_uuid\<close> is the parser of the \<^verbatim>\<open>uuid\<close> crate with the canonical text as its result;
  \<open>ids k\<close> are the identifiers drawn for the \<open>k\<close>th job. The result is \<open>None\<close> when a job panics.\<close>

fun dispatch_jobs ::
  "'s unique_cfg \<Rightarrow> (CacheError \<Rightarrow> string) \<Rightarrow> (nat \<Rightarrow> nat option) \<Rightarrow> (nat \<Rightarrow> nat \<Rightarrow> string) \<Rightarrow> nat \<Rightarrow> string option
    \<Rightarrow> nat \<Rightarrow> 'e erased_job list \<Rightarrow> ('d, 's, 'e) queue_sys \<Rightarrow> (QueueError + unit) option \<times> ('d, 's, 'e) queue_sys" where
  "dispatch_jobs uc render from_std ids now tag k [] q = (Some (Inr ()), q)"
| "dispatch_jobs uc render from_std ids now tag k (j # js) q =
     (case dispatch_outcome uc render from_std (ids k) now ((handle_new j)\<lparr>dh_batch_id := tag\<rparr>) q of
        (None, q') \<Rightarrow> (None, q')
      | (Some (Inl e), q') \<Rightarrow> (Some (Inl e), q')
      | (Some (Inr _), q') \<Rightarrow> dispatch_jobs uc render from_std ids now tag (Suc k) js q')"

definition dispatch_erased_in ::
  "'s unique_cfg \<Rightarrow> (CacheError \<Rightarrow> string) \<Rightarrow> (nat \<Rightarrow> nat option) \<Rightarrow> (nat \<Rightarrow> nat \<Rightarrow> string) \<Rightarrow> (string \<Rightarrow> string option) \<Rightarrow> string
    \<Rightarrow> nat \<Rightarrow> string option \<Rightarrow> 'e erased_job list \<Rightarrow> ('d, 's, 'e) queue_sys
    \<Rightarrow> (QueueError + string) option \<times> ('d, 's, 'e) queue_sys" where
  "dispatch_erased_in uc render from_std ids parse_uuid fresh now batch_id jobs q =
     (let i = (case Option.bind batch_id parse_uuid of Some u \<Rightarrow> u | None \<Rightarrow> fresh) in
      case dispatch_jobs uc render from_std ids now batch_id 0 jobs q of
        (None, q') \<Rightarrow> (None, q')
      | (Some (Inl e), q') \<Rightarrow> (Some (Inl e), q')
      | (Some (Inr _), q') \<Rightarrow> (Some (Inr i), q'))"

text \<open>A chain runs its jobs in place and stops at the first that does not succeed.\<close>

fun chain ::
  "(nat \<Rightarrow> string) \<Rightarrow> nat \<Rightarrow> nat \<Rightarrow> 'e erased_job list \<Rightarrow> FailedJob list \<times> 'e \<Rightarrow> JobOutcome list option \<times> FailedJob list \<times> 'e" where
  "chain ids now k [] se = (Some [], se)"
| "chain ids now k (j # js) se =
     (case se of (sink, e) \<Rightarrow>
      (case run_erased j e of
         (None, _, e') \<Rightarrow> (None, sink, e')
       | (Some outcome, j', e') \<Rightarrow>
           (let sink' = (case outcome of
                  Failed _ \<Rightarrow> sink @ [failed_new (ids k) now ''sync'' (ej_key j') (as_json j') ''JobError::MaxAttemptsExceeded'']
                | Retrying _ _ _ \<Rightarrow> sink @ [failed_new (ids k) now ''sync'' (ej_key j') (as_json j') ''JobError::MaxAttemptsExceeded'']
                | _ \<Rightarrow> sink)
            in if outcome \<noteq> Succeeded then (Some [outcome], sink', e')
               else
                 (case chain ids now (Suc k) js (sink', e') of
                    (None, se') \<Rightarrow> (None, se')
                  | (Some os, se') \<Rightarrow> (Some (outcome # os), se')))))"

end
