(* ===== verification/Batch_Props.thy ===== *)
theory Batch_Props
  imports Batch "HOL-Library.Multiset"
begin

text \<open>
  Workers that report the jobs of one batch at the same time. A recorder is a call of
  \<^verbatim>\<open>record_batch_outcome\<close> between two of its statements; a schedule interleaves them, may abort one at a
  failing statement, and may cancel the batch. On its own a recorder does what \<open>record_batch_outcome\<close> does.
\<close>

section \<open>Recorders\<close>

datatype recorder =
    Succeeding
  | Failing nat string
  | FailRead nat string "batch_row option"
  | Counted
  | Read BatchRecord bool
  | Finishing
  | Stamped bool
  | Ended "QueueError + BatchRecord option"
  | Aborted bool

definition recorder_start :: "string option \<Rightarrow> recorder" where
  "recorder_start failed = (case failed of None \<Rightarrow> Succeeding | Some f \<Rightarrow> Failing MAX_APPEND_RETRIES f)"

fun advance :: "batch_codec \<Rightarrow> nat \<Rightarrow> string \<Rightarrow> recorder \<Rightarrow> 'c batch_world \<Rightarrow> recorder \<times> 'c batch_world" where
  "advance cd now i Succeeding w = (Counted, w\<lparr>bw_rows := snd (decrement_update i (bw_rows w))\<rparr>)"
| "advance cd now i (Failing 0 f) w =
     (Ended (Inl (QStoreUnavailable ''batch failure append contended beyond retry budget'')), w)"
| "advance cd now i (Failing (Suc n) f) w = (FailRead n f (bw_rows w i), w)"
| "advance cd now i (FailRead n f rd) w =
     (case failure_write cd now i f rd (bw_rows w) of
        (Missing, t) \<Rightarrow> (Ended (Inr None), w\<lparr>bw_rows := t\<rparr>)
      | (Recorded r first_failure, t) \<Rightarrow> (Read r first_failure, w\<lparr>bw_rows := t\<rparr>)
      | (Conflict, t) \<Rightarrow> (Failing n f, w\<lparr>bw_rows := t\<rparr>))"
| "advance cd now i Counted w =
     (case batch_find cd now i (bw_rows w) of None \<Rightarrow> (Ended (Inr None), w) | Some r \<Rightarrow> (Read r False, w))"
| "advance cd now i (Read r first_failure) w =
     ((if br_pending_jobs r \<le> 0 \<and> \<not> is_finished r then Finishing else Ended (Inr (Some r))),
      if first_failure then fire_catch i r w else w)"
| "advance cd now i Finishing w =
     (case finish_update (bc_rfc3339 cd now) i (bw_rows w) of (affected, t) \<Rightarrow> (Stamped (affected > 0), w\<lparr>bw_rows := t\<rparr>))"
| "advance cd now i (Stamped claimed) w =
     (case batch_find cd now i (bw_rows w) of
        None \<Rightarrow> (Ended (Inr None), w)
      | Some r \<Rightarrow> (Ended (Inr (Some r)), if claimed then fire_completion i r w else w))"
| "advance cd now i (Ended res) w = (Ended res, w)"
| "advance cd now i (Aborted b) w = (Aborted b, w)"

text \<open>A recorder that nobody disturbs.\<close>

fun run_alone :: "batch_codec \<Rightarrow> nat \<Rightarrow> string \<Rightarrow> nat \<Rightarrow> recorder \<times> 'c batch_world \<Rightarrow> recorder \<times> 'c batch_world" where
  "run_alone cd now i 0 s = s"
| "run_alone cd now i (Suc n) s = run_alone cd now i n (advance cd now i (fst s) (snd s))"

lemma failure_alone:
  "failure_write cd now i f (t i) t \<noteq> (Conflict, t')"
  by (auto simp: failure_write_def failure_update_def update_row_def Let_def split: option.splits if_splits)

lemma run_alone_Ended [simp]: "run_alone cd now i n (Ended res, w) = (Ended res, w)"
  by (induction n) simp_all

lemma finish_alone:
  "run_alone cd now i 2 (Finishing, w) = (case finish_batch cd now i (bw_rows w) of
     (None, t) \<Rightarrow> (Ended (Inr None), w\<lparr>bw_rows := t\<rparr>)
   | (Some (r, claimed), t) \<Rightarrow>
       (Ended (Inr (Some r)), if claimed then fire_completion i r (w\<lparr>bw_rows := t\<rparr>) else w\<lparr>bw_rows := t\<rparr>))"
proof -
  obtain n t where u: "finish_update (bc_rfc3339 cd now) i (bw_rows w) = (n, t)" by (metis prod.exhaust)
  show ?thesis
    by (cases "batch_find cd now i t") (simp_all add: finish_batch_def u eval_nat_numeral)
qed

lemma read_alone:
  "run_alone cd now i 3 (Read r first_failure, w) =
     (let w2 = (if first_failure then fire_catch i r w else w) in
      if br_pending_jobs r \<le> 0 \<and> \<not> is_finished r then
        (case finish_batch cd now i (bw_rows w2) of
           (None, t') \<Rightarrow> (Ended (Inr None), w2\<lparr>bw_rows := t'\<rparr>)
         | (Some (finished, claimed), t') \<Rightarrow>
             (Ended (Inr (Some finished)), if claimed then fire_completion i finished (w2\<lparr>bw_rows := t'\<rparr>) else w2\<lparr>bw_rows := t'\<rparr>))
      else (Ended (Inr (Some r)), w2))"
proof -
  have "run_alone cd now i 3 s = run_alone cd now i 2 (advance cd now i (fst s) (snd s))" for s :: "recorder \<times> 'a batch_world"
    by (simp add: eval_nat_numeral)
  then show ?thesis by (simp add: finish_alone Let_def)
qed

lemma record_alone:
  "run_alone cd now i 5 (recorder_start failed, w)
     = (case record_batch_outcome cd True now i failed w of (res, w') \<Rightarrow> (Ended res, w'))"
proof -
  have five: "run_alone cd now i 5 s = run_alone cd now i 3 (run_alone cd now i 2 s)" for s :: "recorder \<times> 'a batch_world"
    by (simp add: eval_nat_numeral)
  have two: "run_alone cd now i 2 (q, v) = advance cd now i (fst (advance cd now i q v)) (snd (advance cd now i q v))" for q and v :: "'a batch_world"
    by (simp add: eval_nat_numeral)
  have eight: "MAX_APPEND_RETRIES = Suc 7" by (simp add: MAX_APPEND_RETRIES_def)
  let ?fin = "\<lambda>(res, w'). (Ended res, w')"
  have tail: "run_alone cd now i 3 (Read r first, w1) = ?fin
      (let w2 = (if first then fire_catch i r w1 else w1) in
       if br_pending_jobs r \<le> 0 \<and> \<not> is_finished r then
         (case finish_batch cd now i (bw_rows w2) of
            (None, t') \<Rightarrow> (Inr None, w2\<lparr>bw_rows := t'\<rparr>)
          | (Some (finished, claimed), t') \<Rightarrow>
              (let w3 = w2\<lparr>bw_rows := t'\<rparr> in
               (Inr (Some finished), if claimed then fire_completion i finished w3 else w3)))
       else (Inr (Some r), w2))" for r first and w1 :: "'a batch_world"
  proof -
    define w2 where "w2 = (if first then fire_catch i r w1 else w1)"
    obtain fb t' where f: "finish_batch cd now i (bw_rows w2) = (fb, t')" by (metis prod.exhaust)
    show ?thesis unfolding read_alone Let_def w2_def [symmetric] f by (cases fb) auto
  qed
  show ?thesis
  proof (cases failed)
    case None
    then show ?thesis unfolding five two
      by (cases "batch_find cd now i (snd (decrement_update i (bw_rows w)))")
        (simp_all add: recorder_start_def record_batch_outcome_def decrement_pending_def tail Let_def)
  next
    case (Some f)
    obtain x t where x: "failure_write cd now i f (bw_rows w i) (bw_rows w) = (x, t)" by (metis prod.exhaust)
    with failure_alone have "x \<noteq> Conflict" by metis
    moreover have "advance cd now i (Failing MAX_APPEND_RETRIES f) w = (FailRead 7 f (bw_rows w i), w)"
      unfolding eight by (rule advance.simps)
    moreover have "failure_retries cd now i f MAX_APPEND_RETRIES (bw_rows w) = (case failure_write cd now i f (bw_rows w i) (bw_rows w) of
        (Missing, t') \<Rightarrow> (Inr None, t')
      | (Recorded r first_failure, t') \<Rightarrow> (Inr (Some (r, first_failure)), t')
      | (Conflict, t') \<Rightarrow> failure_retries cd now i f 7 t')"
      unfolding eight by (rule failure_retries.simps)
    ultimately show ?thesis using Some x unfolding five two
      by (cases x) (simp_all add: recorder_start_def record_batch_outcome_def record_failure_def tail Let_def)
  qed
qed

section \<open>Schedules\<close>

datatype batch_event = Advance nat nat | Abort nat | CancelBatch nat

fun is_counted :: "recorder \<Rightarrow> bool" where
  "is_counted Counted = True"
| "is_counted (Read _ _) = True"
| "is_counted Finishing = True"
| "is_counted (Stamped _) = True"
| "is_counted (Ended res) = (case res of Inr _ \<Rightarrow> True | Inl _ \<Rightarrow> False)"
| "is_counted (Aborted b) = b"
| "is_counted _ = False"

fun abort :: "recorder \<Rightarrow> recorder" where
  "abort (Ended res) = Ended res"
| "abort r = Aborted (is_counted r)"

fun batch_step :: "batch_codec \<Rightarrow> string \<Rightarrow> batch_event \<Rightarrow> recorder list \<times> 'c batch_world \<Rightarrow> recorder list \<times> 'c batch_world" where
  "batch_step cd i (Advance k now) (rs, w) =
     (if k < length rs then (case advance cd now i (rs ! k) w of (r, w') \<Rightarrow> (rs[k := r], w')) else (rs, w))"
| "batch_step cd i (Abort k) (rs, w) = (if k < length rs then rs[k := abort (rs ! k)] else rs, w)"
| "batch_step cd i (CancelBatch now) (rs, w) = (rs, w\<lparr>bw_rows := snd (cancel_batch cd now i (bw_rows w))\<rparr>)"

definition batch_run :: "batch_codec \<Rightarrow> string \<Rightarrow> batch_event list \<Rightarrow> recorder list \<times> 'c batch_world \<Rightarrow> recorder list \<times> 'c batch_world" where
  "batch_run cd i evs s = fold (batch_step cd i) evs s"

text \<open>The failures of the jobs that are counted.\<close>

definition counted_failures :: "string option list \<Rightarrow> recorder list \<Rightarrow> string multiset" where
  "counted_failures os rs = mset (List.map_filter (\<lambda>(x, r). if is_counted r then x else None) (zip os rs))"

abbreviation counted :: "recorder list \<Rightarrow> nat" where
  "counted rs \<equiv> length (filter is_counted rs)"

definition opt_mset :: "'a option \<Rightarrow> 'a multiset" where
  "opt_mset x = (case x of None \<Rightarrow> {#} | Some a \<Rightarrow> {#a#})"

lemma counted_update:
  "k < length rs \<Longrightarrow> counted (rs[k := r]) + (if is_counted (rs ! k) then 1 else 0) = counted rs + (if is_counted r then 1 else 0)"
proof (induction rs arbitrary: k)
  case (Cons x rs)
  then show ?case by (cases k) auto
qed simp

lemma counted_failures_Cons:
  "counted_failures (x # os) (r # rs) = (if is_counted r then opt_mset x else {#}) + counted_failures os rs"
  by (auto simp: counted_failures_def List.map_filter_def opt_mset_def split: option.split)

lemma counted_failures_update:
  "length os = length rs \<Longrightarrow> k < length rs \<Longrightarrow>
    counted_failures os (rs[k := r]) + (if is_counted (rs ! k) then opt_mset (os ! k) else {#})
      = counted_failures os rs + (if is_counted r then opt_mset (os ! k) else {#})"
proof (induction os rs arbitrary: k rule: list_induct2)
  case (Cons x os y rs)
  show ?case
  proof (cases k)
    case (Suc n)
    with Cons.IH [of n] Cons.prems show ?thesis
      by (auto simp: counted_failures_Cons add.assoc add.left_commute add.commute)
  qed (auto simp: counted_failures_Cons)
qed simp

lemma counted_le: "counted rs \<le> length rs"
  by (rule length_filter_le)

lemma counted_less: "k < length rs \<Longrightarrow> \<not> is_counted (rs ! k) \<Longrightarrow> counted rs < length rs"
  using length_filter_less [where P = is_counted, of "rs ! k" rs] by simp

lemma counted_all: "counted rs = length rs \<longleftrightarrow> (\<forall>r\<in>set rs. is_counted r)"
proof
  assume all: "counted rs = length rs"
  show "\<forall>r\<in>set rs. is_counted r"
  proof (rule ballI, rule ccontr)
    fix r
    assume "r \<in> set rs" "\<not> is_counted r"
    from length_filter_less [where P = is_counted, OF this] all show False by simp
  qed
qed simp

section \<open>The invariant\<close>

definition batch_codec_ok :: "batch_codec \<Rightarrow> bool" where
  "batch_codec_ok cd \<longleftrightarrow> (\<forall>ids. bc_parse_ids cd (bc_print_ids cd ids) = Some ids) \<and> bc_parse_ids cd ''[]'' = Some []
     \<and> (\<forall>n. bc_parse_ts cd (bc_rfc3339 cd n) = Some n)"

text \<open>A recorder at its place: it reports the outcome of its job, has read a batch with open jobs before it counts, and
  looks for the end only when it saw none open.\<close>

fun in_place :: "nat \<Rightarrow> nat \<Rightarrow> string option \<Rightarrow> recorder \<Rightarrow> bool" where
  "in_place n c x Succeeding = (x = None)"
| "in_place n c x (Failing m f) = (x = Some f)"
| "in_place n c x (FailRead m f rd) = (x = Some f \<and> (\<exists>row. rd = Some row \<and> bt_pending_jobs row > 0))"
| "in_place n c x (Read r b) = ((br_pending_jobs r \<le> 0 \<longrightarrow> c = n) \<and> (b \<longrightarrow> x \<noteq> None))"
| "in_place n c x Finishing = (c = n)"
| "in_place n c x (Stamped b) = (c = n)"
| "in_place n c x r = True"

text \<open>A recorder that will finish the batch, or was stopped on the way.\<close>

fun may_finish :: "recorder \<Rightarrow> bool" where
  "may_finish Counted = True"
| "may_finish (Read r b) = (br_pending_jobs r \<le> 0 \<and> \<not> is_finished r)"
| "may_finish Finishing = True"
| "may_finish (Aborted b) = b"
| "may_finish _ = False"

definition row_ok :: "batch_codec \<Rightarrow> string option list \<Rightarrow> recorder list \<Rightarrow> batch_row \<Rightarrow> bool" where
  "row_ok cd os rs row \<longleftrightarrow>
     bt_pending_jobs row = int (length os) - int (counted rs)
     \<and> bt_failed_jobs row = int (size (counted_failures os rs))
     \<and> (\<exists>ids. bc_parse_ids cd (bt_failed_job_ids row) = Some ids \<and> mset ids = counted_failures os rs)
     \<and> (\<forall>s. bt_finished_at row = Some s \<longrightarrow> bc_parse_ts cd s \<noteq> None \<and> counted rs = length os)
     \<and> (counted rs = length os \<longrightarrow> bt_finished_at row \<noteq> None \<or> (\<exists>r\<in>set rs. may_finish r))"

lemma batch_from_row_simps [simp]:
  "br_pending_jobs (batch_from_row cd now row) = bt_pending_jobs row"
  "br_failed_jobs (batch_from_row cd now row) = bt_failed_jobs row"
  "br_failed_job_ids (batch_from_row cd now row) = parse_ids cd (bt_failed_job_ids row)"
  by (simp_all add: batch_from_row_def)

lemma is_finished_row: "row_ok cd os rs row \<Longrightarrow> is_finished (batch_from_row cd now row) \<longleftrightarrow> bt_finished_at row \<noteq> None"
  by (cases "bt_finished_at row") (auto simp: row_ok_def is_finished_def batch_from_row_def)

text \<open>What fired: at most one report of the first failure, and then at most one completion, of all jobs.\<close>

definition completion :: "'c CallbackSet \<Rightarrow> string option list \<Rightarrow> ('c \<times> BatchRecord) list \<Rightarrow> bool" where
  "completion cbs os fired \<longleftrightarrow>
     (\<exists>r. br_pending_jobs r = 0 \<and> mset (br_failed_job_ids r) = mset (List.map_filter id os)
        \<and> fired = (if List.map_filter id os = [] then (case cs_then cbs of None \<Rightarrow> [] | Some f \<Rightarrow> [(f, r)]) else [])
            @ (case cs_finally cbs of None \<Rightarrow> [] | Some f \<Rightarrow> [(f, r)]))"

definition caught_ok :: "'c CallbackSet \<Rightarrow> string option list \<Rightarrow> ('c \<times> BatchRecord) list \<Rightarrow> bool" where
  "caught_ok cbs os caught \<longleftrightarrow>
     caught = [] \<or> (\<exists>f r. cs_catch cbs = Some f \<and> caught = [(f, r)] \<and> List.map_filter id os \<noteq> [])"

definition fired_ok :: "'c CallbackSet \<Rightarrow> string \<Rightarrow> string option list \<Rightarrow> recorder list \<Rightarrow> bool \<Rightarrow> 'c batch_world \<Rightarrow> bool" where
  "fired_ok cbs i os rs fin w \<longleftrightarrow>
     (case bw_callbacks w i of
        None \<Rightarrow> (\<exists>caught fired. bw_fired w = caught @ fired \<and> caught_ok cbs os caught \<and> completion cbs os fired)
          \<and> fin \<and> (\<forall>r\<in>set rs. r \<noteq> Stamped True)
      | Some s \<Rightarrow> caught_ok cbs os (bw_fired w) \<and> s = cbs\<lparr>cs_catch := (if bw_fired w = [] then cs_catch cbs else None)\<rparr>
          \<and> length (filter (\<lambda>r. r = Stamped True) rs) \<le> (if fin then 1 else 0)
          \<and> (fin \<longrightarrow> (\<exists>r\<in>set rs. r = Stamped True \<or> r = Aborted True)))"

lemma fired_ok_rows [simp]: "fired_ok cbs i os rs fin (w\<lparr>bw_rows := t\<rparr>) = fired_ok cbs i os rs fin w"
  by (cases "bw_callbacks w i") (simp_all add: fired_ok_def)

definition batch_inv :: "batch_codec \<Rightarrow> 'c CallbackSet \<Rightarrow> string \<Rightarrow> string option list \<Rightarrow> recorder list \<times> 'c batch_world \<Rightarrow> bool" where
  "batch_inv cd cbs i os s \<longleftrightarrow>
     (case s of (rs, w) \<Rightarrow> length rs = length os \<and> (\<forall>k<length rs. in_place (length os) (counted rs) (os ! k) (rs ! k))
        \<and> (\<exists>row. bw_rows w i = Some row \<and> row_ok cd os rs row \<and> fired_ok cbs i os rs (bt_finished_at row \<noteq> None) w))"

section \<open>Every step keeps it\<close>

lemma same_count:
  assumes "length os = length rs" "k < length rs" "is_counted r = is_counted (rs ! k)"
  shows "counted (rs[k := r]) = counted rs" "counted_failures os (rs[k := r]) = counted_failures os rs"
  using counted_update [OF assms(2), of r] counted_failures_update [OF assms(1,2), of r] assms(3)
  by (auto split: if_splits)

lemma more_count:
  assumes "length os = length rs" "k < length rs" "\<not> is_counted (rs ! k)" "is_counted r"
  shows "counted (rs[k := r]) = Suc (counted rs)" "counted_failures os (rs[k := r]) = counted_failures os rs + opt_mset (os ! k)"
  using counted_update [OF assms(2), of r] counted_failures_update [OF assms(1,2), of r] assms(3,4)
  by (auto split: if_splits)

lemma in_place_later: "in_place n c x r \<Longrightarrow> c < n \<Longrightarrow> in_place n (Suc c) x r"
  by (induction n c x r rule: in_place.induct) auto

lemma some_updated:
  assumes "\<exists>r\<in>set rs. P r" "k < length rs" "P (rs ! k) \<Longrightarrow> P r'"
  shows "\<exists>r\<in>set (rs[k := r']). P r"
proof -
  from assms(1) obtain j where j: "j < length rs" "P (rs ! j)" by (auto simp: in_set_conv_nth)
  then have "P (rs[k := r'] ! j)" using assms(2,3) by (cases "j = k") auto
  with j(1) show ?thesis by (metis length_list_update nth_mem)
qed

lemma none_updated: "\<forall>r\<in>set rs. \<not> P r \<Longrightarrow> \<not> P r' \<Longrightarrow> \<forall>r\<in>set (rs[k := r']). \<not> P r"
  by (metis insertE list_update_beyond not_le set_update_subset_insert subset_code(1))

lemma count_P_update:
  "k < length rs \<Longrightarrow> length (filter P (rs[k := r])) + (if P (rs ! k) then 1 else 0) = length (filter P rs) + (if P r then 1 else 0)"
proof (induction rs arbitrary: k)
  case (Cons x rs)
  then show ?case by (cases k) auto
qed simp

lemma fired_same:
  assumes ok: "fired_ok cbs i os rs fin w" and k: "k < length rs"
    and stamp: "r' = Stamped True \<Longrightarrow> rs ! k = Stamped True"
      "rs ! k = Stamped True \<or> rs ! k = Aborted True \<Longrightarrow> r' = Stamped True \<or> r' = Aborted True"
  shows "fired_ok cbs i os (rs[k := r']) fin w"
proof -
  have n: "length (filter (\<lambda>r. r = Stamped True) (rs[k := r'])) \<le> length (filter (\<lambda>r. r = Stamped True) rs)"
    using count_P_update [OF k, of "\<lambda>r. r = Stamped True" r'] stamp(1) by (simp split: if_splits)
  have a: "(\<exists>r\<in>set rs. r = Stamped True \<or> r = Aborted True) \<Longrightarrow> (\<exists>r\<in>set (rs[k := r']). r = Stamped True \<or> r = Aborted True)"
    by (rule some_updated) (use k stamp in auto)
  have b: "\<forall>r\<in>set rs. r \<noteq> Stamped True \<Longrightarrow> \<forall>r\<in>set (rs[k := r']). r \<noteq> Stamped True"
    using none_updated [of rs "\<lambda>r. r = Stamped True" r' k] stamp(1) k nth_mem by metis
  show ?thesis
  proof (cases "bw_callbacks w i")
    case None
    with ok b show ?thesis unfolding fired_ok_def by simp
  next
    case (Some s)
    with ok a le_trans [OF n] show ?thesis unfolding fired_ok_def option.case(2) Some by blast
  qed
qed

text \<open>The parts of the invariant.\<close>

lemma batch_invI:
  assumes "length rs = length os" "\<And>j. j < length rs \<Longrightarrow> in_place (length os) (counted rs) (os ! j) (rs ! j)"
    "bw_rows w i = Some row" "row_ok cd os rs row" "fired_ok cbs i os rs (bt_finished_at row \<noteq> None) w"
  shows "batch_inv cd cbs i os (rs, w)"
  using assms by (auto simp: batch_inv_def)

lemma batch_invE:
  assumes "batch_inv cd cbs i os (rs, w)"
  obtains row where "length rs = length os" "\<And>j. j < length rs \<Longrightarrow> in_place (length os) (counted rs) (os ! j) (rs ! j)"
    "bw_rows w i = Some row" "row_ok cd os rs row" "fired_ok cbs i os rs (bt_finished_at row \<noteq> None) w"
  using assms by (auto simp: batch_inv_def)

lemma in_place_update:
  assumes "\<And>j. j < length rs \<Longrightarrow> in_place n c (os ! j) (rs ! j)" "in_place n c (os ! k) r'" "j < length rs"
  shows "in_place n c (os ! j) (rs[k := r'] ! j)"
  using assms by (cases "j = k") auto

text \<open>A step of one recorder that leaves what is counted, the row and the callbacks.\<close>

lemma inv_same:
  assumes inv: "batch_inv cd cbs i os (rs, w)" and k: "k < length rs"
    and r': "is_counted r' = is_counted (rs ! k)" "in_place (length os) (counted rs) (os ! k) r'"
    and stamp: "r' = Stamped True \<Longrightarrow> rs ! k = Stamped True"
      "rs ! k = Stamped True \<or> rs ! k = Aborted True \<Longrightarrow> r' = Stamped True \<or> r' = Aborted True"
    and fin: "\<And>row. may_finish (rs ! k) \<Longrightarrow> bw_rows w i = Some row \<Longrightarrow> row_ok cd os rs row \<Longrightarrow> counted rs = length os
      \<Longrightarrow> may_finish r' \<or> bt_finished_at row \<noteq> None"
  shows "batch_inv cd cbs i os (rs[k := r'], w)"
  using inv
proof (rule batch_invE)
  fix row
  assume l: "length rs = length os" and pl: "\<And>j. j < length rs \<Longrightarrow> in_place (length os) (counted rs) (os ! j) (rs ! j)"
    and row: "bw_rows w i = Some row" "row_ok cd os rs row" "fired_ok cbs i os rs (bt_finished_at row \<noteq> None) w"
  note c = same_count [OF l [symmetric] k r'(1)]
  have "row_ok cd os (rs[k := r']) row"
    using row(2) some_updated [of rs may_finish k r'] fin [OF _ row(1,2)] k unfolding row_ok_def c by blast
  with fired_same [OF row(3) k stamp] in_place_update [OF pl r'(2)] l row(1) show ?thesis
    by (intro batch_invI [where row = row]) (simp_all add: c)
qed

text \<open>The first failure is reported.\<close>

lemma inv_fire_catch:
  assumes "batch_inv cd cbs i os (rs, w)" "List.map_filter id os \<noteq> []"
  shows "batch_inv cd cbs i os (rs, fire_catch i r w)"
  using assms(1)
proof (rule batch_invE)
  fix row
  assume l: "length rs = length os" and pl: "\<And>j. j < length rs \<Longrightarrow> in_place (length os) (counted rs) (os ! j) (rs ! j)"
    and row: "bw_rows w i = Some row" "row_ok cd os rs row" "fired_ok cbs i os rs (bt_finished_at row \<noteq> None) w"
  show ?thesis
  proof (cases "\<exists>s f. bw_callbacks w i = Some s \<and> cs_catch s = Some f")
    case False
    then have "fire_catch i r w = w" by (auto simp: fire_catch_def split: option.split)
    with assms(1) show ?thesis by simp
  next
    case True
    then obtain s f where s: "bw_callbacks w i = Some s" "cs_catch s = Some f" by blast
    let ?w = "fire_catch i r w"
    have w: "?w = w\<lparr>bw_callbacks := (bw_callbacks w)(i \<mapsto> s\<lparr>cs_catch := None\<rparr>), bw_fired := bw_fired w @ [(f, r)]\<rparr>"
      by (simp add: fire_catch_def s)
    from row(3) have f0: "bw_fired w = [] \<and> s = cbs \<and> cs_catch cbs = Some f"
      using s by (auto simp: fired_ok_def split: if_splits)
    have "fired_ok cbs i os rs (bt_finished_at row \<noteq> None) ?w"
      using row(3) f0 assms(2) s(1) by (simp add: w fired_ok_def caught_ok_def)
    with l pl row show ?thesis by (intro batch_invI [where row = row]) (simp_all add: w)
  qed
qed

text \<open>A job is counted.\<close>

lemma inv_count:
  assumes inv: "batch_inv cd cbs i os (rs, w)" and k: "k < length rs" and r: "\<not> is_counted (rs ! k)"
    and r': "is_counted r'" "in_place (length os) (Suc (counted rs)) (os ! k) r'" "r' \<noteq> Stamped True"
      "Suc (counted rs) = length os \<Longrightarrow> may_finish r'"
    and row: "bw_rows w i = Some row"
    and row': "bt_pending_jobs row' = bt_pending_jobs row - 1" "bt_failed_jobs row' = bt_failed_jobs row + int (size (opt_mset (os ! k)))"
      "bt_finished_at row' = bt_finished_at row"
      "\<And>ids. bc_parse_ids cd (bt_failed_job_ids row) = Some ids
        \<Longrightarrow> \<exists>ids'. bc_parse_ids cd (bt_failed_job_ids row') = Some ids' \<and> mset ids' = mset ids + opt_mset (os ! k)"
  shows "batch_inv cd cbs i os (rs[k := r'], w\<lparr>bw_rows := (bw_rows w)(i \<mapsto> row')\<rparr>)"
  using inv
proof (rule batch_invE)
  fix row1
  assume l: "length rs = length os" and pl: "\<And>j. j < length rs \<Longrightarrow> in_place (length os) (counted rs) (os ! j) (rs ! j)"
    and "bw_rows w i = Some row1" and r1: "row_ok cd os rs row1" "fired_ok cbs i os rs (bt_finished_at row1 \<noteq> None) w"
  with row have r1: "row_ok cd os rs row" "fired_ok cbs i os rs (bt_finished_at row \<noteq> None) w" by auto
  note c = more_count [OF l [symmetric] k r r'(1)]
  from counted_less [OF k r] l have less: "counted rs < length os" by simp
  have nf: "bt_finished_at row = None" using r1(1) less unfolding row_ok_def by (cases "bt_finished_at row") auto
  have "row_ok cd os (rs[k := r']) row'"
    using r1(1) row' r'(4) set_update_memI [OF k, of r'] nf unfolding row_ok_def c by force
  moreover have "fired_ok cbs i os (rs[k := r']) (bt_finished_at row' \<noteq> None) (w\<lparr>bw_rows := (bw_rows w)(i \<mapsto> row')\<rparr>)"
  proof -
    have "rs ! k \<noteq> Stamped True" "rs ! k \<noteq> Aborted True" using r by auto
    then have "fired_ok cbs i os (rs[k := r']) (bt_finished_at row \<noteq> None) w"
      using fired_same [OF r1(2) k] r'(3) by blast
    then show ?thesis by (simp add: row'(3))
  qed
  moreover have "in_place (length os) (Suc (counted rs)) (os ! j) (rs[k := r'] ! j)" if "j < length rs" for j
    using in_place_update [of rs "length os" "Suc (counted rs)" os k r' j] in_place_later [OF pl less] r'(2) that by blast
  ultimately show ?thesis using l by (intro batch_invI [where row = row']) (simp_all add: c)
qed

text \<open>The batch is finished by the recorder that claims it.\<close>

lemma row_ok_stamp:
  "row_ok cd os rs row \<Longrightarrow> bc_parse_ts cd stamp \<noteq> None \<Longrightarrow> counted rs = length os \<Longrightarrow> row_ok cd os rs (row\<lparr>bt_finished_at := Some stamp\<rparr>)"
  by (simp add: row_ok_def)

lemma inv_finish:
  assumes inv: "batch_inv cd cbs i os (rs, w)" and k: "k < length rs" and r: "rs ! k = Finishing" and cd: "bc_parse_ts cd stamp \<noteq> None"
  shows "batch_inv cd cbs i os (case finish_update stamp i (bw_rows w) of (n, t) \<Rightarrow> (rs[k := Stamped (n > 0)], w\<lparr>bw_rows := t\<rparr>))"
  using inv
proof (rule batch_invE)
  fix row
  assume l: "length rs = length os" and pl: "\<And>j. j < length rs \<Longrightarrow> in_place (length os) (counted rs) (os ! j) (rs ! j)"
    and row: "bw_rows w i = Some row" "row_ok cd os rs row" "fired_ok cbs i os rs (bt_finished_at row \<noteq> None) w"
  from pl [OF k] r have all: "counted rs = length os" by simp
  show ?thesis
  proof (cases "bt_finished_at row")
    case (Some s)
    have "batch_inv cd cbs i os (rs[k := Stamped False], w)"
      by (rule inv_same [OF inv k]) (use r all Some row(1) in auto)
    with Some row(1) show ?thesis by (simp add: finish_update_def update_row_def)
  next
    case None
    let ?row = "row\<lparr>bt_finished_at := Some stamp\<rparr>" and ?rs = "rs[k := Stamped True]"
    have c: "counted ?rs = counted rs" "counted_failures os ?rs = counted_failures os rs"
      using same_count [OF l [symmetric] k, of "Stamped True"] r by auto
    obtain s where s: "bw_callbacks w i = Some s" using row(3) None by (cases "bw_callbacks w i") (auto simp: fired_ok_def)
    have "length (filter (\<lambda>r. r = Stamped True) ?rs) \<le> 1"
      using count_P_update [OF k, of "\<lambda>r. r = Stamped True" "Stamped True"] row(3) None s r by (simp add: fired_ok_def)
    with row(3) s None set_update_memI [OF k] have f: "fired_ok cbs i os ?rs True w" by (auto simp: fired_ok_def)
    have "row_ok cd os ?rs ?row" using row_ok_stamp [OF row(2) cd all] all by (simp add: row_ok_def c)
    with f l in_place_update [OF pl, of k "Stamped True"] all
    have "batch_inv cd cbs i os (?rs, w\<lparr>bw_rows := (bw_rows w)(i \<mapsto> ?row)\<rparr>)"
      by (intro batch_invI [where row = ?row]) (simp_all add: c)
    with None row(1) show ?thesis by (simp add: finish_update_def update_row_def)
  qed
qed

lemma counted_failures_all:
  assumes "length os = length rs" "counted rs = length rs"
  shows "counted_failures os rs = mset (List.map_filter id os)"
  using assms
proof (induction os rs rule: list_induct2)
  case (Cons x os r rs)
  from Cons.prems counted_le [of rs] have "is_counted r" "counted rs = length rs" 
    by (auto split: if_splits simp: le_eq_less_or_eq)
  with Cons.IH show ?case
    by (cases x) (simp_all add: counted_failures_Cons opt_mset_def List.map_filter_def)
qed (simp add: counted_failures_def)

lemma completed_record:
  assumes "row_ok cd os rs row" "length rs = length os" "counted rs = length os"
  shows "br_pending_jobs (batch_from_row cd now row) = 0"
    "mset (br_failed_job_ids (batch_from_row cd now row)) = mset (List.map_filter id os)"
    "br_failed_jobs (batch_from_row cd now row) = 0 \<longleftrightarrow> List.map_filter id os = []"
  using assms counted_failures_all [of os rs] by (auto simp: row_ok_def parse_ids_def)

lemma inv_complete:
  assumes inv: "batch_inv cd cbs i os (rs, w)" and k: "k < length rs" and r: "rs ! k = Stamped claimed"
  shows "batch_inv cd cbs i os (case advance cd now i (rs ! k) w of (r', w') \<Rightarrow> (rs[k := r'], w'))"
  using inv
proof (rule batch_invE)
  fix row
  assume l: "length rs = length os" and pl: "\<And>j. j < length rs \<Longrightarrow> in_place (length os) (counted rs) (os ! j) (rs ! j)"
    and row: "bw_rows w i = Some row" "row_ok cd os rs row" "fired_ok cbs i os rs (bt_finished_at row \<noteq> None) w"
  from pl [OF k] r have all: "counted rs = length os" by simp
  let ?b = "batch_from_row cd now row" and ?rs = "rs[k := Ended (Inr (Some (batch_from_row cd now row)))]"
  have adv: "advance cd now i (rs ! k) w = (Ended (Inr (Some ?b)), if claimed then fire_completion i ?b w else w)"
    using row(1) r by (simp add: batch_find_def)
  show ?thesis
  proof (cases claimed)
    case False
    have "batch_inv cd cbs i os (?rs, w)" by (rule inv_same [OF inv k]) (use r False in auto)
    with adv False show ?thesis by simp
  next
    case True
    have c: "counted ?rs = counted rs" "counted_failures os ?rs = counted_failures os rs"
      using same_count [OF l [symmetric] k] r by auto
    have mem: "Stamped True \<in> set rs" using r True k nth_mem by metis
    with row(3) obtain s where s: "bw_callbacks w i = Some s" by (cases "bw_callbacks w i") (auto simp: fired_ok_def)
    have one: "length (filter (\<lambda>r. r = Stamped True) rs) \<le> 1" and fin: "bt_finished_at row \<noteq> None"
      using row(3) s mem by (auto simp: fired_ok_def filter_empty_conv split: if_splits)
    then have "filter (\<lambda>r. r = Stamped True) ?rs = []"
      using count_P_update [OF k, of "\<lambda>r. r = Stamped True" "Ended (Inr (Some ?b))"] r True by (simp flip: length_0_conv)
    then have none: "\<forall>r\<in>set ?rs. r \<noteq> Stamped True" unfolding filter_empty_conv .
    note rec = completed_record [OF row(2) l all]
    have cb: "cs_then s = cs_then cbs" "cs_finally s = cs_finally cbs" and caught: "caught_ok cbs os (bw_fired w)"
      using row(3) s by (auto simp: fired_ok_def)
    let ?fired = "(if br_failed_jobs ?b = 0 then (case cs_then s of None \<Rightarrow> [] | Some f \<Rightarrow> [(f, ?b)]) else [])
              @ (case cs_finally s of None \<Rightarrow> [] | Some f \<Rightarrow> [(f, ?b)])"
    have w: "fire_completion i ?b w = w\<lparr>bw_callbacks := (bw_callbacks w)(i := None), bw_fired := bw_fired w @ ?fired\<rparr>"
      by (simp add: fire_completion_def take_callbacks_def callback_entry_def s)
    have comp: "completion cbs os ?fired"
      unfolding completion_def rec(3) cb by (rule exI [where x = ?b]) (simp only: rec(1,2) refl simp_thms)
    have "\<exists>caught fired. bw_fired w @ ?fired = caught @ fired \<and> caught_ok cbs os caught \<and> completion cbs os fired"
      by (rule exI [where x = "bw_fired w"], rule exI [where x = ?fired]) (use caught comp in \<open>simp only: simp_thms\<close>)
    moreover have "bw_fired (fire_completion i ?b w) = bw_fired w @ ?fired" "bw_callbacks (fire_completion i ?b w) i = None"
      by (simp_all add: w)
    ultimately have "fired_ok cbs i os ?rs (bt_finished_at row \<noteq> None) (fire_completion i ?b w)"
      using none fin unfolding fired_ok_def by (simp only: option.case simp_thms)
    moreover have "row_ok cd os ?rs row" using row(2) fin by (simp add: row_ok_def c)
    ultimately have "batch_inv cd cbs i os (?rs, fire_completion i ?b w)"
      using l in_place_update [OF pl, of k "Ended (Inr (Some ?b))"] row(1)
      by (intro batch_invI [where row = row]) (simp_all add: c w)
    with adv True show ?thesis by simp
  qed
qed

text \<open>The batch is cancelled.\<close>

lemma inv_cancel:
  assumes "batch_inv cd cbs i os (rs, w)"
  shows "batch_inv cd cbs i os (rs, w\<lparr>bw_rows := snd (cancel_batch cd now i (bw_rows w))\<rparr>)"
  using assms
proof (rule batch_invE)
  fix row
  assume l: "length rs = length os" and pl: "\<And>j. j < length rs \<Longrightarrow> in_place (length os) (counted rs) (os ! j) (rs ! j)"
    and row: "bw_rows w i = Some row" "row_ok cd os rs row" "fired_ok cbs i os rs (bt_finished_at row \<noteq> None) w"
  then have "batch_inv cd cbs i os (rs, w\<lparr>bw_rows := (bw_rows w)(i \<mapsto> row\<lparr>bt_cancelled_at := x\<rparr>)\<rparr>)" for x
    by (intro batch_invI [where row = "row\<lparr>bt_cancelled_at := x\<rparr>"]) (simp_all add: row_ok_def)
  with assms row(1) show ?thesis
    by (simp add: cancel_batch_def cancel_update_def update_row_def Let_def)
qed

text \<open>One recorder advances.\<close>

lemma same_rows [simp]: "w\<lparr>bw_rows := bw_rows w\<rparr> = w"
  by (cases w) simp

lemma inv_succeed:
  assumes inv: "batch_inv cd cbs i os (rs, w)" and k: "k < length rs" and r: "rs ! k = Succeeding"
  shows "batch_inv cd cbs i os (rs[k := Counted], w\<lparr>bw_rows := snd (decrement_update i (bw_rows w))\<rparr>)"
  using inv
proof (rule batch_invE)
  fix row
  assume l: "length rs = length os" and pl: "\<And>j. j < length rs \<Longrightarrow> in_place (length os) (counted rs) (os ! j) (rs ! j)"
    and row: "bw_rows w i = Some row" "row_ok cd os rs row"
  have x: "os ! k = None" using pl [OF k] r by simp
  have "bt_pending_jobs row > 0" using row(2) counted_less [OF k] r l by (simp add: row_ok_def)
  moreover have "batch_inv cd cbs i os (rs[k := Counted], w\<lparr>bw_rows := (bw_rows w)(i \<mapsto> row\<lparr>bt_pending_jobs := bt_pending_jobs row - 1\<rparr>)\<rparr>)"
    by (rule inv_count [OF inv k _ _ _ _ _ row(1)]) (use r x in \<open>auto simp: opt_mset_def\<close>)
  ultimately show ?thesis using row(1) by (simp add: decrement_update_def update_row_def)
qed

lemma inv_fail:
  assumes inv: "batch_inv cd cbs i os (rs, w)" and cd: "batch_codec_ok cd" and k: "k < length rs" and r: "rs ! k = FailRead n f rd"
  shows "batch_inv cd cbs i os (case advance cd now i (rs ! k) w of (r', w') \<Rightarrow> (rs[k := r'], w'))"
  using inv
proof (rule batch_invE)
  fix row
  assume l: "length rs = length os" and pl: "\<And>j. j < length rs \<Longrightarrow> in_place (length os) (counted rs) (os ! j) (rs ! j)"
    and row: "bw_rows w i = Some row" "row_ok cd os rs row"
  obtain row0 where x: "os ! k = Some f" and rd: "rd = Some row0" "bt_pending_jobs row0 > 0" using pl [OF k] r by auto
  have pend: "bt_pending_jobs row > 0" using row(2) counted_less [OF k] r l by (simp add: row_ok_def)
  show ?thesis
  proof (cases "bt_failed_job_ids row = bt_failed_job_ids row0")
    case False
    have "batch_inv cd cbs i os (rs[k := Failing n f], w)" by (rule inv_same [OF inv k]) (use r x in auto)
    with False row(1) rd r show ?thesis
      by (simp add: failure_write_def failure_update_def update_row_def)
  next
    case True
    define ids where "ids = parse_ids cd (bt_failed_job_ids row0)"
    define row' where "row' = row\<lparr>bt_pending_jobs := bt_pending_jobs row - 1, bt_failed_jobs := bt_failed_jobs row + 1,
      bt_failed_job_ids := bc_print_ids cd (ids @ [f])\<rparr>"
    define r' where "r' = Read (batch_from_row cd now row') (ids = [])"
    have adv: "advance cd now i (rs ! k) w = (r', w\<lparr>bw_rows := (bw_rows w)(i \<mapsto> row')\<rparr>)"
      using True row(1) rd r pend
      by (simp add: failure_write_def failure_update_def update_row_def batch_find_def r'_def row'_def ids_def Let_def)
    have nf: "bt_finished_at row = None" using row(2) counted_less [OF k] r l unfolding row_ok_def by (cases "bt_finished_at row") auto
    have pd: "bt_pending_jobs row = int (length os) - int (counted rs)" using row(2) by (simp add: row_ok_def)
    have "batch_inv cd cbs i os (rs[k := r'], w\<lparr>bw_rows := (bw_rows w)(i \<mapsto> row')\<rparr>)"
    proof (rule inv_count [OF inv k _ _ _ _ _ row(1)])
      show "in_place (length os) (Suc (counted rs)) (os ! k) r'"
        using pd counted_less [OF k] r l x by (simp add: r'_def row'_def)
      show "may_finish r'" if "Suc (counted rs) = length os"
        using pd that nf by (simp add: r'_def row'_def is_finished_def batch_from_row_def)
      show "\<exists>ids'. bc_parse_ids cd (bt_failed_job_ids row') = Some ids' \<and> mset ids' = mset ids0 + opt_mset (os ! k)"
        if "bc_parse_ids cd (bt_failed_job_ids row) = Some ids0" for ids0
        using that True cd x by (simp add: row'_def ids_def parse_ids_def batch_codec_ok_def opt_mset_def)
    qed (use r x in \<open>simp_all add: r'_def row'_def opt_mset_def\<close>)
    with adv show ?thesis by simp
  qed
qed

lemma inv_read:
  assumes inv: "batch_inv cd cbs i os (rs, w)" and k: "k < length rs" and r: "rs ! k = Read b first"
  shows "batch_inv cd cbs i os (case advance cd now i (rs ! k) w of (r', w') \<Rightarrow> (rs[k := r'], w'))"
proof -
  from inv k r have pl: "br_pending_jobs b \<le> 0 \<Longrightarrow> counted rs = length os" and f: "first \<Longrightarrow> os ! k \<noteq> None" and l: "length rs = length os"
    by (auto simp: batch_inv_def)
  have fails: "List.map_filter id os \<noteq> []" if first
  proof -
    have "os ! k \<in> set os" using k l by simp
    with f [OF that] show ?thesis by (auto simp: List.map_filter_def filter_empty_conv)
  qed
  have "batch_inv cd cbs i os (rs, if first then fire_catch i b w else w)"
    using inv inv_fire_catch [OF inv fails] by simp
  then have "batch_inv cd cbs i os (rs[k := if br_pending_jobs b \<le> 0 \<and> \<not> is_finished b then Finishing else Ended (Inr (Some b))],
      if first then fire_catch i b w else w)"
    by (rule inv_same [OF _ k]) (use r pl in \<open>auto split: if_splits\<close>)
  with r show ?thesis by simp
qed

lemma inv_counted:
  assumes inv: "batch_inv cd cbs i os (rs, w)" and k: "k < length rs" and r: "rs ! k = Counted"
  shows "batch_inv cd cbs i os (case advance cd now i (rs ! k) w of (r', w') \<Rightarrow> (rs[k := r'], w'))"
  using inv
proof (rule batch_invE)
  fix row
  assume l: "length rs = length os" and row: "bw_rows w i = Some row" "row_ok cd os rs row"
  have "batch_inv cd cbs i os (rs[k := Read (batch_from_row cd now row) False], w)"
    by (rule inv_same [OF inv k]) (use r row is_finished_row [OF row(2)] counted_le [of rs] l in \<open>auto simp: row_ok_def\<close>)
  with r row(1) show ?thesis by (simp add: batch_find_def)
qed

lemma inv_failing:
  assumes inv: "batch_inv cd cbs i os (rs, w)" and k: "k < length rs" and r: "rs ! k = Failing n f"
  shows "batch_inv cd cbs i os (case advance cd now i (rs ! k) w of (r', w') \<Rightarrow> (rs[k := r'], w'))"
  using inv
proof (rule batch_invE)
  fix row
  assume l: "length rs = length os" and pl: "\<And>j. j < length rs \<Longrightarrow> in_place (length os) (counted rs) (os ! j) (rs ! j)"
    and row: "bw_rows w i = Some row" "row_ok cd os rs row"
  have "bt_pending_jobs row > 0" using row(2) counted_less [OF k] r l by (simp add: row_ok_def)
  then show ?thesis
    by (cases n) (use r row(1) pl [OF k] in \<open>auto intro!: inv_same [OF inv k]\<close>)
qed

lemma inv_step:
  assumes inv: "batch_inv cd cbs i os s" and cd: "batch_codec_ok cd"
  shows "batch_inv cd cbs i os (batch_step cd i ev s)"
proof (cases s)
  case (Pair rs w)
  with inv have inv: "batch_inv cd cbs i os (rs, w)" by simp
  show ?thesis
  proof (cases ev)
    case (Advance k now)
    have "batch_inv cd cbs i os (case advance cd now i (rs ! k) w of (r', w') \<Rightarrow> (rs[k := r'], w'))" if k: "k < length rs"
    proof (cases "rs ! k")
      case Finishing
      have "bc_parse_ts cd (bc_rfc3339 cd now) \<noteq> None" using cd by (simp add: batch_codec_ok_def)
      from inv_finish [OF inv k Finishing this] Finishing show ?thesis
        by (cases "finish_update (bc_rfc3339 cd now) i (bw_rows w)") simp
    qed (use inv k inv_succeed [OF inv k] inv_failing [OF inv k] inv_fail [OF inv cd k] inv_counted [OF inv k] inv_read [OF inv k]
        inv_complete [OF inv k] list_update_id [of rs k] in \<open>simp_all del: list_update_id\<close>)
    with inv Pair Advance show ?thesis by simp
  next
    case (Abort k)
    have "batch_inv cd cbs i os (rs[k := abort (rs ! k)], w)" if k: "k < length rs"
      by (rule inv_same [OF inv k]) (use inv k in \<open>cases "rs ! k"; auto simp: batch_inv_def split: sum.splits\<close>)+
    with inv Pair Abort show ?thesis by simp
  next
    case (CancelBatch now)
    with inv_cancel [OF inv] Pair show ?thesis by simp
  qed
qed

lemma inv_run: "batch_inv cd cbs i os s \<Longrightarrow> batch_codec_ok cd \<Longrightarrow> batch_inv cd cbs i os (batch_run cd i evs s)"
  unfolding batch_run_def by (induction evs arbitrary: s) (simp_all add: inv_step)

section \<open>The batch completes once\<close>

lemma counted_starts: "counted (map recorder_start os) = 0" "counted_failures os (map recorder_start os) = {#}"
proof -
  have n: "\<not> is_counted (recorder_start x)" for x by (cases x) (simp_all add: recorder_start_def)
  then show "counted (map recorder_start os) = 0" by (simp add: filter_empty_conv)
  show "counted_failures os (map recorder_start os) = {#}"
    using n by (induction os) (simp_all add: counted_failures_def List.map_filter_def)
qed

lemma inv_start:
  assumes cd: "batch_codec_ok cd" and os: "os \<noteq> []" "int (length os) \<le> I64_MAX"
    and new: "batch_create cd i now name (length os) opts (bw_rows w) = (Inr b, t)"
    and cbs: "bw_callbacks w i = Some cbs" "bw_fired w = []"
  shows "batch_inv cd cbs i os (map recorder_start os, w\<lparr>bw_rows := t\<rparr>)"
proof -
  obtain row where row: "t i = Some row" "bt_pending_jobs row = int (length os)" "bt_failed_jobs row = 0"
    "bt_failed_job_ids row = ''[]''" "bt_finished_at row = None"
    using new os(2) by (auto simp: batch_create_def Let_def split: if_splits)
  have place: "in_place n c x (recorder_start x)" for n c x by (cases x) (simp_all add: recorder_start_def)
  have "recorder_start x \<noteq> Stamped True" for x by (cases x) (simp_all add: recorder_start_def)
  then have "filter (\<lambda>r. r = Stamped True) (map recorder_start os) = []" by (auto simp: filter_empty_conv)
  moreover have "row_ok cd os (map recorder_start os) row"
    using row cd os(1) unfolding row_ok_def counted_starts by (simp add: batch_codec_ok_def)
  ultimately show ?thesis
    using row cbs place
    by (intro batch_invI [where row = row]) (simp_all add: fired_ok_def caught_ok_def)
qed

text \<open>
  C8. However the workers of a batch interleave, are stopped in the middle of a report or cancel the batch, its callbacks
  fire in order and at most once: the report of a first failure only if a job failed, and the completion only when every
  job is counted, with the identifiers of exactly the failed jobs; \<open>then\<close> only when none failed, \<open>finally\<close> last.
  When every report returns without an error, the row has no open job and is finished, and the completion has fired.
\<close>

theorem batch_completes_once:
  assumes "batch_codec_ok cd" and "os \<noteq> []" and "int (length os) \<le> I64_MAX"
    and "batch_create cd i now name (length os) opts (bw_rows w) = (Inr b, t)"
    and "bw_callbacks w i = Some cbs" and "bw_fired w = []"
    and "batch_run cd i evs (map recorder_start os, w\<lparr>bw_rows := t\<rparr>) = (rs, w')"
  shows "\<exists>caught fired. bw_fired w' = caught @ fired
      \<and> (caught = [] \<or> (\<exists>f r. cs_catch cbs = Some f \<and> caught = [(f, r)] \<and> List.map_filter id os \<noteq> []))
      \<and> (fired = [] \<or> completion cbs os fired \<and> (\<forall>r\<in>set rs. is_counted r))
      \<and> ((\<forall>r\<in>set rs. \<exists>res. r = Ended (Inr res)) \<longrightarrow>
           completion cbs os fired \<and> (\<exists>row. bw_rows w' i = Some row \<and> bt_pending_jobs row = 0 \<and> bt_finished_at row \<noteq> None))"
proof -
  have inv: "batch_inv cd cbs i os (rs, w')"
    using inv_run [OF inv_start [OF assms(1-6)] assms(1), of evs] assms(7) by simp
  then obtain row where l: "length rs = length os" and row: "bw_rows w' i = Some row" "row_ok cd os rs row"
    and f: "fired_ok cbs i os rs (bt_finished_at row \<noteq> None) w'" by (rule batch_invE)
  have fin: "\<forall>r\<in>set rs. is_counted r" if "bt_finished_at row \<noteq> None"
    using row(2) that l counted_all [of rs] by (auto simp: row_ok_def)
  have all: "bt_pending_jobs row = 0 \<and> bt_finished_at row \<noteq> None \<and> bw_callbacks w' i = None"
    if ended: "\<forall>r\<in>set rs. \<exists>res. r = Ended (Inr res)"
  proof -
    have "counted rs = length os" using ended l counted_all [of rs] by force
    moreover have "\<not> (\<exists>r\<in>set rs. may_finish r)" "\<not> (\<exists>r\<in>set rs. r = Stamped True \<or> r = Aborted True)" using ended by force+
    ultimately show ?thesis using row(2) f by (auto simp: row_ok_def fired_ok_def split: option.splits)
  qed
  show ?thesis
  proof (cases "bw_callbacks w' i")
    case None
    with f obtain caught fired where c: "bw_fired w' = caught @ fired" "caught_ok cbs os caught" "completion cbs os fired"
      and d: "bt_finished_at row \<noteq> None" by (auto simp: fired_ok_def)
    show ?thesis
      by (rule exI [where x = caught], rule exI [where x = fired]) (use c fin [OF d] row(1) all in \<open>auto simp: caught_ok_def\<close>)
  next
    case (Some s)
    with f have "caught_ok cbs os (bw_fired w')" by (simp add: fired_ok_def)
    with Some all show ?thesis
      by (intro exI [where x = "bw_fired w'"] exI [where x = "[]"]) (auto simp: caught_ok_def)
  qed
qed

section \<open>An example\<close>

text \<open>A codec: an identifier is written with a mark before each character and one at its end, a time in unary.\<close>

definition demo_print :: "string list \<Rightarrow> string" where
  "demo_print ids = concat (map (\<lambda>x. concat (map (\<lambda>c. [CHR ''x'', c]) x) @ [CHR ''e'']) ids)"

fun demo_parse :: "string \<Rightarrow> string \<Rightarrow> string list" where
  "demo_parse acc [] = []"
| "demo_parse acc [c] = [acc]"
| "demo_parse acc (c # d # s) = (if c = CHR ''x'' then demo_parse (acc @ [d]) s else acc # demo_parse [] (d # s))"

definition demo_batch_codec :: batch_codec where
  "demo_batch_codec = \<lparr>bc_print_ids = demo_print, bc_parse_ids = (\<lambda>s. Some (if s = ''[]'' then [] else demo_parse [] s)),
     bc_parse_json = (\<lambda>s. Some s), bc_rfc3339 = (\<lambda>n. replicate n (CHR ''t'')), bc_parse_ts = (\<lambda>s. Some (length s)),
     bc_conflict = ''conflict''\<rparr>"

lemma demo_parse_chars:
  "demo_parse acc (concat (map (\<lambda>c. [CHR ''x'', c]) x) @ CHR ''e'' # s) = (acc @ x) # demo_parse [] s"
proof (induction x arbitrary: acc)
  case Nil
  show ?case by (cases s) simp_all
qed simp

lemma demo_batch_codec_ok: "batch_codec_ok demo_batch_codec"
proof -
  have "demo_parse [] (demo_print ids) = ids" for ids
    by (induction ids) (simp_all add: demo_print_def demo_parse_chars)
  moreover have "demo_print ids \<noteq> ''[]''" for ids
    by (cases ids; cases "hd ids") (simp_all add: demo_print_def)
  ultimately show ?thesis by (simp add: batch_codec_ok_def demo_batch_codec_def)
qed

definition demo_callbacks :: "string CallbackSet" where
  "demo_callbacks = \<lparr>cs_then = Some ''then'', cs_catch = Some ''catch'', cs_finally = Some ''finally''\<rparr>"

definition demo_batch_world :: "string batch_world" where
  "demo_batch_world = \<lparr>bw_rows = Map.empty, bw_callbacks = [''b'' \<mapsto> demo_callbacks], bw_fired = []\<rparr>"

definition demo_table :: batch_table where
  "demo_table = snd (batch_create demo_batch_codec ''b'' 0 ''demo'' 2 json_null Map.empty)"

definition demo_outcomes :: "string option list" where
  "demo_outcomes = [Some ''a'', None]"

definition demo_run :: "nat list \<Rightarrow> recorder list \<times> string batch_world" where
  "demo_run ks = batch_run demo_batch_codec ''b'' (map (\<lambda>k. Advance k 1) ks) (map recorder_start demo_outcomes, demo_batch_world\<lparr>bw_rows := demo_table\<rparr>)"

lemmas demo_simps = demo_run_def batch_run_def demo_outcomes_def recorder_start_def MAX_APPEND_RETRIES_def demo_table_def
  batch_create_def I64_MAX_def demo_batch_world_def failure_write_def parse_ids_def failure_update_def update_row_def batch_find_def
  decrement_update_def finish_update_def is_finished_def batch_from_row_def demo_batch_codec_def demo_parse.simps demo_print_def
  fire_catch_def fire_completion_def take_callbacks_def callback_entry_def demo_callbacks_def Let_def numeral_eq_Suc

text \<open>Two workers that see the last job counted at the same time.\<close>

lemma demo_ends:
  "map fst (bw_fired (snd (demo_run [0, 1, 0, 0, 1, 0, 1, 0, 1, 1]))) = [''catch'', ''finally'']
   \<and> (\<forall>r\<in>set (fst (demo_run [0, 1, 0, 0, 1, 0, 1, 0, 1, 1])). \<exists>res. r = Ended (Inr res))"
  by (simp add: demo_simps)

text \<open>The report of the first failure is lost when the completion runs before it: nothing holds the callbacks between
  the transaction of the failure and \<open>fire_catch\<close>.\<close>

lemma catch_lost:
  "map fst (bw_fired (snd (demo_run [0, 0, 1, 1, 1, 1, 1, 0]))) = [''finally'']
   \<and> (\<forall>r\<in>set (fst (demo_run [0, 0, 1, 1, 1, 1, 1, 0])). \<exists>res. r = Ended (Inr res))"
  by (simp add: demo_simps)

theorem batch_completes_once_witness:
  "\<exists>caught fired. bw_fired (snd (demo_run [0, 1, 0, 0, 1, 0, 1, 0, 1, 1])) = caught @ fired \<and> completion demo_callbacks demo_outcomes fired
     \<and> (\<exists>row. bw_rows (snd (demo_run [0, 1, 0, 0, 1, 0, 1, 0, 1, 1])) ''b'' = Some row \<and> bt_pending_jobs row = 0
          \<and> bt_finished_at row \<noteq> None)"
proof -
  have new: "\<exists>b. batch_create demo_batch_codec ''b'' 0 ''demo'' (length demo_outcomes) json_null (bw_rows demo_batch_world) = (Inr b, demo_table)"
    by (simp add: demo_table_def demo_outcomes_def batch_create_def Let_def demo_batch_world_def numeral_eq_Suc)
  then obtain b where b: "batch_create demo_batch_codec ''b'' 0 ''demo'' (length demo_outcomes) json_null (bw_rows demo_batch_world) = (Inr b, demo_table)" ..
  have run: "batch_run demo_batch_codec ''b'' (map (\<lambda>k. Advance k 1) [0, 1, 0, 0, 1, 0, 1, 0, 1, 1])
      (map recorder_start demo_outcomes, demo_batch_world\<lparr>bw_rows := demo_table\<rparr>)
    = (fst (demo_run [0, 1, 0, 0, 1, 0, 1, 0, 1, 1]), snd (demo_run [0, 1, 0, 0, 1, 0, 1, 0, 1, 1]))"
    unfolding demo_run_def by simp
  have w: "bw_callbacks demo_batch_world ''b'' = Some demo_callbacks" "bw_fired demo_batch_world = []" "demo_outcomes \<noteq> []" "int (length demo_outcomes) \<le> I64_MAX"
    by (simp_all add: demo_batch_world_def demo_outcomes_def I64_MAX_def)
  from batch_completes_once [OF demo_batch_codec_ok w(3,4) b w(1,2) run] demo_ends show ?thesis by blast
qed

end
