(* ===== verification/Orm.thy ===== *)
theory Orm
  imports Prelude
begin

text \<open>
  The shared vocabulary of \<^verbatim>\<open>rustasea-orm\<close>: errors (\<^verbatim>\<open>error.rs\<close>), bind values and JSON
  filters (\<^verbatim>\<open>types.rs\<close>), clauses (\<^verbatim>\<open>clause.rs\<close>) and the rewriting of placeholders
  (\<^verbatim>\<open>db/adapt.rs\<close>).

  A float, an identifier, a timestamp and a JSON value are carried by the text that \<^verbatim>\<open>Display\<close>,
  \<^verbatim>\<open>to_rfc3339_opts\<close> or \<^verbatim>\<open>serde_json\<close> gives for them. The dialect, a cargo feature, is an argument.
\<close>

section \<open>Strings\<close>

fun sql_join :: "string \<Rightarrow> string list \<Rightarrow> string" where
  "sql_join sep [] = []"
| "sql_join sep [s] = s"
| "sql_join sep (s # t # ss) = s @ sep @ sql_join sep (t # ss)"

text \<open>\<^verbatim>\<open>str::replace\<close> for a pattern that is not empty.\<close>

function str_replace :: "string \<Rightarrow> string \<Rightarrow> string \<Rightarrow> string" where
  "str_replace p r [] = []"
| "str_replace p r (c # s) =
     (if p \<noteq> [] \<and> take (length p) (c # s) = p then r @ str_replace p r (drop (length p) (c # s)) else c # str_replace p r s)"
  by pat_completeness auto
termination
  by (relation "measure (\<lambda>(p, r, s). length s)") auto

definition squote :: string where
  "squote = [CHR 39]"

section \<open>Errors\<close>

datatype UpsertError = EmptyUniqueBy | BatchTooLarge nat

datatype MigrationError = Irreversible string | ExtensionMissing string string | MigrationFailed string string

datatype TransactionError = TransactionClosed

datatype ConnectionError =
    UnknownConnection string
  | NotConfigured
  | InvalidConfig string
  | ConnUnsupportedDriver string
  | MissingField string
  | DriverMismatch string string

datatype SchemaError =
    UnknownDialect string
  | EmptyTableName
  | EmptyColumnName
  | InvalidIdentifier string
  | EmptyIndexColumns
  | EmptyBlueprint string
  | DuplicateColumn string string

datatype OrmError =
    OrmNotFound
  | Upsert UpsertError
  | InvalidState string
  | InvalidValue string
  | ScopeError string
  | UnsupportedDriver string
  | Storage string
  | MissingTable string
  | PoolError string
  | Connection ConnectionError
  | Migration MigrationError
  | Transaction TransactionError
  | Schema SchemaError
  | VectorDimensionMismatch nat nat
  | CastError string string
  | Activity string
  | Slug string

section \<open>Bind values\<close>

datatype Value =
    VNull
  | VBool bool
  | VInt int
  | VFloat string
  | VText string
  | VUuid string
  | VTimestamp string
  | VJson string

definition to_literal :: "Value \<Rightarrow> string" where
  "to_literal v =
     (case v of
        VNull \<Rightarrow> ''NULL''
      | VBool b \<Rightarrow> (if b then ''true'' else ''false'')
      | VInt i \<Rightarrow> show_int i
      | VFloat f \<Rightarrow> f
      | VText s \<Rightarrow> squote @ str_replace squote (squote @ squote) s @ squote
      | VUuid u \<Rightarrow> squote @ u @ squote
      | VTimestamp t \<Rightarrow> squote @ t @ squote
      | VJson j \<Rightarrow> squote @ str_replace squote (squote @ squote) j @ squote)"

section \<open>JSON filters\<close>

datatype JsonFilter = Contains string | PathEquals string string | KeyExists string

definition bind_value :: "JsonFilter \<Rightarrow> Value option" where
  "bind_value f = (case f of Contains v \<Rightarrow> Some (VJson v) | PathEquals k v \<Rightarrow> Some (VText v) | KeyExists k \<Rightarrow> None)"

definition json_filter_sql :: "JsonFilter \<Rightarrow> string \<Rightarrow> string \<Rightarrow> OrmError + string" where
  "json_filter_sql f column dialect =
     (case f of
        Contains _ \<Rightarrow>
          (if dialect = ''postgres'' then Inr (column @ '' @> {}'')
           else if dialect = ''mysql'' then Inr (''JSON_CONTAINS('' @ column @ '', {})'')
           else if dialect = ''sqlite'' then Inl (UnsupportedDriver ''sqlite has no native JSON contains operator'')
           else Inl (UnsupportedDriver dialect))
      | PathEquals key _ \<Rightarrow>
          (if dialect = ''postgres'' then Inr (column @ '' ->> '' @ squote @ ''{'' @ key @ ''}'' @ squote @ '' = {}'')
           else if dialect = ''mysql''
             then Inr (''JSON_UNQUOTE(JSON_EXTRACT('' @ column @ '', '' @ squote @ ''$.'' @ key @ squote @ '')) = {}'')
           else if dialect = ''sqlite'' then Inr (''json_extract('' @ column @ '', '' @ squote @ ''$.'' @ key @ squote @ '') = {}'')
           else Inl (UnsupportedDriver dialect))
      | KeyExists key \<Rightarrow>
          (if dialect = ''postgres'' then Inr (column @ '' ? '' @ squote @ key @ squote)
           else if dialect = ''mysql''
             then Inr (''JSON_CONTAINS_PATH('' @ column @ '', '' @ squote @ ''one'' @ squote @ '', '' @ squote @ ''$.'' @ key @ squote @ '')'')
           else if dialect = ''sqlite''
             then Inr (''json_type('' @ column @ '', '' @ squote @ ''$.'' @ key @ squote @ '') IS NOT NULL'')
           else Inl (UnsupportedDriver dialect)))"

text \<open>Key sets embedded in JSON: every bind site is a \<^verbatim>\<open>{}\<close>.\<close>

record JsonRelationFilter =
  jr_path :: string
  jr_values :: "string list"

definition placeholders :: "nat \<Rightarrow> string" where
  "placeholders n = ''('' @ sql_join '', '' (replicate n ''{}'') @ '')''"

definition array_literal :: "nat \<Rightarrow> string" where
  "array_literal n = ''ARRAY['' @ sql_join '', '' (replicate n ''{}'') @ '']''"

definition escape_path :: "string \<Rightarrow> string" where
  "escape_path path = str_replace squote (squote @ squote) path"

definition json_relation_sql :: "JsonRelationFilter \<Rightarrow> string \<Rightarrow> string \<Rightarrow> OrmError + string \<times> nat" where
  "json_relation_sql f column dialect =
     (let path = escape_path (jr_path f); count = length (jr_values f) in
      if dialect = ''postgres'' then Inr (''('' @ column @ '' ->> '' @ squote @ path @ squote @ '') IN '' @ placeholders count, count)
      else if dialect = ''mysql''
        then Inr (''JSON_UNQUOTE(JSON_EXTRACT('' @ column @ '', '' @ squote @ ''$.'' @ path @ squote @ '')) IN '' @ placeholders count, count)
      else if dialect = ''sqlite''
        then Inr (''json_valid('' @ column @ '') AND json_extract('' @ column @ '', '' @ squote @ ''$.'' @ path @ squote @ '') IN ''
          @ placeholders count, count)
      else Inl (UnsupportedDriver dialect))"

definition json_relation_sql_array :: "JsonRelationFilter \<Rightarrow> string \<Rightarrow> string \<Rightarrow> OrmError + string \<times> nat" where
  "json_relation_sql_array f column dialect =
     (let path = escape_path (jr_path f); count = length (jr_values f) in
      if dialect = ''postgres''
        then Inr (''(('' @ column @ '')::jsonb -> '' @ squote @ path @ squote @ '') ?| '' @ array_literal count, count)
      else if dialect = ''mysql''
        then Inr (''JSON_OVERLAPS(JSON_EXTRACT('' @ column @ '', '' @ squote @ ''$.'' @ path @ squote @ ''), CAST({} AS JSON))'', 1)
      else if dialect = ''sqlite''
        then Inr (''json_valid('' @ column @ '') AND EXISTS (SELECT 1 FROM json_each('' @ column @ '', '' @ squote @ ''$.'' @ path @ squote
          @ '') WHERE json_each.value IN '' @ placeholders count @ '')'', count)
      else Inl (UnsupportedDriver dialect))"

section \<open>Column types\<close>

datatype ColumnType = ColUuid | ColText | BigInt | Decimal | Boolean | ColJson | TimestampTz

definition column_type_sql :: "ColumnType \<Rightarrow> string \<Rightarrow> OrmError + string" where
  "column_type_sql ty dialect =
     (let pick = (\<lambda>pg my lite.
        if dialect = ''postgres'' then Inr pg else if dialect = ''mysql'' then Inr my else if dialect = ''sqlite'' then Inr lite
        else Inl (UnsupportedDriver dialect)) in
      case ty of
        ColUuid \<Rightarrow> pick ''UUID'' ''CHAR(36)'' ''TEXT''
      | ColText \<Rightarrow> pick ''TEXT'' ''VARCHAR(255)'' ''TEXT''
      | BigInt \<Rightarrow> pick ''BIGINT'' ''BIGINT'' ''INTEGER''
      | Decimal \<Rightarrow> pick ''NUMERIC(15,2)'' ''DECIMAL(15,2)'' ''NUMERIC(15,2)''
      | Boolean \<Rightarrow> pick ''BOOLEAN'' ''TINYINT(1)'' ''INTEGER''
      | ColJson \<Rightarrow> pick ''JSONB'' ''JSON'' ''TEXT''
      | TimestampTz \<Rightarrow> pick ''TIMESTAMPTZ'' ''DATETIME'' ''TEXT'')"

section \<open>Clauses\<close>

datatype Lock = ForUpdate | Shared

definition lock_sql :: "Lock \<Rightarrow> string \<Rightarrow> OrmError + string" where
  "lock_sql l dialect =
     (if dialect = ''postgres'' then (case l of ForUpdate \<Rightarrow> Inr ''FOR UPDATE'' | Shared \<Rightarrow> Inr ''FOR SHARE'')
      else if dialect = ''mysql'' then (case l of ForUpdate \<Rightarrow> Inr ''FOR UPDATE'' | Shared \<Rightarrow> Inr ''LOCK IN SHARE MODE'')
      else if dialect = ''sqlite'' then Inl (UnsupportedDriver ''sqlite has no row locks'')
      else Inl (UnsupportedDriver dialect))"

datatype OrderDirection = Asc | Desc

definition direction_str :: "OrderDirection \<Rightarrow> string" where
  "direction_str d = (case d of Asc \<Rightarrow> ''ASC'' | Desc \<Rightarrow> ''DESC'')"

section \<open>Placeholders of a driver\<close>

function rewrite_dollar_placeholders :: "string \<Rightarrow> string" where
  "rewrite_dollar_placeholders [] = []"
| "rewrite_dollar_placeholders (c # s) =
     (if c = CHR ''$'' \<and> s \<noteq> [] \<and> is_digit (hd s) then CHR ''?'' # rewrite_dollar_placeholders (dropWhile is_digit s)
      else c # rewrite_dollar_placeholders s)"
  by pat_completeness auto
termination
  by (relation "measure length") (auto simp: less_Suc_eq_le length_dropWhile_le)

definition adapt_placeholders :: "string \<Rightarrow> string \<Rightarrow> string" where
  "adapt_placeholders sql dialect = (if dialect = ''mysql'' then rewrite_dollar_placeholders sql else sql)"

end
