(* ===== verification/Query.thy ===== *)
theory Query
  imports Orm
begin

text \<open>
  The query builder of \<^verbatim>\<open>rustasea-orm\<close>: \<^verbatim>\<open>builder.rs\<close>, \<^verbatim>\<open>builder/global.rs\<close>,
  \<^verbatim>\<open>builder/ext.rs\<close>, \<^verbatim>\<open>builder/composite.rs\<close>, \<^verbatim>\<open>builder/json.rs\<close>, the scopes of
  \<^verbatim>\<open>scopes.rs\<close>, the statement helpers of \<^verbatim>\<open>execution.rs\<close> and the templates of
  \<^verbatim>\<open>model_sql.rs\<close>.

  A closure that a scope holds is the sequence of builder calls it makes, a \<^verbatim>\<open>TypeId\<close> is a name, and the
  dialect selected by cargo features is the argument \<open>dl\<close>. Vector clauses, eager loading and query caches are left out.
\<close>

section \<open>Data\<close>

datatype where_op =
    Select "string list"
  | WhereEq string Value
  | OrWhereEq string Value
  | WhereBinary string "nat list"
  | WhereRaw string
  | WhereIn string "Value list"
  | WhereInRows "string list" "Value list list"
  | WhereNull string
  | WhereNotNull string
  | OrderByOp string OrderDirection
  | LimitOp nat
  | OffsetOp nat
  | CursorOp string Value

datatype scope_obj = SoftDeletesScope | CallbackScope string "where_op list"

record GlobalScopeEntry =
  ge_type_id :: string
  ge_id :: string
  ge_scope :: scope_obj

record Condition =
  co_glue :: string
  co_sql :: string
  co_bindings :: "Value list"
  co_scope_type :: "string option"

record OrderBy =
  ob_column :: string
  ob_direction :: OrderDirection

record QueryBuilder =
  qb_table :: string
  qb_columns :: "string list"
  qb_conditions :: "Condition list"
  qb_joins :: "string list"
  qb_orders :: "OrderBy list"
  qb_limit :: "nat option"
  qb_offset :: "nat option"
  qb_lock :: "Lock option"
  qb_lock_dialect :: "string option"
  qb_scope_active :: "string list"
  qb_bindings :: "Value list"
  qb_soft_delete_guard :: "bool option"
  qb_global_scopes :: "GlobalScopeEntry list"
  qb_global_scopes_bypassed :: bool
  qb_bypassed_scopes :: "string list"
  qb_global_scopes_applied :: bool
  qb_current_scope :: "string option"

definition qb_default :: QueryBuilder where
  "qb_default = \<lparr>qb_table = [], qb_columns = [], qb_conditions = [], qb_joins = [], qb_orders = [], qb_limit = None,
     qb_offset = None, qb_lock = None, qb_lock_dialect = None, qb_scope_active = [], qb_bindings = [],
     qb_soft_delete_guard = None, qb_global_scopes = [], qb_global_scopes_bypassed = False, qb_bypassed_scopes = [],
     qb_global_scopes_applied = False, qb_current_scope = None\<rparr>"

section \<open>Conditions\<close>

definition condition_new :: "string \<Rightarrow> string \<Rightarrow> Condition" where
  "condition_new glue sql = \<lparr>co_glue = glue, co_sql = sql, co_bindings = [], co_scope_type = None\<rparr>"

fun render_rest :: "Condition list \<Rightarrow> string" where
  "render_rest [] = []"
| "render_rest (c # cs) = '' '' @ co_glue c @ '' '' @ co_sql c @ render_rest cs"

fun render_conditions :: "Condition list \<Rightarrow> string" where
  "render_conditions [] = []"
| "render_conditions (c # cs) = co_sql c @ render_rest cs"

definition qb_of_table :: "string \<Rightarrow> QueryBuilder" where
  "qb_of_table t = qb_default\<lparr>qb_table := t\<rparr>"

definition select_op :: "string list \<Rightarrow> QueryBuilder \<Rightarrow> QueryBuilder" where
  "select_op columns b = b\<lparr>qb_columns := columns\<rparr>"

definition push_condition :: "string \<Rightarrow> string \<Rightarrow> QueryBuilder \<Rightarrow> QueryBuilder" where
  "push_condition glue sql b =
     b\<lparr>qb_conditions := qb_conditions b @ [(condition_new glue sql)\<lparr>co_scope_type := qb_current_scope b\<rparr>]\<rparr>"

definition push_binding :: "Value \<Rightarrow> QueryBuilder \<Rightarrow> QueryBuilder" where
  "push_binding v b = b\<lparr>qb_bindings := qb_bindings b @ [v]\<rparr>"

text \<open>The placeholder of the binding pushed last.\<close>

definition dollar :: "QueryBuilder \<Rightarrow> string" where
  "dollar b = ''$'' @ show_nat (length (qb_bindings b))"

definition where_eq :: "string \<Rightarrow> Value \<Rightarrow> QueryBuilder \<Rightarrow> QueryBuilder" where
  "where_eq column v b0 = (let b = push_binding v b0 in push_condition ''AND'' (column @ '' = '' @ dollar b) b)"

definition or_where_eq :: "string \<Rightarrow> Value \<Rightarrow> QueryBuilder \<Rightarrow> QueryBuilder" where
  "or_where_eq column v b0 = (let b = push_binding v b0 in push_condition ''OR'' (column @ '' = '' @ dollar b) b)"

definition or_where_key :: "string \<Rightarrow> Value \<Rightarrow> QueryBuilder \<Rightarrow> QueryBuilder" where
  "or_where_key = or_where_eq"

definition hex_byte :: "nat \<Rightarrow> string" where
  "hex_byte b = (let d = (\<lambda>n. ''0123456789abcdef'' ! n) in [d (b div 16 mod 16), d (b mod 16)])"

definition where_binary :: "string \<Rightarrow> nat list \<Rightarrow> QueryBuilder \<Rightarrow> QueryBuilder" where
  "where_binary column bytes b0 =
     (let b = push_binding (VText (concat (map hex_byte bytes))) b0
      in push_condition ''AND'' (''encode('' @ column @ '', '' @ squote @ ''hex'' @ squote @ '') = '' @ dollar b) b)"

definition allowed_operators :: "string list" where
  "allowed_operators = [''='', ''!='', ''<>'', ''>'', ''>='', ''<'', ''<='', ''LIKE'', ''NOT LIKE'']"

definition where_op_sql :: "string \<Rightarrow> string \<Rightarrow> Value \<Rightarrow> QueryBuilder \<Rightarrow> OrmError + QueryBuilder" where
  "where_op_sql column operator v b0 =
     (if operator \<notin> set allowed_operators then Inl (InvalidState (''unsupported operator `'' @ operator @ ''`''))
      else (let b = push_binding v b0 in Inr (push_condition ''AND'' (column @ '' '' @ operator @ '' '' @ dollar b) b)))"

definition where_raw :: "string \<Rightarrow> QueryBuilder \<Rightarrow> QueryBuilder" where
  "where_raw sql b = push_condition ''AND'' sql b"

text \<open>Bind a list of values and collect their placeholders.\<close>

fun bind_list :: "Value list \<Rightarrow> QueryBuilder \<Rightarrow> string list \<times> QueryBuilder" where
  "bind_list [] b = ([], b)"
| "bind_list (v # vs) b0 =
     (let b = push_binding v b0 in case bind_list vs b of (ps, b') \<Rightarrow> (dollar b # ps, b'))"

definition where_in :: "string \<Rightarrow> Value list \<Rightarrow> QueryBuilder \<Rightarrow> QueryBuilder" where
  "where_in column values b0 =
     (case bind_list values b0 of
        (ps, b) \<Rightarrow>
          if ps = [] then push_condition ''AND'' ''1 = 0'' b
          else push_condition ''AND'' (column @ '' IN ('' @ sql_join '', '' ps @ '')'') b)"

definition where_null :: "string \<Rightarrow> QueryBuilder \<Rightarrow> QueryBuilder" where
  "where_null column b = push_condition ''AND'' (column @ '' IS NULL'') b"

definition where_not_null :: "string \<Rightarrow> QueryBuilder \<Rightarrow> QueryBuilder" where
  "where_not_null column b = push_condition ''AND'' (column @ '' IS NOT NULL'') b"

definition where_key :: "string \<Rightarrow> QueryBuilder \<Rightarrow> QueryBuilder" where
  "where_key i b = where_eq ''id'' (VUuid i) b"

definition where_json :: "string \<Rightarrow> string \<Rightarrow> JsonFilter \<Rightarrow> QueryBuilder \<Rightarrow> OrmError + QueryBuilder" where
  "where_json dl column flt b0 =
     (let b = (case bind_value flt of None \<Rightarrow> b0 | Some v \<Rightarrow> push_binding v b0) in
      case json_filter_sql flt column dl of
        Inl e \<Rightarrow> Inl e
      | Inr fragment \<Rightarrow>
          Inr (push_condition ''AND''
            (case bind_value flt of None \<Rightarrow> fragment | Some _ \<Rightarrow> str_replace ''{}'' (dollar b) fragment) b))"

text \<open>Composite keys (\<^verbatim>\<open>composite.rs\<close>).\<close>

fun bind_rows :: "nat \<Rightarrow> Value list list \<Rightarrow> QueryBuilder \<Rightarrow> string list \<times> QueryBuilder" where
  "bind_rows n [] b = ([], b)"
| "bind_rows n (row # rows) b =
     (if length row \<noteq> n then bind_rows n rows b
      else
        (case bind_list row b of
           (ps, b1) \<Rightarrow> (case bind_rows n rows b1 of (ts, b2) \<Rightarrow> ((''('' @ sql_join '', '' ps @ '')'') # ts, b2))))"

definition where_in_rows :: "string list \<Rightarrow> Value list list \<Rightarrow> QueryBuilder \<Rightarrow> QueryBuilder" where
  "where_in_rows columns rows b0 =
     (if columns = [] then push_condition ''AND'' ''1 = 0'' b0
      else
        (case bind_rows (length columns) rows b0 of
           (ts, b) \<Rightarrow>
             if ts = [] then push_condition ''AND'' ''1 = 0'' b
             else push_condition ''AND'' (''('' @ sql_join '', '' columns @ '') IN ('' @ sql_join '', '' ts @ '')'') b))"

text \<open>Keys embedded in JSON (\<^verbatim>\<open>json.rs\<close>).\<close>

fun find_braces :: "string \<Rightarrow> (string \<times> string) option" where
  "find_braces [] = None"
| "find_braces [c] = None"
| "find_braces (c # d # s) =
     (if c = CHR ''{'' \<and> d = CHR ''}'' then Some ([], s) else map_option (\<lambda>(a, r). (c # a, r)) (find_braces (d # s)))"

fun bind_fragment :: "Value list \<Rightarrow> string \<Rightarrow> QueryBuilder \<Rightarrow> string \<times> QueryBuilder" where
  "bind_fragment [] rest b = (rest, b)"
| "bind_fragment (v # vs) rest b0 =
     (let b = push_binding v b0 in
      case find_braces rest of
        Some (before, rest') \<Rightarrow> (case bind_fragment vs rest' b of (out, b') \<Rightarrow> (before @ dollar b @ out, b'))
      | None \<Rightarrow> (case bind_fragment vs [] b of (out, b') \<Rightarrow> (rest @ out, b')))"

definition where_json_in :: "string \<Rightarrow> string \<Rightarrow> string \<Rightarrow> string list \<Rightarrow> QueryBuilder \<Rightarrow> OrmError + QueryBuilder" where
  "where_json_in dl column path values b0 =
     (if values = [] then Inr (push_condition ''AND'' ''1 = 0'' b0)
      else
        (case json_relation_sql \<lparr>jr_path = path, jr_values = values\<rparr> column dl of
           Inl e \<Rightarrow> Inl e
         | Inr (fragment, _) \<Rightarrow>
             (case bind_fragment (map VText values) fragment b0 of (sql, b) \<Rightarrow> Inr (push_condition ''AND'' sql b))))"

text \<open>\<open>json_array\<close> is the text of the JSON array of the values.\<close>

definition where_json_contains_any ::
  "(string list \<Rightarrow> string) \<Rightarrow> string \<Rightarrow> string \<Rightarrow> string \<Rightarrow> string list \<Rightarrow> QueryBuilder \<Rightarrow> OrmError + QueryBuilder" where
  "where_json_contains_any json_array dl column path values b0 =
     (if values = [] then Inr (push_condition ''AND'' ''1 = 0'' b0)
      else
        (case json_relation_sql_array \<lparr>jr_path = path, jr_values = values\<rparr> column dl of
           Inl e \<Rightarrow> Inl e
         | Inr (fragment, _) \<Rightarrow>
             (let binds = (if dl = ''mysql'' then [VJson (json_array values)] else map VText values) in
              case bind_fragment binds fragment b0 of (sql, b) \<Rightarrow> Inr (push_condition ''AND'' sql b))))"

section \<open>Order, windows and locks\<close>

definition order_by :: "string \<Rightarrow> OrderDirection \<Rightarrow> QueryBuilder \<Rightarrow> QueryBuilder" where
  "order_by column direction b = b\<lparr>qb_orders := qb_orders b @ [\<lparr>ob_column = column, ob_direction = direction\<rparr>]\<rparr>"

definition limit_op :: "nat \<Rightarrow> QueryBuilder \<Rightarrow> QueryBuilder" where
  "limit_op n b = b\<lparr>qb_limit := Some n\<rparr>"

definition offset_op :: "nat \<Rightarrow> QueryBuilder \<Rightarrow> QueryBuilder" where
  "offset_op n b = b\<lparr>qb_offset := Some n\<rparr>"

definition U64_MAX :: nat where
  "U64_MAX = 2 ^ 64 - 1"

definition for_page :: "nat \<Rightarrow> nat \<Rightarrow> QueryBuilder \<Rightarrow> QueryBuilder" where
  "for_page page per_page b = offset_op (min U64_MAX ((page - 1) * per_page)) (limit_op per_page b)"

definition cursor_op :: "string \<Rightarrow> Value \<Rightarrow> QueryBuilder \<Rightarrow> QueryBuilder" where
  "cursor_op column v b0 =
     (let b = push_binding v b0;
          dir = (case find (\<lambda>x. ob_column x = column) (qb_orders b) of Some x \<Rightarrow> ob_direction x | None \<Rightarrow> Asc);
          op = (case dir of Asc \<Rightarrow> ''>'' | Desc \<Rightarrow> ''<'')
      in push_condition ''AND'' (column @ '' '' @ op @ '' '' @ dollar b) b)"

definition cursor_page :: "Value \<Rightarrow> nat \<Rightarrow> QueryBuilder \<Rightarrow> QueryBuilder" where
  "cursor_page v per_page b = limit_op per_page (cursor_op ''id'' v b)"

definition lock_op :: "string \<Rightarrow> Lock \<Rightarrow> QueryBuilder \<Rightarrow> OrmError + QueryBuilder" where
  "lock_op dl l b =
     (case lock_sql l dl of Inl e \<Rightarrow> Inl e | Inr _ \<Rightarrow> Inr (b\<lparr>qb_lock := Some l, qb_lock_dialect := None\<rparr>))"

definition lock_with_dialect :: "Lock \<Rightarrow> string \<Rightarrow> QueryBuilder \<Rightarrow> OrmError + QueryBuilder" where
  "lock_with_dialect l dialect b =
     (case lock_sql l dialect of Inl e \<Rightarrow> Inl e | Inr _ \<Rightarrow> Inr (b\<lparr>qb_lock := Some l, qb_lock_dialect := Some dialect\<rparr>))"

definition straight_join :: "string \<Rightarrow> string \<Rightarrow> string \<Rightarrow> QueryBuilder \<Rightarrow> OrmError + QueryBuilder" where
  "straight_join dl join_table on b =
     (if dl \<noteq> ''mysql'' then Inl (UnsupportedDriver (dl @ '' does not support STRAIGHT_JOIN''))
      else Inr (b\<lparr>qb_joins := qb_joins b @ [''STRAIGHT_JOIN '' @ join_table @ '' ON '' @ on]\<rparr>))"

definition assert_upsert :: "string list \<Rightarrow> nat \<Rightarrow> OrmError + unit" where
  "assert_upsert unique_by rows =
     (if unique_by = [] then Inl (Upsert EmptyUniqueBy)
      else if rows > 1000 then Inl (Upsert (BatchTooLarge rows)) else Inr ())"

text \<open>The calls that a closure can make.\<close>

fun run_op :: "where_op \<Rightarrow> QueryBuilder \<Rightarrow> QueryBuilder" where
  "run_op (Select cs) b = select_op cs b"
| "run_op (WhereEq c v) b = where_eq c v b"
| "run_op (OrWhereEq c v) b = or_where_eq c v b"
| "run_op (WhereBinary c v) b = where_binary c v b"
| "run_op (WhereRaw s) b = where_raw s b"
| "run_op (WhereIn c vs) b = where_in c vs b"
| "run_op (WhereInRows cs rows) b = where_in_rows cs rows b"
| "run_op (WhereNull c) b = where_null c b"
| "run_op (WhereNotNull c) b = where_not_null c b"
| "run_op (OrderByOp c d) b = order_by c d b"
| "run_op (LimitOp n) b = limit_op n b"
| "run_op (OffsetOp n) b = offset_op n b"
| "run_op (CursorOp c v) b = cursor_op c v b"

abbreviation run_ops :: "where_op list \<Rightarrow> QueryBuilder \<Rightarrow> QueryBuilder" where
  "run_ops ops b \<equiv> fold run_op ops b"

section \<open>Scopes\<close>

type_synonym ScopeRegistry = "string \<rightharpoonup> where_op list list"

definition scope_register :: "string \<Rightarrow> string \<Rightarrow> where_op list \<Rightarrow> ScopeRegistry \<Rightarrow> ScopeRegistry" where
  "scope_register table name s m =
     (let k = table @ ''.'' @ name in m(k \<mapsto> (case m k of None \<Rightarrow> [] | Some ss \<Rightarrow> ss) @ [s]))"

definition scope_apply :: "ScopeRegistry \<Rightarrow> string \<Rightarrow> string \<Rightarrow> QueryBuilder \<Rightarrow> QueryBuilder" where
  "scope_apply m table name b = (case m (table @ ''.'' @ name) of None \<Rightarrow> b | Some ss \<Rightarrow> fold run_ops ss b)"

definition with_scope :: "ScopeRegistry \<Rightarrow> string \<Rightarrow> QueryBuilder \<Rightarrow> QueryBuilder" where
  "with_scope m name b =
     (let b' = scope_apply m (qb_table b) name b in b'\<lparr>qb_scope_active := qb_scope_active b' @ [name]\<rparr>)"

definition has_scope :: "string \<Rightarrow> QueryBuilder \<Rightarrow> bool" where
  "has_scope name b \<longleftrightarrow> name \<in> set (qb_scope_active b)"

definition SOFT_DELETES :: string where
  "SOFT_DELETES = ''SoftDeletesScope''"

definition deleted_at_null :: string where
  "deleted_at_null = ''deleted_at IS NULL''"

definition apply_soft_delete_guard :: "QueryBuilder \<Rightarrow> QueryBuilder" where
  "apply_soft_delete_guard b =
     (if qb_soft_delete_guard b = Some True then b
      else if \<exists>c\<in>set (qb_conditions b). co_sql c = deleted_at_null then b\<lparr>qb_soft_delete_guard := Some False\<rparr>
      else b\<lparr>qb_conditions := qb_conditions b @ [(condition_new ''AND'' deleted_at_null)\<lparr>co_scope_type := Some SOFT_DELETES\<rparr>],
             qb_soft_delete_guard := Some False\<rparr>)"

definition scope_obj_id :: "scope_obj \<Rightarrow> string" where
  "scope_obj_id s = (case s of SoftDeletesScope \<Rightarrow> ''soft_deletes'' | CallbackScope i _ \<Rightarrow> i)"

definition scope_obj_apply :: "scope_obj \<Rightarrow> QueryBuilder \<Rightarrow> QueryBuilder" where
  "scope_obj_apply s b = (case s of SoftDeletesScope \<Rightarrow> apply_soft_delete_guard b | CallbackScope _ ops \<Rightarrow> run_ops ops b)"

definition scope_entry_new :: "string \<Rightarrow> scope_obj \<Rightarrow> GlobalScopeEntry" where
  "scope_entry_new tid s = \<lparr>ge_type_id = tid, ge_id = scope_obj_id s, ge_scope = s\<rparr>"

definition with_soft_deletes :: "bool \<Rightarrow> QueryBuilder \<Rightarrow> QueryBuilder" where
  "with_soft_deletes uses b = (if uses then apply_soft_delete_guard b else b)"

definition drop_guard :: "QueryBuilder \<Rightarrow> QueryBuilder" where
  "drop_guard b =
     (if qb_soft_delete_guard b = Some False
      then b\<lparr>qb_conditions := filter (\<lambda>c. co_sql c \<noteq> deleted_at_null) (qb_conditions b)\<rparr> else b)"

definition with_trashed :: "QueryBuilder \<Rightarrow> QueryBuilder" where
  "with_trashed b = (drop_guard b)\<lparr>qb_soft_delete_guard := Some True\<rparr>"

definition only_trashed :: "QueryBuilder \<Rightarrow> QueryBuilder" where
  "only_trashed b =
     (let b' = (drop_guard b)\<lparr>qb_soft_delete_guard := Some True\<rparr>
      in b'\<lparr>qb_conditions := qb_conditions b' @ [condition_new ''AND'' ''deleted_at IS NOT NULL'']\<rparr>)"

definition with_global_scopes :: "GlobalScopeEntry list \<Rightarrow> QueryBuilder \<Rightarrow> QueryBuilder" where
  "with_global_scopes scopes b =
     b\<lparr>qb_global_scopes := scopes, qb_global_scopes_applied := False, qb_global_scopes_bypassed := False\<rparr>"

definition has_global_scope :: "string \<Rightarrow> QueryBuilder \<Rightarrow> bool" where
  "has_global_scope tid b \<longleftrightarrow> \<not> qb_global_scopes_bypassed b \<and> tid \<notin> set (qb_bypassed_scopes b)
     \<and> (\<exists>e\<in>set (qb_global_scopes b). ge_type_id e = tid)"

definition without_global_scopes :: "QueryBuilder \<Rightarrow> QueryBuilder" where
  "without_global_scopes b =
     b\<lparr>qb_global_scopes := [], qb_global_scopes_bypassed := True, qb_global_scopes_applied := False,
       qb_conditions := filter (\<lambda>c. co_scope_type c = None) (qb_conditions b), qb_soft_delete_guard := Some True\<rparr>"

definition without_global_scope :: "string \<Rightarrow> QueryBuilder \<Rightarrow> QueryBuilder" where
  "without_global_scope tid b =
     b\<lparr>qb_global_scopes := filter (\<lambda>e. ge_type_id e \<noteq> tid) (qb_global_scopes b),
       qb_bypassed_scopes := (if tid \<in> set (qb_bypassed_scopes b) then qb_bypassed_scopes b else qb_bypassed_scopes b @ [tid]),
       qb_conditions := filter (\<lambda>c. co_scope_type c \<noteq> Some tid) (qb_conditions b),
       qb_soft_delete_guard := (if tid = SOFT_DELETES then Some True else qb_soft_delete_guard b),
       qb_global_scopes_applied := False\<rparr>"

fun apply_scope_entries :: "GlobalScopeEntry list \<Rightarrow> QueryBuilder \<Rightarrow> QueryBuilder" where
  "apply_scope_entries [] b = b"
| "apply_scope_entries (e # es) b =
     (if ge_type_id e \<in> set (qb_bypassed_scopes b) then apply_scope_entries es b
      else apply_scope_entries es (scope_obj_apply (ge_scope e) (b\<lparr>qb_current_scope := Some (ge_type_id e)\<rparr>)))"

definition resolved :: "QueryBuilder \<Rightarrow> QueryBuilder" where
  "resolved b =
     (if qb_global_scopes_applied b \<or> qb_global_scopes_bypassed b then b\<lparr>qb_global_scopes_applied := True\<rparr>
      else (apply_scope_entries (qb_global_scopes b) b)\<lparr>qb_current_scope := None, qb_global_scopes_applied := True\<rparr>)"

text \<open>The registry of global scopes.\<close>

type_synonym GlobalScopeRegistry = "string \<rightharpoonup> GlobalScopeEntry list"

definition for_table :: "GlobalScopeRegistry \<Rightarrow> string \<Rightarrow> GlobalScopeEntry list" where
  "for_table m table = (case m table of None \<Rightarrow> [] | Some es \<Rightarrow> es)"

definition register_scope :: "string \<Rightarrow> GlobalScopeEntry \<Rightarrow> GlobalScopeRegistry \<Rightarrow> (OrmError + unit) \<times> GlobalScopeRegistry" where
  "register_scope table e m =
     (if trim table = [] then (Inl (ScopeError ''empty table name''), m)
      else if \<exists>x\<in>set (for_table m table). ge_id x = ge_id e
        then (Inl (ScopeError (''duplicate global scope id `'' @ ge_id e @ ''` for table `'' @ table @ ''`'')), m(table \<mapsto> for_table m table))
      else (Inr (), m(table \<mapsto> for_table m table @ [e])))"

section \<open>Statements\<close>

definition group_or :: "Condition list \<Rightarrow> string" where
  "group_or cs =
     (if \<exists>c\<in>set (drop 1 cs). co_glue c = ''OR'' then ''('' @ render_conditions cs @ '')'' else render_conditions cs)"

definition render_where_clause :: "QueryBuilder \<Rightarrow> string option" where
  "render_where_clause b =
     (if qb_conditions b = [] then None
      else
        (let caller = filter (\<lambda>c. co_scope_type c = None) (qb_conditions b);
             scoped = filter (\<lambda>c. co_scope_type c \<noteq> None) (qb_conditions b)
         in if caller = [] \<or> scoped = [] then Some (render_conditions (qb_conditions b))
            else Some (group_or caller @ '' AND '' @ group_or scoped)))"

definition where_clause :: "QueryBuilder \<Rightarrow> string option" where
  "where_clause b = render_where_clause (resolved b)"

definition where_part :: "string option \<Rightarrow> string" where
  "where_part clause = (case clause of None \<Rightarrow> [] | Some s \<Rightarrow> '' WHERE '' @ s)"

definition order_parts :: "QueryBuilder \<Rightarrow> string" where
  "order_parts b = sql_join '', '' (map (\<lambda>x. ob_column x @ '' '' @ direction_str (ob_direction x)) (qb_orders b))"

definition order_clause :: "QueryBuilder \<Rightarrow> string option" where
  "order_clause b = (if qb_orders b = [] then None else Some (order_parts b))"

definition joins_part :: "QueryBuilder \<Rightarrow> string" where
  "joins_part b = concat (map (\<lambda>j. '' '' @ j) (qb_joins b))"

definition tail_part :: "QueryBuilder \<Rightarrow> string" where
  "tail_part b =
     (if qb_orders b = [] then [] else '' ORDER BY '' @ order_parts b)
     @ (case qb_limit b of None \<Rightarrow> [] | Some n \<Rightarrow> '' LIMIT '' @ show_nat n)
     @ (case qb_offset b of None \<Rightarrow> [] | Some n \<Rightarrow> '' OFFSET '' @ show_nat n)"

definition render_sql :: "string \<Rightarrow> QueryBuilder \<Rightarrow> OrmError + string" where
  "render_sql dl b =
     (let columns = (if qb_columns b = [] then ''*'' else sql_join '', '' (qb_columns b));
          sql = ''SELECT '' @ columns @ '' FROM '' @ qb_table b @ joins_part b @ where_part (render_where_clause b) @ tail_part b
      in case qb_lock b of
           None \<Rightarrow> Inr sql
         | Some l \<Rightarrow>
             (case lock_sql l (case qb_lock_dialect b of Some d \<Rightarrow> d | None \<Rightarrow> dl) of
                Inl e \<Rightarrow> Inl e
              | Inr s \<Rightarrow> Inr (sql @ '' '' @ s)))"

definition to_sql :: "string \<Rightarrow> QueryBuilder \<Rightarrow> OrmError + string" where
  "to_sql dl b = render_sql dl (resolved b)"

definition resolved_bindings :: "QueryBuilder \<Rightarrow> Value list" where
  "resolved_bindings b = qb_bindings (resolved b)"

definition to_raw_sql_clause :: "QueryBuilder \<Rightarrow> string" where
  "to_raw_sql_clause b0 = (let b = resolved b0 in ''FROM '' @ qb_table b @ joins_part b @ where_part (render_where_clause b))"

fun inline_values :: "nat \<Rightarrow> Value list \<Rightarrow> string \<Rightarrow> string" where
  "inline_values i [] out = out"
| "inline_values i (v # vs) out = inline_values (Suc i) vs (str_replace (''$'' @ show_nat (i + 1)) (to_literal v) out)"

definition to_raw_sql :: "string \<Rightarrow> QueryBuilder \<Rightarrow> OrmError + string" where
  "to_raw_sql dl b0 =
     (let b = resolved b0 in
      case render_sql dl b of Inl e \<Rightarrow> Inl e | Inr out \<Rightarrow> Inr (inline_values 0 (qb_bindings b) out))"

definition to_delete_clause :: "QueryBuilder \<Rightarrow> string" where
  "to_delete_clause b = ''DELETE FROM '' @ qb_table b @ where_part (where_clause b)"

definition delete_join_sql :: "string \<Rightarrow> string \<Rightarrow> string \<Rightarrow> QueryBuilder \<Rightarrow> OrmError + string" where
  "delete_join_sql dl join_table on b =
     (if dl \<noteq> ''mysql'' then Inl (UnsupportedDriver (dl @ '' does not support DELETE JOIN''))
      else Inr (''DELETE '' @ qb_table b @ '' FROM '' @ qb_table b @ '' JOIN '' @ join_table @ '' ON '' @ on @ where_part (where_clause b)))"

section \<open>Execution helpers\<close>

definition count_sql :: "QueryBuilder \<Rightarrow> string" where
  "count_sql b = ''SELECT COUNT(*) FROM '' @ qb_table b @ where_part (where_clause b)"

definition sum_sql :: "string \<Rightarrow> QueryBuilder \<Rightarrow> string" where
  "sum_sql column b = ''SELECT SUM('' @ column @ '') FROM '' @ qb_table b @ where_part (where_clause b)"

text \<open>The windows of \<^verbatim>\<open>chunk_by\<close>, for bounds whose sums stay below \<open>2 ^ 64\<close>.\<close>

function chunk_windows :: "nat \<Rightarrow> nat \<Rightarrow> nat \<Rightarrow> (nat \<times> nat) list" where
  "chunk_windows start n total_rows =
     (if n = 0 \<or> \<not> start < total_rows then [] else (start, min total_rows (start + n)) # chunk_windows (start + n) n total_rows)"
  by pat_completeness auto
termination
  by (relation "measure (\<lambda>(start, n, total_rows). total_rows - start)") auto

declare chunk_windows.simps [simp del]

definition between :: "string \<Rightarrow> nat \<times> nat \<Rightarrow> string" where
  "between column w = column @ '' BETWEEN '' @ show_nat (fst w) @ '' AND '' @ show_nat (snd w)"

definition chunk_by :: "string \<Rightarrow> nat \<Rightarrow> nat \<Rightarrow> OrmError + string list" where
  "chunk_by column n total_rows =
     (if n = 0 then Inl (InvalidState ''chunk_by size must be greater than zero'')
      else if trim column = [] then Inl (InvalidState ''chunk_by column must not be empty'')
      else
        (let chunks = map (between column) (chunk_windows 0 n total_rows)
         in Inr (if chunks = [] then [between column (0, 0)] else chunks)))"

definition div_ceil :: "nat \<Rightarrow> nat \<Rightarrow> nat" where
  "div_ceil a b = (if a mod b = 0 then a div b else a div b + 1)"

record Links =
  lk_first :: string
  lk_prev :: "string option"
  lk_next :: "string option"
  lk_last :: string

definition links_default :: Links where
  "links_default = \<lparr>lk_first = [], lk_prev = None, lk_next = None, lk_last = []\<rparr>"

definition links_for_page :: "nat \<Rightarrow> nat \<Rightarrow> nat \<Rightarrow> Links" where
  "links_for_page page0 per_page total_rows =
     (let page = max page0 1; last_page = (if per_page = 0 then 1 else max (div_ceil total_rows per_page) 1);
          link = (\<lambda>n. ''?page='' @ show_nat n)
      in \<lparr>lk_first = link 1, lk_prev = (if page > 1 then Some (link (page - 1)) else None),
          lk_next = (if page < last_page then Some (link (page + 1)) else None), lk_last = link last_page\<rparr>)"

record 'a Paginator =
  pg_items :: "'a list"
  pg_current_page :: nat
  pg_per_page :: nat
  pg_total :: nat
  pg_last_page :: nat
  pg_links :: Links

definition paginator_new :: "'a list \<Rightarrow> nat \<Rightarrow> nat \<Rightarrow> nat \<Rightarrow> 'a Paginator" where
  "paginator_new items current_page per_page total_rows =
     \<lparr>pg_items = items, pg_current_page = current_page, pg_per_page = per_page, pg_total = total_rows,
      pg_last_page = (if per_page = 0 then 0 else div_ceil total_rows per_page), pg_links = links_default\<rparr>"

definition with_links :: "'a Paginator \<Rightarrow> 'a Paginator" where
  "with_links p = p\<lparr>pg_links := links_for_page (max (pg_current_page p) 1) (pg_per_page p) (pg_total p)\<rparr>"

definition with_total :: "nat \<Rightarrow> 'a Paginator \<Rightarrow> 'a Paginator" where
  "with_total total_rows p = with_links (paginator_new (pg_items p) (pg_current_page p) (pg_per_page p) total_rows)"

definition has_more :: "'a Paginator \<Rightarrow> bool" where
  "has_more p \<longleftrightarrow> pg_current_page p < pg_last_page p"

section \<open>Statement templates\<close>

definition update_sql :: "string \<Rightarrow> string list \<Rightarrow> string option \<Rightarrow> string" where
  "update_sql table assignments updated_column =
     (let parts = assignments @ (case updated_column of None \<Rightarrow> [] | Some col \<Rightarrow> [col @ '' = now()''])
      in ''UPDATE '' @ table @ '' SET '' @ sql_join '', '' parts @ '' WHERE id = $1'')"

definition delete_sql :: "string \<Rightarrow> string" where
  "delete_sql table = ''DELETE FROM '' @ table @ '' WHERE id = $1''"

definition soft_delete_sql :: "string \<Rightarrow> string" where
  "soft_delete_sql table = ''UPDATE '' @ table @ '' SET deleted_at = now() WHERE id = $1''"

definition restore_sql :: "string \<Rightarrow> string" where
  "restore_sql table = ''UPDATE '' @ table @ '' SET deleted_at = NULL WHERE id = $1''"

definition raw_select :: "string \<Rightarrow> string \<Rightarrow> string" where
  "raw_select table sql = ''SELECT * FROM '' @ table @ '' WHERE '' @ trim sql"

end
