(* ===== verification/Query_Props.thy ===== *)
theory Query_Props
  imports Query
begin

text \<open>
  What the builder promises of the text it renders: the conditions of a global scope bind to the whole predicate of the
  caller, and the placeholders are numbered in the order of the bound values. Then what it does not.
\<close>

section \<open>The grammar of a predicate\<close>

text \<open>Which texts mean what, for texts \<open>atomic\<close> of meaning \<open>sem\<close>: \<^verbatim>\<open>AND\<close> binds tighter than
  \<^verbatim>\<open>OR\<close>. The meaning is that the predicate is true (not false or null).\<close>

definition and_sep :: string where
  "and_sep = '' AND ''"

definition or_sep :: string where
  "or_sep = '' OR ''"

inductive sql_prim and sql_and and sql_or for atomic :: "string \<Rightarrow> bool" and sem :: "string \<Rightarrow> bool" where
  atom: "atomic s \<Longrightarrow> sql_prim atomic sem s (sem s)"
| paren: "sql_or atomic sem s p \<Longrightarrow> sql_prim atomic sem (''('' @ s @ '')'') p"
| prim: "sql_prim atomic sem s p \<Longrightarrow> sql_and atomic sem s p"
| conj: "sql_and atomic sem s p \<Longrightarrow> sql_prim atomic sem t q \<Longrightarrow> sql_and atomic sem (s @ and_sep @ t) (p \<and> q)"
| conjs: "sql_and atomic sem s p \<Longrightarrow> sql_or atomic sem s p"
| disj: "sql_or atomic sem s p \<Longrightarrow> sql_and atomic sem t q \<Longrightarrow> sql_or atomic sem (s @ or_sep @ t) (p \<or> q)"

lemma conj_and:
  assumes "sql_and atomic sem t q" "sql_and atomic sem s p"
  shows "sql_and atomic sem (s @ and_sep @ t) (p \<and> q)"
proof -
  have "(sql_prim atomic sem u r \<longrightarrow> True) \<and> (sql_and atomic sem u r \<longrightarrow> sql_and atomic sem (s @ and_sep @ u) (p \<and> r)) \<and> (sql_or atomic sem u r \<longrightarrow> True)"
    for u r
  proof (induction rule: sql_prim_sql_and_sql_or.induct)
    case (conj t q u r)
    from sql_prim_sql_and_sql_or.conj [OF this(2,3)] show ?case by (simp add: conj_assoc)
  qed (use assms(2) in \<open>auto intro: sql_prim_sql_and_sql_or.conj\<close>)
  with assms(1) show ?thesis by blast
qed

lemma render_rest_simps:
  "co_glue c = ''AND'' \<Longrightarrow> render_rest (c # cs) = and_sep @ co_sql c @ render_rest cs"
  "co_glue c = ''OR'' \<Longrightarrow> render_rest (c # cs) = or_sep @ co_sql c @ render_rest cs"
  by (simp_all add: and_sep_def or_sep_def)

declare render_rest.simps(2) [simp del]

text \<open>The meaning of a run of conditions.\<close>

definition cond_sem :: "(string \<Rightarrow> bool) \<Rightarrow> Condition \<Rightarrow> bool" where
  "cond_sem sem c = sem (co_sql c)"

fun rest_true :: "(Condition \<Rightarrow> bool) \<Rightarrow> bool \<Rightarrow> Condition list \<Rightarrow> bool" where
  "rest_true P a [] = a"
| "rest_true P a (c # cs) = (if co_glue c = ''OR'' then a \<or> rest_true P (P c) cs else rest_true P (a \<and> P c) cs)"

fun run_true :: "(Condition \<Rightarrow> bool) \<Rightarrow> Condition list \<Rightarrow> bool" where
  "run_true P [] = True"
| "run_true P (c # cs) = rest_true P (P c) cs"

definition glued :: "Condition list \<Rightarrow> bool" where
  "glued cs \<longleftrightarrow> (\<forall>c\<in>set cs. co_glue c = ''AND'' \<or> co_glue c = ''OR'')"

lemma glued_simps [simp]: "glued []" "glued (c # cs) \<longleftrightarrow> (co_glue c = ''AND'' \<or> co_glue c = ''OR'') \<and> glued cs" "glued (cs @ ds) \<longleftrightarrow> glued cs \<and> glued ds"
  by (auto simp: glued_def)

lemma rest_or:
  assumes "sql_or atomic sem s b" "sql_and atomic sem t a" "\<forall>c\<in>set cs. atomic (co_sql c)" "glued cs"
  shows "sql_or atomic sem (s @ or_sep @ t @ render_rest cs) (b \<or> rest_true (cond_sem sem) a cs)"
  using assms
proof (induction cs arbitrary: s t a b)
  case Nil
  then show ?case by (simp add: sql_prim_sql_and_sql_or.disj)
next
  case (Cons c cs)
  have c: "sql_prim atomic sem (co_sql c) (cond_sem sem c)" using Cons.prems(3) by (auto simp: cond_sem_def intro: sql_prim_sql_and_sql_or.atom)
  show ?case
  proof (cases "co_glue c = ''OR''")
    case True
    have "sql_or atomic sem ((s @ or_sep @ t) @ or_sep @ co_sql c @ render_rest cs) ((b \<or> a) \<or> rest_true (cond_sem sem) (cond_sem sem c) cs)"
      using Cons.prems c by (intro Cons.IH sql_prim_sql_and_sql_or.disj) (auto intro: sql_prim_sql_and_sql_or.prim)
    with True show ?thesis by (simp add: disj_assoc render_rest_simps)
  next
    case False
    have "sql_or atomic sem (s @ or_sep @ (t @ and_sep @ co_sql c) @ render_rest cs) (b \<or> rest_true (cond_sem sem) (a \<and> cond_sem sem c) cs)"
      using Cons.prems c by (intro Cons.IH sql_prim_sql_and_sql_or.conj) auto
    with False Cons.prems(4) show ?thesis by (simp add: render_rest_simps)
  qed
qed

lemma rest_parses:
  assumes "sql_and atomic sem t a" "\<forall>c\<in>set cs. atomic (co_sql c)" "glued cs"
  shows "sql_or atomic sem (t @ render_rest cs) (rest_true (cond_sem sem) a cs)"
  using assms
proof (induction cs arbitrary: t a)
  case Nil
  then show ?case by (simp add: sql_prim_sql_and_sql_or.conjs)
next
  case (Cons c cs)
  have c: "sql_prim atomic sem (co_sql c) (cond_sem sem c)" using Cons.prems(2) by (auto simp: cond_sem_def intro: sql_prim_sql_and_sql_or.atom)
  show ?case
  proof (cases "co_glue c = ''OR''")
    case True
    with rest_or [OF sql_prim_sql_and_sql_or.conjs [OF Cons.prems(1)] sql_prim_sql_and_sql_or.prim [OF c], of cs] Cons.prems
    show ?thesis by (simp add: render_rest_simps)
  next
    case False
    with Cons.IH [OF sql_prim_sql_and_sql_or.conj [OF Cons.prems(1) c]] Cons.prems show ?thesis by (simp add: render_rest_simps)
  qed
qed

lemma run_parses:
  assumes "cs \<noteq> []" "\<forall>c\<in>set cs. atomic (co_sql c)" "glued cs"
  shows "sql_or atomic sem (render_conditions cs) (run_true (cond_sem sem) cs)"
proof (cases cs)
  case (Cons c ds)
  with assms rest_parses [of atomic sem "co_sql c" _ ds] show ?thesis by (simp add: cond_sem_def sql_prim_sql_and_sql_or.prim sql_prim_sql_and_sql_or.atom)
qed (use assms in simp)

text \<open>Without \<^verbatim>\<open>OR\<close>.\<close>

definition and_only :: "Condition list \<Rightarrow> bool" where
  "and_only cs \<longleftrightarrow> (\<forall>c\<in>set cs. co_glue c = ''AND'')"

lemma rest_and:
  assumes "sql_and atomic sem t a" "\<forall>c\<in>set cs. atomic (co_sql c)" "and_only cs"
  shows "sql_and atomic sem (t @ render_rest cs) (rest_true (cond_sem sem) a cs)"
  using assms
proof (induction cs arbitrary: t a)
  case (Cons c cs)
  then have "sql_prim atomic sem (co_sql c) (cond_sem sem c)" by (auto simp: cond_sem_def intro: sql_prim_sql_and_sql_or.atom)
  with Cons.IH [OF sql_prim_sql_and_sql_or.conj [OF Cons.prems(1) this]] Cons.prems show ?case by (simp add: and_only_def render_rest_simps)
qed simp

lemma rest_true_and: "and_only cs \<Longrightarrow> rest_true P a cs \<longleftrightarrow> a \<and> (\<forall>c\<in>set cs. P c)"
  by (induction cs arbitrary: a) (auto simp: and_only_def)

lemma run_true_and: "and_only (drop 1 cs) \<Longrightarrow> run_true P cs \<longleftrightarrow> (\<forall>c\<in>set cs. P c)"
  by (cases cs) (simp_all add: rest_true_and)

lemma group_parses:
  assumes "cs \<noteq> []" "\<forall>c\<in>set cs. atomic (co_sql c)" "glued cs"
  shows "sql_and atomic sem (group_or cs) (run_true (cond_sem sem) cs)"
proof (cases "\<exists>c\<in>set (drop 1 cs). co_glue c = ''OR''")
  case True
  with sql_prim_sql_and_sql_or.prim [OF sql_prim_sql_and_sql_or.paren [OF run_parses [OF assms]]] show ?thesis by (simp add: group_or_def)
next
  case False
  obtain c ds where cs: "cs = c # ds" using assms(1) by (cases cs) auto
  with False assms(3) have "and_only ds" by (auto simp: and_only_def glued_def)
  with rest_and [of atomic sem "co_sql c" _ ds] cs assms(2) False show ?thesis
    by (simp add: group_or_def cond_sem_def sql_prim_sql_and_sql_or.prim sql_prim_sql_and_sql_or.atom)
qed

text \<open>The clause of a builder: what the caller asks, and what the scopes ask.\<close>

lemma clause_parses:
  assumes cs: "qb_conditions b = caller @ scoped" "\<forall>c\<in>set caller. co_scope_type c = None" "\<forall>c\<in>set scoped. co_scope_type c \<noteq> None"
    and ok: "\<forall>c\<in>set (qb_conditions b). atomic (co_sql c)" "glued (qb_conditions b)"
  shows "case render_where_clause b of None \<Rightarrow> qb_conditions b = []
    | Some s \<Rightarrow> sql_or atomic sem s (run_true (cond_sem sem) caller \<and> run_true (cond_sem sem) scoped)"
proof -
  have f: "filter (\<lambda>c. co_scope_type c = None) (qb_conditions b) = caller" "filter (\<lambda>c. co_scope_type c \<noteq> None) (qb_conditions b) = scoped"
    using cs by (auto simp: filter_id_conv filter_empty_conv)
  show ?thesis
  proof (cases "caller = [] \<or> scoped = []")
    case True
    then have "render_where_clause b = (if qb_conditions b = [] then None else Some (render_conditions (qb_conditions b)))"
      unfolding render_where_clause_def f by (auto simp: Let_def)
    with True run_parses [OF _ ok] cs(1) show ?thesis by auto
  next
    case False
    with cs(1) ok have "sql_and atomic sem (group_or caller @ and_sep @ group_or scoped)
        (run_true (cond_sem sem) caller \<and> run_true (cond_sem sem) scoped)"
      by (intro conj_and group_parses) auto
    moreover have "render_where_clause b = Some (group_or caller @ and_sep @ group_or scoped)"
      using False cs(1) unfolding render_where_clause_def f and_sep_def by (simp add: Let_def)
    ultimately show ?thesis by (simp add: sql_prim_sql_and_sql_or.conjs)
  qed
qed

section \<open>What the calls add\<close>

text \<open>A call of a closure appends conditions and bound values, and nothing else that matters to a clause.\<close>

definition grows :: "string set \<Rightarrow> QueryBuilder \<Rightarrow> QueryBuilder \<Rightarrow> bool" where
  "grows G b b' \<longleftrightarrow>
     (\<exists>cs. qb_conditions b' = qb_conditions b @ cs \<and> (\<forall>c\<in>set cs. co_scope_type c = qb_current_scope b \<and> co_glue c \<in> G))
     \<and> (\<exists>vs. qb_bindings b' = qb_bindings b @ vs)
     \<and> qb_current_scope b' = qb_current_scope b \<and> qb_bypassed_scopes b' = qb_bypassed_scopes b
     \<and> qb_soft_delete_guard b' = qb_soft_delete_guard b \<and> qb_global_scopes b' = qb_global_scopes b
     \<and> qb_global_scopes_applied b' = qb_global_scopes_applied b \<and> qb_global_scopes_bypassed b' = qb_global_scopes_bypassed b
     \<and> qb_lock b' = qb_lock b \<and> qb_joins b' = qb_joins b \<and> qb_table b' = qb_table b"

lemma grows_refl [simp]: "grows G b b"
  by (simp add: grows_def)

lemma grows_trans:
  assumes "grows G b b'" "grows G b' b''"
  shows "grows G b b''"
proof -
  obtain cs vs cs' vs' where "qb_conditions b' = qb_conditions b @ cs" "qb_bindings b' = qb_bindings b @ vs"
    "qb_conditions b'' = qb_conditions b' @ cs'" "qb_bindings b'' = qb_bindings b' @ vs'"
    "\<forall>c\<in>set (cs @ cs'). co_scope_type c = qb_current_scope b \<and> co_glue c \<in> G"
    using assms unfolding grows_def by (auto simp: ball_Un)
  then show ?thesis using assms unfolding grows_def by simp
qed

lemma grows_simps [simp]:
  "grows G b (push_binding v b)" "grows G b (select_op cs b)" "grows G b (order_by c d b)" "grows G b (limit_op n b)" "grows G b (offset_op n b)"
  by (simp_all add: grows_def push_binding_def select_op_def order_by_def limit_op_def offset_op_def)

lemma grows_push [simp]: "glue \<in> G \<Longrightarrow> grows G b (push_condition glue s b)"
  by (simp add: grows_def push_condition_def condition_new_def)

lemma grows_then: "grows G b b' \<Longrightarrow> glue \<in> G \<Longrightarrow> grows G b (push_condition glue s b')"
  by (rule grows_trans [OF _ grows_push])

lemma grows_bind_list: "grows G b (snd (bind_list vs b))"
proof (induction vs arbitrary: b)
  case (Cons v vs)
  have "snd (bind_list (v # vs) b) = snd (bind_list vs (push_binding v b))" by (simp add: Let_def case_prod_unfold)
  with grows_trans [OF grows_simps(1) Cons.IH, of b v] show ?case by simp
qed simp

lemma grows_bind_rows: "grows G b (snd (bind_rows n rows b))"
proof (induction rows arbitrary: b)
  case (Cons row rows)
  have "snd (bind_rows n (row # rows) b) = snd (bind_rows n rows (if length row \<noteq> n then b else snd (bind_list row b)))"
    by (simp add: case_prod_unfold)
  with grows_trans [OF grows_bind_list Cons.IH, of b row] Cons.IH [of b] show ?case by simp
qed simp

fun op_glue :: "where_op \<Rightarrow> string" where
  "op_glue (OrWhereEq c v) = ''OR''"
| "op_glue _ = ''AND''"

lemma grows_op: "op_glue x \<in> G \<Longrightarrow> grows G b (run_op x b)"
  by (cases x)
    (simp_all add: where_eq_def or_where_eq_def where_binary_def where_raw_def where_null_def where_not_null_def cursor_op_def Let_def
      where_in_def where_in_rows_def case_prod_unfold grows_then grows_bind_list grows_bind_rows)

lemma grows_ops: "(\<And>x. x \<in> set ops \<Longrightarrow> op_glue x \<in> G) \<Longrightarrow> grows G b (run_ops ops b)"
proof (induction ops arbitrary: b)
  case (Cons x ops)
  have "grows G b (run_op x b)" by (rule grows_op) (simp add: Cons.prems)
  moreover have "grows G (run_op x b) (run_ops ops (run_op x b))" by (rule Cons.IH) (simp add: Cons.prems)
  ultimately show ?case using grows_trans by simp
qed simp

lemma op_glue_any: "op_glue x \<in> {''AND'', ''OR''}"
  by (cases x) auto

text \<open>An equality finds its value.\<close>

definition bound_eq :: "string \<Rightarrow> Value \<Rightarrow> string option \<Rightarrow> QueryBuilder \<Rightarrow> bool" where
  "bound_eq column v tag b \<longleftrightarrow>
     (\<exists>n<length (qb_bindings b). qb_bindings b ! n = v
        \<and> (\<exists>c\<in>set (qb_conditions b). co_scope_type c = tag \<and> co_sql c = column @ '' = $'' @ show_nat (Suc n)))"

lemma bound_eq_mono:
  assumes "bound_eq column v tag b" "qb_conditions b' = qb_conditions b @ cs" "qb_bindings b' = qb_bindings b @ vs"
  shows "bound_eq column v tag b'"
proof -
  obtain n c where "n < length (qb_bindings b)" "qb_bindings b ! n = v" "c \<in> set (qb_conditions b)" "co_scope_type c = tag"
    "co_sql c = column @ '' = $'' @ show_nat (Suc n)" using assms(1) unfolding bound_eq_def by blast
  then show ?thesis unfolding bound_eq_def assms(2,3)
    by (intro exI [where x = n] conjI bexI [where x = c]) (simp_all add: nth_append)
qed

lemma bound_eq_grows: "bound_eq column v tag b \<Longrightarrow> grows G b b' \<Longrightarrow> bound_eq column v tag b'"
  unfolding grows_def using bound_eq_mono by blast

lemma where_eq_bound: "bound_eq column v (qb_current_scope b) (where_eq column v b)"
  unfolding bound_eq_def
  by (rule exI [where x = "length (qb_bindings b)"])
    (simp add: where_eq_def push_binding_def push_condition_def condition_new_def dollar_def Let_def)

lemma ops_bound:
  "WhereEq column v \<in> set ops \<Longrightarrow> bound_eq column v (qb_current_scope b) (run_ops ops b)"
proof (induction ops arbitrary: b)
  case (Cons x ops)
  have g: "grows {''AND'', ''OR''} b (run_op x b)" by (rule grows_op [OF op_glue_any])
  then have scope: "qb_current_scope (run_op x b) = qb_current_scope b" by (simp add: grows_def)
  show ?case
  proof (cases "x = WhereEq column v")
    case True
    then have "bound_eq column v (qb_current_scope b) (run_op x b)" by (simp add: where_eq_bound)
    from bound_eq_grows [OF this grows_ops [OF op_glue_any]] show ?thesis by simp
  next
    case False
    with Cons.IH [of "run_op x b"] Cons.prems scope show ?thesis by simp
  qed
qed simp

section \<open>Resolving the scopes\<close>

definition scope_glues :: "string set \<Rightarrow> scope_obj \<Rightarrow> bool" where
  "scope_glues G s \<longleftrightarrow> (case s of SoftDeletesScope \<Rightarrow> ''AND'' \<in> G | CallbackScope _ ops \<Rightarrow> \<forall>x\<in>set ops. op_glue x \<in> G)"

text \<open>Conditions and values that scopes have appended.\<close>

definition scoped_onto :: "string set \<Rightarrow> QueryBuilder \<Rightarrow> QueryBuilder \<Rightarrow> bool" where
  "scoped_onto G b b' \<longleftrightarrow>
     (\<exists>cs. qb_conditions b' = qb_conditions b @ cs \<and> (\<forall>c\<in>set cs. co_scope_type c \<noteq> None \<and> co_glue c \<in> G))
     \<and> (\<exists>vs. qb_bindings b' = qb_bindings b @ vs) \<and> qb_bypassed_scopes b' = qb_bypassed_scopes b
     \<and> (qb_soft_delete_guard b' = Some True \<longleftrightarrow> qb_soft_delete_guard b = Some True)
     \<and> qb_lock b' = qb_lock b \<and> qb_joins b' = qb_joins b \<and> qb_table b' = qb_table b"

lemma scoped_onto_refl [simp]: "scoped_onto G b b"
  by (simp add: scoped_onto_def)

lemma scoped_onto_trans:
  assumes "scoped_onto G b b'" "scoped_onto G b' b''"
  shows "scoped_onto G b b''"
proof -
  obtain cs vs cs' vs' where "qb_conditions b' = qb_conditions b @ cs" "qb_bindings b' = qb_bindings b @ vs"
    "qb_conditions b'' = qb_conditions b' @ cs'" "qb_bindings b'' = qb_bindings b' @ vs'"
    "\<forall>c\<in>set (cs @ cs'). co_scope_type c \<noteq> None \<and> co_glue c \<in> G"
    using assms unfolding scoped_onto_def by (auto simp: ball_Un)
  then show ?thesis using assms unfolding scoped_onto_def by simp
qed

text \<open>What a scope asks is asked by the builder.\<close>

definition asked :: "GlobalScopeEntry \<Rightarrow> QueryBuilder \<Rightarrow> bool" where
  "asked e b \<longleftrightarrow>
     (case ge_scope e of
        SoftDeletesScope \<Rightarrow> qb_soft_delete_guard b = Some True \<or> (\<exists>c\<in>set (qb_conditions b). co_sql c = deleted_at_null)
      | CallbackScope _ ops \<Rightarrow> \<forall>column v. WhereEq column v \<in> set ops \<longrightarrow> bound_eq column v (Some (ge_type_id e)) b)"

lemma asked_later: "asked e b \<Longrightarrow> scoped_onto G b b' \<Longrightarrow> asked e b'"
  unfolding asked_def scoped_onto_def using bound_eq_mono [where b = b and b' = b'] by (cases "ge_scope e") auto

lemma scope_apply_laws:
  assumes "scope_glues G (ge_scope e)"
  shows "scoped_onto G b (scope_obj_apply (ge_scope e) (b\<lparr>qb_current_scope := Some (ge_type_id e)\<rparr>))"
    "asked e (scope_obj_apply (ge_scope e) (b\<lparr>qb_current_scope := Some (ge_type_id e)\<rparr>))"
proof -
  let ?b = "b\<lparr>qb_current_scope := Some (ge_type_id e)\<rparr>"
  have "scoped_onto G b (scope_obj_apply (ge_scope e) ?b) \<and> asked e (scope_obj_apply (ge_scope e) ?b)"
  proof (cases "ge_scope e")
    case SoftDeletesScope
    with assms show ?thesis
      by (auto simp: scope_obj_apply_def apply_soft_delete_guard_def scoped_onto_def asked_def condition_new_def scope_glues_def)
  next
    case (CallbackScope i ops)
    with assms have "grows G ?b (run_ops ops ?b)" by (intro grows_ops) (auto simp: scope_glues_def)
    then have "scoped_onto G b (run_ops ops ?b)" by (fastforce simp: grows_def scoped_onto_def)
    with CallbackScope ops_bound [of _ _ ops ?b] show ?thesis by (simp add: scope_obj_apply_def asked_def)
  qed
  then show "scoped_onto G b (scope_obj_apply (ge_scope e) ?b)" "asked e (scope_obj_apply (ge_scope e) ?b)" by auto
qed

lemma entries_laws:
  assumes "\<And>e. e \<in> set es \<Longrightarrow> scope_glues G (ge_scope e)"
  shows "scoped_onto G b (apply_scope_entries es b)
    \<and> (\<forall>e\<in>set es. ge_type_id e \<notin> set (qb_bypassed_scopes b) \<longrightarrow> asked e (apply_scope_entries es b))"
  using assms
proof (induction es arbitrary: b)
  case (Cons e es)
  show ?case
  proof (cases "ge_type_id e \<in> set (qb_bypassed_scopes b)")
    case True
    with Cons.IH [of b] Cons.prems show ?thesis by simp
  next
    case False
    let ?b = "scope_obj_apply (ge_scope e) (b\<lparr>qb_current_scope := Some (ge_type_id e)\<rparr>)"
    have e: "scoped_onto G b ?b" "asked e ?b" using scope_apply_laws [where e = e and b = b] Cons.prems by auto
    have es: "scoped_onto G ?b (apply_scope_entries es ?b)"
      "\<And>x. x \<in> set es \<Longrightarrow> ge_type_id x \<notin> set (qb_bypassed_scopes ?b) \<Longrightarrow> asked x (apply_scope_entries es ?b)"
      using Cons.IH [of ?b] Cons.prems by auto
    moreover have "qb_bypassed_scopes ?b = qb_bypassed_scopes b" using e(1) by (simp add: scoped_onto_def)
    ultimately show ?thesis using False scoped_onto_trans [OF e(1) es(1)] asked_later [OF e(2) es(1)] by auto
  qed
qed simp


section \<open>Placeholders\<close>

text \<open>The placeholders of a text, in its order.\<close>

function dollar_refs :: "string \<Rightarrow> nat list" where
  "dollar_refs [] = []"
| "dollar_refs (c # s) =
     (if c = CHR ''$'' \<and> s \<noteq> [] \<and> is_digit (hd s) then digits_val (takeWhile is_digit s) # dollar_refs (dropWhile is_digit s)
      else dollar_refs s)"
  by pat_completeness auto
termination
  by (relation "measure length") (auto simp: less_Suc_eq_le length_dropWhile_le)

lemma while_sep:
  "\<not> P c \<Longrightarrow> takeWhile P (s @ c # b) = takeWhile P s" "\<not> P c \<Longrightarrow> dropWhile P (s @ c # b) = dropWhile P s @ c # b"
  by (induction s) simp_all

lemma dollar_refs_sep:
  "\<not> is_digit c \<Longrightarrow> c \<noteq> CHR ''$'' \<Longrightarrow> dollar_refs (a @ c # b) = dollar_refs a @ dollar_refs b"
proof (induction a rule: dollar_refs.induct)
  case (2 x s)
  then show ?case by (cases s) (auto simp: while_sep)
qed simp

lemma dollar_refs_plain: "CHR ''$'' \<notin> set a \<Longrightarrow> dollar_refs (a @ b) = dollar_refs b"
  by (induction a) auto

lemma dollar_refs_none: "CHR ''$'' \<notin> set a \<Longrightarrow> dollar_refs a = []"
  using dollar_refs_plain [of a "[]"] by simp

lemma dollar_refs_show: "dollar_refs (CHR ''$'' # show_nat n) = [n]"
proof -
  have "takeWhile is_digit (show_nat n) = show_nat n" "dropWhile is_digit (show_nat n) = []"
    using show_nat_digits by (auto simp: takeWhile_eq_all_conv)
  then show ?thesis by (simp only: dollar_refs.simps hd_show_nat show_nat_ne digits_val_show_nat simp_thms not_False_eq_True if_True)
qed

text \<open>The rewriting for MySQL has one mark for each.\<close>

lemma rewrite_marks: "count_list (rewrite_dollar_placeholders s) (CHR ''?'') = count_list s (CHR ''?'') + length (dollar_refs s)"
proof (induction s rule: rewrite_dollar_placeholders.induct)
  case (2 c s)
  have "count_list s (CHR ''?'') = count_list (takeWhile is_digit s @ dropWhile is_digit s) (CHR ''?'')" by simp
  also have "\<dots> = count_list (dropWhile is_digit s) (CHR ''?'')"
    unfolding count_list_append by (auto simp: count_list_0_iff is_digit_def dest: set_takeWhileD)
  finally show ?case using 2 by auto
qed simp

lemma dollar_refs_other [simp]: "c \<noteq> CHR ''$'' \<Longrightarrow> dollar_refs (c # s) = dollar_refs s"
  by simp

declare dollar_refs.simps(2) [simp del] and dollar_refs_show [simp]

text \<open>The placeholders of the parts.\<close>

abbreviation no_dollar :: "string \<Rightarrow> bool" where
  "no_dollar s \<equiv> CHR ''$'' \<notin> set s"

definition cond_refs :: "Condition list \<Rightarrow> nat list" where
  "cond_refs cs = concat (map (dollar_refs \<circ> co_sql) cs)"

lemma cond_refs_simps [simp]: "cond_refs [] = []" "cond_refs (c # cs) = dollar_refs (co_sql c) @ cond_refs cs" "cond_refs (cs @ ds) = cond_refs cs @ cond_refs ds"
  by (simp_all add: cond_refs_def)

lemma refs_before:
  assumes "r = [] \<or> hd r \<in> {CHR '' '', CHR '','', CHR '')''}"
  shows "dollar_refs (a @ r) = dollar_refs a @ dollar_refs r"
proof (cases r)
  case (Cons c s)
  with assms have "\<not> is_digit c" "c \<noteq> CHR ''$''" by (auto simp: is_digit_def)
  with dollar_refs_sep [of c a s] Cons show ?thesis by simp
qed simp

lemma hd_render_rest: "render_rest cs = [] \<or> hd (render_rest cs) = CHR '' ''"
  by (cases cs) (simp_all add: render_rest.simps(2))

lemma rest_refs: "glued cs \<Longrightarrow> dollar_refs (render_rest cs) = cond_refs cs"
proof (induction cs)
  case (Cons c cs)
  have g: "no_dollar ('' '' @ co_glue c @ '' '')" using Cons.prems by auto
  have "dollar_refs (render_rest (c # cs)) = dollar_refs (('' '' @ co_glue c @ '' '') @ co_sql c @ render_rest cs)"
    by (simp add: render_rest.simps(2))
  also have "\<dots> = dollar_refs (co_sql c) @ dollar_refs (render_rest cs)"
    unfolding dollar_refs_plain [OF g] by (rule refs_before) (use hd_render_rest in auto)
  finally show ?case using Cons by simp
qed simp

lemma run_refs: "glued cs \<Longrightarrow> dollar_refs (render_conditions cs) = cond_refs cs"
proof (cases cs)
  case (Cons c ds)
  assume "glued cs"
  moreover have "dollar_refs (co_sql c @ render_rest ds) = dollar_refs (co_sql c) @ dollar_refs (render_rest ds)"
    by (rule refs_before) (use hd_render_rest in auto)
  ultimately show ?thesis using Cons by (simp add: rest_refs)
qed simp

lemma group_refs: "glued cs \<Longrightarrow> dollar_refs (group_or cs) = cond_refs cs"
  using refs_before [of "'')''" "render_conditions cs"] by (simp add: group_or_def run_refs)

lemma clause_refs:
  assumes "qb_conditions b = caller @ scoped" "\<forall>c\<in>set caller. co_scope_type c = None" "\<forall>c\<in>set scoped. co_scope_type c \<noteq> None"
    "glued (qb_conditions b)" "render_where_clause b = Some s"
  shows "dollar_refs s = cond_refs (qb_conditions b)"
proof -
  have f: "filter (\<lambda>c. co_scope_type c = None) (qb_conditions b) = caller" "filter (\<lambda>c. co_scope_type c \<noteq> None) (qb_conditions b) = scoped"
    using assms(1-3) by (auto simp: filter_id_conv filter_empty_conv)
  show ?thesis
  proof (cases "caller = [] \<or> scoped = []")
    case True
    with assms(1,5) have "s = render_conditions (qb_conditions b)"
      unfolding render_where_clause_def f by (auto simp: Let_def split: if_splits)
    with run_refs assms(4) show ?thesis by simp
  next
    case False
    with assms(1,5) have s: "s = group_or caller @ '' AND '' @ group_or scoped"
      unfolding render_where_clause_def f by (auto simp: Let_def split: if_splits)
    have "dollar_refs s = dollar_refs (group_or caller) @ dollar_refs ('' AND '' @ group_or scoped)"
      unfolding s by (rule refs_before) simp
    also have "dollar_refs ('' AND '' @ group_or scoped) = dollar_refs (group_or scoped)"
      by (rule dollar_refs_plain) simp
    finally show ?thesis using assms(1,4) by (simp add: group_refs)
  qed
qed

lemma join_refs: "dollar_refs (sql_join '', '' ss) = concat (map dollar_refs ss)"
proof (induction "'', ''" ss rule: sql_join.induct)
  case (3 s t ss)
  have "dollar_refs (sql_join '', '' (s # t # ss)) = dollar_refs (s @ '', '' @ sql_join '', '' (t # ss))" by simp
  also have "\<dots> = dollar_refs s @ dollar_refs ('', '' @ sql_join '', '' (t # ss))" by (rule refs_before) simp
  also have "dollar_refs ('', '' @ sql_join '', '' (t # ss)) = dollar_refs (sql_join '', '' (t # ss))"
    by (rule dollar_refs_plain) simp
  finally show ?case using 3 by simp
qed simp_all

lemma plain_join: "(\<And>s. s \<in> set ss \<Longrightarrow> no_dollar s) \<Longrightarrow> no_dollar (sql_join '', '' ss)"
  by (induction "'', ''" ss rule: sql_join.induct) auto

section \<open>The calls number their values\<close>

definition aligned :: "QueryBuilder \<Rightarrow> bool" where
  "aligned b \<longleftrightarrow> cond_refs (qb_conditions b) = [1..<Suc (length (qb_bindings b))]
     \<and> (\<forall>c\<in>set (qb_columns b). no_dollar c) \<and> (\<forall>x\<in>set (qb_orders b). no_dollar (ob_column x))"

text \<open>The texts that a call takes over contain no dollar sign.\<close>

fun op_plain :: "where_op \<Rightarrow> bool" where
  "op_plain (Select cs) = (\<forall>c\<in>set cs. no_dollar c)"
| "op_plain (WhereEq c v) = no_dollar c"
| "op_plain (OrWhereEq c v) = no_dollar c"
| "op_plain (WhereBinary c v) = no_dollar c"
| "op_plain (WhereRaw s) = no_dollar s"
| "op_plain (WhereIn c vs) = no_dollar c"
| "op_plain (WhereInRows cs rows) = (\<forall>c\<in>set cs. no_dollar c)"
| "op_plain (WhereNull c) = no_dollar c"
| "op_plain (WhereNotNull c) = no_dollar c"
| "op_plain (OrderByOp c d) = no_dollar c"
| "op_plain (LimitOp n) = True"
| "op_plain (OffsetOp n) = True"
| "op_plain (CursorOp c v) = no_dollar c"

text \<open>A condition that names the values bound with it.\<close>

lemma aligned_push:
  assumes "aligned b" "qb_conditions b' = qb_conditions b" "qb_columns b' = qb_columns b" "qb_orders b' = qb_orders b"
    "qb_bindings b' = qb_bindings b @ vs" "dollar_refs s = [Suc (length (qb_bindings b))..<Suc (length (qb_bindings b) + length vs)]"
  shows "aligned (push_condition glue s b')"
proof -
  have "[1..<Suc (length (qb_bindings b))] @ [Suc (length (qb_bindings b))..<Suc (length (qb_bindings b) + length vs)]
      = [1..<Suc (length (qb_bindings b) + length vs)]"
    using upt_add_eq_append [of 1 "Suc (length (qb_bindings b))" "length vs"] by simp
  with assms show ?thesis by (simp add: aligned_def push_condition_def condition_new_def)
qed

lemma aligned_one:
  assumes "aligned b" "no_dollar t"
  shows "aligned (push_condition glue (t @ dollar (push_binding v b)) (push_binding v b))"
  by (rule aligned_push [OF assms(1), where vs = "[v]"])
    (simp_all add: push_binding_def dollar_def dollar_refs_plain [OF assms(2)] dollar_refs_show)

lemma aligned_none:
  assumes "aligned b" "no_dollar s"
  shows "aligned (push_condition glue s b)"
  by (rule aligned_push [OF assms(1), where vs = "[]"]) (simp_all add: dollar_refs_none [OF assms(2)])

lemma bind_list_spec:
  "bind_list vs b = (map (\<lambda>i. ''$'' @ show_nat i) [Suc (length (qb_bindings b))..<Suc (length (qb_bindings b) + length vs)],
     b\<lparr>qb_bindings := qb_bindings b @ vs\<rparr>)"
proof (induction vs arbitrary: b)
  case (Cons v vs)
  have "[Suc (length (qb_bindings b))..<Suc (length (qb_bindings b) + length (v # vs))]
      = Suc (length (qb_bindings b)) # [Suc (Suc (length (qb_bindings b)))..<Suc (Suc (length (qb_bindings b)) + length vs)]"
    by (simp add: upt_conv_Cons del: upt_Suc)
  then show ?case by (simp add: Let_def Cons.IH push_binding_def dollar_def del: upt_Suc)
qed simp

lemma bind_list_refs: "concat (map dollar_refs (fst (bind_list vs b))) = [Suc (length (qb_bindings b))..<Suc (length (qb_bindings b) + length vs)]"
  by (simp add: bind_list_spec dollar_refs_show comp_def)

lemma bind_rows_spec:
  "\<exists>vs. snd (bind_rows n rows b) = b\<lparr>qb_bindings := qb_bindings b @ vs\<rparr>
     \<and> concat (map dollar_refs (fst (bind_rows n rows b))) = [Suc (length (qb_bindings b))..<Suc (length (qb_bindings b) + length vs)]"
proof (induction rows arbitrary: b)
  case Nil
  show ?case by (rule exI [where x = "[]"]) simp
next
  case (Cons row rows)
  show ?case
  proof (cases "length row = n")
    case False
    with Cons.IH [of b] show ?thesis by simp
  next
    case True
    let ?b = "b\<lparr>qb_bindings := qb_bindings b @ row\<rparr>" and ?m = "length (qb_bindings b) + length row"
    obtain ps where ps: "bind_list row b = (ps, ?b)" "concat (map dollar_refs ps) = [Suc (length (qb_bindings b))..<Suc ?m]"
      using bind_list_refs [of row b] by (simp add: bind_list_spec)
    obtain ts b2 vs where ts: "bind_rows n rows ?b = (ts, b2)" "b2 = b\<lparr>qb_bindings := qb_bindings b @ row @ vs\<rparr>"
      "concat (map dollar_refs ts) = [Suc ?m..<Suc (?m + length vs)]"
      using Cons.IH [of ?b] by (cases "bind_rows n rows ?b") auto
    have t: "dollar_refs (''('' @ sql_join '', '' ps @ '')'') = [Suc (length (qb_bindings b))..<Suc ?m]"
      using refs_before [of "'')''" "sql_join '', '' ps"] by (simp add: join_refs ps(2))
    have "[Suc (length (qb_bindings b))..<Suc ?m] @ [Suc ?m..<Suc (?m + length vs)] = [Suc (length (qb_bindings b))..<Suc (?m + length vs)]"
      using upt_add_eq_append [of "Suc (length (qb_bindings b))" "Suc ?m" "length vs"] by simp
    with True ps(1) ts t show ?thesis by (intro exI [where x = "row @ vs"]) (simp add: add.assoc)
  qed
qed

lemma aligned_in:
  assumes "aligned b" "no_dollar c"
  shows "aligned (where_in c vs b)"
proof (cases "vs = []")
  case True
  have "aligned (push_condition ''AND'' ''1 = 0'' b)" by (rule aligned_none [OF assms(1)]) simp
  with True show ?thesis by (simp add: where_in_def)
next
  case False
  let ?b = "b\<lparr>qb_bindings := qb_bindings b @ vs\<rparr>"
  define ps where "ps = fst (bind_list vs b)"
  have ps: "bind_list vs b = (ps, ?b)" "ps \<noteq> []"
    using False by (simp_all add: ps_def bind_list_spec upt_eq_Nil_conv del: upt_Suc)
  have r: "concat (map dollar_refs ps) = [Suc (length (qb_bindings b))..<Suc (length (qb_bindings b) + length vs)]"
    unfolding ps_def by (rule bind_list_refs)
  have "dollar_refs (c @ '' IN ('' @ sql_join '', '' ps @ '')'') = concat (map dollar_refs ps)"
    using refs_before [of "'')''" "sql_join '', '' ps"] by (simp add: dollar_refs_plain [OF assms(2)] join_refs)
  with r have "aligned (push_condition ''AND'' (c @ '' IN ('' @ sql_join '', '' ps @ '')'') ?b)"
    by (intro aligned_push [OF assms(1), where vs = vs]) simp_all
  with ps show ?thesis by (simp add: where_in_def)
qed

lemma aligned_in_rows:
  assumes "aligned b" "\<And>c. c \<in> set cs \<Longrightarrow> no_dollar c"
  shows "aligned (where_in_rows cs rows b)"
proof -
  obtain ts b' vs where r: "bind_rows (length cs) rows b = (ts, b')" "b' = b\<lparr>qb_bindings := qb_bindings b @ vs\<rparr>"
    "concat (map dollar_refs ts) = [Suc (length (qb_bindings b))..<Suc (length (qb_bindings b) + length vs)]"
    using bind_rows_spec [of "length cs" rows b] by (cases "bind_rows (length cs) rows b") auto
  have none: "aligned (push_condition ''AND'' ''1 = 0'' b)" by (rule aligned_none [OF assms(1)]) simp
  show ?thesis
  proof (cases "cs = [] \<or> ts = []")
    case True
    have "vs = []" if "ts = []" using r(3) that by (simp add: eq_commute [of "[]"] upt_eq_Nil_conv del: upt_Suc)
    with True none r show ?thesis by (auto simp: where_in_rows_def)
  next
    case False
    have p: "no_dollar (''('' @ sql_join '', '' cs @ '') IN ('')" using plain_join [of cs] assms(2) by auto
    have "dollar_refs ((''('' @ sql_join '', '' cs @ '') IN ('') @ sql_join '', '' ts @ '')'') = concat (map dollar_refs ts)"
      unfolding dollar_refs_plain [OF p] using refs_before [of "'')''" "sql_join '', '' ts"] by (simp add: join_refs)
    with r have "aligned (push_condition ''AND'' (''('' @ sql_join '', '' cs @ '') IN ('' @ sql_join '', '' ts @ '')'') b')"
      by (intro aligned_push [OF assms(1), where vs = vs]) simp_all
    with False r(1) show ?thesis by (simp add: where_in_rows_def)
  qed
qed

lemma aligned_op:
  assumes "aligned b" "op_plain x"
  shows "aligned (run_op x b)"
proof (cases x)
  case (WhereEq c v)
  with aligned_one [OF assms(1), of "c @ '' = ''"] assms(2) show ?thesis by (simp add: where_eq_def Let_def)
next
  case (OrWhereEq c v)
  with aligned_one [OF assms(1), of "c @ '' = ''"] assms(2) show ?thesis by (simp add: or_where_eq_def Let_def)
next
  case (WhereBinary c bytes)
  with aligned_one [OF assms(1), of "''encode('' @ c @ '', '' @ squote @ ''hex'' @ squote @ '') = ''"] assms(2) show ?thesis
    by (simp add: where_binary_def Let_def squote_def)
next
  case (CursorOp c v)
  let ?op = "case (case find (\<lambda>x. ob_column x = c) (qb_orders (push_binding v b)) of Some x \<Rightarrow> ob_direction x | None \<Rightarrow> Asc) of Asc \<Rightarrow> ''>'' | Desc \<Rightarrow> ''<''"
  have "no_dollar (c @ '' '' @ ?op @ '' '')" using assms(2) CursorOp by (auto split: OrderDirection.splits)
  from aligned_one [OF assms(1) this] CursorOp show ?thesis by (simp add: cursor_op_def Let_def)
next
  case (WhereNull c)
  with aligned_none [OF assms(1), of "c @ '' IS NULL''"] assms(2) show ?thesis by (simp add: where_null_def)
next
  case (WhereNotNull c)
  with aligned_none [OF assms(1), of "c @ '' IS NOT NULL''"] assms(2) show ?thesis by (simp add: where_not_null_def)
next
  case (WhereRaw s)
  with aligned_none [OF assms(1), of s] assms(2) show ?thesis by (simp add: where_raw_def)
next
  case (WhereIn c vs)
  with aligned_in [OF assms(1)] assms(2) show ?thesis by simp
next
  case (WhereInRows cs rows)
  with aligned_in_rows [OF assms(1)] assms(2) show ?thesis by simp
qed (use assms in \<open>simp_all add: select_op_def order_by_def limit_op_def offset_op_def aligned_def\<close>)

lemma aligned_ops: "aligned b \<Longrightarrow> (\<And>x. x \<in> set ops \<Longrightarrow> op_plain x) \<Longrightarrow> aligned (run_ops ops b)"
  by (induction ops arbitrary: b) (simp_all add: aligned_op)

definition scope_plain :: "scope_obj \<Rightarrow> bool" where
  "scope_plain s \<longleftrightarrow> (case s of SoftDeletesScope \<Rightarrow> True | CallbackScope _ ops \<Rightarrow> \<forall>x\<in>set ops. op_plain x)"

lemma aligned_current [simp]: "aligned (b\<lparr>qb_current_scope := t\<rparr>) = aligned b"
  by (simp add: aligned_def)

lemma aligned_scope:
  assumes "aligned b" "scope_plain s"
  shows "aligned (scope_obj_apply s b)"
proof (cases s)
  case SoftDeletesScope
  have "dollar_refs deleted_at_null = []" by (rule dollar_refs_none) (simp add: deleted_at_null_def)
  with assms(1) SoftDeletesScope show ?thesis
    by (auto simp: scope_obj_apply_def apply_soft_delete_guard_def aligned_def condition_new_def)
next
  case (CallbackScope i ops)
  with assms show ?thesis by (auto simp: scope_obj_apply_def scope_plain_def intro: aligned_ops)
qed

lemma aligned_entries: "aligned b \<Longrightarrow> (\<And>e. e \<in> set es \<Longrightarrow> scope_plain (ge_scope e)) \<Longrightarrow> aligned (apply_scope_entries es b)"
  by (induction es arbitrary: b) (simp_all add: aligned_scope)

lemma tail_plain:
  assumes "\<And>x. x \<in> set (qb_orders b) \<Longrightarrow> no_dollar (ob_column x)"
  shows "no_dollar (tail_part b)" "tail_part b = [] \<or> hd (tail_part b) = CHR '' ''"
proof -
  have "no_dollar (order_parts b)" unfolding order_parts_def
    by (rule plain_join) (use assms in \<open>auto simp: direction_str_def split: OrderDirection.splits\<close>)
  moreover have "no_dollar (show_nat n)" for n using show_nat_digits [of "CHR ''$''" n] by (auto simp: is_digit_def)
  ultimately show "no_dollar (tail_part b)" by (auto simp: tail_part_def split: option.splits)
  show "tail_part b = [] \<or> hd (tail_part b) = CHR '' ''" by (auto simp: tail_part_def split: option.splits)
qed

lemma where_part_refs: "dollar_refs (where_part c) = (case c of None \<Rightarrow> [] | Some s \<Rightarrow> dollar_refs s)"
  using dollar_refs_plain [of "'' WHERE ''"] by (cases c) (simp_all add: where_part_def)

lemma select_refs:
  assumes a: "aligned b" and b: "no_dollar (qb_table b)" "qb_joins b = []" "qb_lock b = None"
    and w: "\<And>s. render_where_clause b = Some s \<Longrightarrow> dollar_refs s = cond_refs (qb_conditions b)"
  shows "\<exists>sql. render_sql dl b = Inr sql \<and> dollar_refs sql = [1..<Suc (length (qb_bindings b))]"
proof -
  let ?cols = "if qb_columns b = [] then ''*'' else sql_join '', '' (qb_columns b)"
  let ?head = "''SELECT '' @ ?cols @ '' FROM '' @ qb_table b @ joins_part b" and ?where = "where_part (render_where_clause b)"
  have tail: "no_dollar (tail_part b)" "tail_part b = [] \<or> hd (tail_part b) = CHR '' ''"
    by (rule tail_plain; use a in \<open>simp add: aligned_def\<close>)+
  have cols: "no_dollar ?cols" using plain_join [of "qb_columns b"] a by (auto simp: aligned_def)
  then have "no_dollar ?head" using b by (auto simp: joins_part_def)
  then have "dollar_refs (?head @ ?where @ tail_part b) = dollar_refs (?where @ tail_part b)" by (rule dollar_refs_plain)
  also have "\<dots> = dollar_refs ?where @ dollar_refs (tail_part b)" by (rule refs_before) (use tail(2) in auto)
  also have "\<dots> = cond_refs (qb_conditions b)"
    using w dollar_refs_none [OF tail(1)]
    by (cases "render_where_clause b") (auto simp: where_part_refs render_where_clause_def Let_def split: if_splits)
  finally have "dollar_refs (?head @ ?where @ tail_part b) = [1..<Suc (length (qb_bindings b))]" using a by (simp add: aligned_def)
  then show ?thesis using b(3) by (simp add: render_sql_def Let_def)
qed


section \<open>Examples\<close>

text \<open>A caller who asks for \<^verbatim>\<open>a = 1 OR b = 2\<close> of a table with soft deletes and tenants.\<close>

definition demo_scopes :: "GlobalScopeEntry list" where
  "demo_scopes = [scope_entry_new SOFT_DELETES SoftDeletesScope,
     scope_entry_new ''TenantScope'' (CallbackScope ''tenant'' [WhereEq ''tenant_id'' (VInt 7)])]"

definition demo_ops :: "where_op list" where
  "demo_ops = [WhereEq ''a'' (VInt 1), OrWhereEq ''b'' (VInt 2)]"

definition demo_query :: QueryBuilder where
  "demo_query = with_global_scopes demo_scopes (run_ops demo_ops (qb_of_table ''users''))"

lemma show_small: "show_nat (Suc 0) = ''1''" "show_nat (Suc (Suc 0)) = ''2''" "show_nat (Suc (Suc (Suc 0))) = ''3''"
  by code_simp+

lemmas demo_query_simps = demo_query_def demo_scopes_def demo_ops_def qb_of_table_def qb_default_def with_global_scopes_def where_eq_def
  or_where_eq_def where_null_def where_raw_def push_binding_def push_condition_def condition_new_def dollar_def Let_def resolved_def scope_obj_apply_def
  apply_soft_delete_guard_def scope_entry_new_def scope_obj_id_def SOFT_DELETES_def deleted_at_null_def render_where_clause_def
  where_clause_def group_or_def render_rest.simps(2) show_small

lemma demo_clause:
  "where_clause demo_query = Some ''(a = $1 OR b = $2) AND deleted_at IS NULL AND tenant_id = $3''"
  by (simp add: demo_query_simps)

lemma demo_hypotheses:
  "e \<in> set demo_scopes \<Longrightarrow> scope_glues {''AND''} (ge_scope e)" "e \<in> set demo_scopes \<Longrightarrow> scope_plain (ge_scope e)"
  "c \<in> set (qb_conditions demo_query) \<Longrightarrow> co_sql c \<noteq> deleted_at_null" "x \<in> set demo_ops \<Longrightarrow> op_plain x"
  by (auto simp: demo_query_simps scope_glues_def scope_plain_def)



section \<open>Where the guards fail\<close>

text \<open>The three hypotheses on the guards are needed. Two scopes share one run of conditions, so the \<^verbatim>\<open>OR\<close> of one
  opens the other; a raw fragment is not put in parentheses; and the soft-delete scope takes a condition of the caller for
  its own guard, whatever it is joined with.\<close>

lemma scope_or_opens_scope:
  "where_clause (with_global_scopes [scope_entry_new ''Shared'' (CallbackScope ''shared'' [WhereEq ''owner'' (VInt 1), OrWhereEq ''shared'' (VBool True)]),
      scope_entry_new SOFT_DELETES SoftDeletesScope] (qb_of_table ''files''))
   = Some ''owner = $1 OR shared = $2 AND deleted_at IS NULL''"
  by (simp add: demo_query_simps)

lemma raw_or_opens_scope:
  "where_clause (with_global_scopes [scope_entry_new SOFT_DELETES SoftDeletesScope] (run_ops [WhereRaw ''a = 1 OR b = 2''] (qb_of_table ''users'')))
   = Some ''a = 1 OR b = 2 AND deleted_at IS NULL''"
  by (simp add: demo_query_simps)

lemma caller_guard_opens_scope:
  "where_clause (with_global_scopes [scope_entry_new SOFT_DELETES SoftDeletesScope]
      (run_ops [WhereNull ''deleted_at'', OrWhereEq ''b'' (VInt 2)] (qb_of_table ''users'')))
   = Some ''deleted_at IS NULL OR b = $1''"
  by (simp add: demo_query_simps)

text \<open>The windows of \<open>chunk_by\<close> share their bounds, which \<^verbatim>\<open>BETWEEN\<close> includes.\<close>

lemma chunk_windows_overlap: "chunk_windows 0 2 4 = [(0, 2), (2, 4)]"
  by (simp add: chunk_windows.simps)

text \<open>The template of an update uses the first value both for its first column and for the key.\<close>

lemma update_sql_refs: "dollar_refs (update_sql ''users'' [''name = $1''] None) = [1, 1]"
  by code_simp

text \<open>The display form replaces the placeholders one after the other, and \<^verbatim>\<open>$1\<close> inside \<^verbatim>\<open>$10\<close>.\<close>

lemma raw_sql_prefix: "inline_values 0 [VInt 7] ''a = $10'' = ''a = 70''"
  by code_simp

text \<open>Stripping the conditions of a resolved scope leaves its values behind.\<close>

lemma stripped_scope_keeps_values:
  "where_clause (without_global_scopes (resolved (with_global_scopes [scope_entry_new ''TenantScope'' (CallbackScope ''tenant'' [WhereEq ''tenant_id'' (VInt 7)])]
      (qb_of_table ''users'')))) = None"
  "resolved_bindings (without_global_scopes (resolved (with_global_scopes [scope_entry_new ''TenantScope'' (CallbackScope ''tenant'' [WhereEq ''tenant_id'' (VInt 7)])]
      (qb_of_table ''users'')))) = [VInt 7]"
  by (simp_all add: demo_query_simps without_global_scopes_def resolved_bindings_def)

end
