(* ===== verification/Migration.thy ===== *)
theory Migration
  imports Orm
begin

text \<open>
  The migration runner: \<^verbatim>\<open>rustasea-orm/src/migration.rs\<close>, the teardown of
  \<^verbatim>\<open>migration/fresh.rs\<close>, the seeders of \<^verbatim>\<open>migration/traits.rs\<close>, the guard of
  \<^verbatim>\<open>migration_guard.rs\<close> and \<^verbatim>\<open>transaction\<close> of \<^verbatim>\<open>execution.rs\<close>.

  A database is its tracking tables and the rest of it. The engine that executes a script is a parameter, the
  catalogue of table names another; a transaction restores the database when its body fails (SQLite, Postgres).
\<close>

section \<open>Data\<close>

record MigrationRecord =
  mr_name :: string
  mr_batch :: int
  mr_executed_at :: string

record 'd mig_db =
  md_tables :: "string \<rightharpoonup> MigrationRecord list"
  md_schema :: 'd

type_synonym 'd engine = "string \<Rightarrow> 'd mig_db \<Rightarrow> OrmError + 'd mig_db"

record migration =
  mg_name :: string
  mg_up :: "OrmError + string"
  mg_down :: "OrmError + string"

text \<open>The default of \<^verbatim>\<open>down\<close>.\<close>

definition irreversible_down :: "string \<Rightarrow> OrmError + string" where
  "irreversible_down name = Inl (Migration (Irreversible name))"

record seeder =
  sd_name :: string
  sd_sql :: "OrmError + string"

record Migrator =
  mi_migrations :: "migration list"
  mi_seeders :: "seeder list"
  mi_table :: "string option"

section \<open>Registration\<close>

definition MIGRATIONS_TABLE :: string where
  "MIGRATIONS_TABLE = ''migrations''"

definition migrator_new :: Migrator where
  "migrator_new = \<lparr>mi_migrations = [], mi_seeders = [], mi_table = None\<rparr>"

definition with_migrations_table :: "string \<Rightarrow> Migrator \<Rightarrow> Migrator" where
  "with_migrations_table table mg = (if trim table \<noteq> [] then mg\<lparr>mi_table := Some table\<rparr> else mg)"

definition migrations_table :: "Migrator \<Rightarrow> string" where
  "migrations_table mg = (case mi_table mg of Some t \<Rightarrow> t | None \<Rightarrow> MIGRATIONS_TABLE)"

definition add_migration :: "migration \<Rightarrow> Migrator \<Rightarrow> Migrator" where
  "add_migration m mg = mg\<lparr>mi_migrations := mi_migrations mg @ [m]\<rparr>"

definition add_seeder :: "seeder \<Rightarrow> Migrator \<Rightarrow> Migrator" where
  "add_seeder s mg = mg\<lparr>mi_seeders := mi_seeders mg @ [s]\<rparr>"

definition migrator_is_empty :: "Migrator \<Rightarrow> bool" where
  "migrator_is_empty mg \<longleftrightarrow> mi_migrations mg = []"

definition migration_names :: "Migrator \<Rightarrow> string list" where
  "migration_names mg = map mg_name (mi_migrations mg)"

fun collect_sql :: "('a \<Rightarrow> OrmError + string) \<Rightarrow> 'a list \<Rightarrow> OrmError + string list" where
  "collect_sql f [] = Inr []"
| "collect_sql f (x # xs) =
     (case f x of Inl e \<Rightarrow> Inl e | Inr s \<Rightarrow> (case collect_sql f xs of Inl e \<Rightarrow> Inl e | Inr ss \<Rightarrow> Inr (s # ss)))"

definition up_sql :: "Migrator \<Rightarrow> OrmError + string list" where
  "up_sql mg = collect_sql mg_up (mi_migrations mg)"

definition down_sql :: "Migrator \<Rightarrow> OrmError + string list" where
  "down_sql mg = collect_sql mg_down (rev (mi_migrations mg))"

section \<open>The tracking table\<close>

definition ensure_table :: "Migrator \<Rightarrow> 'd mig_db \<Rightarrow> 'd mig_db" where
  "ensure_table mg db =
     (case md_tables db (migrations_table mg) of
        Some _ \<Rightarrow> db
      | None \<Rightarrow> db\<lparr>md_tables := (md_tables db)(migrations_table mg \<mapsto> [])\<rparr>)"

definition tracked :: "Migrator \<Rightarrow> 'd mig_db \<Rightarrow> MigrationRecord list" where
  "tracked mg db = (case md_tables db (migrations_table mg) of Some rows \<Rightarrow> rows | None \<Rightarrow> [])"

definition applied_names :: "Migrator \<Rightarrow> 'd mig_db \<Rightarrow> string list" where
  "applied_names mg db = map mr_name (tracked mg db)"

definition max_batch :: "Migrator \<Rightarrow> 'd mig_db \<Rightarrow> int" where
  "max_batch mg db = (case map mr_batch (tracked mg db) of [] \<Rightarrow> 0 | b # bs \<Rightarrow> fold max bs b)"

definition batch_names :: "Migrator \<Rightarrow> int \<Rightarrow> 'd mig_db \<Rightarrow> string list" where
  "batch_names mg batch db = map mr_name (filter (\<lambda>r. mr_batch r = batch) (tracked mg db))"

text \<open>An insert fails when its key is taken or there is no table.\<close>

definition insert_row :: "Migrator \<Rightarrow> MigrationRecord \<Rightarrow> 'd mig_db \<Rightarrow> OrmError + 'd mig_db" where
  "insert_row mg r db =
     (case md_tables db (migrations_table mg) of
        None \<Rightarrow> Inl (Storage ''no such table'')
      | Some rows \<Rightarrow>
          if mr_name r \<in> set (map mr_name rows) then Inl (Storage ''UNIQUE constraint failed'')
          else Inr (db\<lparr>md_tables := (md_tables db)(migrations_table mg \<mapsto> rows @ [r])\<rparr>))"

definition delete_row_named :: "Migrator \<Rightarrow> string \<Rightarrow> 'd mig_db \<Rightarrow> OrmError + 'd mig_db" where
  "delete_row_named mg name db =
     (case md_tables db (migrations_table mg) of
        None \<Rightarrow> Inl (Storage ''no such table'')
      | Some rows \<Rightarrow> Inr (db\<lparr>md_tables := (md_tables db)(migrations_table mg \<mapsto> filter (\<lambda>r. mr_name r \<noteq> name) rows)\<rparr>))"

section \<open>Running and rolling back\<close>

definition transaction :: "('s \<Rightarrow> OrmError + 's) \<Rightarrow> 's \<Rightarrow> (OrmError + unit) \<times> 's" where
  "transaction body db = (case body db of Inl e \<Rightarrow> (Inl e, db) | Inr db' \<Rightarrow> (Inr (), db'))"

definition migration_failed :: "(OrmError \<Rightarrow> string) \<Rightarrow> string \<Rightarrow> OrmError \<Rightarrow> OrmError" where
  "migration_failed text_of name e = (case e of Migration i \<Rightarrow> Migration i | _ \<Rightarrow> Migration (MigrationFailed name (text_of e)))"

definition apply_up ::
  "(OrmError \<Rightarrow> string) \<Rightarrow> 'd engine \<Rightarrow> Migrator \<Rightarrow> (string \<Rightarrow> string) \<Rightarrow> int \<Rightarrow> string \<Rightarrow> string \<Rightarrow> 'd mig_db \<Rightarrow> OrmError + 'd mig_db" where
  "apply_up text_of exec mg stamp batch name sql db =
     (case exec sql db of
        Inl e \<Rightarrow> Inl (migration_failed text_of name e)
      | Inr db1 \<Rightarrow> insert_row mg \<lparr>mr_name = name, mr_batch = batch, mr_executed_at = stamp name\<rparr> db1)"

fun run_pending ::
  "(OrmError \<Rightarrow> string) \<Rightarrow> 'd engine \<Rightarrow> Migrator \<Rightarrow> (string \<Rightarrow> string) \<Rightarrow> int \<Rightarrow> migration list \<Rightarrow> string list \<Rightarrow> 'd mig_db
    \<Rightarrow> (OrmError + string list) \<times> 'd mig_db" where
  "run_pending text_of exec mg stamp batch [] applied_now db = (Inr applied_now, db)"
| "run_pending text_of exec mg stamp batch (m # ms) applied_now db =
     (case mg_up m of
        Inl e \<Rightarrow> (Inl e, db)
      | Inr sql \<Rightarrow>
          (case transaction (apply_up text_of exec mg stamp batch (mg_name m) sql) db of
             (Inl e, db') \<Rightarrow> (Inl e, db')
           | (Inr _, db') \<Rightarrow> run_pending text_of exec mg stamp batch ms (applied_now @ [mg_name m]) db'))"

definition i64_wrap :: "int \<Rightarrow> int" where
  "i64_wrap z = (z + 2 ^ 63) mod 2 ^ 64 - 2 ^ 63"

definition pending_migrations :: "Migrator \<Rightarrow> 'd mig_db \<Rightarrow> migration list" where
  "pending_migrations mg db = filter (\<lambda>m. mg_name m \<notin> set (applied_names mg db)) (mi_migrations mg)"

definition run_migrator ::
  "(OrmError \<Rightarrow> string) \<Rightarrow> 'd engine \<Rightarrow> (string \<Rightarrow> string) \<Rightarrow> Migrator \<Rightarrow> 'd mig_db \<Rightarrow> (OrmError + string list) \<times> 'd mig_db" where
  "run_migrator text_of exec stamp mg db0 =
     (let db = ensure_table mg db0; pending = pending_migrations mg db in
      if pending = [] then (Inr [], db)
      else run_pending text_of exec mg stamp (i64_wrap (max_batch mg db + 1)) pending [] db)"

definition apply_down :: "(OrmError \<Rightarrow> string) \<Rightarrow> 'd engine \<Rightarrow> Migrator \<Rightarrow> string \<Rightarrow> string \<Rightarrow> 'd mig_db \<Rightarrow> OrmError + 'd mig_db" where
  "apply_down text_of exec mg name sql db =
     (case exec sql db of
        Inl e \<Rightarrow> Inl (migration_failed text_of name e)
      | Inr db1 \<Rightarrow> delete_row_named mg name db1)"

fun revert_batch ::
  "(OrmError \<Rightarrow> string) \<Rightarrow> 'd engine \<Rightarrow> Migrator \<Rightarrow> string list \<Rightarrow> migration list \<Rightarrow> string list \<Rightarrow> 'd mig_db
    \<Rightarrow> (OrmError + string list) \<times> 'd mig_db" where
  "revert_batch text_of exec mg names [] rolled_back db = (Inr rolled_back, db)"
| "revert_batch text_of exec mg names (m # ms) rolled_back db =
     (if mg_name m \<notin> set names then revert_batch text_of exec mg names ms rolled_back db
      else
        (case mg_down m of
           Inl e \<Rightarrow> (Inl e, db)
         | Inr sql \<Rightarrow>
             (case transaction (apply_down text_of exec mg (mg_name m) sql) db of
                (Inl e, db') \<Rightarrow> (Inl e, db')
              | (Inr _, db') \<Rightarrow> revert_batch text_of exec mg names ms (rolled_back @ [mg_name m]) db')))"

definition rollback ::
  "(OrmError \<Rightarrow> string) \<Rightarrow> 'd engine \<Rightarrow> Migrator \<Rightarrow> 'd mig_db \<Rightarrow> (OrmError + string list) \<times> 'd mig_db" where
  "rollback text_of exec mg db0 =
     (let db = ensure_table mg db0; batch = max_batch mg db in
      if batch = 0 then (Inr [], db)
      else revert_batch text_of exec mg (batch_names mg batch db) (rev (mi_migrations mg)) [] db)"

section \<open>Fresh databases and seeds\<close>

definition escape_identifier :: "string \<Rightarrow> char \<Rightarrow> string" where
  "escape_identifier name quote = str_replace [quote] [quote, quote] name"

fun exec_each :: "'d engine \<Rightarrow> string list \<Rightarrow> 'd mig_db \<Rightarrow> (OrmError + unit) \<times> 'd mig_db" where
  "exec_each exec [] db = (Inr (), db)"
| "exec_each exec (s # ss) db = (case exec s db of Inl e \<Rightarrow> (Inl e, db) | Inr db' \<Rightarrow> exec_each exec ss db')"

definition drop_statement :: "char \<Rightarrow> string \<Rightarrow> string" where
  "drop_statement quote name = ''DROP TABLE IF EXISTS '' @ [quote] @ escape_identifier name quote @ [quote] @ '';''"

definition drop_mysql_tables :: "'d engine \<Rightarrow> ('d mig_db \<Rightarrow> string list) \<Rightarrow> 'd mig_db \<Rightarrow> (OrmError + unit) \<times> 'd mig_db" where
  "drop_mysql_tables exec catalog db =
     (case exec ''SET FOREIGN_KEY_CHECKS = 0;'' db of
        Inl e \<Rightarrow> (Inl e, db)
      | Inr db1 \<Rightarrow>
          (case exec_each exec (map (drop_statement (CHR 96)) (catalog db1)) db1 of
             (dropped, db2) \<Rightarrow>
               (case exec ''SET FOREIGN_KEY_CHECKS = 1;'' db2 of
                  Inl e \<Rightarrow> ((case dropped of Inl d \<Rightarrow> Inl d | Inr _ \<Rightarrow> Inl e), db2)
                | Inr db3 \<Rightarrow> (dropped, db3))))"

definition drop_all_tables ::
  "string \<Rightarrow> 'd engine \<Rightarrow> ('d mig_db \<Rightarrow> string list) \<Rightarrow> 'd mig_db \<Rightarrow> (OrmError + unit) \<times> 'd mig_db" where
  "drop_all_tables dialect exec catalog db =
     (if dialect = ''sqlite'' then exec_each exec (map (drop_statement (CHR 34)) (catalog db)) db
      else if dialect = ''postgres'' then exec_each exec [''DROP SCHEMA public CASCADE; CREATE SCHEMA public;''] db
      else if dialect = ''mysql'' then drop_mysql_tables exec catalog db
      else (Inl (UnsupportedDriver dialect), db))"

definition fresh ::
  "string \<Rightarrow> ('d mig_db \<Rightarrow> string list) \<Rightarrow> (OrmError \<Rightarrow> string) \<Rightarrow> 'd engine \<Rightarrow> (string \<Rightarrow> string) \<Rightarrow> Migrator \<Rightarrow> 'd mig_db
    \<Rightarrow> (OrmError + string list) \<times> 'd mig_db" where
  "fresh dialect catalog text_of exec stamp mg db =
     (case drop_all_tables dialect exec catalog db of
        (Inl e, db') \<Rightarrow> (Inl e, db')
      | (Inr _, db') \<Rightarrow> run_migrator text_of exec stamp mg db')"

definition run_seeder :: "'d engine \<Rightarrow> seeder \<Rightarrow> 'd mig_db \<Rightarrow> (OrmError + unit) \<times> 'd mig_db" where
  "run_seeder exec s db =
     (case sd_sql s of
        Inl e \<Rightarrow> (Inl e, db)
      | Inr sql \<Rightarrow> if trim sql = [] then (Inr (), db) else exec_each exec [sql] db)"

fun seed_all :: "'d engine \<Rightarrow> seeder list \<Rightarrow> string list \<Rightarrow> 'd mig_db \<Rightarrow> (OrmError + string list) \<times> 'd mig_db" where
  "seed_all exec [] seeded db = (Inr seeded, db)"
| "seed_all exec (s # ss) seeded db =
     (case run_seeder exec s db of
        (Inl e, db') \<Rightarrow> (Inl e, db')
      | (Inr _, db') \<Rightarrow> seed_all exec ss (seeded @ [sd_name s]) db')"

definition run_seeders :: "'d engine \<Rightarrow> Migrator \<Rightarrow> 'd mig_db \<Rightarrow> (OrmError + string list) \<times> 'd mig_db" where
  "run_seeders exec mg db = seed_all exec (mi_seeders mg) [] db"

section \<open>Destructive commands\<close>

definition PRODUCTION :: string where
  "PRODUCTION = ''production''"

record DestructiveCommandRefused =
  dc_command :: string
  dc_environment :: string

definition is_production :: "string \<Rightarrow> bool" where
  "is_production environment \<longleftrightarrow> to_ascii_lowercase (trim environment) = to_ascii_lowercase PRODUCTION"

definition guard_destructive_command :: "string \<Rightarrow> string \<Rightarrow> bool \<Rightarrow> DestructiveCommandRefused + unit" where
  "guard_destructive_command command environment force =
     (if force \<or> \<not> is_production environment then Inr ()
      else Inl \<lparr>dc_command = command, dc_environment = trim environment\<rparr>)"

end
