(* ===== verification/Migration_Props.thy ===== *)
theory Migration_Props
  imports Migration
begin

text \<open>
  Rolling back undoes a run, whether it succeeded or stopped in the middle, when every migration that runs is undone
  by its reverse script and no script touches the tracking table.
\<close>

section \<open>Scripts\<close>

text \<open>A script that works on the schema alone.\<close>

definition schema_script :: "'d engine \<Rightarrow> string \<Rightarrow> bool" where
  "schema_script exec sql \<longleftrightarrow>
     (\<exists>f. \<forall>db. exec sql db = (case f (md_schema db) of Inl e \<Rightarrow> Inl e | Inr d \<Rightarrow> Inr (db\<lparr>md_schema := d\<rparr>)))"

text \<open>A migration whose reverse script undoes its script.\<close>

definition reversible :: "'d engine \<Rightarrow> migration \<Rightarrow> bool" where
  "reversible exec m \<longleftrightarrow>
     (\<forall>up. mg_up m = Inr up \<longrightarrow> schema_script exec up
        \<and> (\<exists>down. mg_down m = Inr down \<and> schema_script exec down
            \<and> (\<forall>db db'. exec up db = Inr db' \<longrightarrow> exec down db' = Inr db)))"

lemma schema_script_Inr:
  assumes "schema_script exec sql" "exec sql db = Inr db'"
  shows "md_tables db' = md_tables db" "exec sql (db\<lparr>md_tables := t\<rparr>) = Inr (db'\<lparr>md_tables := t\<rparr>)"
proof -
  obtain f where f: "\<And>db. exec sql db = (case f (md_schema db) of Inl e \<Rightarrow> Inl e | Inr d \<Rightarrow> Inr (db\<lparr>md_schema := d\<rparr>))"
    using assms(1) unfolding schema_script_def by blast
  with assms(2) obtain d where "f (md_schema db) = Inr d" "db' = db\<lparr>md_schema := d\<rparr>" by (auto split: sum.splits)
  then show "md_tables db' = md_tables db" "exec sql (db\<lparr>md_tables := t\<rparr>) = Inr (db'\<lparr>md_tables := t\<rparr>)"
    by (simp_all add: f)
qed

section \<open>Batches\<close>

definition mig_row :: "(string \<Rightarrow> string) \<Rightarrow> int \<Rightarrow> string \<Rightarrow> MigrationRecord" where
  "mig_row stamp batch name = \<lparr>mr_name = name, mr_batch = batch, mr_executed_at = stamp name\<rparr>"

lemma mig_row_simps [simp]: "mr_name (mig_row stamp b n) = n" "mr_batch (mig_row stamp b n) = b"
  by (simp_all add: mig_row_def)

lemma tracked_Some [simp]: "md_tables db (migrations_table mg) = Some rows \<Longrightarrow> tracked mg db = rows"
  by (simp add: tracked_def)

lemma ensure_table_tracked [simp]: "tracked mg (ensure_table mg db) = tracked mg db"
  by (auto simp: ensure_table_def tracked_def split: option.split)

lemma ensure_table_Some: "md_tables (ensure_table mg db) (migrations_table mg) = Some (tracked mg db)"
  by (auto simp: ensure_table_def tracked_def split: option.split)

lemma ensure_table_id: "md_tables db (migrations_table mg) = Some rows \<Longrightarrow> ensure_table mg db = db"
  by (simp add: ensure_table_def)

lemma max_batch_Max: "tracked mg db \<noteq> [] \<Longrightarrow> max_batch mg db = Max (mr_batch ` set (tracked mg db))"
  by (cases "tracked mg db") (simp_all add: max_batch_def Max.set_eq_fold [symmetric])

lemma max_batch_ge: "r \<in> set (tracked mg db) \<Longrightarrow> mr_batch r \<le> max_batch mg db"
  by (subst max_batch_Max) auto

lemma max_batch_in: "tracked mg db \<noteq> [] \<Longrightarrow> \<exists>r\<in>set (tracked mg db). mr_batch r = max_batch mg db"
  using Max_in [of "mr_batch ` set (tracked mg db)"] by (simp add: max_batch_Max image_iff) metis

text \<open>The batch of the rows that a run has appended.\<close>

lemma max_batch_appended:
  assumes t: "tracked mg db' = tracked mg db @ map (mig_row stamp batch) names" and n: "names \<noteq> []" and b: "batch = max_batch mg db + 1"
    and pos: "\<And>r. r \<in> set (tracked mg db) \<Longrightarrow> 0 \<le> mr_batch r"
  shows "max_batch mg db' = batch" "0 < batch" "batch_names mg batch db' = names"
proof -
  have less: "mr_batch r < batch" if "r \<in> set (tracked mg db)" for r using max_batch_ge [OF that] b by simp
  have "tracked mg db' \<noteq> []" using t n by simp
  then obtain r where r: "r \<in> set (tracked mg db')" "mr_batch r = max_batch mg db'" using max_batch_in by metis
  have "mig_row stamp batch (hd names) \<in> set (tracked mg db')" using t n by simp
  from max_batch_ge [OF this] have "batch \<le> max_batch mg db'" by simp
  moreover have "mr_batch r \<le> batch" using r(1) t less by (auto intro: less_imp_le)
  ultimately show "max_batch mg db' = batch" using r(2) by simp
  show "0 < batch"
  proof (cases "tracked mg db")
    case Nil
    with b show ?thesis by (simp add: max_batch_def)
  next
    case (Cons r rs)
    with less [of r] pos [of r] show ?thesis by simp
  qed
  have "filter (\<lambda>r. mr_batch r = batch) (tracked mg db) = []" using less by (auto simp: filter_empty_conv)
  then show "batch_names mg batch db' = names" by (simp add: batch_names_def t comp_def)
qed

section \<open>The run\<close>

text \<open>A database in which the migrations \<open>ms\<close> of a batch have run in this order, with what each started from.\<close>

inductive ran_up :: "'d engine \<Rightarrow> Migrator \<Rightarrow> (string \<Rightarrow> string) \<Rightarrow> int \<Rightarrow> 'd mig_db \<Rightarrow> migration list \<Rightarrow> 'd mig_db \<Rightarrow> bool"
  for exec mg stamp batch db0 where
  none: "ran_up exec mg stamp batch db0 [] db0"
| one: "ran_up exec mg stamp batch db0 ms db \<Longrightarrow> mg_up m = Inr sql \<Longrightarrow> exec sql db = Inr db1
    \<Longrightarrow> insert_row mg (mig_row stamp batch (mg_name m)) db1 = Inr db2 \<Longrightarrow> ran_up exec mg stamp batch db0 (ms @ [m]) db2"

lemma run_pending_ran:
  assumes "ran_up exec mg stamp batch db0 ms0 db" "run_pending text_of exec mg stamp batch ms acc db = (res, db')"
  shows "\<exists>k\<le>length ms. ran_up exec mg stamp batch db0 (ms0 @ take k ms) db'
    \<and> (case res of Inr names \<Rightarrow> k = length ms \<and> names = acc @ map mg_name ms | Inl _ \<Rightarrow> k < length ms)"
  using assms
proof (induction ms arbitrary: ms0 acc db)
  case Nil
  then show ?case by auto
next
  case (Cons m ms)
  show ?case
  proof (cases "\<exists>sql db1 db2. mg_up m = Inr sql \<and> exec sql db = Inr db1 \<and> insert_row mg (mig_row stamp batch (mg_name m)) db1 = Inr db2")
    case True
    then obtain sql db1 db2 where s: "mg_up m = Inr sql" "exec sql db = Inr db1" "insert_row mg (mig_row stamp batch (mg_name m)) db1 = Inr db2"
      by blast
    with Cons.prems(2) have "run_pending text_of exec mg stamp batch ms (acc @ [mg_name m]) db2 = (res, db')"
      by (simp add: transaction_def apply_up_def mig_row_def)
    from Cons.IH [OF ran_up.one [OF Cons.prems(1) s] this] obtain k where "k \<le> length ms"
      "ran_up exec mg stamp batch db0 ((ms0 @ [m]) @ take k ms) db'"
      "case res of Inr names \<Rightarrow> k = length ms \<and> names = (acc @ [mg_name m]) @ map mg_name ms | Inl _ \<Rightarrow> k < length ms" by blast
    then show ?thesis by (intro exI [where x = "Suc k"]) (auto split: sum.splits)
  next
    case False
    with Cons.prems(2) have "db' = db" "\<exists>e. res = Inl e"
      by (auto simp: transaction_def apply_up_def mig_row_def split: sum.splits)
    with Cons.prems(1) show ?thesis by (intro exI [where x = 0]) auto
  qed
qed

lemma ran_up_tracked:
  assumes "ran_up exec mg stamp batch db0 ms db" "md_tables db0 (migrations_table mg) = Some rows"
    "\<And>m. m \<in> set ms \<Longrightarrow> reversible exec m"
  shows "md_tables db (migrations_table mg) = Some (rows @ map (mig_row stamp batch) (map mg_name ms))"
  using assms
proof (induction rule: ran_up.induct)
  case (one ms db m sql db1 db2)
  from one.prems(2) [of m] one.hyps(2) have "schema_script exec sql" by (auto simp: reversible_def)
  then have "md_tables db1 = md_tables db" using one.hyps(3) by (rule schema_script_Inr)
  with one show ?case by (auto simp: insert_row_def split: if_splits)
qed simp

section \<open>Rolling back\<close>

lemma revert_skip:
  assumes "\<And>m. m \<in> set ms \<Longrightarrow> mg_name m \<notin> set names"
  shows "revert_batch text_of exec mg names (ms @ ms') acc db = revert_batch text_of exec mg names ms' acc db"
  using assms by (induction ms) auto

lemma revert_one:
  assumes m: "reversible exec m" "mg_up m = Inr up" and x: "exec up db = Inr db1"
    and ins: "insert_row mg (mig_row stamp batch (mg_name m)) db1 = Inr db2"
  obtains down where "mg_down m = Inr down" "apply_down text_of exec mg (mg_name m) down db2 = Inr db"
proof -
  from m obtain down where d: "mg_down m = Inr down" "schema_script exec up" "schema_script exec down" "exec down db1 = Inr db"
    using x by (auto simp: reversible_def)
  have t: "md_tables db1 = md_tables db" using d(2) x by (rule schema_script_Inr)
  from ins obtain rows where rows: "md_tables db1 (migrations_table mg) = Some rows" "mg_name m \<notin> set (map mr_name rows)"
    and db2: "db2 = db1\<lparr>md_tables := (md_tables db1)(migrations_table mg \<mapsto> rows @ [mig_row stamp batch (mg_name m)])\<rparr>"
    by (auto simp: insert_row_def split: option.splits if_splits)
  have f: "filter (\<lambda>r. mr_name r \<noteq> mg_name m) rows = rows" using rows(2) by (force simp: filter_id_conv)
  have same: "(md_tables db)(migrations_table mg \<mapsto> rows) = md_tables db" using rows(1) t by (simp add: fun_upd_idem)
  have "exec down db2 = Inr (db\<lparr>md_tables := (md_tables db1)(migrations_table mg \<mapsto> rows @ [mig_row stamp batch (mg_name m)])\<rparr>)"
    unfolding db2 using d(3,4) by (rule schema_script_Inr(2))
  then have "apply_down text_of exec mg (mg_name m) down db2 = Inr db"
    using f same t by (simp add: apply_down_def delete_row_named_def)
  with d(1) show thesis by (rule that)
qed

lemma revert_ran:
  assumes "ran_up exec mg stamp batch db0 ms db" "\<And>m. m \<in> set ms \<Longrightarrow> reversible exec m"
    "filter (\<lambda>m. mg_name m \<in> set names) l = rev ms"
  shows "revert_batch text_of exec mg names l acc db = (Inr (acc @ rev (map mg_name ms)), db0)"
  using assms
proof (induction arbitrary: l acc rule: ran_up.induct)
  case none
  then have "revert_batch text_of exec mg names (l @ []) acc db0 = revert_batch text_of exec mg names [] acc db0"
    by (intro revert_skip) (auto simp: filter_empty_conv)
  then show ?case by simp
next
  case (one ms db m sql db1 db2)
  from one.prems(2) have "filter (\<lambda>m. mg_name m \<in> set names) l = m # rev ms" by simp
  then obtain us vs where l: "l = us @ m # vs" "\<forall>u\<in>set us. mg_name u \<notin> set names" "mg_name m \<in> set names"
    "filter (\<lambda>m. mg_name m \<in> set names) vs = rev ms" by (auto dest: filter_eq_ConsD)
  obtain down where d: "mg_down m = Inr down" "apply_down text_of exec mg (mg_name m) down db2 = Inr db"
    using revert_one [OF one.prems(1) [of m] one.hyps(2,3,4)] by auto
  have "revert_batch text_of exec mg names l acc db2 = revert_batch text_of exec mg names (m # vs) acc db2"
    unfolding l(1) by (rule revert_skip) (use l(2) in auto)
  also have "\<dots> = revert_batch text_of exec mg names vs (acc @ [mg_name m]) db"
    using l(3) d by (simp add: transaction_def)
  also have "\<dots> = (Inr ((acc @ [mg_name m]) @ rev (map mg_name ms)), db0)"
    using one.IH [of vs] one.prems(1) l(4) by simp
  finally show ?case by simp
qed

lemma filter_prefix_names:
  assumes "distinct (map mg_name l)" "ms = take k (filter Q l)"
  shows "filter (\<lambda>m. mg_name m \<in> mg_name ` set ms) l = ms"
proof -
  have sub: "set ms \<subseteq> set l" "\<And>m. m \<in> set ms \<Longrightarrow> Q m" using assms(2) by (auto dest: in_set_takeD)
  have d: "distinct (filter Q l)" using assms(1) by (simp add: distinct_map)
  have "filter (\<lambda>m. mg_name m \<in> mg_name ` set ms) l = filter (\<lambda>m. Q m \<and> m \<in> set ms) l"
  proof (rule filter_cong [OF refl])
    fix m
    assume m: "m \<in> set l"
    from assms(1) sub(1) m have "mg_name m \<in> mg_name ` set ms \<longleftrightarrow> m \<in> set ms"
      by (auto simp: distinct_map dest: inj_onD)
    with sub(2) show "mg_name m \<in> mg_name ` set ms \<longleftrightarrow> Q m \<and> m \<in> set ms" by blast
  qed
  also have "\<dots> = filter (\<lambda>m. m \<in> set ms) (filter Q l)" by (simp add: conj_commute)
  also have "\<dots> = filter (\<lambda>m. m \<in> set ms) (ms @ drop k (filter Q l))" using assms(2) by simp
  also have "\<dots> = ms"
  proof -
    have "distinct (ms @ drop k (filter Q l))" using d assms(2) by simp
    then have "filter (\<lambda>m. m \<in> set ms) (drop k (filter Q l)) = []" by (auto simp: filter_empty_conv)
    then show ?thesis by simp
  qed
  finally show ?thesis .
qed

text \<open>
  C14. Rolling back undoes a run. A run applies a prefix of the pending migrations, all of them exactly when it succeeds,
  and records each with one new batch number, in order. If it applied any, then rolling back reverts them in reverse
  order and restores the whole database, tracking table included; if it applied none it has changed nothing but the
  creation of the tracking table.
\<close>

theorem rollback_inverts_run:
  assumes "distinct (migration_names mg)" and "\<And>m. m \<in> set (mi_migrations mg) \<Longrightarrow> reversible exec m"
    and "\<And>r. r \<in> set (tracked mg db) \<Longrightarrow> 0 \<le> mr_batch r \<and> mr_batch r < 2 ^ 63 - 1"
    and "run_migrator text_of exec stamp mg db = (res, db')"
  shows "\<exists>k names. names = take k (map mg_name (pending_migrations mg db))
    \<and> tracked mg db' = tracked mg db @ map (\<lambda>n. \<lparr>mr_name = n, mr_batch = max_batch mg db + 1, mr_executed_at = stamp n\<rparr>) names
    \<and> (case res of Inr ns \<Rightarrow> ns = names \<and> names = map mg_name (pending_migrations mg db) | Inl _ \<Rightarrow> k < length (pending_migrations mg db))
    \<and> (if names = [] then db' = ensure_table mg db
       else rollback text_of exec mg db' = (Inr (rev names), ensure_table mg db))"
proof -
  define db0 where "db0 = ensure_table mg db"
  define batch where "batch = max_batch mg db + 1"
  have pend: "pending_migrations mg db0 = pending_migrations mg db" and mb: "max_batch mg db0 = max_batch mg db"
    by (simp_all add: pending_migrations_def applied_names_def max_batch_def db0_def)
  have "max_batch mg db < 2 ^ 63 - 1 \<and> 0 \<le> max_batch mg db"
  proof (cases "tracked mg db = []")
    case False
    with max_batch_in [of mg db] assms(3) show ?thesis by fastforce
  qed (simp add: max_batch_def)
  then have wrap: "i64_wrap (max_batch mg db + 1) = batch" by (simp add: i64_wrap_def batch_def)
  have "run_pending text_of exec mg stamp batch (pending_migrations mg db) [] db0 = (res, db')"
    using assms(4) by (auto simp: run_migrator_def Let_def db0_def [symmetric] pend mb wrap split: if_splits)
  from run_pending_ran [OF ran_up.none this] obtain k where k: "k \<le> length (pending_migrations mg db)"
    and ran: "ran_up exec mg stamp batch db0 (take k (pending_migrations mg db)) db'"
    and res: "case res of Inr ns \<Rightarrow> k = length (pending_migrations mg db) \<and> ns = [] @ map mg_name (pending_migrations mg db)
      | Inl _ \<Rightarrow> k < length (pending_migrations mg db)" by auto
  define ms where "ms = take k (pending_migrations mg db)"
  have ms: "\<And>m. m \<in> set ms \<Longrightarrow> reversible exec m"
    using assms(2) by (auto simp: ms_def pending_migrations_def dest!: in_set_takeD)
  have tab: "md_tables db' (migrations_table mg) = Some (tracked mg db @ map (mig_row stamp batch) (map mg_name ms))"
    by (rule ran_up_tracked [OF ran [folded ms_def] _ ms]) (auto simp: db0_def ensure_table_Some)
  then have t: "tracked mg db' = tracked mg db @ map (mig_row stamp batch) (map mg_name ms)" by simp
  have undo: "rollback text_of exec mg db' = (Inr (rev (map mg_name ms)), db0)" if "ms \<noteq> []"
  proof -
    have b: "max_batch mg db' = batch" "0 < batch" "batch_names mg batch db' = map mg_name ms"
      by (rule max_batch_appended [OF t]; use that batch_def assms(3) in auto)+
    have "filter (\<lambda>m. mg_name m \<in> set (map mg_name ms)) (rev (mi_migrations mg)) = rev ms"
      using filter_prefix_names [of "mi_migrations mg" ms k] assms(1)
      by (simp add: rev_filter [symmetric] ms_def pending_migrations_def migration_names_def)
    from revert_ran [OF ran [folded ms_def] ms this, of text_of "[]"] b show ?thesis
      by (simp add: rollback_def Let_def ensure_table_id [OF tab])
  qed
  have rows: "map (mig_row stamp batch) ns = map (\<lambda>n. \<lparr>mr_name = n, mr_batch = max_batch mg db + 1, mr_executed_at = stamp n\<rparr>) ns" for ns
    by (simp add: mig_row_def batch_def)
  have untouched: "db' = db0" if "ms = []" using ran that by (auto simp: ms_def [symmetric] elim: ran_up.cases)
  show ?thesis
  proof (intro exI conjI)
    show "map mg_name ms = take k (map mg_name (pending_migrations mg db))" by (simp add: ms_def take_map)
    show "tracked mg db' = tracked mg db @ map (\<lambda>n. \<lparr>mr_name = n, mr_batch = max_batch mg db + 1, mr_executed_at = stamp n\<rparr>) (map mg_name ms)"
      unfolding t rows ..
    show "case res of Inr ns \<Rightarrow> ns = map mg_name ms \<and> map mg_name ms = map mg_name (pending_migrations mg db)
      | Inl _ \<Rightarrow> k < length (pending_migrations mg db)"
      using res by (auto simp: ms_def split: sum.splits)
    show "if map mg_name ms = [] then db' = ensure_table mg db else rollback text_of exec mg db' = (Inr (rev (map mg_name ms)), ensure_table mg db)"
    proof (cases "ms = []")
      case True
      with untouched [OF True] show ?thesis unfolding db0_def by (simp only: list.map if_True refl)
    next
      case False
      then show ?thesis using undo [OF False] by (simp add: db0_def)
    qed
  qed
qed

section \<open>An example\<close>

text \<open>An engine that creates a table (\<^verbatim>\<open>+name\<close>) and drops the table created last (\<^verbatim>\<open>-name\<close>).\<close>

definition demo_step :: "string \<Rightarrow> string list \<Rightarrow> OrmError + string list" where
  "demo_step sql d =
     (case sql of
        [] \<Rightarrow> Inl (Storage ''syntax'')
      | c # name \<Rightarrow>
          if c = CHR ''+'' then (if name \<in> set d then Inl (Storage ''exists'') else Inr (name # d))
          else (case d of [] \<Rightarrow> Inl (Storage ''missing'') | t # d' \<Rightarrow> if t = name then Inr d' else Inl (Storage ''missing'')))"

definition demo_engine :: "string list engine" where
  "demo_engine sql db = (case demo_step sql (md_schema db) of Inl e \<Rightarrow> Inl e | Inr d \<Rightarrow> Inr (db\<lparr>md_schema := d\<rparr>))"

definition demo_migration :: "string \<Rightarrow> migration" where
  "demo_migration t = \<lparr>mg_name = t, mg_up = Inr (CHR ''+'' # t), mg_down = Inr (CHR ''-'' # t)\<rparr>"

definition demo_migrator :: Migrator where
  "demo_migrator = \<lparr>mi_migrations = [demo_migration ''users'', demo_migration ''posts''], mi_seeders = [], mi_table = None\<rparr>"

definition demo_db :: "string list mig_db" where
  "demo_db = \<lparr>md_tables = Map.empty, md_schema = [''posts'']\<rparr>"

lemma demo_reversible: "reversible demo_engine (demo_migration t)"
proof -
  have "schema_script demo_engine sql" for sql by (auto simp: schema_script_def demo_engine_def)
  then show ?thesis
    by (auto simp: reversible_def demo_migration_def demo_engine_def demo_step_def split: if_splits sum.splits)
qed

lemmas demo_run_simps = run_migrator_def Let_def pending_migrations_def applied_names_def demo_migrator_def demo_migration_def
  ensure_table_def demo_db_def migrations_table_def tracked_def transaction_def apply_up_def demo_engine_def demo_step_def
  insert_row_def max_batch_def i64_wrap_def migration_failed_def

text \<open>The second migration fails, because its table exists: the first stays, and rolling back removes it.\<close>

theorem rollback_inverts_run_witness:
  "\<exists>e db'. run_migrator (\<lambda>_. ''error'') demo_engine (\<lambda>n. n) demo_migrator demo_db = (Inl e, db') \<and> map mr_name (tracked demo_migrator db') = [''users'']
     \<and> rollback (\<lambda>_. ''error'') demo_engine demo_migrator db' = (Inr [''users''], ensure_table demo_migrator demo_db)"
proof -
  have "\<exists>e db'. run_migrator (\<lambda>_. ''error'') demo_engine (\<lambda>n. n) demo_migrator demo_db = (Inl e, db') \<and> map mr_name (tracked demo_migrator db') = [''users'']"
    by (simp add: demo_run_simps)
  then obtain e db' where r: "run_migrator (\<lambda>_. ''error'') demo_engine (\<lambda>n. n) demo_migrator demo_db = (Inl e, db')"
    "map mr_name (tracked demo_migrator db') = [''users'']" by (elim exE conjE) (rule that)
  have d: "distinct (migration_names demo_migrator)" by (simp add: migration_names_def demo_migrator_def demo_migration_def)
  have m: "reversible demo_engine m" if "m \<in> set (mi_migrations demo_migrator)" for m
    using that demo_reversible by (auto simp: demo_migrator_def)
  have t: "tracked demo_migrator demo_db = []" by (simp add: tracked_def demo_db_def)
  have "\<exists>k names. names = take k (map mg_name (pending_migrations demo_migrator demo_db))
    \<and> tracked demo_migrator db' = tracked demo_migrator demo_db
        @ map (\<lambda>n. \<lparr>mr_name = n, mr_batch = max_batch demo_migrator demo_db + 1, mr_executed_at = n\<rparr>) names
    \<and> (case Inl e of Inr ns \<Rightarrow> ns = names \<and> names = map mg_name (pending_migrations demo_migrator demo_db)
       | Inl _ \<Rightarrow> k < length (pending_migrations demo_migrator demo_db))
    \<and> (if names = [] then db' = ensure_table demo_migrator demo_db
       else rollback (\<lambda>_. ''error'') demo_engine demo_migrator db' = (Inr (rev names), ensure_table demo_migrator demo_db))"
    by (rule rollback_inverts_run [OF d m _ r(1)]) (simp_all add: t)
  then obtain names where names: "map mr_name (tracked demo_migrator db') = names"
    "if names = [] then db' = ensure_table demo_migrator demo_db
     else rollback (\<lambda>_. ''error'') demo_engine demo_migrator db' = (Inr (rev names), ensure_table demo_migrator demo_db)"
    by (auto simp: t comp_def)
  with r show ?thesis by auto
qed

text \<open>A batch none of whose migrations is registered any more is never reverted, and every later rollback stops at it.\<close>

lemma rollback_stuck:
  assumes "md_tables db (migrations_table mg) = Some rows" "set (batch_names mg (max_batch mg db) db) \<inter> set (migration_names mg) = {}"
  shows "rollback text_of exec mg db = (Inr [], db)"
proof -
  have "revert_batch text_of exec mg (batch_names mg (max_batch mg db) db) (rev (mi_migrations mg) @ []) [] db
      = revert_batch text_of exec mg (batch_names mg (max_batch mg db) db) [] [] db"
    by (rule revert_skip) (use assms(2) in \<open>auto simp: migration_names_def\<close>)
  then show ?thesis by (simp add: rollback_def Let_def ensure_table_id [OF assms(1)])
qed

text \<open>A run that succeeded leaves nothing to do.\<close>

lemma run_idempotent:
  assumes "\<And>m. m \<in> set (mi_migrations mg) \<Longrightarrow> mg_name m \<in> set (applied_names mg db)" "md_tables db (migrations_table mg) = Some rows"
  shows "run_migrator text_of exec stamp mg db = (Inr [], db)"
  using assms(1) by (simp add: run_migrator_def ensure_table_id [OF assms(2)] pending_migrations_def)

text \<open>A quoted identifier ends where it ends: the escaped name reads back.\<close>

fun read_quoted :: "char \<Rightarrow> string \<Rightarrow> (string \<times> string) option" where
  "read_quoted q [] = None"
| "read_quoted q [c] = (if c = q then Some ([], []) else None)"
| "read_quoted q (c # d # s) =
     (if c = q then (if d = q then map_option (\<lambda>(n, r). (q # n, r)) (read_quoted q s) else Some ([], d # s))
      else map_option (\<lambda>(n, r). (c # n, r)) (read_quoted q (d # s)))"

lemma read_escaped:
  "rest = [] \<or> hd rest \<noteq> q \<Longrightarrow> read_quoted q (escape_identifier name q @ q # rest) = Some (name, rest)"
proof (induction name)
  case Nil
  then show ?case by (cases rest) (simp_all add: escape_identifier_def)
next
  case (Cons c name)
  show ?case
  proof (cases "c = q")
    case True
    with Cons show ?thesis by (simp add: escape_identifier_def)
  next
    case False
    obtain d s where d: "escape_identifier name q @ q # rest = d # s" by (cases "escape_identifier name q") auto
    with False Cons show ?thesis by (simp add: escape_identifier_def)
  qed
qed

end
