(* ===== verification/Router.thy ===== *)
theory Router
  imports Prelude "HOL-Library.Finite_Map"
begin

text \<open>
  The router, \<^verbatim>\<open>rustasea-router\<close>: route entries (\<^verbatim>\<open>route.rs\<close>), the registration
  DSL with groups, resources and redirects (\<^verbatim>\<open>router.rs\<close>, \<^verbatim>\<open>resource.rs\<close>,
  \<^verbatim>\<open>redirect.rs\<close>), the registries of middleware, authorizers and model binders
  (\<^verbatim>\<open>metadata.rs\<close>, \<^verbatim>\<open>authorize.rs\<close>, \<^verbatim>\<open>binding.rs\<close>), the build of the table that
  is handed to axum (\<^verbatim>\<open>dispatch.rs\<close>, \<^verbatim>\<open>handler.rs\<close>) and URLs from route names
  (\<^verbatim>\<open>url.rs\<close>).

  A handler is a function of the request and an environment \<open>'e\<close>; \<open>'x\<close> are the request's
  extensions, \<open>'r\<close> the responses of the application and \<open>'l\<close> the tower layers. Axum's own
  matching is not modelled: the result of the build is the list of routes that axum is given, and a
  method router is the verb it answers with its service. The closure given to \<^verbatim>\<open>group\<close> is
  the list of the calls it makes.
\<close>

section \<open>Requests, responses and services\<close>

record 'x request =
  rq_path :: string
  rq_ext :: 'x

datatype 'r response =
    Answer 'r
  | StatusCode nat
  | Redirect nat string
  | PlainText string

type_synonym ('x, 'r, 'e) service = "'x request \<Rightarrow> 'e \<Rightarrow> 'r response \<times> 'e"

record ('x, 'r, 'e) method_router =
  mr_verb :: "string option"
  mr_service :: "('x, 'r, 'e) service"

definition mr_layer ::
  "(('x, 'r, 'e) service \<Rightarrow> ('x, 'r, 'e) service) \<Rightarrow> ('x, 'r, 'e) method_router \<Rightarrow> ('x, 'r, 'e) method_router" where
  "mr_layer f mr = mr\<lparr>mr_service := f (mr_service mr)\<rparr>"

definition to_ascii_uppercase :: "string \<Rightarrow> string" where
  "to_ascii_uppercase = map (\<lambda>c. if 97 \<le> (of_char c :: nat) \<and> (of_char c :: nat) \<le> 122
     then char_of ((of_char c :: nat) - 32) else c)"

text \<open>\<open>None\<close> is \<^verbatim>\<open>axum::routing::any\<close>.\<close>

definition into_method_router ::
  "('x, 'r, 'e) service \<Rightarrow> string \<Rightarrow> ('x, 'r, 'e) method_router" where
  "into_method_router h method =
     (let verb = to_ascii_uppercase method in
      \<lparr>mr_verb = (if verb \<in> {''GET'', ''POST'', ''PUT'', ''DELETE'', ''PATCH'', ''OPTIONS''} then Some verb else None),
       mr_service = h\<rparr>)"

definition stub_handler :: "('x, 'r, 'e) service" where
  "stub_handler q e = (PlainText ''ok'', e)"

section \<open>Route entries\<close>

record ControllerRef =
  cr_name :: string
  cr_action :: string

datatype AuthorizeSpec = Resource string string | Ability string

record RouteEntry =
  re_method :: string
  re_path :: string
  re_name :: "string option"
  re_middleware :: "string list"
  re_authorizations :: "AuthorizeSpec list"
  re_domain :: "string option"
  re_binding_fields :: "string list"
  re_controller :: "ControllerRef option"
  re_handler :: "string option"

definition starts_slash :: "string \<Rightarrow> string" where
  "starts_slash p = (case p of c # _ \<Rightarrow> if c = CHR ''/'' then p else CHR ''/'' # p | [] \<Rightarrow> ''/'')"

definition normalize_prefix :: "string \<Rightarrow> string" where
  "normalize_prefix p =
     (if p = [] \<or> p = ''/'' then [] else trim_end_matches (CHR ''/'') (starts_slash p))"

definition join_prefix :: "string \<Rightarrow> string \<Rightarrow> string" where
  "join_prefix pre path =
     (let p = (if path = ''/'' then ''/'' else starts_slash path) in
      if pre = [] then p else if p = ''/'' then pre else pre @ p)"

definition prefixed_name :: "string \<Rightarrow> string option \<Rightarrow> string option" where
  "prefixed_name pre name =
     (if pre = [] then (case name of None \<Rightarrow> None | Some n \<Rightarrow> Some n)
      else (case name of None \<Rightarrow> None | Some n \<Rightarrow> Some (pre @ n)))"

lemma split_once_shorter:
  "split_once c s = Some (a, b) \<Longrightarrow> length b < length s"
  by (auto dest: split_once_Some)

function parse_binding_fields :: "string \<Rightarrow> string list" where
  "parse_binding_fields path =
     (case split_once (CHR ''{'') path of
        None \<Rightarrow> []
      | Some (_, tail) \<Rightarrow>
          (case split_once (CHR ''}'') tail of
             None \<Rightarrow> []
           | Some (inner, rest) \<Rightarrow>
               (if inner = [] then [] else [last (split_on (CHR '':'') inner)])
                 @ parse_binding_fields rest))"
  by pat_completeness auto
termination
  by (relation "measure length") (auto dest!: split_once_shorter)

declare parse_binding_fields.simps [simp del]

section \<open>Registries\<close>

datatype RouteError =
    UnknownMiddleware string
  | UnknownAuthorization string
  | UnknownBinding string

type_synonym ('x, 'r, 'e) middleware_apply = "('x, 'r, 'e) method_router \<Rightarrow> ('x, 'r, 'e) method_router"

datatype ('x, 'r, 'e) Registration =
    Plain "('x, 'r, 'e) middleware_apply"
  | Factory "string \<Rightarrow> ('x, 'r, 'e) middleware_apply option"

type_synonym ('x, 'r, 'e) middleware_registry = "(string, ('x, 'r, 'e) Registration) fmap"

definition factory_result ::
  "string \<Rightarrow> ('x, 'r, 'e) middleware_apply option \<Rightarrow> RouteError + ('x, 'r, 'e) middleware_apply" where
  "factory_result spec res = (case res of None \<Rightarrow> Inl (UnknownMiddleware spec) | Some f \<Rightarrow> Inr f)"

definition mw_resolve ::
  "('x, 'r, 'e) middleware_registry \<Rightarrow> string \<Rightarrow> RouteError + ('x, 'r, 'e) middleware_apply" where
  "mw_resolve reg spec =
     (case fmlookup reg spec of
        Some (Plain f) \<Rightarrow> Inr f
      | Some (Factory mk) \<Rightarrow> factory_result spec (mk [])
      | None \<Rightarrow>
          (case split_once (CHR '':'') spec of
             None \<Rightarrow> Inl (UnknownMiddleware spec)
           | Some (name, params) \<Rightarrow>
               (case fmlookup reg name of
                  Some (Factory mk) \<Rightarrow> factory_result spec (mk params)
                | Some (Plain f) \<Rightarrow> Inr f
                | None \<Rightarrow> Inl (UnknownMiddleware spec))))"

text \<open>An authorizer reads the request; a model binding may also extend it.\<close>

type_synonym ('x, 'r, 'e) authorizer = "'x request \<Rightarrow> string \<Rightarrow> 'e \<Rightarrow> ('r response + unit) \<times> 'e"
type_synonym ('x, 'r, 'e) model_binder = "'x request \<Rightarrow> string \<Rightarrow> 'e \<Rightarrow> ('r response + 'x request) \<times> 'e"

record ('x, 'r, 'e) authorize_registry =
  ar_resources :: "(string, ('x, 'r, 'e) authorizer) fmap"
  ar_ability :: "('x, 'r, 'e) authorizer option"

definition ar_new :: "('x, 'r, 'e) authorize_registry" where
  "ar_new = \<lparr>ar_resources = fmempty, ar_ability = None\<rparr>"

definition ar_resolve ::
  "('x, 'r, 'e) authorize_registry \<Rightarrow> string \<Rightarrow> RouteError + ('x, 'r, 'e) authorizer" where
  "ar_resolve reg name =
     (case fmlookup (ar_resources reg) name of None \<Rightarrow> Inl (UnknownAuthorization name) | Some a \<Rightarrow> Inr a)"

definition ar_sole :: "('x, 'r, 'e) authorize_registry \<Rightarrow> ('x, 'r, 'e) authorizer option" where
  "ar_sole reg =
     (if fcard (fmdom (ar_resources reg)) = 1
      then fmlookup (ar_resources reg) (fthe_elem (fmdom (ar_resources reg))) else None)"

definition ar_merge ::
  "('x, 'r, 'e) authorize_registry \<Rightarrow> ('x, 'r, 'e) authorize_registry \<Rightarrow> ('x, 'r, 'e) authorize_registry" where
  "ar_merge reg other =
     \<lparr>ar_resources = fmadd (ar_resources reg) (ar_resources other),
      ar_ability = (if ar_ability other \<noteq> None then ar_ability other else ar_ability reg)\<rparr>"

section \<open>The router\<close>

record ('x, 'r, 'e) BoundAction =
  ba_method :: string
  ba_path :: string
  ba_domain :: "string option"
  ba_router :: "('x, 'r, 'e) method_router"

record ('x, 'r, 'e, 'l) router =
  rt_routes :: "RouteEntry list"
  rt_prefix :: string
  rt_name_prefix :: string
  rt_middleware :: "string list"
  rt_authorizations :: "AuthorizeSpec list"
  rt_domain :: "string option"
  rt_controller :: "string option"
  rt_layers :: "'l list"
  rt_actions :: "('x, 'r, 'e) BoundAction list"
  rt_controller_actions :: "(string \<times> string \<times> ('x, 'r, 'e) service) list"
  rt_middleware_registry :: "('x, 'r, 'e) middleware_registry"
  rt_authorize_registry :: "('x, 'r, 'e) authorize_registry"
  rt_binding_registry :: "(string, ('x, 'r, 'e) model_binder) fmap"
  rt_batch_start :: nat

definition router_new :: "('x, 'r, 'e, 'l) router" where
  "router_new = \<lparr>rt_routes = [], rt_prefix = [], rt_name_prefix = [], rt_middleware = [],
     rt_authorizations = [], rt_domain = None, rt_controller = None, rt_layers = [], rt_actions = [],
     rt_controller_actions = [], rt_middleware_registry = fmempty, rt_authorize_registry = ar_new,
     rt_binding_registry = fmempty, rt_batch_start = 0\<rparr>"

definition prefix_op :: "string \<Rightarrow> ('x, 'r, 'e, 'l) router \<Rightarrow> ('x, 'r, 'e, 'l) router" where
  "prefix_op p r =
     (let child = normalize_prefix p in
      if child \<noteq> [] then r\<lparr>rt_prefix := join_prefix (rt_prefix r) child\<rparr> else r)"

definition name_op :: "string \<Rightarrow> ('x, 'r, 'e, 'l) router \<Rightarrow> ('x, 'r, 'e, 'l) router" where
  "name_op n r = r\<lparr>rt_name_prefix := rt_name_prefix r @ n\<rparr>"

definition named :: "string \<Rightarrow> ('x, 'r, 'e, 'l) router \<Rightarrow> ('x, 'r, 'e, 'l) router" where
  "named n r =
     (let start = min (rt_batch_start r) (length (rt_routes r)) in
      r\<lparr>rt_routes := take start (rt_routes r)
          @ map (\<lambda>e. e\<lparr>re_name := prefixed_name (rt_name_prefix r) (Some n)\<rparr>) (drop start (rt_routes r))\<rparr>)"

definition domain_op :: "string \<Rightarrow> ('x, 'r, 'e, 'l) router \<Rightarrow> ('x, 'r, 'e, 'l) router" where
  "domain_op d r = r\<lparr>rt_domain := Some d\<rparr>"

definition middleware_op :: "string \<Rightarrow> ('x, 'r, 'e, 'l) router \<Rightarrow> ('x, 'r, 'e, 'l) router" where
  "middleware_op m r = r\<lparr>rt_middleware := rt_middleware r @ [m]\<rparr>"

definition middleware_meta :: "string list \<Rightarrow> ('x, 'r, 'e, 'l) router \<Rightarrow> ('x, 'r, 'e, 'l) router" where
  "middleware_meta ms r = r\<lparr>rt_middleware := rt_middleware r @ ms\<rparr>"

definition authorize_meta :: "string \<times> string \<Rightarrow> ('x, 'r, 'e, 'l) router \<Rightarrow> ('x, 'r, 'e, 'l) router" where
  "authorize_meta m r = r\<lparr>rt_authorizations := rt_authorizations r @ [Resource (fst m) (snd m)]\<rparr>"

definition authorize_ability_meta :: "string \<Rightarrow> ('x, 'r, 'e, 'l) router \<Rightarrow> ('x, 'r, 'e, 'l) router" where
  "authorize_ability_meta n r = r\<lparr>rt_authorizations := rt_authorizations r @ [Ability n]\<rparr>"

definition controller_op :: "string \<Rightarrow> ('x, 'r, 'e, 'l) router \<Rightarrow> ('x, 'r, 'e, 'l) router" where
  "controller_op c r = r\<lparr>rt_controller := Some c\<rparr>"

definition layer_op :: "'l \<Rightarrow> ('x, 'r, 'e, 'l) router \<Rightarrow> ('x, 'r, 'e, 'l) router" where
  "layer_op l r = r\<lparr>rt_layers := rt_layers r @ [l]\<rparr>"

definition register_middleware ::
  "string \<Rightarrow> ('x, 'r, 'e) middleware_apply \<Rightarrow> ('x, 'r, 'e, 'l) router \<Rightarrow> ('x, 'r, 'e, 'l) router" where
  "register_middleware n f r = r\<lparr>rt_middleware_registry := fmupd n (Plain f) (rt_middleware_registry r)\<rparr>"

definition register_middleware_factory ::
  "string \<Rightarrow> (string \<Rightarrow> ('x, 'r, 'e) middleware_apply option) \<Rightarrow> ('x, 'r, 'e, 'l) router
    \<Rightarrow> ('x, 'r, 'e, 'l) router" where
  "register_middleware_factory n f r =
     r\<lparr>rt_middleware_registry := fmupd n (Factory f) (rt_middleware_registry r)\<rparr>"

definition register_authorizer ::
  "string \<Rightarrow> ('x, 'r, 'e) authorizer \<Rightarrow> ('x, 'r, 'e, 'l) router \<Rightarrow> ('x, 'r, 'e, 'l) router" where
  "register_authorizer n a r = r\<lparr>rt_authorize_registry :=
     (rt_authorize_registry r)\<lparr>ar_resources := fmupd n a (ar_resources (rt_authorize_registry r))\<rparr>\<rparr>"

definition authorize_abilities ::
  "('x, 'r, 'e) authorizer \<Rightarrow> ('x, 'r, 'e, 'l) router \<Rightarrow> ('x, 'r, 'e, 'l) router" where
  "authorize_abilities a r =
     r\<lparr>rt_authorize_registry := (rt_authorize_registry r)\<lparr>ar_ability := Some a\<rparr>\<rparr>"

definition register_binding ::
  "string \<Rightarrow> ('x, 'r, 'e) model_binder \<Rightarrow> ('x, 'r, 'e, 'l) router \<Rightarrow> ('x, 'r, 'e, 'l) router" where
  "register_binding n b r = r\<lparr>rt_binding_registry := fmupd n b (rt_binding_registry r)\<rparr>"

subsection \<open>Registering routes\<close>

definition begin_batch :: "('x, 'r, 'e, 'l) router \<Rightarrow> ('x, 'r, 'e, 'l) router" where
  "begin_batch r = r\<lparr>rt_batch_start := length (rt_routes r)\<rparr>"

definition push_route ::
  "string \<Rightarrow> string \<Rightarrow> string option \<Rightarrow> ('x, 'r, 'e, 'l) router \<Rightarrow> ('x, 'r, 'e, 'l) router" where
  "push_route method path name r =
     (let full = join_prefix (rt_prefix r) path in
      r\<lparr>rt_routes := rt_routes r @ [\<lparr>re_method = to_ascii_uppercase method, re_path = full,
          re_name = prefixed_name (rt_name_prefix r) name, re_middleware = rt_middleware r,
          re_authorizations = rt_authorizations r, re_domain = rt_domain r,
          re_binding_fields = parse_binding_fields full,
          re_controller = map_option (\<lambda>c. \<lparr>cr_name = c, cr_action = ''handle''\<rparr>) (rt_controller r),
          re_handler = None\<rparr>]\<rparr>)"

definition update_last :: "('a \<Rightarrow> 'a) \<Rightarrow> 'a list \<Rightarrow> 'a list" where
  "update_last f xs = (if xs = [] then [] else butlast xs @ [f (last xs)])"

text \<open>The route of a bound action and of a redirect: no controller, a handler label, and the action
  under the full path.\<close>

definition bind_last ::
  "string \<Rightarrow> string \<Rightarrow> ('x, 'r, 'e) method_router \<Rightarrow> ('x, 'r, 'e, 'l) router \<Rightarrow> ('x, 'r, 'e, 'l) router" where
  "bind_last label method mr r =
     r\<lparr>rt_routes := update_last (\<lambda>e. e\<lparr>re_controller := None, re_handler := Some label\<rparr>) (rt_routes r),
       rt_actions := rt_actions r @ [\<lparr>ba_method = method, ba_path = re_path (last (rt_routes r)),
         ba_domain = rt_domain r, ba_router = mr\<rparr>]\<rparr>"

definition push_action ::
  "string \<Rightarrow> string \<Rightarrow> string \<Rightarrow> ('x, 'r, 'e) service \<Rightarrow> ('x, 'r, 'e, 'l) router \<Rightarrow> ('x, 'r, 'e, 'l) router" where
  "push_action method path label h r =
     bind_last label (to_ascii_uppercase method) (into_method_router h method) (push_route method path None r)"

definition ALL_METHODS :: "string list" where
  "ALL_METHODS = [''GET'', ''POST'', ''PUT'', ''DELETE'', ''PATCH'', ''OPTIONS'']"

definition method_route :: "string \<Rightarrow> string \<Rightarrow> ('x, 'r, 'e, 'l) router \<Rightarrow> ('x, 'r, 'e, 'l) router" where
  "method_route method path r = push_route method path None (begin_batch r)"

definition any_route :: "string \<Rightarrow> ('x, 'r, 'e, 'l) router \<Rightarrow> ('x, 'r, 'e, 'l) router" where
  "any_route path r = fold (\<lambda>m. push_route m path None) ALL_METHODS (begin_batch r)"

definition action_route ::
  "string \<Rightarrow> string \<Rightarrow> string \<Rightarrow> ('x, 'r, 'e) service \<Rightarrow> ('x, 'r, 'e, 'l) router \<Rightarrow> ('x, 'r, 'e, 'l) router" where
  "action_route method path label h r = push_action method path label h (begin_batch r)"

definition any_action ::
  "string \<Rightarrow> string \<Rightarrow> ('x, 'r, 'e) service \<Rightarrow> ('x, 'r, 'e, 'l) router \<Rightarrow> ('x, 'r, 'e, 'l) router" where
  "any_action path label h r = fold (\<lambda>m. push_action m path label h) ALL_METHODS (begin_batch r)"

definition controller_action_for ::
  "string \<Rightarrow> string \<Rightarrow> ('x, 'r, 'e) service \<Rightarrow> ('x, 'r, 'e, 'l) router \<Rightarrow> ('x, 'r, 'e, 'l) router" where
  "controller_action_for c a h r = r\<lparr>rt_controller_actions := rt_controller_actions r @ [(c, a, h)]\<rparr>"

definition controller_action ::
  "string \<Rightarrow> ('x, 'r, 'e) service \<Rightarrow> ('x, 'r, 'e, 'l) router \<Rightarrow> ('x, 'r, 'e, 'l) router" where
  "controller_action a h r =
     controller_action_for (case rt_controller r of None \<Rightarrow> [] | Some c \<Rightarrow> c) a h r"

definition resource_route ::
  "string \<Rightarrow> string \<Rightarrow> string \<Rightarrow> string \<Rightarrow> string \<Rightarrow> ('x, 'r, 'e, 'l) router \<Rightarrow> ('x, 'r, 'e, 'l) router" where
  "resource_route method path res action controller r =
     (let r' = push_route method path (Some (res @ ''.'' @ action)) r in
      r'\<lparr>rt_routes := update_last (\<lambda>e. e\<lparr>re_controller :=
         (if controller \<noteq> [] then Some \<lparr>cr_name = controller, cr_action = action\<rparr> else None)\<rparr>) (rt_routes r')\<rparr>)"

definition resource_rows :: "string \<Rightarrow> (string \<times> string \<times> string) list" where
  "resource_rows name =
     (let base = ''/'' @ name; item = ''/'' @ name @ ''/{id}''; create = ''/'' @ name @ ''/create'';
          edit = ''/'' @ name @ ''/{id}/edit''
      in [(''GET'', base, ''index''), (''GET'', create, ''create''), (''POST'', base, ''store''),
          (''GET'', item, ''show''), (''GET'', edit, ''edit''), (''PUT'', item, ''update''),
          (''PATCH'', item, ''update''), (''DELETE'', item, ''destroy'')])"

definition register_resource ::
  "string \<Rightarrow> string \<Rightarrow> ('x, 'r, 'e, 'l) router \<Rightarrow> ('x, 'r, 'e, 'l) router" where
  "register_resource name controller r =
     (let resolved = (if controller = [] then (case rt_controller r of None \<Rightarrow> [] | Some c \<Rightarrow> c) else controller)
      in fold (\<lambda>(m, path, action). resource_route m path name action resolved) (resource_rows name)
           (begin_batch r))"

datatype RedirectKind = Temporary | Permanent

fun redirect_status :: "RedirectKind \<Rightarrow> nat" where
  "redirect_status Temporary = 302"
| "redirect_status Permanent = 301"

text \<open>\<open>valid\<close> decides what \<^verbatim>\<open>HeaderValue::try_from\<close> accepts.\<close>

definition redirect_response :: "(string \<Rightarrow> bool) \<Rightarrow> nat \<Rightarrow> string \<Rightarrow> 'r response" where
  "redirect_response valid status target =
     (if valid target then Redirect status target else StatusCode 500)"

definition push_redirect ::
  "(string \<Rightarrow> bool) \<Rightarrow> string \<Rightarrow> string \<Rightarrow> RedirectKind \<Rightarrow> ('x, 'r, 'e, 'l) router \<Rightarrow> ('x, 'r, 'e, 'l) router" where
  "push_redirect valid src target kind r =
     bind_last (''redirect:'' @ target) ''GET''
       \<lparr>mr_verb = Some ''GET'', mr_service = (\<lambda>q e. (redirect_response valid (redirect_status kind) target, e))\<rparr>
       (push_route ''GET'' src None (begin_batch r))"

subsection \<open>Groups\<close>

definition sub_router :: "('x, 'r, 'e, 'l) router \<Rightarrow> ('x, 'r, 'e, 'l) router" where
  "sub_router r = \<lparr>rt_routes = [], rt_prefix = rt_prefix r, rt_name_prefix = rt_name_prefix r,
     rt_middleware = rt_middleware r, rt_authorizations = rt_authorizations r, rt_domain = rt_domain r,
     rt_controller = rt_controller r, rt_layers = [], rt_actions = [], rt_controller_actions = [],
     rt_middleware_registry = fmempty, rt_authorize_registry = ar_new, rt_binding_registry = fmempty,
     rt_batch_start = 0\<rparr>"

definition absorb ::
  "('x, 'r, 'e, 'l) router \<Rightarrow> ('x, 'r, 'e, 'l) router \<Rightarrow> ('x, 'r, 'e, 'l) router" where
  "absorb sub r = r\<lparr>rt_routes := rt_routes r @ rt_routes sub,
     rt_actions := rt_actions r @ rt_actions sub,
     rt_controller_actions := rt_controller_actions r @ rt_controller_actions sub,
     rt_middleware_registry := fmadd (rt_middleware_registry r) (rt_middleware_registry sub),
     rt_authorize_registry := ar_merge (rt_authorize_registry r) (rt_authorize_registry sub),
     rt_binding_registry := fmadd (rt_binding_registry r) (rt_binding_registry sub),
     rt_batch_start := length (rt_routes r) + length (rt_routes sub)\<rparr>"

definition group ::
  "(('x, 'r, 'e, 'l) router \<Rightarrow> ('x, 'r, 'e, 'l) router) \<Rightarrow> ('x, 'r, 'e, 'l) router \<Rightarrow> ('x, 'r, 'e, 'l) router" where
  "group f r = absorb (f (sub_router r)) r"

text \<open>The calls of the registration DSL.\<close>

datatype ('x, 'r, 'e, 'l) route_call =
    Prefix string
  | Name string
  | Named string
  | Domain string
  | Middleware string
  | MiddlewareMeta "string list"
  | AuthorizeMeta "string \<times> string"
  | AuthorizeAbilityMeta string
  | Controller string
  | Method string string
  | Any string
  | Action string string string "('x, 'r, 'e) service"
  | AnyAction string string "('x, 'r, 'e) service"
  | ControllerAction string "('x, 'r, 'e) service"
  | ControllerActionFor string string "('x, 'r, 'e) service"
  | ResourceRoutes string string
  | RedirectTo "string \<Rightarrow> bool" string string RedirectKind
  | Layer 'l
  | RegisterMiddleware string "('x, 'r, 'e) middleware_apply"
  | RegisterMiddlewareFactory string "string \<Rightarrow> ('x, 'r, 'e) middleware_apply option"
  | RegisterAuthorizer string "('x, 'r, 'e) authorizer"
  | AuthorizeAbilities "('x, 'r, 'e) authorizer"
  | RegisterBinding string "('x, 'r, 'e) model_binder"
  | Group "('x, 'r, 'e, 'l) route_call list"

fun run_call :: "('x, 'r, 'e, 'l) route_call \<Rightarrow> ('x, 'r, 'e, 'l) router \<Rightarrow> ('x, 'r, 'e, 'l) router"
  and run_calls :: "('x, 'r, 'e, 'l) route_call list \<Rightarrow> ('x, 'r, 'e, 'l) router \<Rightarrow> ('x, 'r, 'e, 'l) router" where
  "run_call (Prefix p) r = prefix_op p r"
| "run_call (Name n) r = name_op n r"
| "run_call (Named n) r = named n r"
| "run_call (Domain d) r = domain_op d r"
| "run_call (Middleware m) r = middleware_op m r"
| "run_call (MiddlewareMeta ms) r = middleware_meta ms r"
| "run_call (AuthorizeMeta m) r = authorize_meta m r"
| "run_call (AuthorizeAbilityMeta n) r = authorize_ability_meta n r"
| "run_call (Controller c) r = controller_op c r"
| "run_call (Method m p) r = method_route m p r"
| "run_call (Any p) r = any_route p r"
| "run_call (Action m p l h) r = action_route m p l h r"
| "run_call (AnyAction p l h) r = any_action p l h r"
| "run_call (ControllerAction a h) r = controller_action a h r"
| "run_call (ControllerActionFor c a h) r = controller_action_for c a h r"
| "run_call (ResourceRoutes n c) r = register_resource n c r"
| "run_call (RedirectTo v s t k) r = push_redirect v s t k r"
| "run_call (Layer l) r = layer_op l r"
| "run_call (RegisterMiddleware n f) r = register_middleware n f r"
| "run_call (RegisterMiddlewareFactory n f) r = register_middleware_factory n f r"
| "run_call (RegisterAuthorizer n a) r = register_authorizer n a r"
| "run_call (AuthorizeAbilities a) r = authorize_abilities a r"
| "run_call (RegisterBinding n b) r = register_binding n b r"
| "run_call (Group cs) r = group (run_calls cs) r"
| "run_calls [] r = r"
| "run_calls (c # cs) r = run_calls cs (run_call c r)"

section \<open>The build\<close>

text \<open>\<^verbatim>\<open>sort_by_key\<close> is stable and \<^verbatim>\<open>false\<close> comes first.\<close>

definition get_routes :: "('x, 'r, 'e, 'l) router \<Rightarrow> RouteEntry list" where
  "get_routes r = sort_key (\<lambda>e. if re_domain e \<noteq> None then 0 else (1 :: nat)) (rt_routes r)"

definition swap_remove :: "nat \<Rightarrow> 'a list \<Rightarrow> 'a list" where
  "swap_remove i xs = butlast (xs[i := last xs])"

definition resolve_controller ::
  "(string \<times> string \<times> ('x, 'r, 'e) service) list \<Rightarrow> RouteEntry \<Rightarrow> ('x, 'r, 'e) method_router" where
  "resolve_controller cas e =
     (case re_controller e of
        None \<Rightarrow> into_method_router stub_handler (re_method e)
      | Some c \<Rightarrow>
          (case filter (\<lambda>(n, a, h). n = cr_name c \<and> a = cr_action c) cas of
             [] \<Rightarrow> into_method_router stub_handler (re_method e)
           | (_, _, h) # _ \<Rightarrow> into_method_router h (re_method e)))"

definition resolve_entry ::
  "(string \<times> string \<times> ('x, 'r, 'e) service) list \<Rightarrow> RouteEntry \<Rightarrow> ('x, 'r, 'e) BoundAction list
    \<Rightarrow> ('x, 'r, 'e) method_router \<times> ('x, 'r, 'e) BoundAction list" where
  "resolve_entry cas e actions =
     (case (if re_handler e \<noteq> None
            then position_of (\<lambda>a. ba_method a = re_method e \<and> ba_path a = re_path e \<and> ba_domain a = re_domain e) actions
            else None) of
        Some i \<Rightarrow> (ba_router (actions ! i), swap_remove i actions)
      | None \<Rightarrow> (resolve_controller cas e, actions))"

definition resolve_spec ::
  "('x, 'r, 'e) authorize_registry \<Rightarrow> AuthorizeSpec \<Rightarrow> RouteError + ('x, 'r, 'e) authorizer \<times> string" where
  "resolve_spec reg spec =
     (case spec of
        Resource ability res \<Rightarrow>
          (if res = [] then
             (case ar_sole reg of None \<Rightarrow> Inl (UnknownAuthorization res) | Some a \<Rightarrow> Inr (a, ability))
           else (case ar_resolve reg res of Inl e \<Rightarrow> Inl e | Inr a \<Rightarrow> Inr (a, ability)))
      | Ability name \<Rightarrow>
          (case ar_ability reg of None \<Rightarrow> Inl (UnknownAuthorization name) | Some a \<Rightarrow> Inr (a, name)))"

fun resolve_all :: "('a \<Rightarrow> RouteError + 'b) \<Rightarrow> 'a list \<Rightarrow> RouteError + 'b list" where
  "resolve_all f [] = Inr []"
| "resolve_all f (x # xs) =
     (case f x of
        Inl e \<Rightarrow> Inl e
      | Inr y \<Rightarrow> (case resolve_all f xs of Inl e \<Rightarrow> Inl e | Inr ys \<Rightarrow> Inr (y # ys)))"

fun authorize_layer ::
  "(('x, 'r, 'e) authorizer \<times> string) list \<Rightarrow> ('x, 'r, 'e) service \<Rightarrow> ('x, 'r, 'e) service" where
  "authorize_layer [] inner q e = inner q e"
| "authorize_layer ((a, ability) # cs) inner q e =
     (case a q ability e of
        (Inl resp, e') \<Rightarrow> (resp, e')
      | (Inr _, e') \<Rightarrow> authorize_layer cs inner q e')"

definition apply_authorize ::
  "('x, 'r, 'e) authorize_registry \<Rightarrow> RouteEntry \<Rightarrow> ('x, 'r, 'e) method_router
    \<Rightarrow> RouteError + ('x, 'r, 'e) method_router" where
  "apply_authorize reg entry mr =
     (if re_authorizations entry = [] then Inr mr
      else (case resolve_all (resolve_spec reg) (re_authorizations entry) of
              Inl e \<Rightarrow> Inl e
            | Inr checks \<Rightarrow> Inr (mr_layer (authorize_layer checks) mr)))"

function selector_pairs :: "string \<Rightarrow> (string \<times> string) list" where
  "selector_pairs path =
     (case split_once (CHR ''{'') path of
        None \<Rightarrow> []
      | Some (_, tail) \<Rightarrow>
          (case split_once (CHR ''}'') tail of
             None \<Rightarrow> []
           | Some (inner, rest) \<Rightarrow>
               (case split_once (CHR '':'') inner of
                  None \<Rightarrow> []
                | Some (param, field) \<Rightarrow> if param \<noteq> [] \<and> field \<noteq> [] then [(field, param)] else [])
                 @ selector_pairs rest))"
  by pat_completeness auto
termination
  by (relation "measure length") (auto dest!: split_once_shorter)

declare selector_pairs.simps [simp del]

definition extract_param :: "string \<Rightarrow> string \<Rightarrow> string \<Rightarrow> string option" where
  "extract_param uri template param =
     (let ts = split_on (CHR ''/'') template; us = split_on (CHR ''/'') uri in
      if length ts \<noteq> length us then None
      else map_of (zip ts us) (CHR '':'' # param))"

fun binding_layer ::
  "string \<Rightarrow> (('x, 'r, 'e) model_binder \<times> string) list \<Rightarrow> ('x, 'r, 'e) service \<Rightarrow> string \<Rightarrow> ('x, 'r, 'e) service" where
  "binding_layer template [] inner uri q e = inner q e"
| "binding_layer template ((b, param) # cs) inner uri q e =
     (case extract_param uri template param of
        None \<Rightarrow> (StatusCode 404, e)
      | Some v \<Rightarrow>
          (case b q v e of
             (Inl resp, e') \<Rightarrow> (resp, e')
           | (Inr q', e') \<Rightarrow> binding_layer template cs inner uri q' e'))"

definition resolve_binders ::
  "(string, ('x, 'r, 'e) model_binder) fmap \<Rightarrow> string \<Rightarrow> (('x, 'r, 'e) model_binder \<times> string) list" where
  "resolve_binders reg path =
     List.map_filter (\<lambda>(field, param). map_option (\<lambda>b. (b, param)) (fmlookup reg field)) (selector_pairs path)"

definition apply_binding ::
  "(string, ('x, 'r, 'e) model_binder) fmap \<Rightarrow> string \<Rightarrow> string \<Rightarrow> ('x, 'r, 'e) method_router
    \<Rightarrow> ('x, 'r, 'e) method_router" where
  "apply_binding reg path template mr =
     (let checks = resolve_binders reg path in
      if checks = [] then mr
      else mr_layer (\<lambda>inner q. binding_layer template checks inner (rq_path q) q) mr)"

definition apply_middleware ::
  "('x, 'r, 'e) middleware_registry \<Rightarrow> RouteEntry \<Rightarrow> ('x, 'r, 'e) method_router
    \<Rightarrow> RouteError + ('x, 'r, 'e) method_router" where
  "apply_middleware reg entry mr =
     (case resolve_all (mw_resolve reg) (re_middleware entry) of
        Inl e \<Rightarrow> Inl e
      | Inr fs \<Rightarrow> Inr (fold (\<lambda>f. f) (rev fs) mr))"

function to_axum_path :: "string \<Rightarrow> string" where
  "to_axum_path path =
     (case split_once (CHR ''{'') path of
        None \<Rightarrow> path
      | Some (before, tail) \<Rightarrow>
          (case split_once (CHR ''}'') tail of
             None \<Rightarrow> path
           | Some (inner, rest) \<Rightarrow>
               (let param = hd (split_on (CHR '':'') inner) in
                before @ (if param = [] then [] else CHR '':'' # param) @ to_axum_path rest)))"
  by pat_completeness auto
termination
  by (relation "measure length") (auto dest!: split_once_shorter)

declare to_axum_path.simps [simp del]

record ('x, 'r, 'e) built_row =
  br_entry :: RouteEntry
  br_path :: string
  br_router :: "('x, 'r, 'e) method_router"

text \<open>The method router of one entry, with its layers.\<close>

definition build_entry ::
  "('x, 'r, 'e, 'l) router \<Rightarrow> RouteEntry \<Rightarrow> ('x, 'r, 'e) method_router \<Rightarrow> RouteError + ('x, 'r, 'e) built_row" where
  "build_entry r entry base =
     (let path = to_axum_path (re_path entry) in
      case apply_authorize (rt_authorize_registry r) entry base of
        Inl e \<Rightarrow> Inl e
      | Inr mr \<Rightarrow>
          (case apply_middleware (rt_middleware_registry r) entry
                  (apply_binding (rt_binding_registry r) (re_path entry) path mr) of
             Inl e \<Rightarrow> Inl e
           | Inr mr' \<Rightarrow> Inr \<lparr>br_entry = entry, br_path = path, br_router = mr'\<rparr>))"

fun build_loop ::
  "('x, 'r, 'e, 'l) router \<Rightarrow> RouteEntry list \<Rightarrow> (string \<times> string) list \<Rightarrow> ('x, 'r, 'e) BoundAction list
    \<Rightarrow> ('x, 'r, 'e) built_row list \<Rightarrow> RouteError + ('x, 'r, 'e) built_row list" where
  "build_loop r [] registered actions rows = Inr rows"
| "build_loop r (entry # es) registered actions rows =
     (if (re_method entry, re_path entry) \<in> set registered then build_loop r es registered actions rows
      else
        (case resolve_entry (rt_controller_actions r) entry actions of
           (base, actions') \<Rightarrow>
             (case build_entry r entry base of
                Inl e \<Rightarrow> Inl e
              | Inr row \<Rightarrow>
                  build_loop r es (registered @ [(re_method entry, re_path entry)]) actions' (rows @ [row]))))"

definition try_into_axum_router ::
  "('x, 'r, 'e, 'l) router \<Rightarrow> RouteError + ('x, 'r, 'e) built_row list \<times> 'l list" where
  "try_into_axum_router r =
     (case build_loop r (get_routes r) [] (rt_actions r) [] of
        Inl e \<Rightarrow> Inl e
      | Inr rows \<Rightarrow> Inr (rows, rt_layers r))"

text \<open>The router that axum serves: the routes with their layers, or a fallback for every request.\<close>

datatype ('x, 'r, 'e, 'l) axum_router =
    Routes "('x, 'r, 'e) built_row list" "'l list"
  | Fallback nat

definition into_axum_router :: "('x, 'r, 'e, 'l) router \<Rightarrow> ('x, 'r, 'e, 'l) axum_router" where
  "into_axum_router r =
     (case try_into_axum_router r of Inl _ \<Rightarrow> Fallback 500 | Inr (rows, ls) \<Rightarrow> Routes rows ls)"

section \<open>URLs from names\<close>

record NamedRoutes =
  nr_paths :: "string \<rightharpoonup> string"
  nr_domains :: "string \<rightharpoonup> string option"

fun index_routes :: "RouteEntry list \<Rightarrow> NamedRoutes \<Rightarrow> NamedRoutes" where
  "index_routes [] ix = ix"
| "index_routes (e # es) ix =
     index_routes es
       (case re_name e of
          None \<Rightarrow> ix
        | Some n \<Rightarrow> \<lparr>nr_paths = or_insert (nr_paths ix) n (re_path e),
                    nr_domains = or_insert (nr_domains ix) n (re_domain e)\<rparr>)"

definition from_routes :: "RouteEntry list \<Rightarrow> NamedRoutes" where
  "from_routes es = index_routes es \<lparr>nr_paths = Map.empty, nr_domains = Map.empty\<rparr>"

definition is_ident_start :: "char \<Rightarrow> bool" where
  "is_ident_start c \<longleftrightarrow> (let n = (of_char c :: nat) in (65 \<le> n \<and> n \<le> 90) \<or> (97 \<le> n \<and> n \<le> 122) \<or> c = CHR ''_'')"

definition is_ident_char :: "char \<Rightarrow> bool" where
  "is_ident_char c \<longleftrightarrow> is_ident_start c \<or> is_digit c"

function substitute :: "(string \<times> string) list \<Rightarrow> string \<Rightarrow> string option" where
  "substitute params [] = Some []"
| "substitute params (c # cs) =
     (if c = CHR ''{'' then
        (case split_once (CHR ''}'') cs of
           None \<Rightarrow> map_option (Cons c) (substitute params cs)
         | Some (inner, rest) \<Rightarrow>
             (case map_of params (hd (split_on (CHR '':'') inner)) of
                None \<Rightarrow> None
              | Some v \<Rightarrow> map_option ((@) v) (substitute params rest)))
      else if c = CHR '':'' \<and> cs \<noteq> [] \<and> is_ident_start (hd cs) then
        (case map_of params (takeWhile is_ident_char cs) of
           None \<Rightarrow> None
         | Some v \<Rightarrow> map_option ((@) v) (substitute params (dropWhile is_ident_char cs)))
      else map_option (Cons c) (substitute params cs))"
  by pat_completeness auto
termination
  by (relation "measure (length \<circ> snd)")
    (auto dest!: split_once_shorter simp: le_imp_less_Suc length_dropWhile_le)

declare substitute.simps(2) [simp del]

definition resolve_url :: "NamedRoutes \<Rightarrow> string \<Rightarrow> (string \<times> string) list \<Rightarrow> string option" where
  "resolve_url ix name params =
     (case nr_paths ix name of
        None \<Rightarrow> None
      | Some path \<Rightarrow>
          (case substitute params path of
             None \<Rightarrow> None
           | Some s \<Rightarrow>
               (case nr_domains ix name of
                  Some (Some domain) \<Rightarrow> Some (''//'' @ domain @ s)
                | _ \<Rightarrow> Some s)))"

definition named_routes :: "('x, 'r, 'e, 'l) router \<Rightarrow> NamedRoutes" where
  "named_routes r = from_routes (rt_routes r)"

definition url :: "('x, 'r, 'e, 'l) router \<Rightarrow> string \<Rightarrow> (string \<times> string) list \<Rightarrow> string option" where
  "url r name params = resolve_url (named_routes r) name params"

end
