(* ===== verification/Router_Props.thy ===== *)
theory Router_Props
  imports Router "HOL-Library.Sublist" "HOL-Library.Multiset"
begin

text \<open>
  What the router guarantees: a group is the same as its calls on the outer router with the outer
  settings restored; what a group inherits; the table that is built; and the round trip from a
  route name through its URL back to the parameters.
\<close>

section \<open>Groups\<close>

text \<open>The router \<open>s\<close> with everything \<open>b\<close> has registered put before it.\<close>

definition embed :: "('x, 'r, 'e, 'l) router \<Rightarrow> ('x, 'r, 'e, 'l) router \<Rightarrow> ('x, 'r, 'e, 'l) router" where
  "embed b s = s\<lparr>rt_routes := rt_routes b @ rt_routes s, rt_layers := rt_layers b @ rt_layers s,
     rt_actions := rt_actions b @ rt_actions s,
     rt_controller_actions := rt_controller_actions b @ rt_controller_actions s,
     rt_middleware_registry := fmadd (rt_middleware_registry b) (rt_middleware_registry s),
     rt_authorize_registry := ar_merge (rt_authorize_registry b) (rt_authorize_registry s),
     rt_binding_registry := fmadd (rt_binding_registry b) (rt_binding_registry s),
     rt_batch_start := length (rt_routes b) + rt_batch_start s\<rparr>"

lemma fmadd_fmupd [simp]: "fmadd m (fmupd k v n) = fmupd k v (fmadd m n)"
  by (rule fmap_ext) auto

lemma ar_merge_assoc: "ar_merge a (ar_merge b c) = ar_merge (ar_merge a b) c"
  by (simp add: ar_merge_def)

lemma ar_merge_new [simp]: "ar_merge a ar_new = a"
  by (simp add: ar_merge_def ar_new_def)

lemma update_last_append: "ys \<noteq> [] \<Longrightarrow> update_last f (xs @ ys) = xs @ update_last f ys"
  by (simp add: update_last_def butlast_append)

lemma push_route_ne [simp]: "rt_routes (push_route m p n r) \<noteq> []"
  by (simp add: push_route_def Let_def)

lemma embed_simps [simp]:
  "rt_prefix (embed b s) = rt_prefix s" "rt_name_prefix (embed b s) = rt_name_prefix s"
  "rt_middleware (embed b s) = rt_middleware s" "rt_authorizations (embed b s) = rt_authorizations s"
  "rt_domain (embed b s) = rt_domain s" "rt_controller (embed b s) = rt_controller s"
  "rt_routes (embed b s) = rt_routes b @ rt_routes s" "rt_actions (embed b s) = rt_actions b @ rt_actions s"
  "rt_batch_start (embed b s) = length (rt_routes b) + rt_batch_start s"
  by (simp_all add: embed_def)

lemma embed_push_route: "push_route m p n (embed b s) = embed b (push_route m p n s)"
  by (simp add: push_route_def embed_def Let_def)

lemma embed_begin_batch: "begin_batch (embed b s) = embed b (begin_batch s)"
  by (simp add: begin_batch_def embed_def)

lemma embed_bind_last:
  "rt_routes s \<noteq> [] \<Longrightarrow> bind_last l m mr (embed b s) = embed b (bind_last l m mr s)"
  by (simp add: bind_last_def embed_def update_last_append)

lemma embed_push_action: "push_action m p l h (embed b s) = embed b (push_action m p l h s)"
  by (simp add: push_action_def embed_push_route embed_bind_last)

lemma embed_fold:
  assumes "\<And>x s. f x (embed b s) = embed b (f x s)"
  shows "fold f xs (embed b s) = embed b (fold f xs s)"
  using assms by (induction xs arbitrary: s) simp_all

lemma embed_resource_route:
  "resource_route m p res a c (embed b s) = embed b (resource_route m p res a c s)"
proof -
  have "rt_routes (push_route m p n s) \<noteq> []" for n by simp
  then show ?thesis
    by (simp add: resource_route_def embed_push_route Let_def update_last_append) (simp add: embed_def)
qed

lemma embed_named: "named n (embed b s) = embed b (named n s)"
  by (simp add: named_def embed_def Let_def min_add_distrib_right [symmetric] flip: min_add_distrib_left)

lemma sub_router_embed: "sub_router (embed b s) = sub_router s"
  by (simp add: sub_router_def)

lemma absorb_embed: "absorb x (embed b s) = embed b (absorb x s)"
  by (simp add: absorb_def embed_def ar_merge_assoc add.assoc)

text \<open>Every call does the same with and without the routes registered before.\<close>

lemma embed_run:
  fixes c :: "('x, 'r, 'e, 'l) route_call" and cs :: "('x, 'r, 'e, 'l) route_call list"
  shows "run_call c (embed b s) = embed b (run_call c s)"
    and "run_calls cs (embed b s) = embed b (run_calls cs s)"
proof (induction c s and cs s rule: run_call_run_calls.induct)
  case (10 m p r) show ?case by (simp add: method_route_def embed_begin_batch embed_push_route)
next
  case (11 p r) show ?case
    by (simp add: any_route_def embed_begin_batch embed_fold embed_push_route)
next
  case (12 m p l h r) show ?case by (simp add: action_route_def embed_begin_batch embed_push_action)
next
  case (13 p l h r) show ?case by (simp add: any_action_def embed_begin_batch embed_fold embed_push_action)
next
  case (16 n c r) show ?case
    by (auto simp: register_resource_def embed_begin_batch Let_def embed_resource_route intro!: embed_fold)
next
  case (17 v s t k r) show ?case
    by (simp add: push_redirect_def embed_begin_batch embed_push_route embed_bind_last)
next
  case (24 cs r) then show ?case by (simp add: group_def sub_router_embed absorb_embed)
qed (simp_all add: embed_named, simp_all add: embed_def prefix_op_def name_op_def domain_op_def
    middleware_op_def middleware_meta_def authorize_meta_def authorize_ability_meta_def controller_op_def
    controller_action_def controller_action_for_def layer_op_def register_middleware_def
    register_middleware_factory_def register_authorizer_def authorize_abilities_def register_binding_def
    ar_merge_def Let_def)

lemma embed_sub_router: "embed r (sub_router r) = begin_batch r"
  by (simp add: embed_def sub_router_def begin_batch_def)

text \<open>A group is transparent: it leaves the router as its calls, made directly after the
  current batch, would leave it, except that prefix, names, middleware, authorizations, domain and
  controller are restored, that the batch is closed, and that the layers added in the group are
  lost.\<close>

lemma group_transparent:
  "run_call (Group cs) r =
    (let r' = run_calls cs (begin_batch r) in
     r'\<lparr>rt_prefix := rt_prefix r, rt_name_prefix := rt_name_prefix r, rt_middleware := rt_middleware r,
        rt_authorizations := rt_authorizations r, rt_domain := rt_domain r, rt_controller := rt_controller r,
        rt_layers := rt_layers r, rt_batch_start := length (rt_routes r')\<rparr>)"
proof -
  have "run_calls cs (begin_batch r) = embed r (run_calls cs (sub_router r))"
    unfolding embed_sub_router [symmetric] by (rule embed_run(2))
  then show ?thesis by (simp add: group_def absorb_def embed_def)
qed

section \<open>What a group inherits\<close>

definition inherits :: "('x, 'r, 'e, 'l) router \<Rightarrow> RouteEntry \<Rightarrow> bool" where
  "inherits r e \<longleftrightarrow> prefix (rt_middleware r) (re_middleware e)
     \<and> prefix (rt_authorizations r) (re_authorizations e) \<and> prefix (rt_prefix r) (re_path e)
     \<and> (re_domain e = None \<longrightarrow> rt_domain r = None)"

definition extends_settings :: "('x, 'r, 'e, 'l) router \<Rightarrow> ('x, 'r, 'e, 'l) router \<Rightarrow> bool" where
  "extends_settings r s \<longleftrightarrow> prefix (rt_middleware r) (rt_middleware s)
     \<and> prefix (rt_authorizations r) (rt_authorizations s) \<and> prefix (rt_prefix r) (rt_prefix s)
     \<and> (rt_domain s = None \<longrightarrow> rt_domain r = None)"

definition inside :: "('x, 'r, 'e, 'l) router \<Rightarrow> ('x, 'r, 'e, 'l) router \<Rightarrow> bool" where
  "inside r s \<longleftrightarrow> extends_settings r s \<and> list_all (inherits r) (rt_routes s)"

lemma prefix_join: "prefix pre (join_prefix pre p)"
  by (simp add: join_prefix_def Let_def)

lemma inside_push_route: "inside r s \<Longrightarrow> inside r (push_route m p n s)"
  by (auto simp: inside_def push_route_def Let_def inherits_def extends_settings_def
      intro: prefix_order.trans [OF _ prefix_join])

lemma list_all_update_last:
  "list_all P xs \<Longrightarrow> (\<And>x. P x \<Longrightarrow> P (f x)) \<Longrightarrow> list_all P (update_last f xs)"
  by (auto simp: update_last_def list_all_iff dest: in_set_butlastD)

lemma inside_update_last:
  "inside r s \<Longrightarrow> (\<And>e. inherits r e \<Longrightarrow> inherits r (f e)) \<Longrightarrow> inside r (s\<lparr>rt_routes := update_last f (rt_routes s)\<rparr>)"
  by (simp add: inside_def extends_settings_def list_all_update_last)

lemma inside_actions: "inside r s \<Longrightarrow> inside r (s\<lparr>rt_actions := as\<rparr>)"
  by (simp add: inside_def extends_settings_def)

lemma inside_bind_last: "inside r s \<Longrightarrow> inside r (bind_last l m mr s)"
  by (auto simp: bind_last_def inherits_def intro!: inside_actions inside_update_last)

lemma inside_begin_batch: "inside r s \<Longrightarrow> inside r (begin_batch s)"
  by (simp add: begin_batch_def inside_def extends_settings_def)

lemma inside_push_action: "inside r s \<Longrightarrow> inside r (push_action m p l h s)"
  by (simp add: push_action_def inside_bind_last inside_push_route)

lemma inside_resource_route: "inside r s \<Longrightarrow> inside r (resource_route m p res a c s)"
  by (auto simp: resource_route_def Let_def inherits_def intro!: inside_update_last inside_push_route)

lemma inside_fold: "(\<And>x s. inside r s \<Longrightarrow> inside r (f x s)) \<Longrightarrow> inside r s \<Longrightarrow> inside r (fold f xs s)"
  by (induction xs arbitrary: s) simp_all

lemma inside_named: "inside r s \<Longrightarrow> inside r (named n s)"
  by (auto simp: named_def Let_def inside_def extends_settings_def list_all_iff inherits_def
      dest: in_set_takeD in_set_dropD)

lemma inside_run:
  fixes c :: "('x, 'r, 'e, 'l) route_call" and cs :: "('x, 'r, 'e, 'l) route_call list"
  shows "inside r s \<Longrightarrow> inside r (run_call c s)"
    and "inside r s \<Longrightarrow> inside r (run_calls cs s)"
proof (induction c s and cs s rule: run_call_run_calls.induct)
  case (1 p s)
  then show ?case
    using prefix_join [of "rt_prefix s" "normalize_prefix p"]
    by (auto simp: prefix_op_def Let_def inside_def extends_settings_def intro: prefix_order.trans)
next
  case (24 cs s)
  then have "inside r (sub_router s)" by (simp add: inside_def extends_settings_def sub_router_def)
  with 24 have "inside r (run_calls cs (sub_router s))" by blast
  with 24(2) show ?case
    by (auto simp: group_def absorb_def inside_def extends_settings_def)
qed (auto simp: method_route_def any_route_def action_route_def any_action_def register_resource_def
    push_redirect_def Let_def
    intro!: inside_push_route inside_push_action inside_bind_last inside_fold inside_resource_route
      inside_begin_batch inside_named,
    auto simp: inside_def extends_settings_def name_op_def domain_op_def
    middleware_op_def middleware_meta_def authorize_meta_def authorize_ability_meta_def controller_op_def
    controller_action_def controller_action_for_def layer_op_def register_middleware_def
    register_middleware_factory_def register_authorizer_def authorize_abilities_def register_binding_def)

lemma group_inherits:
  assumes "e \<in> set (drop (length (rt_routes r)) (rt_routes (run_call (Group cs) r)))"
  shows "inherits r e"
proof -
  have "inside r (sub_router r)" by (simp add: inside_def extends_settings_def sub_router_def)
  then have "inside r (run_calls cs (sub_router r))" by (rule inside_run)
  with assms show ?thesis by (auto simp: group_def absorb_def inside_def list_all_iff)
qed

section \<open>The table that is built\<close>

lemma authorize_layer_Nil [simp]: "authorize_layer [] = (\<lambda>inner. inner)"
  by (intro ext) simp

lemma mr_layer_id [simp]: "mr_layer (\<lambda>inner. inner) mr = mr"
  by (simp add: mr_layer_def)

lemma apply_authorize_eq:
  "apply_authorize reg e mr =
    (case resolve_all (resolve_spec reg) (re_authorizations e) of
       Inl x \<Rightarrow> Inl x | Inr checks \<Rightarrow> Inr (mr_layer (authorize_layer checks) mr))"
  by (simp add: apply_authorize_def split: sum.splits)

lemma fold_rev_foldr: "fold (\<lambda>f. f) (rev fs) x = foldr (\<lambda>f. f) fs x"
  by (simp add: foldr_conv_fold)

text \<open>A built row is its declared middleware, the first outermost, around the model bindings, around
  the authorizations, around the handler.\<close>

lemma build_entry_Inr:
  "build_entry r e base = Inr row \<longleftrightarrow>
    (\<exists>checks fs. resolve_all (resolve_spec (rt_authorize_registry r)) (re_authorizations e) = Inr checks
      \<and> resolve_all (mw_resolve (rt_middleware_registry r)) (re_middleware e) = Inr fs
      \<and> row = \<lparr>br_entry = e, br_path = to_axum_path (re_path e),
          br_router = foldr (\<lambda>f. f) fs (apply_binding (rt_binding_registry r) (re_path e) (to_axum_path (re_path e))
            (mr_layer (authorize_layer checks) base))\<rparr>)"
  by (auto simp: build_entry_def apply_authorize_eq apply_middleware_def Let_def fold_rev_foldr
      split: sum.splits)

lemma resolve_all_append:
  "resolve_all f (xs @ ys) = Inr zs \<longleftrightarrow>
    (\<exists>as bs. zs = as @ bs \<and> resolve_all f xs = Inr as \<and> resolve_all f ys = Inr bs)"
  by (induction xs arbitrary: zs) (force split: sum.splits)+

lemma resolve_all_Inr_nth:
  "resolve_all f xs = Inr ys \<Longrightarrow> length ys = length xs \<and> (\<forall>i<length xs. f (xs ! i) = Inr (ys ! i))"
  by (induction xs arbitrary: ys) (auto split: sum.splits simp: nth_Cons split: nat.splits)

lemma resolve_all_Inl:
  "resolve_all f xs = Inl e \<Longrightarrow> \<exists>x\<in>set xs. f x = Inl e"
  by (induction xs) (auto split: sum.splits)

subsection \<open>The reference table\<close>

definition slot :: "RouteEntry \<Rightarrow> string \<times> string" where
  "slot e = (re_method e, re_path e)"

fun first_slots :: "(string \<times> string) list \<Rightarrow> RouteEntry list \<Rightarrow> RouteEntry list" where
  "first_slots seen [] = []"
| "first_slots seen (e # es) =
     (if slot e \<in> set seen then first_slots seen es else e # first_slots (seen @ [slot e]) es)"

definition action_key :: "('x, 'r, 'e) BoundAction \<Rightarrow> string \<times> string \<times> string option" where
  "action_key a = (ba_method a, ba_path a, ba_domain a)"

definition entry_key :: "RouteEntry \<Rightarrow> string \<times> string \<times> string option" where
  "entry_key e = (re_method e, re_path e, re_domain e)"

text \<open>The handler an entry is meant to have: its own action when it is bound to one.\<close>

definition own_handler :: "('x, 'r, 'e, 'l) router \<Rightarrow> RouteEntry \<Rightarrow> ('x, 'r, 'e) method_router" where
  "own_handler r e =
     (case (if re_handler e \<noteq> None then find (\<lambda>a. action_key a = entry_key e) (rt_actions r) else None) of
        Some a \<Rightarrow> ba_router a
      | None \<Rightarrow> resolve_controller (rt_controller_actions r) e)"

lemma first_slots_spec:
  "distinct (map slot (first_slots seen es)) \<and> slot ` set (first_slots seen es) = slot ` set es - set seen"
  by (induction es arbitrary: seen) auto

lemma swap_remove_mset:
  assumes "i < length xs"
  shows "mset (swap_remove i xs) = mset (take i xs @ drop (Suc i) xs)"
proof -
  let ?ys = "xs[i := last xs]"
  have ne: "?ys \<noteq> []" "xs \<noteq> []" using assms by auto
  have "last ?ys = last xs"
    using assms ne by (cases "i = length xs - 1") (simp_all add: last_conv_nth)
  moreover have "mset ?ys = add_mset (last ?ys) (mset (butlast ?ys))"
    using arg_cong [OF append_butlast_last_id [OF ne(1)], of mset] by simp
  ultimately have "mset (butlast ?ys) = mset xs - {#xs ! i#}"
    using assms by (simp add: mset_update)
  moreover have "mset xs = add_mset (xs ! i) (mset (take i xs @ drop (Suc i) xs))"
    using arg_cong [OF id_take_nth_drop [OF assms], of mset] by simp
  ultimately show ?thesis by (simp add: swap_remove_def)
qed

text \<open>The actions left over while the table is built.\<close>

definition actions_left ::
  "('x, 'r, 'e, 'l) router \<Rightarrow> (string \<times> string) list \<Rightarrow> ('x, 'r, 'e) BoundAction list \<Rightarrow> bool" where
  "actions_left r seen actions \<longleftrightarrow> distinct (map action_key actions) \<and> set actions \<subseteq> set (rt_actions r)
     \<and> {a \<in> set (rt_actions r). (ba_method a, ba_path a) \<notin> set seen} \<subseteq> set actions"

lemma swap_remove_left:
  assumes "actions_left r seen actions" "i < length actions"
    "ba_method (actions ! i) = re_method e" "ba_path (actions ! i) = re_path e"
  shows "actions_left r (seen @ [slot e]) (swap_remove i actions)"
proof -
  let ?rest = "take i actions @ drop (Suc i) actions"
  note perm = swap_remove_mset [OF assms(2)]
  have split: "actions = take i actions @ actions ! i # drop (Suc i) actions"
    by (rule id_take_nth_drop [OF assms(2)])
  have "distinct (map action_key actions)" using assms(1) by (simp add: actions_left_def)
  then have "distinct (map action_key ?rest)"
    by (subst (asm) split) (auto simp del: append_take_drop_id)
  then have "distinct (map action_key (swap_remove i actions))"
    using mset_eq_imp_distinct_iff [of "map action_key (swap_remove i actions)" "map action_key ?rest"] perm
    by simp
  moreover have sets: "set (swap_remove i actions) = set ?rest"
    using perm by (rule mset_eq_setD)
  moreover have "set actions = insert (actions ! i) (set ?rest)"
    by (subst split) auto
  ultimately show ?thesis
    using assms unfolding actions_left_def sets slot_def by auto
qed

lemma actions_left_mono: "actions_left r seen actions \<Longrightarrow> actions_left r (seen @ [x]) actions"
  by (auto simp: actions_left_def)

lemma resolve_entry_own:
  assumes keys: "distinct (map action_key (rt_actions r))" and left: "actions_left r seen actions"
    and new: "slot e \<notin> set seen"
    and res: "resolve_entry (rt_controller_actions r) e actions = (base, actions')"
  shows "base = own_handler r e \<and> actions_left r (seen @ [slot e]) actions'"
proof -
  let ?P = "\<lambda>a. action_key a = entry_key e"
  have P: "?P = (\<lambda>a. ba_method a = re_method e \<and> ba_path a = re_path e \<and> ba_domain a = re_domain e)"
    by (auto simp: action_key_def entry_key_def)
  show ?thesis
  proof (cases "re_handler e = None")
    case True
    with res left show ?thesis by (simp add: resolve_entry_def own_handler_def actions_left_mono)
  next
    case False
    show ?thesis
    proof (cases "position_of ?P actions")
      case None
      have "find ?P (rt_actions r) = None"
        using None left new
        by (force simp: position_of_None find_None_iff actions_left_def action_key_def entry_key_def slot_def)
      with None res left False show ?thesis
        by (simp add: resolve_entry_def own_handler_def actions_left_mono P)
    next
      case (Some i)
      note i = position_of_Some [OF Some]
      then have a: "actions ! i \<in> set (rt_actions r)" "?P (actions ! i)"
        using left by (auto simp: actions_left_def)
      obtain b where b: "find ?P (rt_actions r) = Some b"
        using a by (cases "find ?P (rt_actions r)") (auto simp: find_None_iff)
      then have "b \<in> set (rt_actions r)" "?P b" by (auto simp: find_Some_iff)
      with a keys have "b = actions ! i"
        by (metis distinct_map inj_onD)
      moreover have "base = ba_router (actions ! i)" "actions' = swap_remove i actions"
        using res False Some by (simp_all add: resolve_entry_def P)
      ultimately show ?thesis
        using b False swap_remove_left [OF left, of i e] i
        by (simp add: own_handler_def action_key_def entry_key_def)
    qed
  qed
qed

lemma build_loop_reference:
  assumes "distinct (map action_key (rt_actions r))"
  shows "actions_left r seen actions \<Longrightarrow>
    build_loop r es seen actions rows =
      (case resolve_all (\<lambda>e. build_entry r e (own_handler r e)) (first_slots seen es) of
         Inl x \<Rightarrow> Inl x | Inr new \<Rightarrow> Inr (rows @ new))"
proof (induction es arbitrary: seen actions rows)
  case (Cons e es)
  show ?case
  proof (cases "slot e \<in> set seen")
    case True
    with Cons show ?thesis by (simp add: slot_def)
  next
    case False
    obtain base actions' where res: "resolve_entry (rt_controller_actions r) e actions = (base, actions')"
      by fastforce
    note own = resolve_entry_own [OF assms Cons.prems False res]
    show ?thesis
      using False res own Cons.IH [of "seen @ [slot e]" actions']
      by (auto simp: slot_def split: sum.splits)
  qed
qed simp


definition answers :: "nat \<Rightarrow> (unit, nat, unit) service" where
  "answers n q e = (Answer n, e)"

definition guard_mw :: "(unit, nat, unit) middleware_apply" where
  "guard_mw = mr_layer (\<lambda>inner q e. if rq_path q = ''/login'' then (StatusCode 401, e) else inner q e)"

definition demo_router :: "(unit, nat, unit, unit) router" where
  "demo_router = run_calls [RegisterMiddleware ''auth'' guard_mw, Middleware ''auth'', Prefix ''api'', Name ''api.'',
     Group [Prefix ''v1'', Action ''GET'' ''/a'' ''A'' (answers 1), ResourceRoutes ''users'' []]] router_new"

lemmas call_defs = group_def absorb_def sub_router_def register_middleware_def middleware_op_def prefix_op_def
  name_op_def action_route_def push_action_def push_route_def bind_last_def begin_batch_def Let_def
  join_prefix_def normalize_prefix_def starts_slash_def trim_end_matches_def update_last_def router_new_def
  register_resource_def resource_rows_def resource_route_def prefixed_name_def to_ascii_uppercase_def

lemma demo_slots:
  "map slot (rt_routes demo_router) = [(''GET'', ''/api/v1/a''), (''GET'', ''/api/v1/users''), (''GET'', ''/api/v1/users/create''),
     (''POST'', ''/api/v1/users''), (''GET'', ''/api/v1/users/{id}''), (''GET'', ''/api/v1/users/{id}/edit''),
     (''PUT'', ''/api/v1/users/{id}''), (''PATCH'', ''/api/v1/users/{id}''), (''DELETE'', ''/api/v1/users/{id}'')]"
  by (simp add: demo_router_def call_defs slot_def)

lemma demo_keys: "map action_key (rt_actions demo_router) = [(''GET'', ''/api/v1/a'', None)]"
    by (simp add: demo_router_def call_defs action_key_def)

lemma resolve_all_total: "list_all (\<lambda>x. \<exists>y. f x = Inr y) xs \<Longrightarrow> \<exists>ys. resolve_all f xs = Inr ys"
  by (induction xs) auto

lemma resolve_all_map: "resolve_all f xs = Inr ys \<Longrightarrow> (\<And>x y. f x = Inr y \<Longrightarrow> g y = x) \<Longrightarrow> map g ys = xs"
  by (induction xs arbitrary: ys) (auto split: sum.splits)

lemma first_slots_sub: "set (first_slots seen es) \<subseteq> set es"
  by (induction es arbitrary: seen) auto

lemma built_entries:
  "resolve_all (\<lambda>e. build_entry r e (own_handler r e)) es = Inr rows \<Longrightarrow> map br_entry rows = es"
  by (rule resolve_all_map) (auto simp: build_entry_Inr)



lemma build_loop_rows:
  "build_loop r es seen actions rows = Inr rows' \<Longrightarrow>
    list_all (\<lambda>row. \<exists>base. build_entry r (br_entry row) base = Inr row) rows \<Longrightarrow>
    list_all (\<lambda>row. \<exists>base. build_entry r (br_entry row) base = Inr row) rows'"
proof (induction es arbitrary: seen actions rows)
  case (Cons e es)
  show ?case
  proof (cases "(re_method e, re_path e) \<in> set seen")
    case True
    with Cons show ?thesis by simp
  next
    case False
    obtain base actions' where res: "resolve_entry (rt_controller_actions r) e actions = (base, actions')"
      by fastforce
    then obtain row where row: "build_entry r e base = Inr row"
      using Cons.prems(1) False by (auto split: sum.splits)
    then have "br_entry row = e" by (auto simp: build_entry_Inr)
    with Cons False res row show ?thesis by fastforce
  qed
qed simp

lemma group_row:
  assumes "into_axum_router (run_call (Group cs) r) = Routes rows ls" "row \<in> set rows"
    and "br_entry row \<in> set (drop (length (rt_routes r)) (rt_routes (run_call (Group cs) r)))"
  shows "\<exists>fs gs checks more base.
    prefix (rt_prefix r) (re_path (br_entry row))
    \<and> resolve_all (mw_resolve (rt_middleware_registry (run_call (Group cs) r))) (rt_middleware r) = Inr fs
    \<and> resolve_all (resolve_spec (rt_authorize_registry (run_call (Group cs) r))) (rt_authorizations r) = Inr checks
    \<and> br_router row = foldr (\<lambda>f. f) fs (foldr (\<lambda>f. f) gs
        (apply_binding (rt_binding_registry (run_call (Group cs) r)) (re_path (br_entry row)) (br_path row)
          (mr_layer (authorize_layer (checks @ more)) base)))"
proof -
  let ?r = "run_call (Group cs) r" and ?e = "br_entry row"
  have "try_into_axum_router ?r = Inr (rows, ls)"
    using assms(1) by (auto simp: into_axum_router_def split: sum.splits)
  then have "build_loop ?r (get_routes ?r) [] (rt_actions ?r) [] = Inr rows"
    by (auto simp: try_into_axum_router_def split: sum.splits)
  from build_loop_rows [OF this] obtain base where "build_entry ?r ?e base = Inr row"
    using assms(2) by (auto simp: list_all_iff)
  then obtain checks fs where row: "resolve_all (resolve_spec (rt_authorize_registry ?r)) (re_authorizations ?e) = Inr checks"
    "resolve_all (mw_resolve (rt_middleware_registry ?r)) (re_middleware ?e) = Inr fs"
    "row = \<lparr>br_entry = ?e, br_path = to_axum_path (re_path ?e),
       br_router = foldr (\<lambda>f. f) fs (apply_binding (rt_binding_registry ?r) (re_path ?e) (to_axum_path (re_path ?e))
         (mr_layer (authorize_layer checks) base))\<rparr>"
    unfolding build_entry_Inr by blast
  obtain ms as where e: "prefix (rt_prefix r) (re_path ?e)" "re_middleware ?e = rt_middleware r @ ms"
    "re_authorizations ?e = rt_authorizations r @ as"
    using group_inherits [OF assms(3)] unfolding inherits_def prefix_def by blast
  obtain fs1 fs2 where fs: "fs = fs1 @ fs2"
    "resolve_all (mw_resolve (rt_middleware_registry ?r)) (rt_middleware r) = Inr fs1"
    using row(2) unfolding e(2) resolve_all_append by blast
  obtain c1 c2 where cs: "checks = c1 @ c2"
    "resolve_all (resolve_spec (rt_authorize_registry ?r)) (rt_authorizations r) = Inr c1"
    using row(1) unfolding e(3) resolve_all_append by blast
  have path: "br_path row = to_axum_path (re_path ?e)"
    using row(3) by (metis built_row.select_convs(2))
  have "br_router row = foldr (\<lambda>f. f) fs (apply_binding (rt_binding_registry ?r) (re_path ?e) (br_path row)
      (mr_layer (authorize_layer checks) base))"
    unfolding path using row(3) by (metis built_row.select_convs(3))
  then have "br_router row = foldr (\<lambda>f. f) fs1 (foldr (\<lambda>f. f) fs2
      (apply_binding (rt_binding_registry ?r) (re_path ?e) (br_path row) (mr_layer (authorize_layer (c1 @ c2)) base)))"
    by (simp add: fs(1) cs(1))
  with e(1) fs(2) cs(2) show ?thesis by blast
qed


definition demo_outer :: "(unit, nat, unit, unit) router" where
  "demo_outer = run_calls [RegisterMiddleware ''auth'' guard_mw, Middleware ''auth'', Prefix ''api''] router_new"

lemma demo_group_table:
  "into_axum_router (run_call (Group [Action ''GET'' ''/a'' ''A'' (answers 1)]) demo_outer) =
    Routes [\<lparr>br_entry = \<lparr>re_method = ''GET'', re_path = ''/api/a'', re_name = None, re_middleware = [''auth''],
        re_authorizations = [], re_domain = None, re_binding_fields = [], re_controller = None, re_handler = Some ''A''\<rparr>,
      br_path = ''/api/a'', br_router = guard_mw \<lparr>mr_verb = Some ''GET'', mr_service = answers 1\<rparr>\<rparr>] []"
  by (simp add: demo_outer_def call_defs into_axum_router_def try_into_axum_router_def get_routes_def resolve_entry_def
      swap_remove_def build_entry_def apply_authorize_def apply_middleware_def apply_binding_def resolve_binders_def
      selector_pairs.simps parse_binding_fields.simps to_axum_path.simps mw_resolve_def into_method_router_def
      List.map_filter_def)


text \<open>Two actions on one slot: the route that is served keeps the metadata of the first
  registration but can run the handler of the second, because removing a resolved action moves the last
  one into its place.\<close>

lemma router_duplicate_action:
  "\<exists>row a. into_axum_router (run_calls [Action ''GET'' ''/a'' ''A'' (answers 0), Action ''GET'' ''/x'' ''X1'' (answers 1),
       Action ''GET'' ''/x'' ''X2'' (answers 2)] (router_new :: (unit, nat, unit, unit) router)) = Routes [a, row] []
     \<and> re_handler (br_entry row) = Some ''X1'' \<and> mr_service (br_router row) = answers 2"
  by (simp add: call_defs into_axum_router_def try_into_axum_router_def get_routes_def resolve_entry_def
      swap_remove_def build_entry_def apply_authorize_def apply_middleware_def apply_binding_def resolve_binders_def
      selector_pairs.simps parse_binding_fields.simps to_axum_path.simps mw_resolve_def into_method_router_def
      List.map_filter_def)

section \<open>Authorization layers\<close>

text \<open>The checks of a layer in order, without the handler.\<close>

fun authorize_outcome ::
  "(('x, 'r, 'e) authorizer \<times> string) list \<Rightarrow> 'x request \<Rightarrow> 'e \<Rightarrow> ('r response + unit) \<times> 'e" where
  "authorize_outcome [] q e = (Inr (), e)"
| "authorize_outcome ((a, ability) # cs) q e =
     (case a q ability e of (Inl resp, e') \<Rightarrow> (Inl resp, e') | (Inr _, e') \<Rightarrow> authorize_outcome cs q e')"

lemma authorize_layer_outcome:
  "authorize_layer checks h q e =
    (case authorize_outcome checks q e of (Inl resp, e') \<Rightarrow> (resp, e') | (Inr _, e') \<Rightarrow> h q e')"
  by (induction checks arbitrary: e) (auto split: prod.splits sum.splits)

lemma authorize_outcome_mem:
  "authorize_outcome checks q e = (Inr (), e') \<Longrightarrow> (a, ability) \<in> set checks \<Longrightarrow> \<exists>w w'. a q ability w = (Inr (), w')"
proof (induction checks q e rule: authorize_outcome.induct)
  case (2 b ab cs q e)
  then show ?case by (cases "b q ab e") (auto split: sum.splits)
qed simp

lemma resolve_all_mem: "resolve_all f xs = Inr ys \<Longrightarrow> x \<in> set xs \<Longrightarrow> \<exists>y\<in>set ys. f x = Inr y"
  by (induction xs arbitrary: ys) (auto split: sum.splits)

end
