(* ===== verification/Router_Url.thy ===== *)
theory Router_Url
  imports Router_Props
begin

text \<open>
  Reverse URLs: the first route of a name wins, and the URL built from a route's name gives back, on
  the template that axum matches, the parameters it was built from.
\<close>

section \<open>Paths as segments\<close>

datatype seg = Lit string | Par string "string option"

fun laravel :: "seg \<Rightarrow> string" where
  "laravel (Lit s) = s"
| "laravel (Par p None) = CHR ''{'' # p @ ''}''"
| "laravel (Par p (Some f)) = CHR ''{'' # p @ CHR '':'' # f @ ''}''"

fun axum :: "seg \<Rightarrow> string" where
  "axum (Lit s) = s"
| "axum (Par p f) = CHR '':'' # p"

fun seg_value :: "(string \<times> string) list \<Rightarrow> seg \<Rightarrow> string option" where
  "seg_value ps (Lit s) = Some s"
| "seg_value ps (Par p f) = map_of ps p"

definition plain :: "string \<Rightarrow> bool" where
  "plain s \<longleftrightarrow> list_all (\<lambda>c. c \<noteq> CHR ''/'' \<and> c \<noteq> CHR ''{'' \<and> c \<noteq> CHR ''}'' \<and> c \<noteq> CHR '':'') s"

fun seg_ok :: "seg \<Rightarrow> bool" where
  "seg_ok (Lit s) = plain s"
| "seg_ok (Par p None) = (plain p \<and> p \<noteq> [])"
| "seg_ok (Par p (Some f)) = (plain p \<and> p \<noteq> [] \<and> plain f)"

definition path_of :: "(seg \<Rightarrow> string) \<Rightarrow> seg list \<Rightarrow> string" where
  "path_of g segs = concat (map (\<lambda>s. CHR ''/'' # g s) segs)"

lemma path_of_simps [simp]:
  "path_of g [] = []" "path_of g (s # segs) = CHR ''/'' # g s @ path_of g segs"
  by (simp_all add: path_of_def)

lemma plainD:
  "plain s \<Longrightarrow> CHR ''/'' \<notin> set s" "plain s \<Longrightarrow> CHR ''{'' \<notin> set s"
  "plain s \<Longrightarrow> CHR ''}'' \<notin> set s" "plain s \<Longrightarrow> CHR '':'' \<notin> set s"
  by (auto simp: plain_def list_all_iff)

lemma split_once_none: "c \<notin> set a \<Longrightarrow> split_once c a = None"
  by (induction a) auto

lemma split_path:
  assumes "list_all (\<lambda>s. CHR ''/'' \<notin> set (g s)) segs"
  shows "split_on (CHR ''/'') (path_of g segs) = [] # map g segs"
proof (cases segs)
  case (Cons s ss)
  have "CHR ''/'' \<notin> set a \<Longrightarrow> split_on (CHR ''/'') (a @ path_of g ss) = a # map g ss" for a
    using assms[unfolded Cons]
  proof (induction ss arbitrary: a)
    case (Cons x xs)
    then show ?case by (simp add: split_on_sep)
  qed (simp add: split_on_none)
  with assms show ?thesis by (simp add: Cons)
qed simp

section \<open>Substitution and templates\<close>

lemma substitute_plain: "plain a \<Longrightarrow> substitute ps (a @ rest) = map_option ((@) a) (substitute ps rest)"
proof (induction a)
  case Nil then show ?case by (simp add: option.map_ident_strong)
next
  case (Cons c a)
  then have "c \<noteq> CHR ''{''" "c \<noteq> CHR '':''" "plain a" by (auto simp: plain_def)
  with Cons.IH show ?case by (simp add: substitute.simps(2) option.map_comp comp_def)
qed

lemma hd_split_colon: "CHR '':'' \<notin> set p \<Longrightarrow> hd (split_on (CHR '':'') (p @ CHR '':'' # f)) = p"
  by (simp add: split_on_sep)

lemma substitute_seg:
  assumes "seg_ok s"
  shows "substitute ps (laravel s @ rest) =
    (case seg_value ps s of None \<Rightarrow> None | Some v \<Rightarrow> map_option ((@) v) (substitute ps rest))"
proof (cases s rule: laravel.cases)
  case (1 t)
  with assms show ?thesis by (simp add: substitute_plain)
next
  case (2 p)
  have "split_once (CHR ''}'') (p @ CHR ''}'' # rest) = Some (p, rest)"
    using assms 2 by (simp add: split_once_append plainD)
  with 2 assms show ?thesis by (simp add: substitute.simps(2) split_on_none plainD)
next
  case (3 p f)
  have "split_once (CHR ''}'') ((p @ CHR '':'' # f) @ CHR ''}'' # rest) = Some (p @ CHR '':'' # f, rest)"
    using assms 3 by (intro split_once_append) (simp add: plainD)
  with 3 assms show ?thesis by (simp add: substitute.simps(2) hd_split_colon plainD)
qed

lemma substitute_slash: "substitute ps (CHR ''/'' # rest) = map_option (Cons (CHR ''/'')) (substitute ps rest)"
  by (simp add: substitute.simps(2))

text \<open>The URL exists exactly when every parameter has a value, and is the path with the values.\<close>

lemma substitute_path:
  assumes "list_all seg_ok segs"
  shows "substitute ps (path_of laravel segs) =
    (if list_all (\<lambda>s. seg_value ps s \<noteq> None) segs then Some (path_of (\<lambda>s. the (seg_value ps s)) segs) else None)"
  using assms
proof (induction segs)
  case (Cons s segs)
  then show ?case
    by (cases "seg_value ps s") (simp_all add: substitute_slash substitute_seg)
qed simp

lemma to_axum_prefix:
  assumes "CHR ''{'' \<notin> set a"
  shows "to_axum_path (a @ rest) = a @ to_axum_path rest"
proof -
  have "split_once (CHR ''{'') (a @ rest) = map_option (\<lambda>(x, y). (a @ x, y)) (split_once (CHR ''{'') rest)"
    using assms by (induction a) (auto split: option.splits simp: option.map_comp comp_def option.map_id)
  then show ?thesis
    by (subst (1 2) to_axum_path.simps) (auto simp: Let_def split: option.splits)
qed

lemma to_axum_seg:
  assumes "seg_ok s"
  shows "to_axum_path (laravel s @ rest) = axum s @ to_axum_path rest"
proof (cases s rule: laravel.cases)
  case (1 t)
  with assms show ?thesis by (simp add: to_axum_prefix plainD)
next
  case (2 p)
  have "split_once (CHR ''}'') (p @ CHR ''}'' # rest) = Some (p, rest)"
    using assms 2 by (simp add: split_once_append plainD)
  with 2 assms show ?thesis by (subst to_axum_path.simps) (simp add: split_on_none plainD)
next
  case (3 p f)
  have "split_once (CHR ''}'') ((p @ CHR '':'' # f) @ CHR ''}'' # rest) = Some (p @ CHR '':'' # f, rest)"
    using assms 3 by (intro split_once_append) (simp add: plainD)
  with 3 assms show ?thesis by (subst to_axum_path.simps) (simp add: hd_split_colon plainD)
qed

lemma to_axum_path_of: "list_all seg_ok segs \<Longrightarrow> to_axum_path (path_of laravel segs) = path_of axum segs"
proof (induction segs)
  case Nil
  show ?case by (simp add: to_axum_path.simps)
next
  case (Cons s segs)
  have "to_axum_path (CHR ''/'' # rest) = CHR ''/'' # to_axum_path rest" for rest
    using to_axum_prefix [of "''/''" rest] by simp
  with Cons show ?case by (simp add: to_axum_seg)
qed

section \<open>The round trip\<close>

lemma extract_value:
  assumes "list_all seg_ok segs" "list_all (\<lambda>s. seg_value ps s \<noteq> None) segs"
    and "list_all (\<lambda>(k, v). CHR ''/'' \<notin> set v) ps" "Par p f \<in> set segs"
  shows "extract_param (path_of (\<lambda>s. the (seg_value ps s)) segs) (path_of axum segs) p = map_of ps p"
proof -
  let ?val = "\<lambda>s. the (seg_value ps s)"
  have "list_all (\<lambda>s. CHR ''/'' \<notin> set (axum s)) segs"
  proof -
    have "seg_ok s \<Longrightarrow> CHR ''/'' \<notin> set (axum s)" for s
      by (cases s rule: laravel.cases) (auto simp: plainD)
    with assms(1) show ?thesis by (auto simp: list_all_iff)
  qed
  note ts = split_path [OF this]
  have "CHR ''/'' \<notin> set (?val s)" if "s \<in> set segs" for s
    using that assms(1-3)
    by (cases s rule: seg.exhaust) (fastforce simp: list_all_iff plainD dest!: map_of_SomeD bspec)+
  then have "list_all (\<lambda>s. CHR ''/'' \<notin> set (?val s)) segs" by (simp add: list_all_iff)
  note us = split_path [OF this]
  have "Par p f \<in> set segs \<Longrightarrow> map_of (zip (map axum segs) (map ?val segs)) (CHR '':'' # p) = Some (the (map_of ps p))"
    using assms(1)
  proof (induction segs)
    case (Cons s segs)
    then show ?case by (cases s) (auto simp: plain_def)
  qed simp
  moreover have "map_of ps p \<noteq> None" using assms(2,4) by (auto simp: list_all_iff)
  ultimately show ?thesis
    using assms(4) by (auto simp: extract_param_def ts us)
qed


definition demo_params :: "(string \<times> string) list" where
  "demo_params = [(''id'', ''42'')]"


end
