(* ===== verification/Guard.thy ===== *)
theory Guard
  imports Cache "HOL-Library.AList"
begin

text \<open>
  Principals and guards, \<^verbatim>\<open>rustasea-auth/src\<close>: the authenticated principal and the
  freshness of a password confirmation (\<^verbatim>\<open>guard/principal.rs\<close>), the registry of named
  guards (\<^verbatim>\<open>guard.rs\<close>), the user lookup (\<^verbatim>\<open>users.rs\<close>) and the JWT guard
  (\<^verbatim>\<open>jwt.rs\<close>).

  The clock is an argument. The parser of RFC 3339 times (\<^verbatim>\<open>chrono\<close>), the token codec
  (\<^verbatim>\<open>jsonwebtoken\<close>), UUIDs (\<^verbatim>\<open>uuid\<close>) and the password verifier are parameters. A
  result \<open>None\<close> is a panic: an overflow in a build with overflow checks.
\<close>

section \<open>The principal\<close>

datatype AuthError =
    GuardMismatch string string
  | BadCredentials
  | InvalidToken
  | ExpiredToken
  | Disabled string
  | TokenError string
  | HashError string
  | StoreUnavailable
  | UserExists string
  | UserNotFound string
  | TwoFactorRequired
  | InvalidTwoFactorCode
  | TwoFactorError string
  | PasskeyRequired
  | InvalidPasskeyAssertion
  | PasskeyError string

record AuthUser =
  au_id :: string
  au_email :: "string option"
  au_guard :: string
  au_email_verified_at :: "string option"
  au_password_confirmed_at :: "string option"
  au_timezone :: "string option"

definition auth_user_new :: "string \<Rightarrow> string option \<Rightarrow> string \<Rightarrow> AuthUser" where
  "auth_user_new uid email guard = \<lparr>au_id = uid, au_email = email, au_guard = guard,
     au_email_verified_at = None, au_password_confirmed_at = None, au_timezone = None\<rparr>"

definition is_email_verified :: "AuthUser \<Rightarrow> bool" where
  "is_email_verified u \<longleftrightarrow> au_email_verified_at u \<noteq> None"

definition parse_unix_seconds :: "(string \<Rightarrow> int option) \<Rightarrow> string \<Rightarrow> int option" where
  "parse_unix_seconds rfc3339 value =
     (let trimmed = trim value in
      case parse_i64 trimmed of Some secs \<Rightarrow> Some secs | None \<Rightarrow> rfc3339 trimmed)"

text \<open>The age is a 64-bit difference read as unsigned; \<open>checks\<close> are the overflow checks of a debug
  build.\<close>

definition timestamp_is_fresh ::
  "bool \<Rightarrow> (string \<Rightarrow> int option) \<Rightarrow> string option \<Rightarrow> nat \<Rightarrow> int \<Rightarrow> bool option" where
  "timestamp_is_fresh checks rfc3339 timestamp timeout now =
     (case timestamp of
        None \<Rightarrow> Some False
      | Some confirmed \<Rightarrow>
          (case parse_unix_seconds rfc3339 confirmed of
             None \<Rightarrow> Some False
           | Some at \<Rightarrow>
               if now < at then Some False
               else if \<not> i64_range (now - at) \<and> checks then None
               else Some (nat (wrap_i64 (now - at) mod 2 ^ 64) \<le> timeout)))"

definition is_password_confirmed_within ::
  "bool \<Rightarrow> (string \<Rightarrow> int option) \<Rightarrow> AuthUser \<Rightarrow> nat \<Rightarrow> int \<Rightarrow> bool option" where
  "is_password_confirmed_within checks rfc3339 u timeout now =
     timestamp_is_fresh checks rfc3339 (au_password_confirmed_at u) timeout now"

section \<open>The registry of guards\<close>

text \<open>Clones of a manager and its registrars share the map, so there is one state.\<close>

record 'g auth_manager =
  am_guards :: "string \<rightharpoonup> 'g"
  am_default :: string

definition auth_manager_new :: "'g auth_manager" where
  "auth_manager_new = \<lparr>am_guards = Map.empty, am_default = ''jwt''\<rparr>"

definition manager_with_default :: "string \<Rightarrow> 'g auth_manager" where
  "manager_with_default d = \<lparr>am_guards = Map.empty, am_default = d\<rparr>"

definition auth_manager_register :: "('g \<Rightarrow> string) \<Rightarrow> 'g \<Rightarrow> 'g auth_manager \<Rightarrow> (AuthError + unit) \<times> 'g auth_manager" where
  "auth_manager_register guard_name g m = (Inr (), m\<lparr>am_guards := (am_guards m)(guard_name g \<mapsto> g)\<rparr>)"

text \<open>A registrar is the name it was created for.\<close>

definition registrar_register :: "string \<Rightarrow> (unit \<Rightarrow> 'g) \<Rightarrow> 'g auth_manager \<Rightarrow> (AuthError + unit) \<times> 'g auth_manager" where
  "registrar_register default_guard factory m =
     (if am_guards m default_guard \<noteq> None then (Inl (GuardMismatch (am_default m) default_guard), m)
      else (Inr (), m\<lparr>am_guards := (am_guards m)(default_guard \<mapsto> factory ())\<rparr>))"

definition manager_extend :: "string \<Rightarrow> (unit \<Rightarrow> 'g) \<Rightarrow> 'g auth_manager \<Rightarrow> (AuthError + string) \<times> 'g auth_manager" where
  "manager_extend name factory m =
     (if am_guards m name \<noteq> None then (Inl (GuardMismatch (am_default m) name), m)
      else (Inr name, m\<lparr>am_guards := (am_guards m)(name \<mapsto> factory ())\<rparr>))"

definition manager_guard :: "'g auth_manager \<Rightarrow> string \<Rightarrow> AuthError + 'g" where
  "manager_guard m name =
     (case am_guards m name of Some g \<Rightarrow> Inr g | None \<Rightarrow> Inl (GuardMismatch (am_default m) name))"

definition manager_default_guard :: "'g auth_manager \<Rightarrow> AuthError + 'g" where
  "manager_default_guard m = manager_guard m (am_default m)"

definition authorize_gate :: "'g auth_manager \<Rightarrow> string \<Rightarrow> AuthError + 'g" where
  "authorize_gate m name = manager_guard m name"

section \<open>User lookup\<close>

record user_lookup =
  hash_for_email :: "string \<Rightarrow> string option"
  id_for_email :: "string \<Rightarrow> string option"
  email_for_id :: "string \<Rightarrow> string option"
  email_verified_at_for_id :: "string \<Rightarrow> string option"
  timezone_for_id :: "string \<Rightarrow> string option"

definition StaticLookup :: user_lookup where
  "StaticLookup = \<lparr>hash_for_email = (\<lambda>_. None), id_for_email = (\<lambda>_. None), email_for_id = (\<lambda>_. None),
     email_verified_at_for_id = (\<lambda>_. None), timezone_for_id = (\<lambda>_. None)\<rparr>"

record AuthUserRecord =
  ur_id :: string
  ur_email :: string
  ur_password_hash :: string
  ur_email_verified_at :: "string option"
  ur_timezone :: "string option"

text \<open>The registry in memory, an association list in the order of the hash map's iteration.\<close>

definition seed :: "AuthUserRecord \<Rightarrow> (string \<times> AuthUserRecord) list \<Rightarrow> (string \<times> AuthUserRecord) list" where
  "seed rec reg = AList.update (ur_email rec) rec reg"

definition by_email :: "(string \<times> AuthUserRecord) list \<Rightarrow> string \<Rightarrow> AuthUserRecord option" where
  "by_email reg email = map_of reg email"

definition by_id :: "(string \<times> AuthUserRecord) list \<Rightarrow> string \<Rightarrow> AuthUserRecord option" where
  "by_id reg uid = List.find (\<lambda>r. ur_id r = uid) (map snd reg)"

definition memory_lookup :: "(string \<times> AuthUserRecord) list \<Rightarrow> user_lookup" where
  "memory_lookup reg =
     \<lparr>hash_for_email = (\<lambda>e. map_option ur_password_hash (by_email reg e)),
      id_for_email = (\<lambda>e. map_option ur_id (by_email reg e)),
      email_for_id = (\<lambda>i. map_option ur_email (by_id reg i)),
      email_verified_at_for_id = (\<lambda>i. Option.bind (by_id reg i) ur_email_verified_at),
      timezone_for_id = (\<lambda>i. Option.bind (by_id reg i) ur_timezone)\<rparr>"

section \<open>The JWT guard\<close>

record Credentials =
  cr_email :: string
  cr_password :: string

record Token =
  tk_access :: string
  tk_refresh :: string
  tk_type :: string
  tk_expires_in :: nat

definition bearer :: "string \<Rightarrow> string \<Rightarrow> nat \<Rightarrow> Token" where
  "bearer access refresh expires_in =
     \<lparr>tk_access = access, tk_refresh = refresh, tk_type = ''Bearer'', tk_expires_in = expires_in\<rparr>"

record JwtConfig =
  jc_secret :: string
  jc_access_ttl :: nat
  jc_refresh_ttl :: nat
  jc_issuer :: string
  jc_audience :: string
  jc_allow_login_using_id :: bool

definition DEFAULT_SECRET :: string where
  "DEFAULT_SECRET = ''change-me-in-production''"

definition MIN_SECRET_LEN :: nat where
  "MIN_SECRET_LEN = 32"

definition jwt_config_default :: JwtConfig where
  "jwt_config_default = \<lparr>jc_secret = ''change-me-in-production'', jc_access_ttl = 3600, jc_refresh_ttl = 86400,
     jc_issuer = ''rustasea'', jc_audience = ''rustasea-app'', jc_allow_login_using_id = False\<rparr>"

definition jwt_validate :: "JwtConfig \<Rightarrow> AuthError + unit" where
  "jwt_validate cfg =
     (if jc_secret cfg = DEFAULT_SECRET then
        Inl (Disabled (''JWT secret is still the default '' @ [CHR 0x27] @ ''change-me-in-production'' @ [CHR 0x27]
          @ ''; set a strong secret in production''))
      else if length (jc_secret cfg) < MIN_SECRET_LEN then
        Inl (Disabled (''JWT secret must be at least '' @ show_nat MIN_SECRET_LEN @ '' bytes long''))
      else Inr ())"

record JwtClaims =
  cl_sub :: string
  cl_exp :: nat
  cl_iat :: nat
  cl_iss :: string
  cl_aud :: string
  cl_typ :: string

text \<open>Addition of \<^verbatim>\<open>usize\<close>; the result is \<open>None\<close> when the overflow checks of a debug build
  panic.\<close>

definition usize_add :: "bool \<Rightarrow> nat \<Rightarrow> nat \<Rightarrow> nat option" where
  "usize_add checks a b =
     (if a + b < 2 ^ 64 then Some (a + b) else if checks then None else Some ((a + b) mod 2 ^ 64))"

definition claims_issue ::
  "bool \<Rightarrow> ('u \<Rightarrow> string) \<Rightarrow> int \<Rightarrow> 'u \<Rightarrow> string \<Rightarrow> nat \<Rightarrow> JwtConfig \<Rightarrow> JwtClaims option" where
  "claims_issue checks uuid_show t user purpose ttl cfg =
     (let now = nat (t mod 2 ^ 64) in
      map_option (\<lambda>e. \<lparr>cl_sub = uuid_show user, cl_exp = e, cl_iat = now, cl_iss = jc_issuer cfg,
          cl_aud = jc_audience cfg, cl_typ = purpose\<rparr>)
        (usize_add checks now ttl))"

text \<open>What the guard uses of other code: the codec for HS256, with the validation of expiry (no
  leeway), issuer and audience, UUIDs and the password verifier.\<close>

datatype jwt_error_kind = ExpiredSignature | OtherError

record 'u jwt_env =
  je_encode :: "string \<Rightarrow> JwtClaims \<Rightarrow> string + string"
  je_decode :: "string \<Rightarrow> string \<Rightarrow> string \<Rightarrow> int \<Rightarrow> string \<Rightarrow> jwt_error_kind + JwtClaims"
  je_uuid_parse :: "string \<Rightarrow> 'u option"
  je_uuid_show :: "'u \<Rightarrow> string"
  je_verify :: "string \<Rightarrow> string \<Rightarrow> bool"
  je_lookup :: user_lookup
  je_checks :: bool

definition jwt_sign :: "'u jwt_env \<Rightarrow> JwtConfig \<Rightarrow> JwtClaims \<Rightarrow> AuthError + string" where
  "jwt_sign env cfg claims =
     (case je_encode env (jc_secret cfg) claims of Inl e \<Rightarrow> Inl (TokenError e) | Inr t \<Rightarrow> Inr t)"

definition decode_claims :: "'u jwt_env \<Rightarrow> JwtConfig \<Rightarrow> int \<Rightarrow> string \<Rightarrow> AuthError + JwtClaims" where
  "decode_claims env cfg now token =
     (case je_decode env (jc_secret cfg) (jc_issuer cfg) (jc_audience cfg) now token of
        Inl ExpiredSignature \<Rightarrow> Inl ExpiredToken
      | Inl OtherError \<Rightarrow> Inl InvalidToken
      | Inr claims \<Rightarrow> Inr claims)"

text \<open>The clock is read once for each of the two claim sets.\<close>

definition issue_pair :: "'u jwt_env \<Rightarrow> JwtConfig \<Rightarrow> int \<Rightarrow> int \<Rightarrow> 'u \<Rightarrow> (AuthError + Token) option" where
  "issue_pair env cfg t1 t2 user =
     (case claims_issue (je_checks env) (je_uuid_show env) t1 user ''access'' (jc_access_ttl cfg) cfg of
        None \<Rightarrow> None
      | Some access \<Rightarrow>
          (case claims_issue (je_checks env) (je_uuid_show env) t2 user ''refresh'' (jc_refresh_ttl cfg) cfg of
             None \<Rightarrow> None
           | Some refresh \<Rightarrow> Some
               (case jwt_sign env cfg access of
                  Inl e \<Rightarrow> Inl e
                | Inr a \<Rightarrow>
                    (case jwt_sign env cfg refresh of
                       Inl e \<Rightarrow> Inl e
                     | Inr r \<Rightarrow> Inr (bearer a r (jc_access_ttl cfg))))))"

definition jwt_login :: "'u jwt_env \<Rightarrow> JwtConfig \<Rightarrow> int \<Rightarrow> int \<Rightarrow> Credentials \<Rightarrow> (AuthError + Token) option" where
  "jwt_login env cfg t1 t2 creds =
     (case jwt_validate cfg of
        Inl e \<Rightarrow> Some (Inl e)
      | Inr _ \<Rightarrow>
          (case hash_for_email (je_lookup env) (cr_email creds) of
             None \<Rightarrow> Some (Inl BadCredentials)
           | Some stored_hash \<Rightarrow>
               if \<not> je_verify env stored_hash (cr_password creds) then Some (Inl BadCredentials)
               else
                 (case id_for_email (je_lookup env) (cr_email creds) of
                    None \<Rightarrow> Some (Inl BadCredentials)
                  | Some user_id \<Rightarrow>
                      (case je_uuid_parse env user_id of
                         None \<Rightarrow> Some (Inl BadCredentials)
                       | Some parsed \<Rightarrow> issue_pair env cfg t1 t2 parsed))))"

definition jwt_login_using_id :: "'u jwt_env \<Rightarrow> JwtConfig \<Rightarrow> int \<Rightarrow> int \<Rightarrow> string \<Rightarrow> (AuthError + Token) option" where
  "jwt_login_using_id env cfg t1 t2 user_id =
     (case jwt_validate cfg of
        Inl e \<Rightarrow> Some (Inl e)
      | Inr _ \<Rightarrow>
          if \<not> jc_allow_login_using_id cfg then Some (Inl (Disabled ''loginUsingId is disabled''))
          else (case je_uuid_parse env user_id of
                  None \<Rightarrow> Some (Inl InvalidToken)
                | Some parsed \<Rightarrow> issue_pair env cfg t1 t2 parsed))"

definition jwt_parse :: "'u jwt_env \<Rightarrow> JwtConfig \<Rightarrow> int \<Rightarrow> string \<Rightarrow> AuthError + AuthUser" where
  "jwt_parse env cfg now token =
     (case jwt_validate cfg of
        Inl e \<Rightarrow> Inl e
      | Inr _ \<Rightarrow>
          (case decode_claims env cfg now token of
             Inl e \<Rightarrow> Inl e
           | Inr claims \<Rightarrow>
               if cl_typ claims \<noteq> ''access'' then Inl InvalidToken
               else Inr \<lparr>au_id = cl_sub claims, au_email = email_for_id (je_lookup env) (cl_sub claims),
                      au_guard = ''jwt'',
                      au_email_verified_at = email_verified_at_for_id (je_lookup env) (cl_sub claims),
                      au_password_confirmed_at = None,
                      au_timezone = timezone_for_id (je_lookup env) (cl_sub claims)\<rparr>))"

definition jwt_refresh :: "'u jwt_env \<Rightarrow> JwtConfig \<Rightarrow> int \<Rightarrow> int \<Rightarrow> int \<Rightarrow> string \<Rightarrow> (AuthError + Token) option" where
  "jwt_refresh env cfg now t1 t2 token =
     (case jwt_validate cfg of
        Inl e \<Rightarrow> Some (Inl e)
      | Inr _ \<Rightarrow>
          (case decode_claims env cfg now token of
             Inl e \<Rightarrow> Some (Inl e)
           | Inr claims \<Rightarrow>
               if cl_typ claims \<noteq> ''refresh'' then Some (Inl InvalidToken)
               else (case je_uuid_parse env (cl_sub claims) of
                       None \<Rightarrow> Some (Inl InvalidToken)
                     | Some parsed \<Rightarrow> issue_pair env cfg t1 t2 parsed)))"

section \<open>The confirmation window\<close>

lemma wrap_i64_mod: "wrap_i64 z mod 2 ^ 64 = z mod 2 ^ 64"
  by (simp add: wrap_i64_def mod_diff_left_eq)

text \<open>The window of a password confirmation: with a clock and timestamps of 64 bits, a check says
  yes exactly when a timestamp is stored, parses and lies between the start of the window and now,
  both included, however far back it lies; only a build with overflow checks panics instead, and only
  when the age does not fit in 63 bits.\<close>

lemma confirmation_window:
  assumes "i64_range now" "\<And>s z. rfc3339 s = Some z \<Longrightarrow> i64_range z"
  shows "is_password_confirmed_within checks rfc3339 u timeout now =
    (case Option.bind (au_password_confirmed_at u) (parse_unix_seconds rfc3339) of
       None \<Rightarrow> Some False
     | Some at \<Rightarrow> if checks \<and> 2 ^ 63 \<le> now - at then None else Some (now - int timeout \<le> at \<and> at \<le> now))"
proof -
  have age: "nat (wrap_i64 (now - at) mod 2 ^ 64) = nat (now - at)" "i64_range (now - at) \<longleftrightarrow> now - at < 2 ^ 63"
    if "i64_range at" "at \<le> now" for at
    using that assms(1) unfolding wrap_i64_mod i64_range_def by auto
  have at: "i64_range at" if "parse_unix_seconds rfc3339 s = Some at" for s at
    using that assms(2) parse_i64_range by (auto simp: parse_unix_seconds_def Let_def split: option.splits)
  show ?thesis
  proof (cases "Option.bind (au_password_confirmed_at u) (parse_unix_seconds rfc3339)")
    case None
    then show ?thesis
      by (auto simp: is_password_confirmed_within_def timestamp_is_fresh_def bind_eq_None_conv split: option.splits)
  next
    case (Some t)
    then obtain s where s: "au_password_confirmed_at u = Some s" "parse_unix_seconds rfc3339 s = Some t"
      by (auto simp: bind_eq_Some_conv)
    show ?thesis
    proof (cases "now < t")
      case True
      then show ?thesis using s by (simp add: is_password_confirmed_within_def timestamp_is_fresh_def)
    next
      case False
      with age [OF at [OF s(2)]] s show ?thesis
        unfolding is_password_confirmed_within_def timestamp_is_fresh_def by auto
    qed
  qed
qed

lemma confirmation_window_example:
  "is_password_confirmed_within False (\<lambda>_. None) ((auth_user_new ''u'' None ''session'')\<lparr>au_password_confirmed_at := Some ''1000''\<rparr>)
      10800 11800 = Some True
   \<and> is_password_confirmed_within False (\<lambda>_. None) ((auth_user_new ''u'' None ''session'')\<lparr>au_password_confirmed_at := Some ''1000''\<rparr>)
      10800 11801 = Some False"
proof -
  let ?u = "(auth_user_new ''u'' None ''session'')\<lparr>au_password_confirmed_at := Some ''1000''\<rparr>"
  have "parse_unix_seconds (\<lambda>_. None) ''1000'' = Some 1000"
    by (simp add: parse_unix_seconds_def trim_def is_ws_def parse_i64_def parse_uint_def is_digit_def digits_val_def)
  then have "is_password_confirmed_within False (\<lambda>_. None) ?u 10800 now = Some (now - 10800 \<le> 1000 \<and> 1000 \<le> now)"
    if "i64_range now" for now
    using confirmation_window [OF that, of "\<lambda>_. None" False ?u 10800] by simp
  from this [of 11800] this [of 11801] show ?thesis by (simp add: i64_range_def)
qed

section \<open>Guards by name\<close>

lemma extend_first_wins:
  "manager_guard (snd (manager_extend n f m)) n = (case am_guards m n of None \<Rightarrow> Inr (f ()) | Some g \<Rightarrow> Inr g)"
  by (auto simp: manager_extend_def manager_guard_def split: option.splits)

text \<open>A registrar never registers anything: its name is taken by the call that creates it, and no
  operation frees a name.\<close>

lemma registrar_always_duplicate:
  assumes "manager_extend n f m = (Inr reg, m')"
  shows "registrar_register reg f' m' = (Inl (GuardMismatch (am_default m) n), m')"
  using assms by (auto simp: manager_extend_def registrar_register_def split: if_splits)

lemma register_last_wins: "manager_guard (snd (auth_manager_register nm g m)) (nm g) = Inr g"
  by (simp add: auth_manager_register_def manager_guard_def)

section \<open>The life of a token\<close>

lemma jwt_weak_secret:
  assumes "jc_secret cfg = DEFAULT_SECRET \<or> length (jc_secret cfg) < MIN_SECRET_LEN"
  obtains why where "jwt_login env cfg t1 t2 creds = Some (Inl (Disabled why))"
    "jwt_login_using_id env cfg t1 t2 uid = Some (Inl (Disabled why))"
    "jwt_parse env cfg now tok = Inl (Disabled why)" "jwt_refresh env cfg now t1 t2 tok = Some (Inl (Disabled why))"
proof -
  obtain why where "jwt_validate cfg = Inl (Disabled why)"
    using assms by (cases "jc_secret cfg = DEFAULT_SECRET") (auto simp: jwt_validate_def)
  then show thesis
    by (intro that [of why]) (simp_all add: jwt_login_def jwt_login_using_id_def jwt_parse_def jwt_refresh_def)
qed

text \<open>What the guard relies on: a token decodes to the claims it was encoded from, under the same secret,
  issuer and audience, until its expiry; a UUID is parsed from its text.\<close>

definition jwt_env_ok :: "'u jwt_env \<Rightarrow> bool" where
  "jwt_env_ok env \<longleftrightarrow>
     (\<forall>secret claims token now. je_encode env secret claims = Inr token \<longrightarrow>
        je_decode env secret (cl_iss claims) (cl_aud claims) now token
          = (if int (cl_exp claims) < now then Inl ExpiredSignature else Inr claims))
     \<and> (\<forall>u. je_uuid_parse env (je_uuid_show env u) = Some u)"

lemma claims_issue_eq:
  "0 \<le> t \<Longrightarrow> t + int ttl < 2 ^ 64 \<Longrightarrow> claims_issue checks sh t u p ttl cfg =
    Some \<lparr>cl_sub = sh u, cl_exp = nat t + ttl, cl_iat = nat t, cl_iss = jc_issuer cfg, cl_aud = jc_audience cfg, cl_typ = p\<rparr>"
  by (simp add: claims_issue_def usize_add_def Let_def) linarith

lemma issued_claims:
  assumes "jwt_env_ok env" "0 \<le> t" "t + int ttl < 2 ^ 64" "claims_issue checks (je_uuid_show env) t u p ttl cfg = Some c"
    and "jwt_sign env cfg c = Inr token"
  shows "decode_claims env cfg now token = (if t + int ttl < now then Inl ExpiredToken else Inr c)
    \<and> cl_sub c = je_uuid_show env u \<and> cl_typ c = p"
proof -
  have c: "c = \<lparr>cl_sub = je_uuid_show env u, cl_exp = nat t + ttl, cl_iat = nat t, cl_iss = jc_issuer cfg,
      cl_aud = jc_audience cfg, cl_typ = p\<rparr>"
    using assms(4) by (simp add: claims_issue_eq [OF assms(2,3)])
  have enc: "je_encode env (jc_secret cfg) c = Inr token"
    using assms(5) by (auto simp: jwt_sign_def split: sum.splits)
  have "je_decode env (jc_secret cfg) (jc_issuer cfg) (jc_audience cfg) now token
      = (if t + int ttl < now then Inl ExpiredSignature else Inr c)"
    using assms(1,2) enc unfolding jwt_env_ok_def by (force simp: c)
  then show ?thesis by (simp add: decode_claims_def c)
qed

lemma jwt_login_Inr:
  assumes "jwt_login env cfg t1 t2 creds = Some (Inr tk)"
  obtains hash uid u where "jwt_validate cfg = Inr ()" "hash_for_email (je_lookup env) (cr_email creds) = Some hash"
    "je_verify env hash (cr_password creds)" "id_for_email (je_lookup env) (cr_email creds) = Some uid"
    "je_uuid_parse env uid = Some u" "issue_pair env cfg t1 t2 u = Some (Inr tk)"
  using assms by (auto simp: jwt_login_def split: sum.splits option.splits if_splits)

lemma issue_pair_Inr:
  assumes "issue_pair env cfg t1 t2 u = Some (Inr tk)"
  obtains a r where
    "claims_issue (je_checks env) (je_uuid_show env) t1 u ''access'' (jc_access_ttl cfg) cfg = Some a"
    "claims_issue (je_checks env) (je_uuid_show env) t2 u ''refresh'' (jc_refresh_ttl cfg) cfg = Some r"
    "jwt_sign env cfg a = Inr (tk_access tk)" "jwt_sign env cfg r = Inr (tk_refresh tk)"
  using assms by (auto simp: issue_pair_def bearer_def split: sum.splits option.splits)

text \<open>C19. The life of a token pair: a pair issued at a login belongs to the user the credentials name and
  whose password they match. Its access token authenticates that user until it expires and is no
  refresh token; its refresh token gives a new pair for the same user until it expires and is no
  access token.\<close>

theorem jwt_token_life:
  assumes "jwt_env_ok env" "jwt_login env cfg t1 t2 creds = Some (Inr tk)" "0 \<le> t1" "0 \<le> t2"
    and "t1 + int (jc_access_ttl cfg) < 2 ^ 64" "t2 + int (jc_refresh_ttl cfg) < 2 ^ 64"
  shows "\<exists>hash uid u.
    hash_for_email (je_lookup env) (cr_email creds) = Some hash \<and> je_verify env hash (cr_password creds)
    \<and> id_for_email (je_lookup env) (cr_email creds) = Some uid \<and> je_uuid_parse env uid = Some u
    \<and> map_sum id au_id (jwt_parse env cfg now (tk_access tk))
        = (if t1 + int (jc_access_ttl cfg) < now then Inl ExpiredToken else Inr (je_uuid_show env u))
    \<and> jwt_refresh env cfg now s1 s2 (tk_access tk)
        = Some (Inl (if t1 + int (jc_access_ttl cfg) < now then ExpiredToken else InvalidToken))
    \<and> jwt_parse env cfg now (tk_refresh tk)
        = Inl (if t2 + int (jc_refresh_ttl cfg) < now then ExpiredToken else InvalidToken)
    \<and> jwt_refresh env cfg now s1 s2 (tk_refresh tk)
        = (if t2 + int (jc_refresh_ttl cfg) < now then Some (Inl ExpiredToken) else issue_pair env cfg s1 s2 u)"
proof -
  obtain hash uid u where login: "jwt_validate cfg = Inr ()" "hash_for_email (je_lookup env) (cr_email creds) = Some hash"
    "je_verify env hash (cr_password creds)" "id_for_email (je_lookup env) (cr_email creds) = Some uid"
    "je_uuid_parse env uid = Some u" "issue_pair env cfg t1 t2 u = Some (Inr tk)"
    using assms(2) by (rule jwt_login_Inr)
  from login(6) obtain a r where pair:
    "claims_issue (je_checks env) (je_uuid_show env) t1 u ''access'' (jc_access_ttl cfg) cfg = Some a"
    "claims_issue (je_checks env) (je_uuid_show env) t2 u ''refresh'' (jc_refresh_ttl cfg) cfg = Some r"
    "jwt_sign env cfg a = Inr (tk_access tk)" "jwt_sign env cfg r = Inr (tk_refresh tk)"
    by (rule issue_pair_Inr)
  have "je_uuid_parse env (je_uuid_show env u) = Some u" using assms(1) by (simp add: jwt_env_ok_def)
  with login(1) issued_claims [OF assms(1,3,5) pair(1,3), of now] issued_claims [OF assms(1,4,6) pair(2,4), of now]
  show ?thesis
    by (intro exI [of _ hash] exI [of _ uid] exI [of _ u] conjI login(2-5)) (simp_all add: jwt_parse_def jwt_refresh_def)
qed

text \<open>A guard with one user, two possible tokens and numbers for UUIDs.\<close>

definition demo_jwt_config :: JwtConfig where
  "demo_jwt_config = jwt_config_default\<lparr>jc_secret := ''0123456789abcdef0123456789abcdef''\<rparr>"

definition demo_claims :: "nat \<Rightarrow> string \<Rightarrow> JwtClaims" where
  "demo_claims e p = \<lparr>cl_sub = show_nat 7, cl_exp = e, cl_iat = 1000, cl_iss = ''rustasea'', cl_aud = ''rustasea-app'', cl_typ = p\<rparr>"

definition demo_jwt_env :: "nat jwt_env" where
  "demo_jwt_env =
     \<lparr>je_encode = (\<lambda>_ c. if c = demo_claims 4600 ''access'' then Inr ''A''
        else if c = demo_claims 87400 ''refresh'' then Inr ''R'' else Inl ''unsupported''),
      je_decode = (\<lambda>_ _ _ now tok.
        (let c = (if tok = ''A'' then demo_claims 4600 ''access'' else demo_claims 87400 ''refresh'') in
         if int (cl_exp c) < now then Inl ExpiredSignature else Inr c)),
      je_uuid_parse = (\<lambda>s. Some (digits_val s)), je_uuid_show = show_nat,
      je_verify = (\<lambda>h p. h = p),
      je_lookup = memory_lookup (seed \<lparr>ur_id = ''7'', ur_email = ''a'', ur_password_hash = ''pw'',
        ur_email_verified_at = None, ur_timezone = None\<rparr> []),
      je_checks = True\<rparr>"

lemma demo_jwt_env_ok: "jwt_env_ok demo_jwt_env"
  by (auto simp: jwt_env_ok_def demo_jwt_env_def Let_def digits_val_show_nat split: if_splits)

lemma demo_login:
  "jwt_login demo_jwt_env demo_jwt_config 1000 1000 \<lparr>cr_email = ''a'', cr_password = ''pw''\<rparr>
    = Some (Inr \<lparr>tk_access = ''A'', tk_refresh = ''R'', tk_type = ''Bearer'', tk_expires_in = 3600\<rparr>)"
  by (simp add: jwt_login_def jwt_validate_def issue_pair_def claims_issue_def usize_add_def jwt_sign_def bearer_def
      demo_jwt_env_def demo_jwt_config_def jwt_config_default_def memory_lookup_def seed_def by_email_def
      DEFAULT_SECRET_def MIN_SECRET_LEN_def demo_claims_def digits_val_def)

theorem jwt_token_life_witness:
  "map_sum id au_id (jwt_parse demo_jwt_env demo_jwt_config 4600 ''A'') = Inr (show_nat 7)
   \<and> jwt_parse demo_jwt_env demo_jwt_config 4600 ''R'' = Inl InvalidToken
   \<and> jwt_refresh demo_jwt_env demo_jwt_config 4601 5000 5000 ''A'' = Some (Inl ExpiredToken)
   \<and> jwt_refresh demo_jwt_env demo_jwt_config 4600 1000 1000 ''R'' = issue_pair demo_jwt_env demo_jwt_config 1000 1000 7"
proof -
  have ttl: "jc_access_ttl demo_jwt_config = 3600" "jc_refresh_ttl demo_jwt_config = 86400"
    by (simp_all add: demo_jwt_config_def jwt_config_default_def)
  have user: "je_uuid_parse demo_jwt_env uid = Some u \<Longrightarrow>
      id_for_email (je_lookup demo_jwt_env) ''a'' = Some uid \<Longrightarrow> u = 7 \<and> je_uuid_show demo_jwt_env u = show_nat 7" for uid u
    by (auto simp: demo_jwt_env_def memory_lookup_def by_email_def seed_def digits_val_def)
  note life = jwt_token_life [OF demo_jwt_env_ok demo_login, unfolded ttl, simplified]
  from life [of 4600 1000 1000] life [of 4601 5000 5000] user show ?thesis by auto
qed

end
