(* ===== verification/Rbac.thy ===== *)
theory Rbac
  imports Cache "HOL-Library.FSet" "HOL-Library.Char_ord" "HOL-Library.List_Lexorder"
begin

text \<open>
  Role-based access control, \<^verbatim>\<open>rustasea-auth/src/rbac\<close>: roles (\<^verbatim>\<open>role.rs\<close>) and the
  registry with its cache front (\<^verbatim>\<open>registry.rs\<close>); \<^verbatim>\<open>has_roles.rs\<close> only forwards
  to it with the user's identifier. A \<^verbatim>\<open>BTreeSet\<close> is a finite set; where the code iterates
  over it, the sorted list of its elements. A poisoned lock does not occur: no code panics while
  it holds one. The generation counter is kept modulo \<open>2 ^ 64\<close>.

  The cached lookups are a client of the store: they are proved coherent in the locale
  \<open>reliable_store\<close>, for every interleaving of mutations, cached lookups, purges and other
  users' of the store, and for the in-memory store by its interpretation. The JSON codec of the
  payload is a parameter.
\<close>

section \<open>Roles and registry\<close>

record Role =
  ro_name :: string
  ro_permissions :: "string fset"

definition role_new :: "string \<Rightarrow> Role" where
  "role_new name = \<lparr>ro_name = name, ro_permissions = {||}\<rparr>"

definition role_with_permissions :: "string list \<Rightarrow> Role \<Rightarrow> Role" where
  "role_with_permissions ps r = r\<lparr>ro_permissions := ro_permissions r |\<union>| fset_of_list ps\<rparr>"

definition role_grant :: "string \<Rightarrow> Role \<Rightarrow> Role" where
  "role_grant p r = r\<lparr>ro_permissions := finsert p (ro_permissions r)\<rparr>"

definition role_revoke :: "string \<Rightarrow> Role \<Rightarrow> bool \<times> Role" where
  "role_revoke p r = (p |\<in>| ro_permissions r, r\<lparr>ro_permissions := ro_permissions r |-| {|p|}\<rparr>)"

definition role_has_permission :: "Role \<Rightarrow> string \<Rightarrow> bool" where
  "role_has_permission r p \<longleftrightarrow> p |\<in>| ro_permissions r"

datatype RbacError =
    UnknownRole string
  | UnknownPermission string
  | EmptyName
  | LockPoisoned
  | RbacCache string

record 's rbac =
  rb_roles :: "string \<rightharpoonup> Role"
  rb_permissions :: "string fset"
  rb_user_roles :: "string \<rightharpoonup> string fset"
  rb_cache :: "'s store_ops option"
  rb_ttl :: nat
  rb_generation :: nat

definition rbac_new :: "'s rbac" where
  "rbac_new = \<lparr>rb_roles = Map.empty, rb_permissions = {||}, rb_user_roles = Map.empty,
     rb_cache = None, rb_ttl = 300, rb_generation = 0\<rparr>"

definition with_cache :: "'s store_ops \<Rightarrow> 's rbac \<Rightarrow> 's rbac" where
  "with_cache ops r = r\<lparr>rb_cache := Some ops\<rparr>"

definition with_cache_ttl :: "nat \<Rightarrow> 's rbac \<Rightarrow> 's rbac" where
  "with_cache_ttl ttl r = r\<lparr>rb_ttl := ttl\<rparr>"

definition bump :: "'s rbac \<Rightarrow> 's rbac" where
  "bump r = r\<lparr>rb_generation := (rb_generation r + 1) mod 2 ^ 64\<rparr>"

definition define_role :: "Role \<Rightarrow> 's rbac \<Rightarrow> (RbacError + unit) \<times> 's rbac" where
  "define_role role r =
     (if trim (ro_name role) = [] then (Inl EmptyName, r)
      else (Inr (), bump (r\<lparr>rb_roles := (rb_roles r)(ro_name role \<mapsto> role)\<rparr>)))"

definition define_permission :: "string \<Rightarrow> 's rbac \<Rightarrow> (RbacError + unit) \<times> 's rbac" where
  "define_permission name r =
     (if trim name = [] then (Inl EmptyName, r)
      else (Inr (), bump (r\<lparr>rb_permissions := finsert name (rb_permissions r)\<rparr>)))"

definition grant_permission_to_role ::
  "string \<Rightarrow> string \<Rightarrow> 's rbac \<Rightarrow> (RbacError + unit) \<times> 's rbac" where
  "grant_permission_to_role role p r =
     (if p |\<notin>| rb_permissions r then (Inl (UnknownPermission p), r)
      else
        (case rb_roles r role of
           None \<Rightarrow> (Inl (UnknownRole role), r)
         | Some ro \<Rightarrow> (Inr (), bump (r\<lparr>rb_roles := (rb_roles r)(role \<mapsto> role_grant p ro)\<rparr>))))"

definition revoke_permission_from_role ::
  "string \<Rightarrow> string \<Rightarrow> 's rbac \<Rightarrow> (RbacError + bool) \<times> 's rbac" where
  "revoke_permission_from_role role p r =
     (case rb_roles r role of
        None \<Rightarrow> (Inl (UnknownRole role), r)
      | Some ro \<Rightarrow>
          (case role_revoke p ro of
             (removed, ro') \<Rightarrow> (Inr removed, bump (r\<lparr>rb_roles := (rb_roles r)(role \<mapsto> ro')\<rparr>))))"

definition roles_of :: "'s rbac \<Rightarrow> string \<Rightarrow> string fset" where
  "roles_of r u = (case rb_user_roles r u of None \<Rightarrow> {||} | Some rs \<Rightarrow> rs)"

definition assign_role :: "string \<Rightarrow> string \<Rightarrow> 's rbac \<Rightarrow> (RbacError + unit) \<times> 's rbac" where
  "assign_role u role r =
     (if rb_roles r role = None then (Inl (UnknownRole role), r)
      else (Inr (), bump (r\<lparr>rb_user_roles := (rb_user_roles r)(u \<mapsto> finsert role (roles_of r u))\<rparr>)))"

definition remove_role :: "string \<Rightarrow> string \<Rightarrow> 's rbac \<Rightarrow> (RbacError + bool) \<times> 's rbac" where
  "remove_role u role r =
     (case rb_user_roles r u of
        None \<Rightarrow> (Inr False, r)
      | Some rs \<Rightarrow>
          (let removed = (role |\<in>| rs); r' = r\<lparr>rb_user_roles := (rb_user_roles r)(u \<mapsto> rs |-| {|role|})\<rparr>
           in (Inr removed, if removed then bump r' else r')))"

fun first_unknown :: "(string \<rightharpoonup> Role) \<Rightarrow> string list \<Rightarrow> string option" where
  "first_unknown defined [] = None"
| "first_unknown defined (x # xs) =
     (if defined x = None then Some x else first_unknown defined xs)"

definition sync_roles :: "string \<Rightarrow> string list \<Rightarrow> 's rbac \<Rightarrow> (RbacError + unit) \<times> 's rbac" where
  "sync_roles u roles r =
     (case first_unknown (rb_roles r) roles of
        Some role \<Rightarrow> (Inl (UnknownRole role), r)
      | None \<Rightarrow>
          (Inr (), bump (r\<lparr>rb_user_roles :=
             (if roles = [] then (rb_user_roles r)(u := None)
              else (rb_user_roles r)(u \<mapsto> fset_of_list roles))\<rparr>)))"

definition has_role :: "'s rbac \<Rightarrow> string \<Rightarrow> string \<Rightarrow> bool" where
  "has_role r u role \<longleftrightarrow> (case rb_user_roles r u of None \<Rightarrow> False | Some rs \<Rightarrow> role |\<in>| rs)"

definition roles_for :: "'s rbac \<Rightarrow> string \<Rightarrow> string list" where
  "roles_for r u = sorted_list_of_fset (roles_of r u)"

fun collect_permissions :: "(string \<rightharpoonup> Role) \<Rightarrow> string list \<Rightarrow> string fset \<Rightarrow> string fset" where
  "collect_permissions catalog [] acc = acc"
| "collect_permissions catalog (n # ns) acc =
     collect_permissions catalog ns
       (case catalog n of None \<Rightarrow> acc | Some role \<Rightarrow> acc |\<union>| ro_permissions role)"

definition permissions_for :: "'s rbac \<Rightarrow> string \<Rightarrow> string fset" where
  "permissions_for r u = collect_permissions (rb_roles r) (roles_for r u) {||}"

definition has_permission :: "'s rbac \<Rightarrow> string \<Rightarrow> string \<Rightarrow> bool" where
  "has_permission r u p \<longleftrightarrow> p |\<in>| permissions_for r u"

section \<open>The cached lookups\<close>

record CachedPermissions =
  cp_generation :: nat
  cp_permissions :: "string list"

definition PERMISSIONS_KEY_PREFIX :: string where
  "PERMISSIONS_KEY_PREFIX = ''rbac:perms:''"

definition perms_key :: "string \<Rightarrow> string" where
  "perms_key u = PERMISSIONS_KEY_PREFIX @ u"

text \<open>The read at \<open>t\<close>, the write back at \<open>t'\<close>. The generation is loaded before the
  read; the registry cannot change in between, since every mutation borrows it exclusively.\<close>

definition cached_hit ::
  "(bytes \<Rightarrow> CachedPermissions option) \<Rightarrow> nat \<Rightarrow> CacheError + bytes option \<Rightarrow> string list option" where
  "cached_hit dec generation res =
     (case res of
        Inr (Some b) \<Rightarrow>
          (case dec b of
             Some cp \<Rightarrow> if cp_generation cp = generation then Some (cp_permissions cp) else None
           | None \<Rightarrow> None)
      | _ \<Rightarrow> None)"

definition permissions_for_cached ::
  "(CachedPermissions \<Rightarrow> bytes option) \<Rightarrow> (bytes \<Rightarrow> CachedPermissions option) \<Rightarrow> nat \<Rightarrow> nat
    \<Rightarrow> 's rbac \<Rightarrow> string \<Rightarrow> 's \<Rightarrow> string fset \<times> 's" where
  "permissions_for_cached enc dec t t' r u s =
     (case rb_cache r of
        None \<Rightarrow> (permissions_for r u, s)
      | Some ops \<Rightarrow>
          (case op_get ops t (perms_key u) s of
             (res, s1) \<Rightarrow>
               (case cached_hit dec (rb_generation r) res of
                  Some ps \<Rightarrow> (fset_of_list ps, s1)
                | None \<Rightarrow>
                    (let perms = permissions_for r u;
                         payload = \<lparr>cp_generation = rb_generation r,
                           cp_permissions = sorted_list_of_fset perms\<rparr>
                     in (case enc payload of
                           None \<Rightarrow> (perms, s1)
                         | Some b \<Rightarrow> (perms, snd (op_put ops t' (perms_key u) b (rb_ttl r) s1)))))))"

definition has_permission_cached ::
  "(CachedPermissions \<Rightarrow> bytes option) \<Rightarrow> (bytes \<Rightarrow> CachedPermissions option) \<Rightarrow> nat \<Rightarrow> nat
    \<Rightarrow> 's rbac \<Rightarrow> string \<Rightarrow> string \<Rightarrow> 's \<Rightarrow> bool \<times> 's" where
  "has_permission_cached enc dec t t' r u p s =
     (case permissions_for_cached enc dec t t' r u s of (ps, s') \<Rightarrow> (p |\<in>| ps, s'))"

definition forget_cached_permissions ::
  "(CacheError \<Rightarrow> string) \<Rightarrow> nat \<Rightarrow> 's rbac \<Rightarrow> string \<Rightarrow> 's \<Rightarrow> (RbacError + unit) \<times> 's" where
  "forget_cached_permissions render t r u s =
     (case rb_cache r of
        None \<Rightarrow> (Inr (), s)
      | Some ops \<Rightarrow>
          (case op_forget ops t (perms_key u) s of
             (Inl e, s') \<Rightarrow> (Inl (RbacCache (render e)), s')
           | (Inr _, s') \<Rightarrow> (Inr (), s')))"

section \<open>Mutations as one operation\<close>

datatype mutation =
    DefineRole Role
  | DefinePermission string
  | Grant string string
  | Revoke string string
  | Assign string string
  | Remove string string
  | Sync string "string list"

text \<open>The error a mutation returns, if any, and the registry it leaves.\<close>

definition outcome :: "(RbacError + 'a) \<times> 's rbac \<Rightarrow> RbacError option \<times> 's rbac" where
  "outcome x = (case x of (Inl e, r) \<Rightarrow> (Some e, r) | (Inr _, r) \<Rightarrow> (None, r))"

fun mutate :: "mutation \<Rightarrow> 's rbac \<Rightarrow> RbacError option \<times> 's rbac" where
  "mutate (DefineRole ro) r = outcome (define_role ro r)"
| "mutate (DefinePermission n) r = outcome (define_permission n r)"
| "mutate (Grant role p) r = outcome (grant_permission_to_role role p r)"
| "mutate (Revoke role p) r = outcome (revoke_permission_from_role role p r)"
| "mutate (Assign u role) r = outcome (assign_role u role r)"
| "mutate (Remove u role) r = outcome (remove_role u role r)"
| "mutate (Sync u roles) r = outcome (sync_roles u roles r)"

lemmas mutate_defs = outcome_def define_role_def define_permission_def grant_permission_to_role_def
  revoke_permission_from_role_def assign_role_def remove_role_def sync_roles_def bump_def Let_def

lemma mutate_keeps: "rb_cache (snd (mutate m r)) = rb_cache r" "rb_ttl (snd (mutate m r)) = rb_ttl r"
  by (cases m; auto simp: mutate_defs split: option.splits prod.splits)+

lemma mutate_error: "fst (mutate m r) = Some e \<Longrightarrow> snd (mutate m r) = r"
  by (cases m) (auto simp: mutate_defs split: option.splits prod.splits if_splits)

lemma roles_of_upd:
  "roles_of (r\<lparr>rb_user_roles := f\<rparr>) u = (case f u of None \<Rightarrow> {||} | Some rs \<Rightarrow> rs)"
  by (simp add: roles_of_def)

lemma permissions_for_cong:
  "rb_roles r = rb_roles r' \<Longrightarrow> roles_of r = roles_of r' \<Longrightarrow> permissions_for r = permissions_for r'"
  by (rule ext) (simp add: permissions_for_def roles_for_def)

text \<open>Every mutation advances the generation or leaves all permissions as they are.\<close>

lemma mutate_generation:
  assumes "rb_generation r + 1 < 2 ^ 64"
  shows "rb_generation (snd (mutate m r)) = rb_generation r + 1
    \<or> (rb_generation (snd (mutate m r)) = rb_generation r
       \<and> permissions_for (snd (mutate m r)) = permissions_for r)"
proof (cases m)
  case (Remove u role)
  have "permissions_for (r\<lparr>rb_user_roles := (rb_user_roles r)(u \<mapsto> rs |-| {|role|})\<rparr>) = permissions_for r"
    if "rb_user_roles r u = Some rs" "role |\<notin>| rs" for rs
    using that by (intro permissions_for_cong) (auto simp: roles_of_def fun_eq_iff)
  with Remove assms show ?thesis
    by (auto simp: mutate_defs split: option.splits)
qed (use assms in \<open>auto simp: mutate_defs split: option.splits prod.splits\<close>)

section \<open>What a user may do\<close>

lemma collect_permissions_eq:
  "p |\<in>| collect_permissions cat ns acc \<longleftrightarrow>
     p |\<in>| acc \<or> (\<exists>n\<in>set ns. \<exists>ro. cat n = Some ro \<and> p |\<in>| ro_permissions ro)"
  by (induction ns arbitrary: acc) (auto split: option.splits)

definition rbac_inv :: "'s rbac \<Rightarrow> bool" where
  "rbac_inv r \<longleftrightarrow>
     (\<forall>n ro. rb_roles r n = Some ro \<longrightarrow> ro_name ro = n \<and> trim n \<noteq> [])
     \<and> (\<forall>u rs. rb_user_roles r u = Some rs \<longrightarrow> (\<forall>n. n |\<in>| rs \<longrightarrow> rb_roles r n \<noteq> None))"

lemma rbac_inv_new: "rbac_inv rbac_new"
  by (simp add: rbac_inv_def rbac_new_def)

lemma first_unknown_None: "first_unknown f xs = None \<longleftrightarrow> set xs \<subseteq> dom f"
  by (induction xs) (auto simp: domIff)

lemma first_unknown_Some: "first_unknown f xs = Some x \<Longrightarrow> x \<in> set xs \<and> f x = None"
  by (induction xs) (auto split: if_splits)

lemma rbac_inv_roles: "rbac_inv r \<Longrightarrow> n |\<in>| roles_of r u \<Longrightarrow> rb_roles r n \<noteq> None"
  by (auto simp: rbac_inv_def roles_of_def split: option.splits)

lemma mutate_inv:
  assumes "rbac_inv r"
  shows "rbac_inv (snd (mutate m r))"
proof (cases m)
  case (Assign u role)
  then show ?thesis
    using assms rbac_inv_roles [OF assms, of _ u] by (auto simp: mutate_defs rbac_inv_def)
next
  case (Remove u role)
  then show ?thesis
    using assms by (auto simp: mutate_defs rbac_inv_def split: option.splits)
next
  case (Sync u roles)
  then show ?thesis
    using assms first_unknown_None [of "rb_roles r" roles]
    by (auto simp: mutate_defs rbac_inv_def fset_of_list_elem split: option.splits)
next
  case (DefineRole ro)
  then show ?thesis
    using assms by (auto simp: mutate_defs rbac_inv_def)
next
  case (Grant role p)
  then show ?thesis
    using assms by (auto simp: mutate_defs rbac_inv_def role_grant_def split: option.splits)
next
  case (Revoke role p)
  then show ?thesis
    using assms by (auto simp: mutate_defs rbac_inv_def role_revoke_def split: option.splits)
next
  case (DefinePermission n)
  then show ?thesis
    using assms by (simp add: mutate_defs rbac_inv_def)
qed

lemma has_permission_iff:
  "has_permission r u p \<longleftrightarrow>
    (\<exists>role ro. has_role r u role \<and> rb_roles r role = Some ro \<and> role_has_permission ro p)"
  by (auto simp: has_permission_def permissions_for_def roles_for_def collect_permissions_eq
      has_role_def roles_of_def role_has_permission_def split: option.splits)

section \<open>The system of registry and store\<close>

record 's rbac_sys =
  rs_now :: nat
  rs_reg :: "'s rbac"
  rs_store :: 's

text \<open>Time passes; the registry is mutated (short of the wrap-around of its counter); a cached
  lookup runs, reading and writing at instants in between; an entry is purged; someone else writes
  or deletes a key outside the prefix.\<close>

inductive rbac_step ::
  "(CachedPermissions \<Rightarrow> bytes option) \<Rightarrow> (bytes \<Rightarrow> CachedPermissions option) \<Rightarrow> 's store_ops
    \<Rightarrow> 's rbac_sys \<Rightarrow> 's rbac_sys \<Rightarrow> bool"
  for enc dec and ops :: "'s store_ops" where
  rs_tick: "rs_now \<sigma> \<le> t \<Longrightarrow> rbac_step enc dec ops \<sigma> (\<sigma>\<lparr>rs_now := t\<rparr>)"
| rs_mutate: "rb_generation (rs_reg \<sigma>) + 1 < 2 ^ 64
     \<Longrightarrow> rbac_step enc dec ops \<sigma> (\<sigma>\<lparr>rs_reg := snd (mutate m (rs_reg \<sigma>))\<rparr>)"
| rs_lookup: "rs_now \<sigma> \<le> t \<Longrightarrow> t \<le> t' \<Longrightarrow>
     permissions_for_cached enc dec t t' (rs_reg \<sigma>) u (rs_store \<sigma>) = (ps, s')
     \<Longrightarrow> rbac_step enc dec ops \<sigma> (\<sigma>\<lparr>rs_now := t', rs_store := s'\<rparr>)"
| rs_purge: "forget_cached_permissions render (rs_now \<sigma>) (rs_reg \<sigma>) u (rs_store \<sigma>) = (res, s')
     \<Longrightarrow> rbac_step enc dec ops \<sigma> (\<sigma>\<lparr>rs_store := s'\<rparr>)"
| rs_put: "(\<forall>u. k \<noteq> perms_key u) \<Longrightarrow> rbac_step enc dec ops \<sigma>
     (\<sigma>\<lparr>rs_store := snd (op_put ops (rs_now \<sigma>) k v ttl (rs_store \<sigma>))\<rparr>)"
| rs_forget: "rbac_step enc dec ops \<sigma>
     (\<sigma>\<lparr>rs_store := snd (op_forget ops (rs_now \<sigma>) k (rs_store \<sigma>))\<rparr>)"

inductive rbac_reach ::
  "(CachedPermissions \<Rightarrow> bytes option) \<Rightarrow> (bytes \<Rightarrow> CachedPermissions option) \<Rightarrow> 's store_ops
    \<Rightarrow> 's rbac_sys \<Rightarrow> 's rbac_sys \<Rightarrow> bool"
  for enc dec and ops :: "'s store_ops" where
  rr_init: "rbac_reach enc dec ops \<sigma> \<sigma>"
| rr_step: "rbac_reach enc dec ops \<sigma> \<sigma>' \<Longrightarrow> rbac_step enc dec ops \<sigma>' \<sigma>''
     \<Longrightarrow> rbac_reach enc dec ops \<sigma> \<sigma>''"

lemma perms_key_inj [simp]: "perms_key u = perms_key u' \<longleftrightarrow> u = u'"
  by (simp add: perms_key_def)

text \<open>An entry that reads back now or later is from an earlier generation or is right.\<close>

definition entry_ok ::
  "(bytes \<Rightarrow> CachedPermissions option) \<Rightarrow> 's rbac \<Rightarrow> string \<Rightarrow> bytes \<Rightarrow> bool" where
  "entry_ok dec r u b \<longleftrightarrow> (\<forall>cp. dec b = Some cp \<longrightarrow>
     cp_generation cp < rb_generation r
     \<or> (cp_generation cp = rb_generation r \<and> fset_of_list (cp_permissions cp) = permissions_for r u))"

definition coherent ::
  "(nat \<Rightarrow> 's \<Rightarrow> string \<Rightarrow> bytes option) \<Rightarrow> (bytes \<Rightarrow> CachedPermissions option) \<Rightarrow> 's rbac_sys \<Rightarrow> bool" where
  "coherent view dec \<sigma> \<longleftrightarrow> (\<forall>u t b. rs_now \<sigma> \<le> t \<longrightarrow> view t (rs_store \<sigma>) (perms_key u) = Some b
     \<longrightarrow> entry_ok dec (rs_reg \<sigma>) u b)"

lemma coherentD:
  "coherent view dec \<sigma> \<Longrightarrow> rs_now \<sigma> \<le> t \<Longrightarrow> view t (rs_store \<sigma>) (perms_key u) = Some b
     \<Longrightarrow> entry_ok dec (rs_reg \<sigma>) u b"
  by (simp add: coherent_def)

lemma list_of_fset: "fset_of_list (sorted_list_of_fset x) = x"
  by (simp add: fset_eq_iff fset_of_list_elem sorted_list_of_fset.rep_eq)

lemma entry_ok_mutate:
  assumes "rb_generation r + 1 < 2 ^ 64" "entry_ok dec r u b"
  shows "entry_ok dec (snd (mutate m r)) u b"
  using mutate_generation [OF assms(1), of m] assms(2) by (auto simp: entry_ok_def)

context reliable_store
begin

lemma lookup_cases:
  assumes "rb_cache r = Some ops"
  shows "permissions_for_cached enc dec t t' r u s =
    (let s1 = snd (op_get ops t (perms_key u) s) in
     case cached_hit dec (rb_generation r) (Inr (view t s (perms_key u))) of
       Some ps \<Rightarrow> (fset_of_list ps, s1)
     | None \<Rightarrow>
         (permissions_for r u,
          case enc \<lparr>cp_generation = rb_generation r,
              cp_permissions = sorted_list_of_fset (permissions_for r u)\<rparr> of
            None \<Rightarrow> s1
          | Some b \<Rightarrow> snd (op_put ops t' (perms_key u) b (rb_ttl r) s1)))"
  using assms get_result [of t "perms_key u" s]
  by (cases "op_get ops t (perms_key u) s")
    (auto simp: permissions_for_cached_def Let_def split: option.splits)

lemma coherent_lookup:
  assumes "coherent view dec \<sigma>" "rb_cache (rs_reg \<sigma>) = Some ops" "rs_now \<sigma> \<le> t"
  shows "fst (permissions_for_cached enc dec t t' (rs_reg \<sigma>) u (rs_store \<sigma>)) = permissions_for (rs_reg \<sigma>) u"
proof -
  have "fset_of_list ps = permissions_for (rs_reg \<sigma>) u"
    if "cached_hit dec (rb_generation (rs_reg \<sigma>)) (Inr (view t (rs_store \<sigma>) (perms_key u))) = Some ps" for ps
  proof -
    from that obtain b cp where "view t (rs_store \<sigma>) (perms_key u) = Some b" "dec b = Some cp"
      "cp_generation cp = rb_generation (rs_reg \<sigma>)" "ps = cp_permissions cp"
      by (auto simp: cached_hit_def split: option.splits if_splits)
    with coherentD [OF assms(1,3), of u b] show ?thesis by (auto simp: entry_ok_def)
  qed
  then show ?thesis
    by (auto simp: lookup_cases [OF assms(2)] Let_def split: option.splits)
qed

lemma rbac_step_cache: "rbac_step enc dec ops \<sigma> \<sigma>' \<Longrightarrow> rb_cache (rs_reg \<sigma>') = rb_cache (rs_reg \<sigma>)"
  by (induction rule: rbac_step.induct) (simp_all add: mutate_keeps)

lemma lookup_keeps:
  assumes co: "coherent view dec \<sigma>" and cache: "rb_cache (rs_reg \<sigma>) = Some ops"
    and codec: "\<And>cp b. enc cp = Some b \<Longrightarrow> dec b = Some cp"
    and le: "rs_now \<sigma> \<le> t" "t \<le> t'"
    and res: "permissions_for_cached enc dec t t' (rs_reg \<sigma>) u (rs_store \<sigma>) = (ps, s')"
  shows "coherent view dec (\<sigma>\<lparr>rs_now := t', rs_store := s'\<rparr>)"
proof -
  let ?r = "rs_reg \<sigma>" and ?s1 = "snd (op_get ops t (perms_key u) (rs_store \<sigma>))"
  let ?cp = "\<lparr>cp_generation = rb_generation ?r, cp_permissions = sorted_list_of_fset (permissions_for ?r u)\<rparr>"
  have s1: "view x ?s1 = view x (rs_store \<sigma>)" if "t' \<le> x" for x
    using get_view [of t x] that le by simp
  have "s' = ?s1 \<or> (\<exists>b. enc ?cp = Some b \<and> s' = snd (op_put ops t' (perms_key u) b (rb_ttl ?r) ?s1))"
    using res by (auto simp: lookup_cases [OF cache] Let_def split: option.splits)
  then show ?thesis
  proof
    assume "s' = ?s1"
    with s1 co le show ?thesis by (simp add: coherent_def) (meson order.trans)
  next
    assume "\<exists>b. enc ?cp = Some b \<and> s' = snd (op_put ops t' (perms_key u) b (rb_ttl ?r) ?s1)"
    then obtain b where b: "enc ?cp = Some b" "s' = snd (op_put ops t' (perms_key u) b (rb_ttl ?r) ?s1)"
      by blast
    have "entry_ok dec ?r u b"
      using codec [OF b(1)] by (simp add: entry_ok_def list_of_fset)
    moreover have "entry_ok dec ?r ua b'"
      if x: "t' \<le> x" "view x s' (perms_key ua) = Some b'" "ua \<noteq> u" for ua x b'
    proof (rule coherentD [OF co])
      show "rs_now \<sigma> \<le> x" using x(1) le by simp
      show "view x (rs_store \<sigma>) (perms_key ua) = Some b'"
        using x s1 [OF x(1)] b(2) by (simp add: put_view)
    qed
    moreover have "b' = b" if "t' \<le> x" "view x s' (perms_key u) = Some b'" for x b'
      using that b(2) by (simp add: put_view split: if_splits)
    ultimately show ?thesis
      by (simp add: coherent_def) metis
  qed
qed

lemma step_coherent:
  assumes "rbac_step enc dec ops \<sigma> \<sigma>'" "coherent view dec \<sigma>" "rb_cache (rs_reg \<sigma>) = Some ops"
    and codec: "\<And>cp b. enc cp = Some b \<Longrightarrow> dec b = Some cp"
  shows "coherent view dec \<sigma>'"
  using assms(1)
proof cases
  case (rs_tick t)
  with assms(2) show ?thesis by (simp add: coherent_def) (meson order.trans)
next
  case (rs_mutate m)
  then show ?thesis
    using assms(2) entry_ok_mutate [OF rs_mutate(2)] by (auto simp: coherent_def)
next
  case (rs_lookup t t' u ps s')
  then show ?thesis using lookup_keeps [OF assms(2,3) codec] by blast
next
  case (rs_purge render u res s')
  then have "s' = snd (op_forget ops (rs_now \<sigma>) (perms_key u) (rs_store \<sigma>))"
    using assms(3) by (auto simp: forget_cached_permissions_def split: prod.splits sum.splits)
  with rs_purge assms(2) show ?thesis
    using forget_view [of "rs_now \<sigma>"] by (auto simp: coherent_def split: if_splits)
next
  case (rs_put k v ttl)
  with assms(2) show ?thesis
    using put_view [of "rs_now \<sigma>"] by (fastforce simp: coherent_def split: if_splits)
next
  case (rs_forget k)
  with assms(2) show ?thesis
    using forget_view [of "rs_now \<sigma>"] by (auto simp: coherent_def split: if_splits)
qed

lemma reach_coherent:
  assumes "rbac_reach enc dec ops \<sigma>0 \<sigma>" "rb_cache (rs_reg \<sigma>0) = Some ops"
    and "\<And>u t. rs_now \<sigma>0 \<le> t \<Longrightarrow> view t (rs_store \<sigma>0) (perms_key u) = None"
    and codec: "\<And>cp b. enc cp = Some b \<Longrightarrow> dec b = Some cp"
  shows "coherent view dec \<sigma> \<and> rb_cache (rs_reg \<sigma>) = Some ops"
  using assms
proof (induction rule: rbac_reach.induct)
  case (rr_init \<sigma>)
  then show ?case by (simp add: coherent_def)
next
  case (rr_step \<sigma> \<sigma>' \<sigma>'')
  then have ih: "coherent view dec \<sigma>'" "rb_cache (rs_reg \<sigma>') = Some ops" by blast+
  then show ?case
    using step_coherent [OF rr_step.hyps(2) ih codec] rbac_step_cache [OF rr_step.hyps(2)] by simp
qed

end

section \<open>Properties\<close>

text \<open>C12. The cached permission lookups are coherent: start with no cached entries and let
  mutations of roles and assignments, cached lookups, purges, other users of the store and time
  interleave in any way. Then a cached lookup always returns the permissions the registry would
  compute now: no revoked permission is served from the cache, whatever the time to live. The
  hypothesis on the codec is that of the JSON library: decoding an encoded payload gives the
  payload.\<close>

theorem rbac_cache_coherent:
  assumes "rbac_reach enc dec (memory_ops checks) \<sigma>0 \<sigma>" "rb_cache (rs_reg \<sigma>0) = Some (memory_ops checks)"
    and "\<And>u t. rs_now \<sigma>0 \<le> t \<Longrightarrow> mem_view t (rs_store \<sigma>0) (perms_key u) = None"
    and "\<And>cp b. enc cp = Some b \<Longrightarrow> dec b = Some cp"
    and "rs_now \<sigma> \<le> t"
  shows "fst (permissions_for_cached enc dec t t' (rs_reg \<sigma>) u (rs_store \<sigma>)) = permissions_for (rs_reg \<sigma>) u
    \<and> fst (has_permission_cached enc dec t t' (rs_reg \<sigma>) u p (rs_store \<sigma>)) = has_permission (rs_reg \<sigma>) u p"
proof -
  have "coherent mem_view dec \<sigma>" "rb_cache (rs_reg \<sigma>) = Some (memory_ops checks)"
    using mem.reach_coherent [OF assms(1-4)] by blast+
  then have "fst (permissions_for_cached enc dec t t' (rs_reg \<sigma>) u (rs_store \<sigma>)) = permissions_for (rs_reg \<sigma>) u"
    using assms(5) by (rule mem.coherent_lookup)
  then show ?thesis
    by (simp add: has_permission_cached_def has_permission_def split_beta)
qed

text \<open>A codec for payloads with one permission, and a registry in which a user may edit.\<close>

definition enc_one :: "CachedPermissions \<Rightarrow> bytes option" where
  "enc_one cp = (case cp_permissions cp of
     [p] \<Rightarrow> if cp_generation cp < 2 ^ 64 then Some (show_nat (cp_generation cp) @ '':'' @ p) else None
   | _ \<Rightarrow> None)"

definition dec_one :: "bytes \<Rightarrow> CachedPermissions option" where
  "dec_one b = (case split_once (CHR '':'') b of
     Some (g, p) \<Rightarrow> map_option (\<lambda>n. \<lparr>cp_generation = n, cp_permissions = [p]\<rparr>) (parse_u64 g)
   | None \<Rightarrow> None)"

lemma dec_enc_one: "enc_one cp = Some b \<Longrightarrow> dec_one b = Some cp"
  by (cases cp) (auto simp: enc_one_def dec_one_def split_once_append show_nat_no_colon
      parse_u64_show_nat split: list.splits if_splits)

definition editors :: "mem_store rbac" where
  "editors = with_cache (memory_ops True) (snd (assign_role ''u'' ''editor''
     (snd (define_role (role_with_permissions [''edit''] (role_new ''editor'')) rbac_new))))"

definition editors_sys :: "mem_store rbac_sys" where
  "editors_sys = \<lparr>rs_now = 0, rs_reg = editors, rs_store = Map.empty\<rparr>"

text \<open>The state after a cached lookup at 1 and the revocation of the permission.\<close>

definition revoked_sys :: "mem_store rbac_sys" where
  "revoked_sys = \<lparr>rs_now = 1, rs_reg = snd (mutate (Revoke ''editor'' ''edit'') editors),
     rs_store = snd (permissions_for_cached enc_one dec_one 1 1 editors ''u'' Map.empty)\<rparr>"

lemma editors_facts:
  "rb_cache editors = Some (memory_ops True)" "rb_generation editors = 2"
  "roles_of editors ''u'' = {|''editor''|}"
  "rb_roles editors = [''editor'' \<mapsto> \<lparr>ro_name = ''editor'', ro_permissions = {|''edit''|}\<rparr>]"
proof -
  have "trim ''editor'' = ''editor''" by code_simp
  then show "rb_cache editors = Some (memory_ops True)" "rb_generation editors = 2"
    "roles_of editors ''u'' = {|''editor''|}"
    "rb_roles editors = [''editor'' \<mapsto> \<lparr>ro_name = ''editor'', ro_permissions = {|''edit''|}\<rparr>]"
    by (simp_all add: editors_def with_cache_def assign_role_def define_role_def bump_def rbac_new_def
        role_with_permissions_def role_new_def roles_of_def)
qed

lemma revoked_reach: "rbac_reach enc_one dec_one (memory_ops True) editors_sys revoked_sys"
proof -
  obtain ps s where look: "permissions_for_cached enc_one dec_one 1 1 editors ''u'' Map.empty = (ps, s)"
    by fastforce
  have "rbac_step enc_one dec_one (memory_ops True) editors_sys (editors_sys\<lparr>rs_now := 1, rs_store := s\<rparr>)"
    using look by (intro rs_lookup [of _ 1 1]) (auto simp: editors_sys_def)
  then have "rbac_reach enc_one dec_one (memory_ops True) editors_sys
      (editors_sys\<lparr>rs_now := 1, rs_store := s\<rparr>)"
    by (rule rr_step [OF rr_init])
  moreover have "rbac_step enc_one dec_one (memory_ops True) (editors_sys\<lparr>rs_now := 1, rs_store := s\<rparr>) revoked_sys"
    using rs_mutate [of "editors_sys\<lparr>rs_now := 1, rs_store := s\<rparr>" enc_one dec_one "memory_ops True"
        "Revoke ''editor'' ''edit''"] look
    by (simp add: editors_sys_def revoked_sys_def editors_facts)
  ultimately show ?thesis by (rule rr_step)
qed

theorem rbac_cache_coherent_witness:
  "fst (permissions_for_cached enc_one dec_one 1 1 editors ''u'' Map.empty) = {|''edit''|}
   \<and> fst (permissions_for_cached enc_one dec_one 2 2 (rs_reg revoked_sys) ''u'' (rs_store revoked_sys)) = {||}"
proof
  have ed: "roles_for editors ''u'' = [''editor'']"
    by (simp add: roles_for_def editors_facts sorted_list_of_fset.rep_eq)
  have "permissions_for editors ''u'' = {|''edit''|}"
    by (simp add: permissions_for_def ed editors_facts)
  moreover have "fst (permissions_for_cached enc_one dec_one 1 1 editors ''u'' Map.empty)
      = permissions_for editors ''u''"
    using rbac_cache_coherent [OF rr_init, of editors_sys True enc_one dec_one 1 1 "''u''"]
    by (simp add: editors_sys_def editors_facts mem_defs dec_enc_one)
  ultimately show "fst (permissions_for_cached enc_one dec_one 1 1 editors ''u'' Map.empty) = {|''edit''|}"
    by simp
  have "fst (permissions_for_cached enc_one dec_one 2 2 (rs_reg revoked_sys) ''u'' (rs_store revoked_sys))
      = permissions_for (rs_reg revoked_sys) ''u''"
    using rbac_cache_coherent [OF revoked_reach, of 2 2 "''u''"]
    by (simp add: editors_sys_def editors_facts mem_defs dec_enc_one) (simp add: revoked_sys_def)
  also have "permissions_for (rs_reg revoked_sys) ''u'' = {||}"
    using ed by (simp add: permissions_for_def revoked_sys_def roles_for_def roles_of_def editors_facts
        outcome_def revoke_permission_from_role_def role_revoke_def bump_def)
  finally show "fst (permissions_for_cached enc_one dec_one 2 2 (rs_reg revoked_sys) ''u''
      (rs_store revoked_sys)) = {||}" .
qed

text \<open>C29. The registry after any sequence of mutations: every stored role is named as its key and
  not blank, every assigned role is defined, a user may do exactly what some role of the user
  grants, and a mutation that reports an error has changed nothing.\<close>

theorem rbac_registry_sound:
  "let r = foldl (\<lambda>r m. snd (mutate m r)) rbac_new ms in
   rbac_inv r
   \<and> (has_permission r u p \<longleftrightarrow>
       (\<exists>role ro. has_role r u role \<and> rb_roles r role = Some ro \<and> role_has_permission ro p))
   \<and> (case mutate m r of (Some e, r') \<Rightarrow> r' = r | (None, r') \<Rightarrow> rbac_inv r')"
proof -
  have inv: "rbac_inv (foldl (\<lambda>r m. snd (mutate m r)) r ms)" if "rbac_inv r" for r :: "'a rbac"
    using that by (induction ms arbitrary: r) (simp_all add: mutate_inv)
  define r :: "'a rbac" where "r = foldl (\<lambda>r m. snd (mutate m r)) rbac_new ms"
  have "rbac_inv r" using inv [OF rbac_inv_new] by (simp add: r_def)
  moreover have "case mutate m r of (Some e, r') \<Rightarrow> r' = r | (None, r') \<Rightarrow> rbac_inv r'"
    using mutate_error [of m r] mutate_inv [OF \<open>rbac_inv r\<close>, of m]
    by (cases "mutate m r") (auto split: option.splits)
  ultimately show ?thesis
    unfolding Let_def r_def [symmetric] using has_permission_iff [of r u p] by simp
qed

lemma has_role_upd: "has_role (bump (r\<lparr>rb_roles := f\<rparr>)) u role = has_role r u role"
  by (simp add: has_role_def bump_def)

lemma has_permission_upd:
  "has_permission (bump (r\<lparr>rb_roles := (rb_roles r)(role \<mapsto> ro)\<rparr>)) u q \<longleftrightarrow>
     (has_role r u role \<and> q |\<in>| ro_permissions ro)
     \<or> (\<exists>role' ro'. role' \<noteq> role \<and> has_role r u role' \<and> rb_roles r role' = Some ro' \<and> q |\<in>| ro_permissions ro')"
  unfolding has_permission_iff has_role_upd
  by (auto simp: bump_def role_has_permission_def)

lemma grant_effect:
  assumes "rb_roles r role = Some ro"
  shows "has_permission (bump (r\<lparr>rb_roles := (rb_roles r)(role \<mapsto> role_grant p ro)\<rparr>)) u q
    = (has_permission r u q \<or> (q = p \<and> has_role r u role))"
  unfolding has_permission_upd has_permission_iff [of r] role_has_permission_def role_grant_def
  using assms by fastforce

lemma revoke_effect:
  assumes "rb_roles r role = Some ro"
  shows "has_permission (bump (r\<lparr>rb_roles := (rb_roles r)(role \<mapsto> snd (role_revoke p ro))\<rparr>)) u q
    = (\<exists>role' ro. has_role r u role' \<and> rb_roles r role' = Some ro \<and> q |\<in>| ro_permissions ro
         \<and> (role', q) \<noteq> (role, p))"
  unfolding has_permission_upd role_revoke_def using assms by fastforce

text \<open>What the mutations do: replacing a user's roles takes effect for that user only and is
  refused as a whole, naming an undefined role, when one is undefined; a granted permission
  reaches exactly the holders of the role; after a revocation the permission is left to those who
  hold it through another role.\<close>

lemma rbac_mutation_effects:
  "(case sync_roles u roles r of
      (Inr _, r') \<Rightarrow> \<forall>u' role. has_role r' u' role
        = (if u' = u then role \<in> set roles else has_role r u' role)
    | (Inl e, r') \<Rightarrow> r' = r \<and> (\<exists>role. e = UnknownRole role \<and> role \<in> set roles \<and> rb_roles r role = None))
   \<and> (case grant_permission_to_role role p r of
      (Inr _, r') \<Rightarrow> \<forall>u q. has_permission r' u q = (has_permission r u q \<or> (q = p \<and> has_role r u role))
    | (Inl e, r') \<Rightarrow> r' = r \<and> \<not> (p |\<in>| rb_permissions r \<and> rb_roles r role \<noteq> None))
   \<and> (case revoke_permission_from_role role p r of
      (Inr _, r') \<Rightarrow> \<forall>u q. has_permission r' u q
        = (\<exists>role' ro. has_role r u role' \<and> rb_roles r role' = Some ro \<and> q |\<in>| ro_permissions ro
             \<and> (role', q) \<noteq> (role, p))
    | (Inl e, r') \<Rightarrow> r' = r \<and> rb_roles r role = None)"
proof (intro conjI)
  show "case sync_roles u roles r of
      (Inr _, r') \<Rightarrow> \<forall>u' role. has_role r' u' role
        = (if u' = u then role \<in> set roles else has_role r u' role)
    | (Inl e, r') \<Rightarrow> r' = r \<and> (\<exists>role. e = UnknownRole role \<and> role \<in> set roles \<and> rb_roles r role = None)"
    by (auto simp: sync_roles_def has_role_def bump_def fset_of_list_elem
        dest: first_unknown_Some split: option.splits)
  show "case grant_permission_to_role role p r of
      (Inr _, r') \<Rightarrow> \<forall>u q. has_permission r' u q = (has_permission r u q \<or> (q = p \<and> has_role r u role))
    | (Inl e, r') \<Rightarrow> r' = r \<and> \<not> (p |\<in>| rb_permissions r \<and> rb_roles r role \<noteq> None)"
    by (simp add: grant_permission_to_role_def grant_effect split: option.splits)
  show "case revoke_permission_from_role role p r of
      (Inr _, r') \<Rightarrow> \<forall>u q. has_permission r' u q
        = (\<exists>role' ro. has_role r u role' \<and> rb_roles r role' = Some ro \<and> q |\<in>| ro_permissions ro
             \<and> (role', q) \<noteq> (role, p))
    | (Inl e, r') \<Rightarrow> r' = r \<and> rb_roles r role = None"
    using revoke_effect [of r role _ p]
    by (simp add: revoke_permission_from_role_def split_beta split: option.splits)
qed

text \<open>Another registry over the same store, with the same number of mutations and no roles.\<close>

definition strangers :: "mem_store rbac" where
  "strangers = with_cache (memory_ops True)
     (snd (define_permission ''b'' (snd (define_permission ''a'' rbac_new))))"

text \<open>The generation counter belongs to one registry, not to the process or the store: when
  two registries share a cache store (two instances, or a restart with a persistent store), the
  second one accepts an entry of the first whose generation happens to be equal and grants a
  permission that none of its own roles grants.\<close>

lemma rbac_shared_store_stale:
  "fst (permissions_for_cached enc_one dec_one 2 2 strangers ''u''
     (snd (permissions_for_cached enc_one dec_one 1 1 editors ''u'' Map.empty))) = {|''edit''|}
   \<and> permissions_for strangers ''u'' = {||}"
proof
  have blank: "trim ''a'' = ''a''" "trim ''b'' = ''b''" by code_simp+
  have st: "rb_cache strangers = Some (memory_ops True)" "rb_generation strangers = 2"
    "rb_user_roles strangers = Map.empty"
    by (simp_all add: strangers_def with_cache_def define_permission_def bump_def rbac_new_def blank)
  show "permissions_for strangers ''u'' = {||}"
    by (simp add: permissions_for_def roles_for_def roles_of_def st sorted_list_of_fset.rep_eq)
  have perms: "permissions_for editors ''u'' = {|''edit''|}"
    by (simp add: permissions_for_def roles_for_def editors_facts sorted_list_of_fset.rep_eq)
  let ?cp = "\<lparr>cp_generation = 2, cp_permissions = [''edit'']\<rparr>"
  let ?b = "show_nat 2 @ '':'' @ ''edit''"
  have enc: "enc_one ?cp = Some ?b" by (simp add: enc_one_def)
  let ?s = "snd (permissions_for_cached enc_one dec_one 1 1 editors ''u'' Map.empty)"
  let ?s1 = "snd (op_get (memory_ops True) 1 (perms_key ''u'') Map.empty)"
  have ttl: "rb_ttl editors = 300"
    by (simp add: editors_def with_cache_def assign_role_def define_role_def bump_def rbac_new_def)
  have "?s = snd (op_put (memory_ops True) 1 (perms_key ''u'') ?b 300 ?s1)"
    using enc by (simp add: mem.lookup_cases editors_facts cached_hit_def mem_defs perms ttl
        sorted_list_of_fset.rep_eq)
  then have "mem_view 2 ?s (perms_key ''u'') = Some ?b"
    using mem.put_view [of 1 2 True "perms_key ''u''" ?b 300 ?s1] by simp
  then show "fst (permissions_for_cached enc_one dec_one 2 2 strangers ''u'' ?s) = {|''edit''|}"
    using dec_enc_one [OF enc] by (simp add: mem.lookup_cases st cached_hit_def Let_def)
qed

end
