(* ===== verification/Gate.thy ===== *)
theory Gate
  imports Guard Rbac Router_Props
begin

text \<open>
  Authorization, \<^verbatim>\<open>rustasea-auth/src\<close>: the gate with its abilities and hooks
  (\<^verbatim>\<open>gate/mod.rs\<close>), policies by resource type (\<^verbatim>\<open>policy.rs\<close>) and the adapters
  that put a gate behind the router's authorization layer (\<^verbatim>\<open>authorize.rs\<close>).

  A \<^verbatim>\<open>&dyn Any\<close> is a value with the name of its type. Callbacks read a state \<open>'w\<close>: the
  policy registry is shared behind a lock, so an ability that \<^verbatim>\<open>install\<close> defined sees the
  policies that are registered when it is called. A policy method that is not implemented is
  constantly false. A poisoned lock does not occur: no code panics while it holds one.
\<close>

section \<open>The gate\<close>

record 'v any =
  an_type :: string
  an_value :: 'v

datatype AuthorizationError = AbilityNotDefined string | Denied string

record ('w, 'v) gate =
  ga_abilities :: "(string, 'w \<Rightarrow> AuthUser option \<Rightarrow> 'v any \<Rightarrow> bool) fmap"
  ga_before :: "('w \<Rightarrow> AuthUser option \<Rightarrow> string \<Rightarrow> 'v any \<Rightarrow> bool option) list"
  ga_after :: "('w \<Rightarrow> AuthUser option \<Rightarrow> string \<Rightarrow> 'v any \<Rightarrow> bool \<Rightarrow> bool) list"
  ga_user_resolver :: "('w \<Rightarrow> AuthUser option) option"
  ga_permission_resolver :: "('w \<Rightarrow> string \<Rightarrow> string \<Rightarrow> bool) option"

definition gate_new :: "('w, 'v) gate" where
  "gate_new = \<lparr>ga_abilities = fmempty, ga_before = [], ga_after = [], ga_user_resolver = None,
     ga_permission_resolver = None\<rparr>"

definition gate_define ::
  "string \<Rightarrow> ('w \<Rightarrow> AuthUser option \<Rightarrow> 'v any \<Rightarrow> bool) \<Rightarrow> ('w, 'v) gate \<Rightarrow> ('w, 'v) gate" where
  "gate_define ability callback g = g\<lparr>ga_abilities := fmupd ability callback (ga_abilities g)\<rparr>"

definition gate_before ::
  "('w \<Rightarrow> AuthUser option \<Rightarrow> string \<Rightarrow> 'v any \<Rightarrow> bool option) \<Rightarrow> ('w, 'v) gate \<Rightarrow> ('w, 'v) gate" where
  "gate_before callback g = g\<lparr>ga_before := ga_before g @ [callback]\<rparr>"

definition gate_after ::
  "('w \<Rightarrow> AuthUser option \<Rightarrow> string \<Rightarrow> 'v any \<Rightarrow> bool \<Rightarrow> bool) \<Rightarrow> ('w, 'v) gate \<Rightarrow> ('w, 'v) gate" where
  "gate_after callback g = g\<lparr>ga_after := ga_after g @ [callback]\<rparr>"

definition with_user_resolver :: "('w \<Rightarrow> AuthUser option) \<Rightarrow> ('w, 'v) gate \<Rightarrow> ('w, 'v) gate" where
  "with_user_resolver resolver g = g\<lparr>ga_user_resolver := Some resolver\<rparr>"

definition with_permissions :: "('w \<Rightarrow> string \<Rightarrow> string \<Rightarrow> bool) \<Rightarrow> ('w, 'v) gate \<Rightarrow> ('w, 'v) gate" where
  "with_permissions resolver g = g\<lparr>ga_permission_resolver := Some resolver\<rparr>"

definition gate_has :: "('w, 'v) gate \<Rightarrow> string \<Rightarrow> bool" where
  "gate_has g name \<longleftrightarrow> fmlookup (ga_abilities g) name \<noteq> None"

definition gate_abilities :: "('w, 'v) gate \<Rightarrow> string list" where
  "gate_abilities g = sorted_list_of_fset (fmdom (ga_abilities g))"

text \<open>The two loops over the hooks.\<close>

fun before_decision ::
  "('w \<Rightarrow> AuthUser option \<Rightarrow> string \<Rightarrow> 'v any \<Rightarrow> bool option) list \<Rightarrow> 'w \<Rightarrow> AuthUser option \<Rightarrow> string \<Rightarrow> 'v any
    \<Rightarrow> bool option" where
  "before_decision [] w user ability target = None"
| "before_decision (f # fs) w user ability target =
     (case f w user ability target of
        Some decision \<Rightarrow> Some decision
      | None \<Rightarrow> before_decision fs w user ability target)"

definition apply_after ::
  "('w \<Rightarrow> AuthUser option \<Rightarrow> string \<Rightarrow> 'v any \<Rightarrow> bool \<Rightarrow> bool) list \<Rightarrow> 'w \<Rightarrow> AuthUser option \<Rightarrow> string \<Rightarrow> 'v any
    \<Rightarrow> bool \<Rightarrow> bool" where
  "apply_after fs w user ability target result = fold (\<lambda>f r. f w user ability target r) fs result"

definition evaluate ::
  "('w, 'v) gate \<Rightarrow> 'w \<Rightarrow> AuthUser option \<Rightarrow> string \<Rightarrow> 'v any \<Rightarrow> bool option" where
  "evaluate g w user ability target =
     (case before_decision (ga_before g) w user ability target of
        Some decision \<Rightarrow> Some decision
      | None \<Rightarrow>
          (case (case fmlookup (ga_abilities g) ability of
                   Some callback \<Rightarrow> Some (callback w user target)
                 | None \<Rightarrow>
                     (case (ga_permission_resolver g, user) of
                        (Some resolver, Some u) \<Rightarrow> Some (resolver w (au_id u) ability)
                      | _ \<Rightarrow> None)) of
             None \<Rightarrow> None
           | Some result \<Rightarrow> Some (apply_after (ga_after g) w user ability target result)))"

definition resolve_user :: "('w, 'v) gate \<Rightarrow> 'w \<Rightarrow> AuthUser option" where
  "resolve_user g w = (case ga_user_resolver g of None \<Rightarrow> None | Some resolver \<Rightarrow> resolver w)"

definition allows_for :: "('w, 'v) gate \<Rightarrow> 'w \<Rightarrow> AuthUser option \<Rightarrow> string \<Rightarrow> 'v any \<Rightarrow> bool" where
  "allows_for g w user ability target = (case evaluate g w user ability target of Some b \<Rightarrow> b | None \<Rightarrow> False)"

definition allows :: "('w, 'v) gate \<Rightarrow> 'w \<Rightarrow> string \<Rightarrow> 'v any \<Rightarrow> bool" where
  "allows g w ability target = allows_for g w (resolve_user g w) ability target"

definition denies :: "('w, 'v) gate \<Rightarrow> 'w \<Rightarrow> string \<Rightarrow> 'v any \<Rightarrow> bool" where
  "denies g w ability target \<longleftrightarrow> \<not> allows g w ability target"

definition denies_for :: "('w, 'v) gate \<Rightarrow> 'w \<Rightarrow> AuthUser option \<Rightarrow> string \<Rightarrow> 'v any \<Rightarrow> bool" where
  "denies_for g w user ability target \<longleftrightarrow> \<not> allows_for g w user ability target"

definition authorize_for ::
  "('w, 'v) gate \<Rightarrow> 'w \<Rightarrow> AuthUser option \<Rightarrow> string \<Rightarrow> 'v any \<Rightarrow> AuthorizationError + unit" where
  "authorize_for g w user ability target =
     (case evaluate g w user ability target of
        Some True \<Rightarrow> Inr ()
      | Some False \<Rightarrow> Inl (Denied ability)
      | None \<Rightarrow> Inl (AbilityNotDefined ability))"

definition authorize :: "('w, 'v) gate \<Rightarrow> 'w \<Rightarrow> string \<Rightarrow> 'v any \<Rightarrow> AuthorizationError + unit" where
  "authorize g w ability target = authorize_for g w (resolve_user g w) ability target"

section \<open>Policies\<close>

datatype PolicyAction = ViewAny | View | Create | Update | Delete

definition ALL_ACTIONS :: "PolicyAction list" where
  "ALL_ACTIONS = [ViewAny, View, Create, Update, Delete]"

fun as_str :: "PolicyAction \<Rightarrow> string" where
  "as_str ViewAny = ''viewAny''"
| "as_str View = ''view''"
| "as_str Create = ''create''"
| "as_str Update = ''update''"
| "as_str Delete = ''delete''"

definition from_ability :: "string \<Rightarrow> PolicyAction option" where
  "from_ability ability =
     (if ability = ''viewAny'' \<or> ability = ''view_any'' then Some ViewAny
      else if ability = ''view'' then Some View
      else if ability = ''create'' then Some Create
      else if ability = ''update'' then Some Update
      else if ability = ''delete'' then Some Delete
      else None)"

fun requires_resource :: "PolicyAction \<Rightarrow> bool" where
  "requires_resource View = True"
| "requires_resource Update = True"
| "requires_resource Delete = True"
| "requires_resource _ = False"

record 'v policy =
  po_view_any :: "AuthUser option \<Rightarrow> bool"
  po_view :: "AuthUser option \<Rightarrow> 'v \<Rightarrow> bool"
  po_create :: "AuthUser option \<Rightarrow> bool"
  po_update :: "AuthUser option \<Rightarrow> 'v \<Rightarrow> bool"
  po_delete :: "AuthUser option \<Rightarrow> 'v \<Rightarrow> bool"

definition default_policy :: "'v policy" where
  "default_policy = \<lparr>po_view_any = (\<lambda>_. False), po_view = (\<lambda>_ _. False), po_create = (\<lambda>_. False),
     po_update = (\<lambda>_ _. False), po_delete = (\<lambda>_ _. False)\<rparr>"

record 'v policy_adapter =
  pa_type :: string
  pa_policy :: "'v policy"

definition any_downcast_ref :: "string \<Rightarrow> 'v any \<Rightarrow> 'v option" where
  "any_downcast_ref t target = (if an_type target = t then Some (an_value target) else None)"

definition check :: "'v policy_adapter \<Rightarrow> PolicyAction \<Rightarrow> AuthUser option \<Rightarrow> 'v any \<Rightarrow> bool" where
  "check ad action user target =
     (case action of
        ViewAny \<Rightarrow> po_view_any (pa_policy ad) user
      | Create \<Rightarrow> po_create (pa_policy ad) user
      | _ \<Rightarrow>
          (case any_downcast_ref (pa_type ad) target of
             None \<Rightarrow> False
           | Some resource \<Rightarrow>
               (case action of
                  View \<Rightarrow> po_view (pa_policy ad) user resource
                | Update \<Rightarrow> po_update (pa_policy ad) user resource
                | Delete \<Rightarrow> po_delete (pa_policy ad) user resource
                | _ \<Rightarrow> False)))"

type_synonym 'v policy_registry = "(string, 'v policy_adapter) fmap"

definition policy_register :: "string \<Rightarrow> 'v policy \<Rightarrow> 'v policy_registry \<Rightarrow> 'v policy_registry" where
  "policy_register t p reg = fmupd t \<lparr>pa_type = t, pa_policy = p\<rparr> reg"

definition policy_contains :: "'v policy_registry \<Rightarrow> string \<Rightarrow> bool" where
  "policy_contains reg t \<longleftrightarrow> fmlookup reg t \<noteq> None"

definition policy_len :: "'v policy_registry \<Rightarrow> nat" where
  "policy_len reg = fcard (fmdom reg)"

definition policy_resolve :: "'v policy_registry \<Rightarrow> string \<Rightarrow> 'v policy_adapter option" where
  "policy_resolve reg type_id = fmlookup reg type_id"

definition policy_authorize ::
  "'v policy_registry \<Rightarrow> AuthUser option \<Rightarrow> 'v any \<Rightarrow> string \<Rightarrow> AuthorizationError + unit" where
  "policy_authorize reg user target ability =
     (case from_ability ability of
        None \<Rightarrow> Inl (AbilityNotDefined ability)
      | Some action \<Rightarrow>
          (case policy_resolve reg (an_type target) of
             None \<Rightarrow> Inl (AbilityNotDefined ability)
           | Some ad \<Rightarrow> if check ad action user target then Inr () else Inl (Denied ability)))"

definition policy_can :: "'v policy_registry \<Rightarrow> AuthUser option \<Rightarrow> 'v any \<Rightarrow> string \<Rightarrow> bool" where
  "policy_can reg user target ability = (case policy_authorize reg user target ability of Inr _ \<Rightarrow> True | Inl _ \<Rightarrow> False)"

definition policy_denies :: "'v policy_registry \<Rightarrow> AuthUser option \<Rightarrow> 'v any \<Rightarrow> string \<Rightarrow> bool" where
  "policy_denies reg user target ability \<longleftrightarrow> \<not> policy_can reg user target ability"

text \<open>\<open>handle\<close> reads the shared registry.\<close>

definition install :: "('w \<Rightarrow> 'v policy_registry) \<Rightarrow> ('w, 'v) gate \<Rightarrow> ('w, 'v) gate" where
  "install handle g =
     fold (\<lambda>action. gate_define (as_str action) (\<lambda>w user target. policy_can (handle w) user target (as_str action))) ALL_ACTIONS g"

section \<open>Behind the router\<close>

record 'v extensions =
  ex_user :: "AuthUser option"
  ex_values :: "string \<rightharpoonup> 'v"

record error_object =
  eo_status :: string
  eo_code :: string
  eo_title :: string
  eo_detail :: string

definition error_code :: "AuthorizationError \<Rightarrow> string" where
  "error_code e = ''AuthorizationError::'' @ (case e of AbilityNotDefined _ \<Rightarrow> ''AbilityNotDefined'' | Denied _ \<Rightarrow> ''Denied'')"

text \<open>\<open>json\<close> is the response with a status and the list of errors as its body, \<open>dbg\<close> the debug form of
  a string.\<close>

definition into_response ::
  "(nat \<Rightarrow> error_object list \<Rightarrow> 'r) \<Rightarrow> (string \<Rightarrow> string) \<Rightarrow> AuthorizationError \<Rightarrow> 'r response" where
  "into_response json dbg e =
     Answer (json 403 [\<lparr>eo_status = ''403'', eo_code = error_code e,
       eo_title = (case e of AbilityNotDefined _ \<Rightarrow> ''Ability not defined'' | Denied _ \<Rightarrow> ''Forbidden''),
       eo_detail = (case e of
          AbilityNotDefined a \<Rightarrow> ''No authorization ability is registered under '' @ dbg a @ ''.''
        | Denied a \<Rightarrow> ''You are not authorized to perform '' @ dbg a @ ''.'')\<rparr>])"

definition gate_resource ::
  "(nat \<Rightarrow> error_object list \<Rightarrow> 'r) \<Rightarrow> (string \<Rightarrow> string) \<Rightarrow> string \<Rightarrow> ('w, 'v) gate
    \<Rightarrow> ('v extensions, 'r, 'w) authorizer" where
  "gate_resource json dbg t g request ability w =
     (case ex_values (rq_ext request) t of
        None \<Rightarrow> (Inl (into_response json dbg (Denied ability)), w)
      | Some resource \<Rightarrow>
          (case authorize_for g w (ex_user (rq_ext request)) ability \<lparr>an_type = t, an_value = resource\<rparr> of
             Inl e \<Rightarrow> (Inl (into_response json dbg e), w)
           | Inr _ \<Rightarrow> (Inr (), w)))"

text \<open>\<open>unit\<close> is the value of the target \<^verbatim>\<open>&()\<close>.\<close>

definition ability_gate_resource ::
  "(nat \<Rightarrow> error_object list \<Rightarrow> 'r) \<Rightarrow> (string \<Rightarrow> string) \<Rightarrow> 'v \<Rightarrow> ('w, 'v) gate
    \<Rightarrow> ('v extensions, 'r, 'w) authorizer" where
  "ability_gate_resource json dbg unit g request ability w =
     (case ex_user (rq_ext request) of
        None \<Rightarrow> (Inl (into_response json dbg (Denied ability)), w)
      | Some user \<Rightarrow>
          (case authorize_for g w (Some user) ability \<lparr>an_type = ''()'', an_value = unit\<rparr> of
             Inl e \<Rightarrow> (Inl (into_response json dbg e), w)
           | Inr _ \<Rightarrow> (Inr (), w)))"

section \<open>Policies are dispatched by type\<close>

definition policies_typed :: "'v policy_registry \<Rightarrow> bool" where
  "policies_typed reg \<longleftrightarrow> (\<forall>t ad. fmlookup reg t = Some ad \<longrightarrow> pa_type ad = t)"

lemma policies_typed_register: "policies_typed reg \<Longrightarrow> policies_typed (policy_register t p reg)"
  by (auto simp: policies_typed_def policy_register_def)

definition register_policies :: "(string \<times> 'v policy) list \<Rightarrow> 'v policy_registry" where
  "register_policies ps = fold (\<lambda>(t, p). policy_register t p) ps fmempty"

lemma register_policies_snoc: "register_policies (ps @ [(t, p)]) = policy_register t p (register_policies ps)"
  by (simp add: register_policies_def)

lemma register_policies_lookup:
  "fmlookup (register_policies ps) t = map_option (\<lambda>p. \<lparr>pa_type = t, pa_policy = p\<rparr>) (map_of (rev ps) t)"
proof (induction ps rule: rev_induct)
  case (snoc x ps)
  then show ?case by (cases x) (simp add: register_policies_snoc policy_register_def)
qed (simp add: register_policies_def)

lemma policies_typed_registered: "policies_typed (register_policies ps)"
  by (auto simp: policies_typed_def register_policies_lookup)

text \<open>What a policy says of an action, with the resource where the action has one.\<close>

fun verdict :: "'v policy \<Rightarrow> PolicyAction \<Rightarrow> AuthUser option \<Rightarrow> 'v \<Rightarrow> bool" where
  "verdict p ViewAny user v = po_view_any p user"
| "verdict p View user v = po_view p user v"
| "verdict p Create user v = po_create p user"
| "verdict p Update user v = po_update p user v"
| "verdict p Delete user v = po_delete p user v"

lemma check_typed: "pa_type ad = an_type target \<Longrightarrow> check ad action user target = verdict (pa_policy ad) action user (an_value target)"
  by (cases action) (simp_all add: check_def any_downcast_ref_def)

lemma check_wrong_type: "pa_type ad \<noteq> an_type target \<Longrightarrow> requires_resource action \<Longrightarrow> \<not> check ad action user target"
  by (cases action) (simp_all add: check_def any_downcast_ref_def)

lemma from_ability_as_str [simp]: "from_ability (as_str action) = Some action"
  by (cases action) (simp_all add: from_ability_def)

lemma as_str_inj [simp]: "as_str a = as_str b \<longleftrightarrow> a = b"
  by (metis from_ability_as_str option.inject)

text \<open>C37. Policies are dispatched by type: whatever policies were registered, an ability of the standard
  set asks the last policy registered for the type of the target, and that policy's method sees the
  target's own value; the branch for a resource of the wrong type is never taken. Any other ability and
  any type without a policy are refused as not defined.\<close>

theorem policy_dispatch_typed:
  "policies_typed (register_policies ps)
   \<and> policy_authorize (register_policies ps) user target ability =
      (case from_ability ability of
         None \<Rightarrow> Inl (AbilityNotDefined ability)
       | Some action \<Rightarrow>
           (case map_of (rev ps) (an_type target) of
              None \<Rightarrow> Inl (AbilityNotDefined ability)
            | Some p \<Rightarrow> if verdict p action user (an_value target) then Inr () else Inl (Denied ability)))"
  by (auto simp: policies_typed_registered policy_authorize_def policy_resolve_def register_policies_lookup check_typed
      split: option.splits)

lemma install_lookup:
  "fmlookup (ga_abilities (install handle g)) name =
    (if name \<in> as_str ` set ALL_ACTIONS then Some (\<lambda>w user target. policy_can (handle w) user target name)
     else fmlookup (ga_abilities g) name)"
  by (simp add: install_def ALL_ACTIONS_def gate_define_def)

lemma install_keeps [simp]: "ga_before (install handle g) = ga_before g" "ga_after (install handle g) = ga_after g"
  "ga_permission_resolver (install handle g) = ga_permission_resolver g"
  by (simp_all add: install_def ALL_ACTIONS_def gate_define_def)

lemma all_actions: "action \<in> set ALL_ACTIONS"
  by (cases action) (simp_all add: ALL_ACTIONS_def)

text \<open>A gate with installed policies: for a standard action the hooks that run before decide if one of
  them wants to; otherwise the verdict of the policy registered last for the target's type, or a refusal
  where there is none, goes through the hooks that run after. The policies are those registered when the
  check is made, also if that was after the installation.\<close>

lemma installed_policies_live:
  "evaluate (install (\<lambda>w. w reg) g) (w(reg := register_policies ps)) user (as_str action) target =
     (case before_decision (ga_before g) (w(reg := register_policies ps)) user (as_str action) target of
        Some decision \<Rightarrow> Some decision
      | None \<Rightarrow> Some (apply_after (ga_after g) (w(reg := register_policies ps)) user (as_str action) target
          (case map_of (rev ps) (an_type target) of None \<Rightarrow> False | Some p \<Rightarrow> verdict p action user (an_value target))))"
  by (auto simp: evaluate_def install_lookup all_actions policy_can_def policy_authorize_def policy_resolve_def
      register_policies_lookup check_typed split: option.splits)

section \<open>What the gate lets through\<close>

text \<open>A gate is closed without a user when its hooks and callbacks never allow one.\<close>

lemma authorize_for_Inr:
  "authorize_for g w user ability target = Inr () \<longleftrightarrow> evaluate g w user ability target = Some True"
  by (auto simp: authorize_for_def split: option.splits bool.splits)

lemma allows_for_iff: "allows_for g w user ability target \<longleftrightarrow> authorize_for g w user ability target = Inr ()"
  by (auto simp: allows_for_def authorize_for_Inr split: option.splits)

lemma evaluate_permission:
  assumes "ga_before g = []" "ga_after g = []" "fmlookup (ga_abilities g) ability = None"
    and "ga_permission_resolver g = Some resolver"
  shows "evaluate g w user ability target = map_option (\<lambda>u. resolver w (au_id u) ability) user"
  using assms by (simp add: evaluate_def apply_after_def split: option.splits)

lemma evaluate_undefined:
  "ga_before g = [] \<Longrightarrow> fmlookup (ga_abilities g) ability = None \<Longrightarrow> ga_permission_resolver g = None \<Longrightarrow>
    authorize_for g w user ability target = Inl (AbilityNotDefined ability)"
  by (simp add: authorize_for_def evaluate_def)

text \<open>The adapter for a resource passes a missing principal on to the gate, so a policy that allows guests
  admits a request without a principal.\<close>

lemma gate_resource_guest:
  "fst (gate_resource json dbg ''Post''
      (install (\<lambda>_. register_policies [(''Post'', default_policy\<lparr>po_view := \<lambda>_ _. True\<rparr>)]) gate_new)
      \<lparr>rq_path = ''/posts/1'', rq_ext = \<lparr>ex_user = None, ex_values = [''Post'' \<mapsto> v]\<rparr>\<rparr> ''view'' w) = Inr ()"
  by (simp add: gate_resource_def authorize_for_def evaluate_def install_lookup ALL_ACTIONS_def gate_new_def policy_can_def
      policy_authorize_def policy_resolve_def register_policies_lookup check_typed from_ability_def apply_after_def)

lemma gate_resource_no_resource:
  "ex_values (rq_ext q) t = None \<Longrightarrow> gate_resource json dbg t g q ability w = (Inl (into_response json dbg (Denied ability)), w)"
  by (simp add: gate_resource_def)

lemma ability_gate_Inr:
  "ability_gate_resource json dbg unit g q ability w = (Inr (), w') \<longleftrightarrow>
    w' = w \<and> (\<exists>u. ex_user (rq_ext q) = Some u \<and> evaluate g w (Some u) ability \<lparr>an_type = ''()'', an_value = unit\<rparr> = Some True)"
  by (auto simp: ability_gate_resource_def authorize_for_def split: option.splits sum.splits bool.splits)

end
