(* ===== verification/Totp.thy ===== *)
theory Totp
  imports Percent
begin

text \<open>
  One-time passwords, \<^verbatim>\<open>rustasea-auth/src/two_factor/totp.rs\<close>: the base32 codec with its
  32-bit buffer, HOTP truncation, codes and their verification window, and the provisioning URI.
  HMAC-SHA1 is a parameter \<open>hmac\<close>; \<open>None\<close> is a key it does not accept. Time is an argument.
\<close>

section \<open>Numbers by their digits\<close>

text \<open>The number of a list of digits, most significant first, and the \<open>n\<close> last digits of a number.\<close>

definition number :: "nat \<Rightarrow> nat list \<Rightarrow> nat" where
  "number b ds = foldl (\<lambda>a d. a * b + d) 0 ds"

fun digits :: "nat \<Rightarrow> nat \<Rightarrow> nat \<Rightarrow> nat list" where
  "digits b 0 v = []"
| "digits b (Suc n) v = digits b n (v div b) @ [v mod b]"

lemma number_snoc [simp]: "number b (ds @ [d]) = number b ds * b + d" "number b [] = 0"
  by (simp_all add: number_def)

lemma length_digits [simp]: "length (digits b n v) = n"
  by (induction b n v rule: digits.induct) simp_all

lemma number_digits: "0 < b \<Longrightarrow> v < b ^ n \<Longrightarrow> number b (digits b n v) = v"
proof (induction b n v rule: digits.induct)
  case (2 b n v)
  then have "v div b < b ^ n" by (simp add: less_mult_imp_div_less mult.commute)
  with 2 show ?case by simp
qed simp

lemma digits_number: "list_all (\<lambda>d. d < b) ds \<Longrightarrow> digits b (length ds) (number b ds) = ds"
  by (induction ds rule: rev_induct) auto

lemma number_less: "list_all (\<lambda>d. d < b) ds \<Longrightarrow> number b ds < b ^ length ds"
proof (induction ds rule: rev_induct)
  case (snoc d ds)
  then have "number b ds + 1 \<le> b ^ length ds" "d < b" by simp_all
  then have "(number b ds + 1) * b \<le> b ^ length ds * b" using mult_le_mono1 by blast
  with \<open>d < b\<close> show ?case by (simp add: algebra_simps)
qed simp

section \<open>Base32\<close>

definition BASE32_ALPHABET :: string where
  "BASE32_ALPHABET = ''ABCDEFGHIJKLMNOPQRSTUVWXYZ234567''"

text \<open>The inner loop takes five bits at a time from the buffer.\<close>

fun drain :: "nat \<Rightarrow> nat \<Rightarrow> string \<Rightarrow> nat \<times> string" where
  "drain buffer bits out =
     (if 5 \<le> bits
      then drain buffer (bits - 5) (out @ [BASE32_ALPHABET ! (buffer div 2 ^ (bits - 5) mod 32)])
      else (bits, out))"

declare drain.simps [simp del]

fun encode_loop :: "string \<Rightarrow> nat \<Rightarrow> nat \<Rightarrow> string \<Rightarrow> string" where
  "encode_loop [] buffer bits out =
     (if 0 < bits then out @ [BASE32_ALPHABET ! (buffer * 2 ^ (5 - bits) mod 2 ^ 32 mod 32)] else out)"
| "encode_loop (byte # bs) buffer bits out =
     (let buffer' = (buffer * 256 + of_char byte) mod 2 ^ 32 in
      case drain buffer' (bits + 8) out of (bits', out') \<Rightarrow> encode_loop bs buffer' bits' out')"

definition base32_encode :: "string \<Rightarrow> string" where
  "base32_encode data = encode_loop data 0 0 []"

definition decode_symbol :: "char \<Rightarrow> nat option" where
  "decode_symbol c =
     (let b = (of_char c :: nat) in
      if 65 \<le> b \<and> b \<le> 90 then Some (b - 65)
      else if 97 \<le> b \<and> b \<le> 122 then Some (b - 97)
      else if 50 \<le> b \<and> b \<le> 55 then Some (b - 50 + 26)
      else None)"

fun decode_loop :: "string \<Rightarrow> nat \<Rightarrow> nat \<Rightarrow> string \<Rightarrow> string option" where
  "decode_loop [] buffer bits out = Some out"
| "decode_loop (c # cs) buffer bits out =
     (case decode_symbol c of
        None \<Rightarrow> None
      | Some v \<Rightarrow>
          (let buffer' = (buffer * 32 + v) mod 2 ^ 32; bits' = bits + 5 in
           if 8 \<le> bits'
           then decode_loop cs buffer' (bits' - 8) (out @ [char_of (buffer' div 2 ^ (bits' - 8) mod 256)])
           else decode_loop cs buffer' bits' out))"

definition base32_decode :: "string \<Rightarrow> string option" where
  "base32_decode input = decode_loop input 0 0 []"

section \<open>Codes\<close>

definition SECRET_BYTES :: nat where
  "SECRET_BYTES = 20"

definition DIGITS :: nat where
  "DIGITS = 6"

definition STEP_SECS :: nat where
  "STEP_SECS = 30"

definition DEFAULT_WINDOW :: nat where
  "DEFAULT_WINDOW = 1"

text \<open>\<open>random\<close> are the bytes of the operating system.\<close>

definition generate_secret :: "string \<Rightarrow> string" where
  "generate_secret random = base32_encode (take SECRET_BYTES random)"

definition otpauth_uri :: "string \<Rightarrow> string \<Rightarrow> string \<Rightarrow> string" where
  "otpauth_uri issuer account secret =
     ''otpauth://totp/'' @ percent_encode issuer @ '':'' @ percent_encode account
     @ ''?secret='' @ secret @ ''&issuer='' @ percent_encode issuer"

text \<open>\<^verbatim>\<open>u64::to_be_bytes\<close>.\<close>

definition to_be_bytes :: "nat \<Rightarrow> string" where
  "to_be_bytes counter = map char_of (digits 256 8 counter)"

definition hotp :: "(string \<Rightarrow> string \<Rightarrow> string option) \<Rightarrow> string \<Rightarrow> nat \<Rightarrow> nat \<Rightarrow> nat option" where
  "hotp hmac secret counter n =
     (case hmac secret (to_be_bytes counter) of
        None \<Rightarrow> None
      | Some digest \<Rightarrow>
          (let d = (\<lambda>i. of_char (digest ! i) :: nat);
               offset = d (length digest - 1) mod 16;
               bin = (d offset mod 128) * 2 ^ 24 + d (offset + 1) * 2 ^ 16 + d (offset + 2) * 2 ^ 8 + d (offset + 3)
           in Some (bin mod 10 ^ n)))"

definition format_code :: "nat \<Rightarrow> nat \<Rightarrow> string" where
  "format_code v n = replicate (n - length (show_nat v)) (CHR ''0'') @ show_nat v"

definition code_at :: "(string \<Rightarrow> string \<Rightarrow> string option) \<Rightarrow> string \<Rightarrow> nat \<Rightarrow> string option" where
  "code_at hmac secret_b32 now =
     (case base32_decode secret_b32 of
        None \<Rightarrow> None
      | Some secret \<Rightarrow>
          (case hotp hmac secret (now div STEP_SECS) DIGITS of
             None \<Rightarrow> None
           | Some v \<Rightarrow> Some (format_code v DIGITS)))"

fun try_steps :: "(string \<Rightarrow> string \<Rightarrow> string option) \<Rightarrow> string \<Rightarrow> string \<Rightarrow> int list \<Rightarrow> bool" where
  "try_steps hmac secret code [] = False"
| "try_steps hmac secret code (candidate # cs) =
     (if candidate < 0 then try_steps hmac secret code cs
      else
        (case hotp hmac secret (nat candidate) DIGITS of
           Some v \<Rightarrow> if format_code v DIGITS = code then True else try_steps hmac secret code cs
         | None \<Rightarrow> try_steps hmac secret code cs))"

definition verify_code :: "(string \<Rightarrow> string \<Rightarrow> string option) \<Rightarrow> string \<Rightarrow> string \<Rightarrow> nat \<Rightarrow> nat \<Rightarrow> bool" where
  "verify_code hmac secret_b32 code0 window now =
     (let code = trim code0 in
      if length code \<noteq> DIGITS \<or> \<not> list_all is_digit code then False
      else
        (case base32_decode secret_b32 of
           None \<Rightarrow> False
         | Some secret \<Rightarrow>
             (let counter = int (now div STEP_SECS); w = int window in
              try_steps hmac secret code (map (\<lambda>delta. counter + delta) [- w..w]))))"

section \<open>The codec\<close>

lemma digits_less: "0 < b \<Longrightarrow> list_all (\<lambda>d. d < b) (digits b n v)"
  by (induction b n v rule: digits.induct) simp_all

definition symbols :: "nat list \<Rightarrow> string" where
  "symbols ds = map (\<lambda>d. BASE32_ALPHABET ! d) ds"

lemma symbols_snoc [simp]: "symbols (ds @ [d]) = symbols ds @ [BASE32_ALPHABET ! d]" "symbols [] = []"
  by (simp_all add: symbols_def)

lemma decode_symbol_alphabet: "d < 32 \<Longrightarrow> decode_symbol (BASE32_ALPHABET ! d) = Some d"
proof -
  have "list_all (\<lambda>d. decode_symbol (BASE32_ALPHABET ! d) = Some d) [0..<32]" by code_simp
  moreover assume "d < 32"
  ultimately show ?thesis by (auto simp: list_all_iff)
qed

lemma digits_extend:
  assumes "m \<le> n"
  shows "digits (2 ^ m) (Suc k) (v div 2 ^ (n - m)) = digits (2 ^ m) k (v div 2 ^ n) @ [v div 2 ^ (n - m) mod 2 ^ m]"
proof -
  have "v div 2 ^ (n - m) div 2 ^ m = v div 2 ^ n"
    using assms by (simp flip: div_mult2_eq power_add)
  then show ?thesis by simp
qed

text \<open>The buffer holds the last 32 bits of all bytes read so far; the pending bits are at most twelve.\<close>

lemma drain_digits:
  "bits \<le> 32 \<Longrightarrow> drain (v mod 2 ^ 32) bits (symbols (digits 32 k (v div 2 ^ bits)))
    = (bits mod 5, symbols (digits 32 (k + bits div 5) (v div 2 ^ (bits mod 5))))"
proof (induction bits arbitrary: k rule: less_induct)
  case (less bits)
  show ?case
  proof (cases "5 \<le> bits")
    case True
    have "v mod 2 ^ 32 div 2 ^ (bits - 5) mod 32 = v div 2 ^ (bits - 5) mod 32"
      using True less.prems bit_window [of "bits - 5" 5 32 v] by simp
    then have "drain (v mod 2 ^ 32) bits (symbols (digits 32 k (v div 2 ^ bits)))
        = drain (v mod 2 ^ 32) (bits - 5) (symbols (digits 32 (Suc k) (v div 2 ^ (bits - 5))))"
      using True digits_extend [of 5 bits k v] by (subst drain.simps) simp
    also have "\<dots> = ((bits - 5) mod 5, symbols (digits 32 (Suc k + (bits - 5) div 5) (v div 2 ^ ((bits - 5) mod 5))))"
      using True less.prems by (intro less.IH) simp_all
    also have "Suc k + (bits - 5) div 5 = k + bits div 5" using True by (simp add: le_div_geq)
    also have "(bits - 5) mod 5 = bits mod 5" using True by (simp add: le_mod_geq)
    finally show ?thesis .
  next
    case False
    then show ?thesis by (subst drain.simps) simp
  qed
qed

definition byte_values :: "string \<Rightarrow> nat list" where
  "byte_values s = map of_char s"

text \<open>\<open>n\<close> bytes were read; the symbols so far and the pending bits are their number.\<close>

lemma encode_loop_digits:
  assumes "bits < 5" "5 * k + bits = 8 * n" "K = (8 * (n + length bs) + 4) div 5"
  shows "encode_loop bs (v mod 2 ^ 32) bits (symbols (digits 32 k (v div 2 ^ bits)))
    = symbols (digits 32 K (foldl (\<lambda>a d. a * 256 + d) v (byte_values bs) * 2 ^ (5 * K - 8 * (n + length bs))))"
  using assms
proof (induction bs arbitrary: v bits k n)
  case Nil
  show ?case
  proof (cases "bits = 0")
    case True
    with Nil(2) have n: "8 * n = 5 * k" by simp
    have "(5 * k + 4) div 5 = k" by simp
    with Nil(3) n have "K = k" by simp
    with n have "5 * K - 8 * n = 0" by simp
    with True \<open>K = k\<close> show ?thesis by (simp add: byte_values_def)
  next
    case False
    have "(5 * k + bits + 4) div 5 = Suc k"
      using False Nil(1) by (intro div_nat_eqI) auto
    with Nil(2,3) have "K = Suc k" by simp
    with Nil(2) have K: "K = Suc k" "5 * K - 8 * n = 5 - bits" by simp_all
    have "v * 2 ^ (5 - bits) div 32 = v div 2 ^ bits"
      using Nil(1) div_mult2_eq [of "v * 2 ^ (5 - bits)" "2 ^ (5 - bits)" "2 ^ bits"] by (simp flip: power_add)
    moreover have "v mod 2 ^ 32 * 2 ^ (5 - bits) mod 2 ^ 32 mod 32 = v * 2 ^ (5 - bits) mod 32"
      by (simp add: mod_mult_left_eq mod_mod_cancel)
    moreover have "5 * K - 8 * (n + length []) = 5 - bits" using K(2) by simp
    ultimately show ?thesis using False unfolding K(1) by (simp add: byte_values_def)
  qed
next
  case (Cons byte bs)
  let ?b = "of_char byte :: nat" and ?v = "v * 256 + of_char byte"
  have v: "(v mod 2 ^ 32 * 256 + ?b) mod 2 ^ 32 = ?v mod 2 ^ 32"
    by (metis mod_add_left_eq mod_mult_left_eq)
  have "?v div 2 ^ (bits + 8) = v div 2 ^ bits"
    using div_mult2_eq [of ?v 256 "2 ^ bits"] by (simp add: power_add mult.commute)
  then have drain: "drain (?v mod 2 ^ 32) (bits + 8) (symbols (digits 32 k (v div 2 ^ bits)))
      = ((bits + 8) mod 5, symbols (digits 32 (k + (bits + 8) div 5) (?v div 2 ^ ((bits + 8) mod 5))))"
    using drain_digits [of "bits + 8" ?v k] Cons.prems(1) by simp
  have "5 * (k + (bits + 8) div 5) + (bits + 8) mod 5 = 8 * Suc n"
    using Cons.prems(2) mult_div_mod_eq [of 5 "bits + 8"] unfolding add_mult_distrib2 by simp
  with Cons.IH [of "(bits + 8) mod 5" "k + (bits + 8) div 5" "Suc n" ?v] Cons.prems(3)
  have "encode_loop bs (?v mod 2 ^ 32) ((bits + 8) mod 5) (symbols (digits 32 (k + (bits + 8) div 5) (?v div 2 ^ ((bits + 8) mod 5))))
      = symbols (digits 32 K (foldl (\<lambda>a d. a * 256 + d) ?v (byte_values bs) * 2 ^ (5 * K - 8 * (n + length (byte # bs)))))"
    by simp
  then show ?case using v drain by (simp add: byte_values_def Let_def)
qed

lemma decode_loop_digits:
  assumes "bits < 8" "list_all (\<lambda>d. d < 32) ds"
  shows "decode_loop (symbols ds) (v mod 2 ^ 32) bits (map char_of (digits 256 k (v div 2 ^ bits)))
    = Some (map char_of (digits 256 (k + (bits + 5 * length ds) div 8)
        (foldl (\<lambda>a d. a * 32 + d) v ds div 2 ^ ((bits + 5 * length ds) mod 8))))"
  using assms
proof (induction ds arbitrary: v bits k)
  case Nil
  then show ?case by simp
next
  case (Cons d ds)
  let ?v = "v * 32 + d"
  have v: "(v mod 2 ^ 32 * 32 + d) mod 2 ^ 32 = ?v mod 2 ^ 32"
    by (metis mod_add_left_eq mod_mult_left_eq)
  have shift: "?v div 2 ^ (bits + 5) = v div 2 ^ bits"
    using Cons.prems(2) div_mult2_eq [of ?v 32 "2 ^ bits"] by (simp add: power_add mult.commute)
  show ?case
  proof (cases "8 \<le> bits + 5")
    case True
    have "?v mod 2 ^ 32 div 2 ^ (bits + 5 - 8) mod 256 = ?v div 2 ^ (bits + 5 - 8) mod 256"
      using Cons.prems(1) bit_window [of "bits + 5 - 8" 8 32 ?v] by simp
    then have "map char_of (digits 256 k (v div 2 ^ bits)) @ [char_of (?v mod 2 ^ 32 div 2 ^ (bits + 5 - 8) mod 256)]
        = map (char_of :: nat \<Rightarrow> char) (digits 256 (Suc k) (?v div 2 ^ (bits + 5 - 8)))"
      using digits_extend [of 8 "bits + 5" k ?v] True shift by simp
    then have step: "decode_loop (symbols (d # ds)) (v mod 2 ^ 32) bits (map char_of (digits 256 k (v div 2 ^ bits)))
        = decode_loop (symbols ds) (?v mod 2 ^ 32) (bits + 5 - 8) (map char_of (digits 256 (Suc k) (?v div 2 ^ (bits + 5 - 8))))"
      using True Cons.prems(2) v by (simp add: symbols_def decode_symbol_alphabet Let_def del: digits.simps)
    have count: "Suc k + (bits + 5 - 8 + 5 * length ds) div 8 = k + (bits + 5 * length (d # ds)) div 8"
      "(bits + 5 - 8 + 5 * length ds) mod 8 = (bits + 5 * length (d # ds)) mod 8"
      using True by (simp_all add: le_div_geq le_mod_geq add.commute)
    show ?thesis
      using Cons.IH [of "bits + 5 - 8" ?v "Suc k"] Cons.prems unfolding step count by simp
  next
    case False
    then show ?thesis
      using Cons.prems Cons.IH [of "bits + 5" ?v k] v shift
      by (simp add: symbols_def decode_symbol_alphabet Let_def ac_simps)
  qed
qed

lemma byte_values_less: "list_all (\<lambda>d. d < 256) (byte_values s)" "length (byte_values s) = length s"
  "map char_of (byte_values s) = s"
  by (simp_all add: byte_values_def list_all_iff map_idI)

text \<open>Decoding an encoded secret gives its bytes back, for every length.\<close>

lemma base32_roundtrip: "base32_decode (base32_encode s) = Some s"
proof -
  let ?n = "length s" and ?V = "number 256 (byte_values s)"
  define K where "K = (8 * ?n + 4) div 5"
  define pad where "pad = 5 * K - 8 * ?n"
  have K: "5 * K = 8 * ?n + pad" "pad < 5"
    unfolding pad_def K_def by presburger+
  then have "5 * K div 8 = ?n" "5 * K mod 8 = pad" by simp_all
  have "?V < 2 ^ (8 * ?n)"
    using number_less [OF byte_values_less(1), of s] by (simp add: byte_values_less(2) power_mult)
  then have "?V * 2 ^ pad < 2 ^ (8 * ?n + pad)" by (simp add: power_add)
  then have less: "?V * 2 ^ pad < 32 ^ K" by (simp add: power_mult flip: K(1))
  have enc: "base32_encode s = symbols (digits 32 K (?V * 2 ^ pad))"
    using encode_loop_digits [of 0 0 0 K s 0] by (simp add: base32_encode_def K_def pad_def number_def)
  have "base32_decode (symbols (digits 32 K (?V * 2 ^ pad)))
      = Some (map char_of (digits 256 (5 * K div 8) (number 32 (digits 32 K (?V * 2 ^ pad)) div 2 ^ (5 * K mod 8))))"
    using decode_loop_digits [of 0 "digits 32 K (?V * 2 ^ pad)" 0 0] digits_less [of 32]
    by (simp add: base32_decode_def number_def)
  also have "\<dots> = Some (map char_of (digits 256 ?n ?V))"
    using less by (simp add: number_digits \<open>5 * K div 8 = ?n\<close> \<open>5 * K mod 8 = pad\<close>)
  also have "digits 256 ?n ?V = byte_values s"
    using digits_number [OF byte_values_less(1), of s] by (simp add: byte_values_less(2))
  finally show ?thesis by (simp add: enc byte_values_less(3))
qed

section \<open>The window\<close>

lemma length_show_nat: "v < 10 ^ Suc n \<Longrightarrow> length (show_nat v) \<le> Suc n"
proof (induction n arbitrary: v)
  case 0
  then show ?case by (simp add: show_nat.simps)
next
  case (Suc n)
  then have "v div 10 < 10 ^ Suc n" by (simp add: less_mult_imp_div_less mult.commute)
  with Suc.IH [of "v div 10"] show ?case by (subst show_nat.simps) simp
qed

lemma format_code_shape:
  assumes "v < 10 ^ DIGITS"
  shows "length (format_code v DIGITS) = DIGITS" "list_all is_digit (format_code v DIGITS)"
proof -
  have "length (show_nat v) \<le> DIGITS"
    using assms length_show_nat [of v 5] by (simp add: DIGITS_def)
  then show "length (format_code v DIGITS) = DIGITS" by (simp add: format_code_def)
  show "list_all is_digit (format_code v DIGITS)"
    using show_nat_digits by (auto simp: format_code_def list_all_iff is_digit_def)
qed

lemma hotp_less: "hotp hmac secret counter n = Some v \<Longrightarrow> v < 10 ^ n"
  by (auto simp: hotp_def Let_def split: option.splits)

lemma code_at_shape: "code_at hmac secret now = Some code \<Longrightarrow> length code = DIGITS \<and> list_all is_digit code"
  using format_code_shape hotp_less by (fastforce simp: code_at_def split: option.splits)

lemma try_steps_iff:
  "try_steps hmac secret code cs \<longleftrightarrow> (\<exists>c\<in>set cs. 0 \<le> c \<and> map_option (\<lambda>v. format_code v DIGITS) (hotp hmac secret (nat c) DIGITS) = Some code)"
  by (induction cs) (auto split: option.splits)

text \<open>C38. The window of a one-time code: a submitted code is accepted exactly when, spaces around it removed,
  it is the code of the secret at some time whose step is at most \<open>window\<close> steps before or after the
  current one. Steps before the epoch count for nothing, and a secret that does not decode accepts no
  code.\<close>

theorem totp_window:
  "verify_code hmac secret code window now \<longleftrightarrow>
    (\<exists>t. code_at hmac secret t = Some (trim code)
      \<and> now div STEP_SECS \<le> t div STEP_SECS + window \<and> t div STEP_SECS \<le> now div STEP_SECS + window)"
proof (cases "base32_decode secret")
  case None
  then show ?thesis by (simp add: verify_code_def code_at_def Let_def)
next
  case (Some key)
  let ?c = "now div STEP_SECS"
  have at: "code_at hmac secret t = map_option (\<lambda>v. format_code v DIGITS) (hotp hmac key (t div STEP_SECS) DIGITS)" for t
    using Some by (simp add: code_at_def split: option.splits)
  have steps: "try_steps hmac key (trim code) (map (\<lambda>delta. int ?c + delta) [- int window..int window])
      \<longleftrightarrow> (\<exists>t. code_at hmac secret t = Some (trim code) \<and> ?c \<le> t div STEP_SECS + window \<and> t div STEP_SECS \<le> ?c + window)"
    (is "?L \<longleftrightarrow> ?R")
  proof
    assume ?L
    then obtain c where c: "int ?c - int window \<le> c" "c \<le> int ?c + int window" "0 \<le> c"
      "map_option (\<lambda>v. format_code v DIGITS) (hotp hmac key (nat c) DIGITS) = Some (trim code)"
      unfolding try_steps_iff by (auto simp del: map_option_eq_Some)
    have "nat c * STEP_SECS div STEP_SECS = nat c" by (simp add: STEP_SECS_def)
    with c at [of "nat c * STEP_SECS"] show ?R by (intro exI [of _ "nat c * STEP_SECS"]) auto
  next
    assume ?R
    then obtain t where t: "code_at hmac secret t = Some (trim code)" "?c \<le> t div STEP_SECS + window"
      "t div STEP_SECS \<le> ?c + window" by blast
    let ?s = "int (t div STEP_SECS)"
    have "?s \<in> set (map (\<lambda>delta. int ?c + delta) [- int window..int window])"
      using t(2,3) by (auto intro!: image_eqI [of _ _ "?s - int ?c"])
    with t(1) show ?L unfolding try_steps_iff at by (intro bexI [of _ ?s]) auto
  qed
  show ?thesis
  proof (cases "length (trim code) = DIGITS \<and> list_all is_digit (trim code)")
    case True
    with steps show ?thesis using Some by (simp add: verify_code_def Let_def)
  next
    case False
    then show ?thesis using code_at_shape by (auto simp: verify_code_def Let_def)
  qed
qed

lemma base32_encode_symbols: "\<exists>ds. list_all (\<lambda>d. d < 32) ds \<and> base32_encode s = symbols ds"
  using encode_loop_digits [of 0 0 0 _ s 0] digits_less [of 32]
  by (intro exI [of _ "digits 32 ((8 * length s + 4) div 5) _"]) (auto simp: base32_encode_def)

lemma base32_encode_ascii: "c \<in> set (base32_encode s) \<Longrightarrow> (of_char c :: nat) < 128"
proof -
  have "list_all (\<lambda>c. (of_char c :: nat) < 128) BASE32_ALPHABET" by code_simp
  moreover have "length BASE32_ALPHABET = 32" by code_simp
  moreover assume "c \<in> set (base32_encode s)"
  ultimately show ?thesis
    using base32_encode_symbols [of s] by (auto simp: symbols_def list_all_iff)
qed

end
