(* ===== verification/Two_Factor.thy ===== *)
theory Two_Factor
  imports Totp Guard
begin

text \<open>
  Two-factor authentication, \<^verbatim>\<open>rustasea-auth/src/two_factor\<close>: the sealed secrets
  (\<^verbatim>\<open>cipher.rs\<close>), the stores (\<^verbatim>\<open>store.rs\<close>), recovery codes and the service
  (\<^verbatim>\<open>mod.rs\<close>). The service is a client of the store interface, the locale
  \<open>two_factor_store\<close>; the store in memory is its interpretation.

  Random bytes, the clock and the time stamp are arguments. The AEAD cipher, SHA-256, the
  hexadecimal codec, the password hash and HMAC-SHA1 are fields of the environment. Recovery codes are
  drawn until ten different ones are found: the draws are a list, and \<open>None\<close> says that the list is
  too short.
\<close>

section \<open>Sealed secrets\<close>

record tf_env =
  te_sha256 :: "bytes \<Rightarrow> bytes"
  te_aead_encrypt :: "bytes \<Rightarrow> bytes \<Rightarrow> bytes \<Rightarrow> bytes option"
  te_aead_decrypt :: "bytes \<Rightarrow> bytes \<Rightarrow> bytes \<Rightarrow> bytes option"
  te_hex_encode :: "bytes \<Rightarrow> string"
  te_hex_decode :: "string \<Rightarrow> bytes option"
  te_hash :: "string \<Rightarrow> string \<Rightarrow> AuthError + string"
  te_verify :: "string \<Rightarrow> string \<Rightarrow> bool"
  te_hmac :: "string \<Rightarrow> string \<Rightarrow> string option"

definition NONCE_LEN :: nat where
  "NONCE_LEN = 12"

text \<open>A cipher is its key.\<close>

definition cipher_from_app_key :: "tf_env \<Rightarrow> string \<Rightarrow> AuthError + bytes" where
  "cipher_from_app_key env app_key =
     (let trimmed = trim app_key in
      if trimmed = [] then Inl (TwoFactorError ''app.key is not configured'') else Inr (te_sha256 env trimmed))"

definition seal :: "tf_env \<Rightarrow> bytes \<Rightarrow> bytes \<Rightarrow> string \<Rightarrow> AuthError + string" where
  "seal env key nonce plaintext =
     (case te_aead_encrypt env key nonce plaintext of
        None \<Rightarrow> Inl (TwoFactorError ''secret encryption failed'')
      | Some ciphertext \<Rightarrow> Inr (te_hex_encode env (nonce @ ciphertext)))"

definition unseal :: "tf_env \<Rightarrow> bytes \<Rightarrow> string \<Rightarrow> AuthError + string" where
  "unseal env key envelope =
     (case te_hex_decode env envelope of
        None \<Rightarrow> Inl (TwoFactorError ''malformed secret envelope'')
      | Some b \<Rightarrow>
          if length b \<le> NONCE_LEN then Inl (TwoFactorError ''malformed secret envelope'')
          else
            (case te_aead_decrypt env key (take NONCE_LEN b) (drop NONCE_LEN b) of
               None \<Rightarrow> Inl (TwoFactorError ''secret decryption failed'')
             | Some plaintext \<Rightarrow>
                 if from_utf8 plaintext then Inr plaintext
                 else Inl (TwoFactorError ''secret is not valid UTF-8'')))"

section \<open>Stores\<close>

record TwoFactorRecord =
  tr_user_id :: string
  tr_secret :: "string option"
  tr_recovery_codes :: "string list"
  tr_confirmed_at :: "string option"

definition is_confirmed_record :: "TwoFactorRecord \<Rightarrow> bool" where
  "is_confirmed_record r \<longleftrightarrow> tr_confirmed_at r \<noteq> None"

record 's tf_ops =
  tf_get :: "string \<Rightarrow> 's \<Rightarrow> AuthError + TwoFactorRecord option"
  tf_put :: "TwoFactorRecord \<Rightarrow> 's \<Rightarrow> (AuthError + unit) \<times> 's"
  tf_delete :: "string \<Rightarrow> 's \<Rightarrow> (AuthError + unit) \<times> 's"

definition memory_tf_ops :: "(string \<rightharpoonup> TwoFactorRecord) tf_ops" where
  "memory_tf_ops = \<lparr>tf_get = (\<lambda>u m. Inr (m u)), tf_put = (\<lambda>r m. (Inr (), m(tr_user_id r \<mapsto> r))),
     tf_delete = (\<lambda>u m. (Inr (), m(u := None)))\<rparr>"

definition DENY_REASON :: string where
  "DENY_REASON = ''no two-factor store is wired; denying access''"

definition deny_all_tf_ops :: "'s tf_ops" where
  "deny_all_tf_ops = \<lparr>tf_get = (\<lambda>_ _. Inl (Disabled DENY_REASON)),
     tf_put = (\<lambda>_ s. (Inl (Disabled DENY_REASON), s)), tf_delete = (\<lambda>_ s. (Inl (Disabled DENY_REASON), s))\<rparr>"

section \<open>Recovery codes\<close>

definition RECOVERY_CODE_COUNT :: nat where
  "RECOVERY_CODE_COUNT = 10"

definition RECOVERY_GROUP_LEN :: nat where
  "RECOVERY_GROUP_LEN = 5"

text \<open>Ten random bytes give one code.\<close>

definition random_recovery_code :: "nat list \<Rightarrow> string" where
  "random_recovery_code bs =
     map (\<lambda>b. char_of (97 + b mod 26)) (take RECOVERY_GROUP_LEN bs)
     @ CHR ''-'' # map (\<lambda>b. char_of (48 + b mod 10)) (take RECOVERY_GROUP_LEN (drop RECOVERY_GROUP_LEN bs))"

fun draw_codes :: "nat list list \<Rightarrow> string list \<Rightarrow> string list option" where
  "draw_codes draws codes =
     (if RECOVERY_CODE_COUNT \<le> length codes then Some codes
      else
        (case draws of
           [] \<Rightarrow> None
         | d # ds \<Rightarrow>
             (let code = random_recovery_code d in
              draw_codes ds (if code \<in> set codes then codes else codes @ [code]))))"

declare draw_codes.simps [simp del]

definition generate_recovery_codes :: "nat list list \<Rightarrow> string list option" where
  "generate_recovery_codes draws = draw_codes draws []"

text \<open>One salt for every code.\<close>

fun hash_recovery_codes :: "tf_env \<Rightarrow> string list \<Rightarrow> string list \<Rightarrow> AuthError + string list" where
  "hash_recovery_codes env salts [] = Inr []"
| "hash_recovery_codes env salts (c # cs) =
     (case te_hash env (hd salts) c of
        Inl e \<Rightarrow> Inl e
      | Inr h \<Rightarrow> (case hash_recovery_codes env (tl salts) cs of Inl e \<Rightarrow> Inl e | Inr hs \<Rightarrow> Inr (h # hs)))"

section \<open>The service\<close>

record tf_service =
  ts_key :: bytes
  ts_issuer :: string
  ts_window :: nat

record TwoFactorEnrollment =
  en_secret :: string
  en_uri :: string
  en_codes :: "string list"

record tf_random =
  rn_secret :: bytes
  rn_nonce :: bytes
  rn_draws :: "nat list list"
  rn_salts :: "string list"

definition is_confirmed :: "'s tf_ops \<Rightarrow> string \<Rightarrow> 's \<Rightarrow> AuthError + bool" where
  "is_confirmed ops u s =
     (case tf_get ops u s of
        Inl e \<Rightarrow> Inl e
      | Inr None \<Rightarrow> Inr False
      | Inr (Some r) \<Rightarrow> Inr (is_confirmed_record r))"

text \<open>The result is \<open>None\<close> while the codes are still being drawn.\<close>

definition enable ::
  "tf_env \<Rightarrow> tf_service \<Rightarrow> 's tf_ops \<Rightarrow> tf_random \<Rightarrow> string \<Rightarrow> string \<Rightarrow> 's
    \<Rightarrow> ((AuthError + TwoFactorEnrollment) \<times> 's) option" where
  "enable env svc ops rnd u account s =
     (let secret = generate_secret (rn_secret rnd);
          uri = otpauth_uri (ts_issuer svc) account secret
      in case generate_recovery_codes (rn_draws rnd) of
           None \<Rightarrow> None
         | Some codes \<Rightarrow> Some
             (case seal env (ts_key svc) (rn_nonce rnd) secret of
                Inl e \<Rightarrow> (Inl e, s)
              | Inr sealed \<Rightarrow>
                  (case hash_recovery_codes env (rn_salts rnd) codes of
                     Inl e \<Rightarrow> (Inl e, s)
                   | Inr hashes \<Rightarrow>
                       (case tf_put ops \<lparr>tr_user_id = u, tr_secret = Some sealed, tr_recovery_codes = hashes,
                              tr_confirmed_at = None\<rparr> s of
                          (Inl e, s') \<Rightarrow> (Inl e, s')
                        | (Inr _, s') \<Rightarrow> (Inr \<lparr>en_secret = secret, en_uri = uri, en_codes = codes\<rparr>, s')))))"

definition confirm ::
  "tf_env \<Rightarrow> tf_service \<Rightarrow> 's tf_ops \<Rightarrow> nat \<Rightarrow> string \<Rightarrow> string \<Rightarrow> string \<Rightarrow> 's \<Rightarrow> (AuthError + unit) \<times> 's" where
  "confirm env svc ops now stamp u code s =
     (case tf_get ops u s of
        Inl e \<Rightarrow> (Inl e, s)
      | Inr None \<Rightarrow> (Inl InvalidTwoFactorCode, s)
      | Inr (Some r) \<Rightarrow>
          (case tr_secret r of
             None \<Rightarrow> (Inl InvalidTwoFactorCode, s)
           | Some sealed \<Rightarrow>
               (case unseal env (ts_key svc) sealed of
                  Inl e \<Rightarrow> (Inl e, s)
                | Inr secret \<Rightarrow>
                    if \<not> verify_code (te_hmac env) secret code (ts_window svc) now then (Inl InvalidTwoFactorCode, s)
                    else tf_put ops (r\<lparr>tr_confirmed_at := Some stamp\<rparr>) s)))"

definition disable :: "'s tf_ops \<Rightarrow> string \<Rightarrow> 's \<Rightarrow> (AuthError + unit) \<times> 's" where
  "disable ops u s = tf_delete ops u s"

definition verify_challenge ::
  "tf_env \<Rightarrow> tf_service \<Rightarrow> 's tf_ops \<Rightarrow> nat \<Rightarrow> string \<Rightarrow> string \<Rightarrow> 's \<Rightarrow> AuthError + unit" where
  "verify_challenge env svc ops now u code s =
     (case tf_get ops u s of
        Inl e \<Rightarrow> Inl e
      | Inr None \<Rightarrow> Inl InvalidTwoFactorCode
      | Inr (Some r) \<Rightarrow>
          if \<not> is_confirmed_record r then Inl InvalidTwoFactorCode
          else
            (case tr_secret r of
               None \<Rightarrow> Inl InvalidTwoFactorCode
             | Some sealed \<Rightarrow>
                 (case unseal env (ts_key svc) sealed of
                    Inl e \<Rightarrow> Inl e
                  | Inr secret \<Rightarrow>
                      if verify_code (te_hmac env) secret code (ts_window svc) now then Inr ()
                      else Inl InvalidTwoFactorCode)))"

text \<open>\<^verbatim>\<open>Vec::remove\<close> at an index in range.\<close>

definition remove_at :: "nat \<Rightarrow> 'a list \<Rightarrow> 'a list" where
  "remove_at i xs = take i xs @ drop (Suc i) xs"

text \<open>What is written back for the record that was read.\<close>

definition consume_decide :: "tf_env \<Rightarrow> string \<Rightarrow> TwoFactorRecord option \<Rightarrow> AuthError + TwoFactorRecord" where
  "consume_decide env code found =
     (case found of
        None \<Rightarrow> Inl InvalidTwoFactorCode
      | Some r \<Rightarrow>
          (case position_of (\<lambda>h. te_verify env h code) (tr_recovery_codes r) of
             Some i \<Rightarrow> Inr (r\<lparr>tr_recovery_codes := remove_at i (tr_recovery_codes r)\<rparr>)
           | None \<Rightarrow> Inl InvalidTwoFactorCode))"

definition consume_recovery_code ::
  "tf_env \<Rightarrow> 's tf_ops \<Rightarrow> string \<Rightarrow> string \<Rightarrow> 's \<Rightarrow> (AuthError + unit) \<times> 's" where
  "consume_recovery_code env ops u code s =
     (case tf_get ops u s of
        Inl e \<Rightarrow> (Inl e, s)
      | Inr found \<Rightarrow>
          (case consume_decide env code found of
             Inl e \<Rightarrow> (Inl e, s)
           | Inr r \<Rightarrow> tf_put ops r s))"

definition regenerate_recovery_codes ::
  "tf_env \<Rightarrow> 's tf_ops \<Rightarrow> tf_random \<Rightarrow> string \<Rightarrow> 's \<Rightarrow> ((AuthError + string list) \<times> 's) option" where
  "regenerate_recovery_codes env ops rnd u s =
     (case tf_get ops u s of
        Inl e \<Rightarrow> Some (Inl e, s)
      | Inr None \<Rightarrow> Some (Inl TwoFactorRequired, s)
      | Inr (Some r) \<Rightarrow>
          if tr_secret r = None then Some (Inl TwoFactorRequired, s)
          else
            (case generate_recovery_codes (rn_draws rnd) of
               None \<Rightarrow> None
             | Some codes \<Rightarrow> Some
                 (case hash_recovery_codes env (rn_salts rnd) codes of
                    Inl e \<Rightarrow> (Inl e, s)
                  | Inr hashes \<Rightarrow>
                      (case tf_put ops (r\<lparr>tr_recovery_codes := hashes\<rparr>) s of
                         (Inl e, s') \<Rightarrow> (Inl e, s')
                       | (Inr _, s') \<Rightarrow> (Inr codes, s')))))"

end
