(* ===== verification/Two_Factor_Props.thy ===== *)
theory Two_Factor_Props
  imports Two_Factor
begin

text \<open>
  Two-factor authentication as a state machine: every user has no factor, a pending or a confirmed one.
  The service over any store that keeps its records (locale \<open>two_factor_store\<close>, interpreted by the
  store in memory) refines it; recovery codes are used once when requests do not overlap, and twice when
  they do.
\<close>

section \<open>What the service promises\<close>

text \<open>A user has no second factor, one that waits for its confirmation, or a confirmed one; with it the
  secret and the recovery codes that are left.\<close>

datatype tf_state = Absent | Pending string "string list" | Confirmed string "string list"

datatype tf_call =
    Enable string string tf_random
  | Confirm string string nat string
  | Disable string
  | Challenge string string nat
  | Consume string string
  | Regenerate string tf_random
  | IsConfirmed string

datatype tf_outcome =
    Enrolled TwoFactorEnrollment
  | NewCodes "string list"
  | Done
  | Status bool
  | Failed AuthError
  | Drawing

definition unit_outcome :: "AuthError + unit \<Rightarrow> tf_outcome" where
  "unit_outcome r = (case r of Inl e \<Rightarrow> Failed e | Inr _ \<Rightarrow> Done)"

fun run_tf :: "tf_env \<Rightarrow> tf_service \<Rightarrow> 's tf_ops \<Rightarrow> tf_call \<Rightarrow> 's \<Rightarrow> tf_outcome \<times> 's" where
  "run_tf env svc ops (Enable u account rnd) s =
     (case enable env svc ops rnd u account s of
        None \<Rightarrow> (Drawing, s)
      | Some (Inl e, s') \<Rightarrow> (Failed e, s')
      | Some (Inr en, s') \<Rightarrow> (Enrolled en, s'))"
| "run_tf env svc ops (Confirm u code now stamp) s = apfst unit_outcome (confirm env svc ops now stamp u code s)"
| "run_tf env svc ops (Disable u) s = apfst unit_outcome (disable ops u s)"
| "run_tf env svc ops (Challenge u code now) s = (unit_outcome (verify_challenge env svc ops now u code s), s)"
| "run_tf env svc ops (Consume u code) s = apfst unit_outcome (consume_recovery_code env ops u code s)"
| "run_tf env svc ops (Regenerate u rnd) s =
     (case regenerate_recovery_codes env ops rnd u s of
        None \<Rightarrow> (Drawing, s)
      | Some (Inl e, s') \<Rightarrow> (Failed e, s')
      | Some (Inr cs, s') \<Rightarrow> (NewCodes cs, s'))"
| "run_tf env svc ops (IsConfirmed u) s = (case is_confirmed ops u s of Inl e \<Rightarrow> (Failed e, s) | Inr b \<Rightarrow> (Status b, s))"

text \<open>The abstract machine; nothing but the call of a user changes the state of that user.\<close>

definition spec_check :: "tf_env \<Rightarrow> tf_service \<Rightarrow> string \<Rightarrow> string \<Rightarrow> nat \<Rightarrow> bool" where
  "spec_check env svc secret code now = verify_code (te_hmac env) secret code (ts_window svc) now"

fun spec_user :: "tf_env \<Rightarrow> tf_service \<Rightarrow> tf_call \<Rightarrow> tf_state \<Rightarrow> tf_outcome \<times> tf_state" where
  "spec_user env svc (Enable u account rnd) st =
     (let secret = generate_secret (rn_secret rnd) in
      case generate_recovery_codes (rn_draws rnd) of
        None \<Rightarrow> (Drawing, st)
      | Some codes \<Rightarrow> (Enrolled \<lparr>en_secret = secret, en_uri = otpauth_uri (ts_issuer svc) account secret, en_codes = codes\<rparr>,
          Pending secret codes))"
| "spec_user env svc (Confirm u code now stamp) st =
     (case st of
        Absent \<Rightarrow> (Failed InvalidTwoFactorCode, st)
      | Pending secret codes \<Rightarrow>
          if spec_check env svc secret code now then (Done, Confirmed secret codes) else (Failed InvalidTwoFactorCode, st)
      | Confirmed secret codes \<Rightarrow>
          if spec_check env svc secret code now then (Done, st) else (Failed InvalidTwoFactorCode, st))"
| "spec_user env svc (Disable u) st = (Done, Absent)"
| "spec_user env svc (Challenge u code now) st =
     (case st of
        Confirmed secret codes \<Rightarrow>
          (if spec_check env svc secret code now then Done else Failed InvalidTwoFactorCode, st)
      | _ \<Rightarrow> (Failed InvalidTwoFactorCode, st))"
| "spec_user env svc (Consume u code) st =
     (case st of
        Absent \<Rightarrow> (Failed InvalidTwoFactorCode, st)
      | Pending secret codes \<Rightarrow>
          if code \<in> set codes then (Done, Pending secret (remove1 code codes)) else (Failed InvalidTwoFactorCode, st)
      | Confirmed secret codes \<Rightarrow>
          if code \<in> set codes then (Done, Confirmed secret (remove1 code codes)) else (Failed InvalidTwoFactorCode, st))"
| "spec_user env svc (Regenerate u rnd) st =
     (case st of
        Absent \<Rightarrow> (Failed TwoFactorRequired, st)
      | Pending secret _ \<Rightarrow>
          (case generate_recovery_codes (rn_draws rnd) of None \<Rightarrow> (Drawing, st) | Some codes \<Rightarrow> (NewCodes codes, Pending secret codes))
      | Confirmed secret _ \<Rightarrow>
          (case generate_recovery_codes (rn_draws rnd) of None \<Rightarrow> (Drawing, st) | Some codes \<Rightarrow> (NewCodes codes, Confirmed secret codes)))"
| "spec_user env svc (IsConfirmed u) st = (Status (case st of Confirmed _ _ \<Rightarrow> True | _ \<Rightarrow> False), st)"

fun call_user :: "tf_call \<Rightarrow> string" where
  "call_user (Enable u _ _) = u"
| "call_user (Confirm u _ _ _) = u"
| "call_user (Disable u) = u"
| "call_user (Challenge u _ _) = u"
| "call_user (Consume u _) = u"
| "call_user (Regenerate u _) = u"
| "call_user (IsConfirmed u) = u"

definition spec_tf :: "tf_env \<Rightarrow> tf_service \<Rightarrow> tf_call \<Rightarrow> (string \<Rightarrow> tf_state) \<Rightarrow> tf_outcome \<times> (string \<Rightarrow> tf_state)" where
  "spec_tf env svc call A =
     (case spec_user env svc call (A (call_user call)) of (out, st) \<Rightarrow> (out, A(call_user call := st)))"

text \<open>What the service relies on: the cipher opens what it sealed with the same key and nonce, its output
  carries a tag, the codec decodes what it encoded, and a hash is matched by its own code only.\<close>

definition tf_env_ok :: "tf_env \<Rightarrow> bool" where
  "tf_env_ok env \<longleftrightarrow>
     (\<forall>key nonce pt. \<exists>ct. te_aead_encrypt env key nonce pt = Some ct \<and> ct \<noteq> [] \<and> te_aead_decrypt env key nonce ct = Some pt)
     \<and> (\<forall>b. te_hex_decode env (te_hex_encode env b) = Some b)
     \<and> (\<forall>salt c. \<exists>h. te_hash env salt c = Inr h \<and> (\<forall>c'. te_verify env h c' \<longleftrightarrow> c' = c))"

fun call_ok :: "tf_call \<Rightarrow> bool" where
  "call_ok (Enable u account rnd) \<longleftrightarrow> length (rn_nonce rnd) = NONCE_LEN"
| "call_ok _ \<longleftrightarrow> True"

section \<open>Refinement\<close>

lemma unseal_seal:
  assumes "tf_env_ok env" "length nonce = NONCE_LEN" "from_utf8 pt"
  obtains sealed where "seal env key nonce pt = Inr sealed" "unseal env key sealed = Inr pt"
proof -
  obtain ct where ct: "te_aead_encrypt env key nonce pt = Some ct" "ct \<noteq> []" "te_aead_decrypt env key nonce ct = Some pt"
    using assms(1) unfolding tf_env_ok_def by blast
  have "te_hex_decode env (te_hex_encode env (nonce @ ct)) = Some (nonce @ ct)"
    using assms(1) by (simp add: tf_env_ok_def)
  with ct assms(2,3) show thesis
    by (intro that [of "te_hex_encode env (nonce @ ct)"]) (simp_all add: seal_def unseal_def)
qed

definition hashes_of :: "tf_env \<Rightarrow> string list \<Rightarrow> string list \<Rightarrow> bool" where
  "hashes_of env hs cs \<longleftrightarrow> list_all2 (\<lambda>h c. \<forall>c'. te_verify env h c' \<longleftrightarrow> c' = c) hs cs"

lemma hash_codes:
  assumes "tf_env_ok env"
  obtains hs where "hash_recovery_codes env salts cs = Inr hs" "hashes_of env hs cs"
proof -
  have "\<exists>hs. hash_recovery_codes env salts cs = Inr hs \<and> hashes_of env hs cs"
  proof (induction cs arbitrary: salts)
    case (Cons c cs)
    obtain h where "te_hash env (hd salts) c = Inr h" "\<forall>c'. te_verify env h c' \<longleftrightarrow> c' = c"
      using assms unfolding tf_env_ok_def by blast
    moreover obtain hs where "hash_recovery_codes env (tl salts) cs = Inr hs" "hashes_of env hs cs"
      using Cons by blast
    ultimately show ?case by (simp add: hashes_of_def)
  qed (simp add: hashes_of_def)
  with that show thesis by blast
qed

lemma hashes_position:
  "hashes_of env hs cs \<Longrightarrow> position_of (\<lambda>h. te_verify env h code) hs = position_of (\<lambda>c. c = code) cs"
  unfolding hashes_of_def by (induction rule: list_all2_induct) auto

lemma position_remove: "position_of (\<lambda>c. c = x) cs = Some i \<Longrightarrow> remove_at i cs = remove1 x cs"
  by (induction cs arbitrary: i) (auto simp: remove_at_def split: if_splits)

lemma hashes_remove: "hashes_of env hs cs \<Longrightarrow> hashes_of env (remove_at i hs) (remove_at i cs)"
  unfolding hashes_of_def remove_at_def by (intro list_all2_appendI list_all2_takeI list_all2_dropI)

lemma consume_codes:
  assumes "hashes_of env (tr_recovery_codes r) cs"
  shows "if code \<in> set cs
    then \<exists>hs. consume_decide env code (Some r) = Inr (r\<lparr>tr_recovery_codes := hs\<rparr>) \<and> hashes_of env hs (remove1 code cs)
    else consume_decide env code (Some r) = Inl InvalidTwoFactorCode"
proof (cases "position_of (\<lambda>c. c = code) cs")
  case None
  then have "code \<notin> set cs" by (auto simp: position_of_None)
  with None show ?thesis by (simp add: consume_decide_def hashes_position [OF assms])
next
  case (Some i)
  have "code \<in> set cs" using position_of_Some [OF Some] nth_mem by blast
  with Some hashes_remove [OF assms, of i] show ?thesis
    by (auto simp: consume_decide_def hashes_position [OF assms] position_remove
        intro!: exI [of _ "remove_at i (tr_recovery_codes r)"])
qed

lemma draw_codes_distinct: "draw_codes ds cs = Some cs' \<Longrightarrow> distinct cs \<Longrightarrow> distinct cs'"
proof (induction ds arbitrary: cs)
  case Nil
  then show ?case by (simp add: draw_codes.simps [of "[]"] split: if_splits)
next
  case (Cons d ds)
  then show ?case by (auto simp: draw_codes.simps [of "d # ds"] Let_def split: if_splits)
qed

lemma generated_distinct: "generate_recovery_codes ds = Some cs \<Longrightarrow> distinct cs"
  using draw_codes_distinct [of ds "[]" cs] by (simp add: generate_recovery_codes_def)

text \<open>The record of a user and the state it stands for.\<close>

definition stands_for :: "tf_env \<Rightarrow> tf_service \<Rightarrow> string \<Rightarrow> TwoFactorRecord option \<Rightarrow> tf_state \<Rightarrow> bool" where
  "stands_for env svc u found st \<longleftrightarrow>
     (case found of
        None \<Rightarrow> st = Absent
      | Some r \<Rightarrow> \<exists>sealed secret codes. tr_user_id r = u \<and> tr_secret r = Some sealed
          \<and> unseal env (ts_key svc) sealed = Inr secret \<and> hashes_of env (tr_recovery_codes r) codes \<and> distinct codes
          \<and> st = (if tr_confirmed_at r = None then Pending secret codes else Confirmed secret codes))"

lemma stands_for_None [simp]: "stands_for env svc u None st \<longleftrightarrow> st = Absent"
  by (simp add: stands_for_def)

lemma stands_for_SomeE:
  assumes "stands_for env svc u (Some r) st"
  obtains sealed secret codes where "tr_user_id r = u" "tr_secret r = Some sealed"
    "unseal env (ts_key svc) sealed = Inr secret" "hashes_of env (tr_recovery_codes r) codes" "distinct codes"
    "st = (if tr_confirmed_at r = None then Pending secret codes else Confirmed secret codes)"
  using assms by (auto simp: stands_for_def)

text \<open>One call on the store does what the abstract machine does, and touches no other user.\<close>

definition tf_simulates ::
  "tf_env \<Rightarrow> tf_service \<Rightarrow> 's tf_ops \<Rightarrow> ('s \<Rightarrow> string \<Rightarrow> TwoFactorRecord option) \<Rightarrow> tf_call \<Rightarrow> 's \<Rightarrow> tf_state \<Rightarrow> bool" where
  "tf_simulates env svc ops records call s st \<longleftrightarrow>
     (\<exists>s' found. run_tf env svc ops call s = (fst (spec_user env svc call st), s')
       \<and> records s' = (records s)(call_user call := found)
       \<and> stands_for env svc (call_user call) found (snd (spec_user env svc call st)))"

lemma tf_simulatesI:
  "run_tf env svc ops call s = (out, s') \<Longrightarrow> records s' = (records s)(call_user call := found) \<Longrightarrow>
    out = fst (spec_user env svc call st) \<Longrightarrow> stands_for env svc (call_user call) found (snd (spec_user env svc call st)) \<Longrightarrow>
    tf_simulates env svc ops records call s st"
  by (auto simp: tf_simulates_def)

text \<open>The interface of a store that is available: the records it keeps, by user.\<close>

locale two_factor_store =
  fixes ops :: "'s tf_ops" and records :: "'s \<Rightarrow> string \<Rightarrow> TwoFactorRecord option"
  assumes get_law: "tf_get ops u s = Inr (records s u)"
    and put_law: "\<exists>s'. tf_put ops r s = (Inr (), s') \<and> records s' = (records s)(tr_user_id r \<mapsto> r)"
    and delete_law: "\<exists>s'. tf_delete ops u s = (Inr (), s') \<and> records s' = (records s)(u := None)"
begin

lemma put_obtain:
  obtains s' where "tf_put ops r s = (Inr (), s')" "records s' = (records s)(tr_user_id r \<mapsto> r)"
  using put_law by blast

lemma enable_simulates:
  assumes "tf_env_ok env" "length (rn_nonce rnd) = NONCE_LEN" "stands_for env svc u (records s u) st"
  shows "tf_simulates env svc ops records (Enable u account rnd) s st"
proof (cases "generate_recovery_codes (rn_draws rnd)")
  case None
  with assms(3) show ?thesis
    by (intro tf_simulatesI [of _ _ _ _ _ Drawing s _ "records s u"]) (auto simp: enable_def Let_def)
next
  case (Some codes)
  let ?secret = "generate_secret (rn_secret rnd)"
  have "from_utf8 ?secret"
    using base32_encode_ascii by (auto intro!: ascii_utf8 simp: generate_secret_def)
  then obtain sealed where sealed: "seal env (ts_key svc) (rn_nonce rnd) ?secret = Inr sealed"
    "unseal env (ts_key svc) sealed = Inr ?secret"
    using assms(1,2) by (auto intro: unseal_seal [of env "rn_nonce rnd" ?secret "ts_key svc"])
  obtain hs where hs: "hash_recovery_codes env (rn_salts rnd) codes = Inr hs" "hashes_of env hs codes"
    using assms(1) by (rule hash_codes)
  let ?r = "\<lparr>tr_user_id = u, tr_secret = Some sealed, tr_recovery_codes = hs, tr_confirmed_at = None\<rparr>"
  obtain s' where "tf_put ops ?r s = (Inr (), s')" "records s' = (records s)(u \<mapsto> ?r)"
    using put_obtain [of ?r s] by auto
  with Some sealed hs generated_distinct [OF Some] show ?thesis
    by (intro tf_simulatesI [where s' = s' and found = "Some ?r"]) (auto simp: enable_def Let_def stands_for_def)
qed

lemma confirm_simulates:
  assumes "stands_for env svc u (records s u) st"
  shows "tf_simulates env svc ops records (Confirm u code now stamp) s st"
proof (cases "records s u")
  case None
  with assms show ?thesis
    by (intro tf_simulatesI [where s' = s and found = None]) (auto simp: confirm_def get_law unit_outcome_def)
next
  case (Some r)
  with assms have "stands_for env svc u (Some r) st" by simp
  then obtain sealed secret codes where r: "tr_user_id r = u" "tr_secret r = Some sealed"
    "unseal env (ts_key svc) sealed = Inr secret" "hashes_of env (tr_recovery_codes r) codes" "distinct codes"
    "st = (if tr_confirmed_at r = None then Pending secret codes else Confirmed secret codes)"
    by (rule stands_for_SomeE)
  let ?r = "r\<lparr>tr_confirmed_at := Some stamp\<rparr>"
  obtain s' where s': "tf_put ops ?r s = (Inr (), s')" "records s' = (records s)(u \<mapsto> ?r)"
    using put_obtain [of ?r s] r(1) by auto
  show ?thesis
  proof (cases "spec_check env svc secret code now")
    case True
    with Some r s' show ?thesis
      by (intro tf_simulatesI [where s' = s' and found = "Some ?r"])
        (auto simp: confirm_def get_law unit_outcome_def spec_check_def stands_for_def)
  next
    case False
    with Some r assms show ?thesis
      by (intro tf_simulatesI [where s' = s and found = "Some r"])
        (auto simp: confirm_def get_law unit_outcome_def spec_check_def)
  qed
qed

lemma disable_simulates: "tf_simulates env svc ops records (Disable u) s st"
proof -
  obtain s' where "tf_delete ops u s = (Inr (), s')" "records s' = (records s)(u := None)"
    using delete_law by blast
  then show ?thesis
    by (intro tf_simulatesI [where s' = s' and found = None]) (simp_all add: disable_def unit_outcome_def)
qed

text \<open>Calls that only read.\<close>

lemma challenge_simulates:
  assumes "stands_for env svc u (records s u) st"
  shows "tf_simulates env svc ops records (Challenge u code now) s st"
proof (rule tf_simulatesI)
  show "run_tf env svc ops (Challenge u code now) s = (fst (spec_user env svc (Challenge u code now) st), s)"
    using assms
    by (auto simp: verify_challenge_def get_law stands_for_def unit_outcome_def spec_check_def is_confirmed_record_def
        split: option.splits)
  have "snd (spec_user env svc (Challenge u code now) st) = st" by (cases st) simp_all
  with assms show "stands_for env svc (call_user (Challenge u code now)) (records s u) (snd (spec_user env svc (Challenge u code now) st))"
    by simp
qed simp_all

lemma is_confirmed_simulates:
  assumes "stands_for env svc u (records s u) st"
  shows "tf_simulates env svc ops records (IsConfirmed u) s st"
proof (rule tf_simulatesI)
  show "run_tf env svc ops (IsConfirmed u) s = (fst (spec_user env svc (IsConfirmed u) st), s)"
    using assms
    by (cases "records s u") (auto simp: is_confirmed_def get_law is_confirmed_record_def elim!: stands_for_SomeE split: if_splits)
  show "stands_for env svc (call_user (IsConfirmed u)) (records s u) (snd (spec_user env svc (IsConfirmed u) st))"
    using assms by simp
qed simp_all

lemma consume_simulates:
  assumes "stands_for env svc u (records s u) st"
  shows "tf_simulates env svc ops records (Consume u code) s st"
proof (cases "records s u")
  case None
  with assms show ?thesis
    by (intro tf_simulatesI [where s' = s and found = None])
      (auto simp: consume_recovery_code_def consume_decide_def get_law unit_outcome_def)
next
  case (Some r)
  with assms have "stands_for env svc u (Some r) st" by simp
  then obtain sealed secret codes where r: "tr_user_id r = u" "tr_secret r = Some sealed"
    "unseal env (ts_key svc) sealed = Inr secret" "hashes_of env (tr_recovery_codes r) codes" "distinct codes"
    "st = (if tr_confirmed_at r = None then Pending secret codes else Confirmed secret codes)"
    by (rule stands_for_SomeE)
  note consume = consume_codes [OF r(4), of code]
  show ?thesis
  proof (cases "code \<in> set codes")
    case True
    with consume obtain hs where hs: "consume_decide env code (Some r) = Inr (r\<lparr>tr_recovery_codes := hs\<rparr>)"
      "hashes_of env hs (remove1 code codes)" by auto
    obtain s' where "tf_put ops (r\<lparr>tr_recovery_codes := hs\<rparr>) s = (Inr (), s')"
      "records s' = (records s)(u \<mapsto> r\<lparr>tr_recovery_codes := hs\<rparr>)"
      using put_obtain [of "r\<lparr>tr_recovery_codes := hs\<rparr>" s] r(1) by auto
    with Some r hs True show ?thesis
      by (intro tf_simulatesI [where s' = s' and found = "Some (r\<lparr>tr_recovery_codes := hs\<rparr>)"])
        (auto simp: consume_recovery_code_def get_law unit_outcome_def stands_for_def)
  next
    case False
    with Some r consume assms show ?thesis
      by (intro tf_simulatesI [where s' = s and found = "Some r"])
        (auto simp: consume_recovery_code_def get_law unit_outcome_def)
  qed
qed

lemma regenerate_simulates:
  assumes "tf_env_ok env" "stands_for env svc u (records s u) st"
  shows "tf_simulates env svc ops records (Regenerate u rnd) s st"
proof (cases "records s u")
  case None
  with assms(2) show ?thesis
    by (intro tf_simulatesI [where s' = s and found = None]) (auto simp: regenerate_recovery_codes_def get_law)
next
  case (Some r)
  with assms(2) have "stands_for env svc u (Some r) st" by simp
  then obtain sealed secret codes where r: "tr_user_id r = u" "tr_secret r = Some sealed"
    "unseal env (ts_key svc) sealed = Inr secret" "hashes_of env (tr_recovery_codes r) codes" "distinct codes"
    "st = (if tr_confirmed_at r = None then Pending secret codes else Confirmed secret codes)"
    by (rule stands_for_SomeE)
  show ?thesis
  proof (cases "generate_recovery_codes (rn_draws rnd)")
    case None
    with Some r assms(2) show ?thesis
      by (intro tf_simulatesI [where s' = s and found = "Some r"]) (auto simp: regenerate_recovery_codes_def get_law)
  next
    case drawn: (Some cs)
    obtain hs where hs: "hash_recovery_codes env (rn_salts rnd) cs = Inr hs" "hashes_of env hs cs"
      using assms(1) by (rule hash_codes)
    obtain s' where "tf_put ops (r\<lparr>tr_recovery_codes := hs\<rparr>) s = (Inr (), s')"
      "records s' = (records s)(u \<mapsto> r\<lparr>tr_recovery_codes := hs\<rparr>)"
      using put_obtain [of "r\<lparr>tr_recovery_codes := hs\<rparr>" s] r(1) by auto
    with Some r hs drawn generated_distinct [OF drawn] show ?thesis
      by (intro tf_simulatesI [where s' = s' and found = "Some (r\<lparr>tr_recovery_codes := hs\<rparr>)"])
        (auto simp: regenerate_recovery_codes_def get_law stands_for_def)
  qed
qed

lemma call_simulates:
  assumes "tf_env_ok env" "call_ok call" "stands_for env svc (call_user call) (records s (call_user call)) st"
  shows "tf_simulates env svc ops records call s st"
  using assms
  by (cases call) (simp_all add: enable_simulates confirm_simulates disable_simulates challenge_simulates
      is_confirmed_simulates consume_simulates regenerate_simulates)

lemma call_refines:
  assumes "tf_env_ok env" "call_ok call" "\<And>u. stands_for env svc u (records s u) (A u)"
  obtains s' where "run_tf env svc ops call s = (fst (spec_tf env svc call A), s')"
    "\<And>u. stands_for env svc u (records s' u) (snd (spec_tf env svc call A) u)"
proof -
  obtain s' found where "run_tf env svc ops call s = (fst (spec_user env svc call (A (call_user call))), s')"
    "records s' = (records s)(call_user call := found)"
    "stands_for env svc (call_user call) found (snd (spec_user env svc call (A (call_user call))))"
    using call_simulates [OF assms(1,2) assms(3)] unfolding tf_simulates_def by blast
  with assms(3) show thesis by (intro that [of s']) (auto simp: spec_tf_def split: prod.splits)
qed

end

interpretation mem_tf: two_factor_store memory_tf_ops "\<lambda>m. m"
  by unfold_locales (simp_all add: memory_tf_ops_def)

text \<open>The store that is not wired refuses every call and changes nothing.\<close>

lemma deny_all_denies:
  "call_ok call \<Longrightarrow> tf_env_ok env \<Longrightarrow> (\<exists>e. run_tf env svc deny_all_tf_ops call s = (Failed e, s)) \<or> fst (run_tf env svc deny_all_tf_ops call s) = Drawing"
  by (cases call)
    (auto simp: deny_all_tf_ops_def enable_def confirm_def disable_def verify_challenge_def consume_recovery_code_def
      regenerate_recovery_codes_def is_confirmed_def unit_outcome_def Let_def split: option.splits sum.splits)

fun run_all :: "tf_env \<Rightarrow> tf_service \<Rightarrow> 's tf_ops \<Rightarrow> tf_call list \<Rightarrow> 's \<Rightarrow> tf_outcome list \<times> 's" where
  "run_all env svc ops [] s = ([], s)"
| "run_all env svc ops (c # cs) s =
     (case run_tf env svc ops c s of (out, s1) \<Rightarrow> (case run_all env svc ops cs s1 of (outs, s2) \<Rightarrow> (out # outs, s2)))"

fun spec_all :: "tf_env \<Rightarrow> tf_service \<Rightarrow> tf_call list \<Rightarrow> (string \<Rightarrow> tf_state) \<Rightarrow> tf_outcome list \<times> (string \<Rightarrow> tf_state)" where
  "spec_all env svc [] A = ([], A)"
| "spec_all env svc (c # cs) A =
     (case spec_tf env svc c A of (out, A1) \<Rightarrow> (case spec_all env svc cs A1 of (outs, A2) \<Rightarrow> (out # outs, A2)))"

lemma run_all_refines:
  assumes "tf_env_ok env" "list_all call_ok calls" "\<And>u. stands_for env svc u (m u) (A u)"
  shows "fst (run_all env svc memory_tf_ops calls m) = fst (spec_all env svc calls A)
    \<and> (\<forall>u. stands_for env svc u (snd (run_all env svc memory_tf_ops calls m) u) (snd (spec_all env svc calls A) u))"
  using assms(2,3)
proof (induction calls arbitrary: m A)
  case (Cons c cs)
  obtain m' where m': "run_tf env svc memory_tf_ops c m = (fst (spec_tf env svc c A), m')"
    "\<And>u. stands_for env svc u (m' u) (snd (spec_tf env svc c A) u)"
    using mem_tf.call_refines [OF assms(1) _ Cons.prems(2)] Cons.prems(1) by auto
  from Cons.IH [OF _ m'(2)] Cons.prems(1) m'(1) show ?case
    by (simp add: case_prod_beta)
qed simp

text \<open>C16. Two-factor authentication refines its state machine: on the store in memory every sequence of calls,
  by any users in any order, has the outcomes of the abstract machine, in which a user has no factor, a
  pending or a confirmed one. So a challenge succeeds only between a confirmation and the next disabling
  or enrolment, with a code of the enrolled secret, and no call of one user affects another.\<close>

theorem two_factor_refines:
  assumes "tf_env_ok env" "list_all call_ok calls"
  shows "fst (run_all env svc memory_tf_ops calls Map.empty) = fst (spec_all env svc calls (\<lambda>_. Absent))"
  using run_all_refines [OF assms, of svc Map.empty "\<lambda>_. Absent"] by simp

section \<open>Recovery codes are used once\<close>

fun issues_codes :: "string \<Rightarrow> tf_call \<Rightarrow> bool" where
  "issues_codes u (Enable v _ _) \<longleftrightarrow> v = u"
| "issues_codes u (Regenerate v _) \<longleftrightarrow> v = u"
| "issues_codes u _ \<longleftrightarrow> False"

fun codes_left :: "tf_state \<Rightarrow> string list" where
  "codes_left Absent = []"
| "codes_left (Pending _ cs) = cs"
| "codes_left (Confirmed _ cs) = cs"

lemma spec_tf_state: "snd (spec_tf env svc call A) = A(call_user call := snd (spec_user env svc call (A (call_user call))))"
  by (simp add: spec_tf_def case_prod_beta)

lemma codes_left_user:
  "\<not> issues_codes (call_user call) call \<Longrightarrow> set (codes_left (snd (spec_user env svc call st))) \<subseteq> set (codes_left st)"
  by (cases call; cases st) (auto dest: set_remove1_subset [THEN subsetD])

lemma codes_left_mono:
  "\<not> issues_codes u call \<Longrightarrow> set (codes_left (snd (spec_tf env svc call A) u)) \<subseteq> set (codes_left (A u))"
  using codes_left_user [of call] by (cases "call_user call = u") (auto simp: spec_tf_state)

lemma codes_left_all:
  "list_all (\<lambda>c. \<not> issues_codes u c) calls \<Longrightarrow> set (codes_left (snd (spec_all env svc calls A) u)) \<subseteq> set (codes_left (A u))"
proof (induction calls arbitrary: A)
  case (Cons c cs)
  have "set (codes_left (snd (spec_all env svc cs (snd (spec_tf env svc c A))) u)) \<subseteq> set (codes_left (snd (spec_tf env svc c A) u))"
    using Cons by simp
  also have "\<dots> \<subseteq> set (codes_left (A u))" using Cons.prems by (intro codes_left_mono) simp
  finally show ?case by (simp add: case_prod_beta)
qed simp

lemma stands_for_distinct: "stands_for env svc u found st \<Longrightarrow> distinct (codes_left st)"
  by (cases found) (auto elim!: stands_for_SomeE)

lemma consume_spec:
  "fst (spec_tf env svc (Consume u code) A) = (if code \<in> set (codes_left (A u)) then Done else Failed InvalidTwoFactorCode)"
  "distinct (codes_left (A u)) \<Longrightarrow> code \<notin> set (codes_left (snd (spec_tf env svc (Consume u code) A) u))"
  by (cases "A u"; auto simp: spec_tf_def)+

text \<open>C17. A recovery code works once: after a user has consumed a code, the same code is refused for that user,
  whatever calls came before and come in between, until new codes are issued to the user.\<close>

theorem recovery_code_single_use:
  assumes "tf_env_ok env" "list_all call_ok (history @ between)" "list_all (\<lambda>c. \<not> issues_codes u c) between"
    and "run_all env svc memory_tf_ops history Map.empty = (outs, m)"
    and "run_tf env svc memory_tf_ops (Consume u code) m = (Done, m1)"
    and "run_all env svc memory_tf_ops between m1 = (outs', m2)"
  shows "fst (run_tf env svc memory_tf_ops (Consume u code) m2) = Failed InvalidTwoFactorCode"
proof -
  let ?A = "snd (spec_all env svc history (\<lambda>_. Absent))"
  have m: "stands_for env svc v (m v) (?A v)" for v
    using run_all_refines [OF assms(1), of history svc Map.empty "\<lambda>_. Absent"] assms(2,4) by simp
  let ?A1 = "snd (spec_tf env svc (Consume u code) ?A)"
  have m1: "stands_for env svc v (m1 v) (?A1 v)" for v
    by (rule mem_tf.call_refines [OF assms(1) _ m, of "Consume u code"]) (use assms(5) in auto)
  let ?A2 = "snd (spec_all env svc between ?A1)"
  have m2: "stands_for env svc v (m2 v) (?A2 v)" for v
    using run_all_refines [OF assms(1) _ m1, of between] assms(2,6) by simp
  have "code \<notin> set (codes_left (?A1 u))"
    using consume_spec(2) [of ?A u code env svc] stands_for_distinct [OF m [of u]] by simp
  then have "code \<notin> set (codes_left (?A2 u))"
    using codes_left_all [OF assms(3), of env svc ?A1] by blast
  then have "fst (spec_tf env svc (Consume u code) ?A2) = Failed InvalidTwoFactorCode"
    by (simp add: consume_spec(1))
  moreover obtain m3 where "run_tf env svc memory_tf_ops (Consume u code) m2 = (fst (spec_tf env svc (Consume u code) ?A2), m3)"
    by (rule mem_tf.call_refines [OF assms(1) call_ok.simps(5) [THEN iffD2, OF TrueI] m2])
  ultimately show ?thesis by simp
qed

text \<open>A request that consumes a code, one access of the store at a time: it reads the record and writes it
  back.\<close>

datatype consumer = Start | HasRead "TwoFactorRecord option" | Finished "AuthError + unit"

fun consumer_step :: "tf_env \<Rightarrow> 's tf_ops \<Rightarrow> string \<Rightarrow> string \<Rightarrow> consumer \<Rightarrow> 's \<Rightarrow> consumer \<times> 's" where
  "consumer_step env ops u code Start s =
     (case tf_get ops u s of Inl e \<Rightarrow> (Finished (Inl e), s) | Inr found \<Rightarrow> (HasRead found, s))"
| "consumer_step env ops u code (HasRead found) s =
     (case consume_decide env code found of Inl e \<Rightarrow> (Finished (Inl e), s) | Inr r \<Rightarrow> apfst Finished (tf_put ops r s))"
| "consumer_step env ops u code (Finished res) s = (Finished res, s)"

lemma consumer_alone:
  "(case consumer_step env ops u code Start s of (c, s1) \<Rightarrow> consumer_step env ops u code c s1)
    = apfst Finished (consume_recovery_code env ops u code s)"
  by (simp add: consume_recovery_code_def split: sum.splits)

text \<open>Two requests with the same code, interleaved so that both read before either writes: both succeed.\<close>

lemma recovery_code_race:
  assumes "m u = Some r" "h \<in> set (tr_recovery_codes r)" "te_verify env h code"
  shows "\<exists>m1 m2. consumer_step env memory_tf_ops u code Start m = (HasRead (Some r), m)
    \<and> consumer_step env memory_tf_ops u code (HasRead (Some r)) m = (Finished (Inr ()), m1)
    \<and> consumer_step env memory_tf_ops u code (HasRead (Some r)) m1 = (Finished (Inr ()), m2)"
proof -
  obtain i where "position_of (\<lambda>h. te_verify env h code) (tr_recovery_codes r) = Some i"
    using assms(2,3) position_of_None by (metis not_Some_eq)
  with assms(1) show ?thesis by (simp add: consume_decide_def memory_tf_ops_def)
qed

text \<open>A transparent environment for examples: the cipher adds a tag, a hash is its code, and every one-time
  code is zero.\<close>

definition demo_tf_env :: tf_env where
  "demo_tf_env = \<lparr>te_sha256 = (\<lambda>b. b), te_aead_encrypt = (\<lambda>_ _ p. Some (CHR ''t'' # p)),
     te_aead_decrypt = (\<lambda>_ _ c. Some (tl c)), te_hex_encode = (\<lambda>b. b), te_hex_decode = Some,
     te_hash = (\<lambda>_ c. Inr c), te_verify = (\<lambda>h c. c = h), te_hmac = (\<lambda>_ _. Some (replicate 20 (CHR 0x00)))\<rparr>"

definition demo_tf_service :: tf_service where
  "demo_tf_service = \<lparr>ts_key = ''k'', ts_issuer = ''RustaSea'', ts_window = 1\<rparr>"

definition demo_tf_random :: tf_random where
  "demo_tf_random = \<lparr>rn_secret = ''12345678901234567890'', rn_nonce = replicate 12 (CHR ''n''),
     rn_draws = map (\<lambda>i. i # replicate 9 0) [0..<10], rn_salts = []\<rparr>"

lemma demo_tf_env_ok: "tf_env_ok demo_tf_env"
  by (simp add: tf_env_ok_def demo_tf_env_def)

lemma demo_codes:
  "generate_recovery_codes (rn_draws demo_tf_random) = Some (map (\<lambda>i. random_recovery_code (i # replicate 9 0)) [0..<10])"
  by code_simp

lemma demo_code_zero: "verify_code (te_hmac demo_tf_env) (generate_secret (rn_secret demo_tf_random)) ''000000'' 1 0"
proof -
  have "format_code 0 6 = ''000000''" by code_simp
  moreover have "hotp (te_hmac demo_tf_env) key c 6 = Some 0" for key c
    by (simp add: hotp_def demo_tf_env_def Let_def)
  moreover have "trim ''000000'' = ''000000''" "list_all is_digit ''000000''"
    by (simp_all add: trim_def is_ws_def is_digit_def)
  moreover have "[- 1..1] = [- 1, 0, 1 :: int]" by (simp add: upto.simps)
  ultimately show ?thesis
    by (simp add: verify_code_def generate_secret_def base32_roundtrip DIGITS_def Let_def)
qed

definition demo_calls :: "tf_call list" where
  "demo_calls = [Enable ''u'' ''a'' demo_tf_random, Challenge ''u'' ''000000'' 0, Confirm ''u'' ''000000'' 0 ''now'',
     Challenge ''u'' ''000000'' 0, Disable ''u'', Challenge ''u'' ''000000'' 0]"

lemma demo_calls_ok: "list_all call_ok demo_calls"
  by (simp add: demo_calls_def demo_tf_random_def NONCE_LEN_def)

theorem two_factor_refines_witness:
  "tl (fst (run_all demo_tf_env demo_tf_service memory_tf_ops demo_calls Map.empty))
     = [Failed InvalidTwoFactorCode, Done, Done, Done, Failed InvalidTwoFactorCode]"
proof -
  have "tl (fst (spec_all demo_tf_env demo_tf_service demo_calls (\<lambda>_. Absent)))
      = [Failed InvalidTwoFactorCode, Done, Done, Done, Failed InvalidTwoFactorCode]"
    using demo_code_zero
    by (simp add: demo_calls_def spec_tf_def spec_check_def demo_codes demo_tf_service_def Let_def)
  then show ?thesis by (simp add: two_factor_refines [OF demo_tf_env_ok demo_calls_ok])
qed

theorem recovery_code_single_use_witness:
  "\<exists>m1. run_tf demo_tf_env demo_tf_service memory_tf_ops (Consume ''u'' ''aaaaa-00000'')
      (snd (run_all demo_tf_env demo_tf_service memory_tf_ops [Enable ''u'' ''a'' demo_tf_random] Map.empty)) = (Done, m1)
    \<and> fst (run_tf demo_tf_env demo_tf_service memory_tf_ops (Consume ''u'' ''aaaaa-00000'') m1) = Failed InvalidTwoFactorCode"
proof -
  let ?run = "run_all demo_tf_env demo_tf_service memory_tf_ops [Enable ''u'' ''a'' demo_tf_random] Map.empty"
  have ok: "list_all call_ok ([Enable ''u'' ''a'' demo_tf_random] @ [])"
    by (simp add: demo_tf_random_def NONCE_LEN_def)
  have code: "''aaaaa-00000'' \<in> set (map (\<lambda>i. random_recovery_code (i # replicate 9 0)) [0..<10])" by code_simp
  have "fst (run_all demo_tf_env demo_tf_service memory_tf_ops [Enable ''u'' ''a'' demo_tf_random, Consume ''u'' ''aaaaa-00000''] Map.empty)
      = fst (spec_all demo_tf_env demo_tf_service [Enable ''u'' ''a'' demo_tf_random, Consume ''u'' ''aaaaa-00000''] (\<lambda>_. Absent))"
    using run_all_refines [OF demo_tf_env_ok, of "[Enable ''u'' ''a'' demo_tf_random, Consume ''u'' ''aaaaa-00000'']" demo_tf_service Map.empty "\<lambda>_. Absent"] ok
    by simp
  then have "fst (run_tf demo_tf_env demo_tf_service memory_tf_ops (Consume ''u'' ''aaaaa-00000'') (snd ?run)) = Done"
    using code by (simp add: spec_tf_def demo_codes Let_def case_prod_beta)
  then obtain m1 where m1: "run_tf demo_tf_env demo_tf_service memory_tf_ops (Consume ''u'' ''aaaaa-00000'') (snd ?run) = (Done, m1)"
    by (metis prod.collapse)
  have "fst (run_tf demo_tf_env demo_tf_service memory_tf_ops (Consume ''u'' ''aaaaa-00000'') m1) = Failed InvalidTwoFactorCode"
    by (rule recovery_code_single_use [OF demo_tf_env_ok ok _ prod.collapse [symmetric] m1 run_all.simps(1)]) simp
  with m1 show ?thesis by blast
qed

end
