(* ===== verification/Csrf.thy ===== *)
theory Csrf
  imports Guard Router
begin

text \<open>
  HTTP requests and forgery protection, \<^verbatim>\<open>rustasea-auth/src/csrf.rs\<close>: the parts of a
  request that the application reads, the error envelope, the policy
  \<^verbatim>\<open>PreventRequestForgery\<close> with its decision table, and the tower service that applies it.

  A header map is the list of its entries in order of arrival, with lower-case names, as
  \<^verbatim>\<open>HeaderMap\<close> keeps them. The token provider may read and change the environment.
\<close>

section \<open>Requests and answers\<close>

text \<open>The request of the application: the extension of the router's request.\<close>

record http =
  ht_method :: string
  ht_headers :: "(string \<times> bytes) list"
  ht_query :: "string option"
  ht_body :: bytes
  ht_peer :: "string option"
  ht_user :: "AuthUser option"

text \<open>\<^verbatim>\<open>HeaderMap::get\<close>, and \<^verbatim>\<open>HeaderValue::to_str\<close>: only visible ASCII, space and tab.\<close>

definition header_text :: "bytes \<Rightarrow> string option" where
  "header_text b =
     (if list_all (\<lambda>c. (32 \<le> (of_char c :: nat) \<and> (of_char c :: nat) < 127) \<or> (of_char c :: nat) = 9) b
      then Some b else None)"

definition header_of :: "string \<Rightarrow> (string \<times> bytes) list \<Rightarrow> string option" where
  "header_of name hs = Option.bind (map_of hs name) header_text"

record error_item =
  ei_status :: string
  ei_code :: string
  ei_title :: string
  ei_detail :: string
  ei_meta :: "(string \<times> string) list option"

datatype body =
    Empty
  | Errors "error_item list"
  | Html string
  | Json json_value

record answer =
  an_status :: nat
  an_headers :: "(string \<times> string) list"
  an_body :: body

section \<open>The policy\<close>

definition SAFE_METHODS :: "string list" where
  "SAFE_METHODS = [''GET'', ''HEAD'', ''OPTIONS'']"

definition CSRF_HEADER :: string where
  "CSRF_HEADER = ''x-csrf-token''"

definition CSRF_FIELD :: string where
  "CSRF_FIELD = ''_token''"

datatype SecFetchSite = SameOrigin | CrossSite | NoSite

definition parse_site :: "string option \<Rightarrow> SecFetchSite option" where
  "parse_site v =
     (case v of
        None \<Rightarrow> None
      | Some s \<Rightarrow>
          (let t = to_ascii_lowercase (trim s) in
           if t = ''same-origin'' then Some SameOrigin
           else if t = ''cross-site'' then Some CrossSite
           else if t = ''none'' then Some NoSite
           else None))"

record RequestHeaders =
  rh_method :: string
  rh_csrf_token :: "string option"
  rh_sec_fetch_site :: "string option"
  rh_origin :: "string option"

definition from_request :: "http \<Rightarrow> RequestHeaders" where
  "from_request q =
     \<lparr>rh_method = ht_method q, rh_csrf_token = header_of CSRF_HEADER (ht_headers q),
      rh_sec_fetch_site = header_of ''sec-fetch-site'' (ht_headers q), rh_origin = header_of ''origin'' (ht_headers q)\<rparr>"

definition is_safe_method :: "RequestHeaders \<Rightarrow> bool" where
  "is_safe_method h \<longleftrightarrow> to_ascii_uppercase (rh_method h) \<in> set SAFE_METHODS"

datatype CsrfError = TokenMismatch | UntrustedOrigin string

fun csrf_code :: "CsrfError \<Rightarrow> string" where
  "csrf_code TokenMismatch = ''CsrfError::TokenMismatch''"
| "csrf_code (UntrustedOrigin _) = ''CsrfError::UntrustedOrigin''"

record PreventRequestForgery =
  pf_allowed_origins :: "string list"
  pf_expected_token :: "string option"

definition policy_new :: "string list \<Rightarrow> PreventRequestForgery" where
  "policy_new origins = \<lparr>pf_allowed_origins = origins, pf_expected_token = None\<rparr>"

definition with_expected_token :: "string \<Rightarrow> PreventRequestForgery \<Rightarrow> PreventRequestForgery" where
  "with_expected_token t p = p\<lparr>pf_expected_token := Some t\<rparr>"

definition csrf_check :: "PreventRequestForgery \<Rightarrow> RequestHeaders \<Rightarrow> CsrfError + unit" where
  "csrf_check p h =
     (if is_safe_method h then Inr ()
      else
        (let provided = unwrap_or_default (rh_csrf_token h) in
         if (case pf_expected_token p of Some expected \<Rightarrow> expected \<noteq> [] \<and> expected = provided | None \<Rightarrow> False)
         then
           (case parse_site (rh_sec_fetch_site h) of
              Some CrossSite \<Rightarrow>
                (let origin = unwrap_or_default (rh_origin h) in
                 if origin \<in> set (pf_allowed_origins p) then Inr () else Inl (UntrustedOrigin origin))
            | _ \<Rightarrow> Inr ())
         else Inl TokenMismatch))"

definition csrf_error_response :: "CsrfError \<Rightarrow> answer response" where
  "csrf_error_response err =
     Answer \<lparr>an_status = 403, an_headers = [], an_body = Errors
       [case err of
          TokenMismatch \<Rightarrow>
            \<lparr>ei_status = ''403'', ei_code = csrf_code err, ei_title = ''CSRF token mismatch'',
             ei_detail = ''The provided CSRF token does not match the session token.'', ei_meta = None\<rparr>
        | UntrustedOrigin origin \<Rightarrow>
            \<lparr>ei_status = ''403'', ei_code = csrf_code err, ei_title = ''Untrusted origin'',
             ei_detail = ''Origin '' @ origin @ '' is not in the csrf allow-list.'',
             ei_meta = Some [(''sec_fetch_site'', ''cross-site''), (''origin'', origin)]\<rparr>]\<rparr>"

section \<open>The layer\<close>

record 'e CsrfLayer =
  cl_policy :: PreventRequestForgery
  cl_token_provider :: "('e \<Rightarrow> string option \<times> 'e) option"

definition csrf_layer_new :: "string list \<Rightarrow> 'e CsrfLayer" where
  "csrf_layer_new origins = \<lparr>cl_policy = policy_new origins, cl_token_provider = None\<rparr>"

definition layer_with_expected_token :: "string \<Rightarrow> 'e CsrfLayer \<Rightarrow> 'e CsrfLayer" where
  "layer_with_expected_token t l = l\<lparr>cl_policy := with_expected_token t (cl_policy l)\<rparr>"

definition with_token_provider :: "('e \<Rightarrow> string option \<times> 'e) \<Rightarrow> 'e CsrfLayer \<Rightarrow> 'e CsrfLayer" where
  "with_token_provider f l = l\<lparr>cl_token_provider := Some f\<rparr>"

text \<open>\<^verbatim>\<open>Layer::layer\<close> gives the service; this is its \<^verbatim>\<open>call\<close>.\<close>

definition csrf_service :: "'e CsrfLayer \<Rightarrow> (http, answer, 'e) service \<Rightarrow> (http, answer, 'e) service" where
  "csrf_service l inner q e =
     (let (policy, e1) =
        (case cl_token_provider l of
           None \<Rightarrow> (cl_policy l, e)
         | Some provider \<Rightarrow> (case provider e of (t, e1) \<Rightarrow> ((cl_policy l)\<lparr>pf_expected_token := t\<rparr>, e1)))
      in case csrf_check policy (from_request (rq_ext q)) of
           Inl err \<Rightarrow> (csrf_error_response err, e1)
         | Inr _ \<Rightarrow> inner q e1)"

section \<open>What the policy admits\<close>

text \<open>The request carries the token, and an origin of the list when it is marked as cross-site.\<close>

definition csrf_admits :: "string list \<Rightarrow> string option \<Rightarrow> http \<Rightarrow> bool" where
  "csrf_admits origins expected q \<longleftrightarrow>
     (\<exists>t. expected = Some t \<and> t \<noteq> [] \<and> header_of CSRF_HEADER (ht_headers q) = Some t)
     \<and> (parse_site (header_of ''sec-fetch-site'' (ht_headers q)) = Some CrossSite \<longrightarrow>
          unwrap_or_default (header_of ''origin'' (ht_headers q)) \<in> set origins)"

lemma csrf_check_iff:
  "csrf_check p (from_request q) = Inr () \<longleftrightarrow>
    to_ascii_uppercase (ht_method q) \<in> set SAFE_METHODS
    \<or> csrf_admits (pf_allowed_origins p) (pf_expected_token p) q"
  by (auto simp: csrf_check_def csrf_admits_def from_request_def is_safe_method_def Let_def
      intro: unwrap_or_default_eq split: option.splits SecFetchSite.splits if_splits)

lemma csrf_check_eq:
  "csrf_check p (from_request q) =
    (if to_ascii_uppercase (ht_method q) \<in> set SAFE_METHODS
        \<or> csrf_admits (pf_allowed_origins p) (pf_expected_token p) q
     then Inr () else Inl (projl (csrf_check p (from_request q))))"
  using csrf_check_iff [of p q] by (cases "csrf_check p (from_request q)") auto

text \<open>A state-changing request reaches the service behind the layer only with the token that the
  provider gives for this very request, else with the static token.\<close>

lemma csrf_service_admits:
  assumes "to_ascii_uppercase (ht_method (rq_ext q)) \<notin> set SAFE_METHODS"
  shows "csrf_service l inner q e =
    (let (expected, e1) = (case cl_token_provider l of None \<Rightarrow> (pf_expected_token (cl_policy l), e) | Some f \<Rightarrow> f e) in
     if csrf_admits (pf_allowed_origins (cl_policy l)) expected (rq_ext q) then inner q e1
     else (csrf_error_response (projl (csrf_check ((cl_policy l)\<lparr>pf_expected_token := expected\<rparr>) (from_request (rq_ext q)))), e1))"
proof -
  let ?go = "\<lambda>p e1. case csrf_check p (from_request (rq_ext q)) of Inl err \<Rightarrow> (csrf_error_response err, e1) | Inr _ \<Rightarrow> inner q e1"
  have go: "?go p e1 = (if csrf_admits (pf_allowed_origins p) (pf_expected_token p) (rq_ext q) then inner q e1
      else (csrf_error_response (projl (csrf_check p (from_request (rq_ext q)))), e1))" for p e1
    using assms by (subst csrf_check_eq) simp
  show ?thesis
    by (cases "cl_token_provider l") (simp_all add: csrf_service_def go case_prod_beta Let_def)
qed

end
