(* ===== verification/Signed_Url.thy ===== *)
theory Signed_Url
  imports Percent Cache "HOL-Library.Multiset" "HOL-Library.Char_ord" "HOL-Library.List_Lexorder" "HOL-Library.Product_Lexorder"
begin

text \<open>
  Signed URLs, \<^verbatim>\<open>rustasea-auth/src/signed_url.rs\<close>: the canonical payload, signing,
  parsing and verification, and the key of the application. Strings are lists of bytes. The
  message authentication code (\<^verbatim>\<open>hmac\<close>, \<^verbatim>\<open>sha2\<close>) and the hexadecimal codec
  (\<^verbatim>\<open>hex\<close>) are parameters \<open>mac\<close>, \<open>hexe\<close> and \<open>hexd\<close>; \<open>dbg\<close> renders a string in
  its debug form for error texts. The clock is an argument.
\<close>

section \<open>Signing\<close>

definition EXPIRES_PARAM :: string where
  "EXPIRES_PARAM = ''expires''"

definition SIGNATURE_PARAM :: string where
  "SIGNATURE_PARAM = ''signature''"

datatype SignedUrlError =
    MissingKey
  | MissingSignature
  | InvalidSignature
  | Expired int int
  | Malformed string

record SignedUrlSigner =
  sg_key :: bytes

definition NL :: char where
  "NL = CHR 0x0A"

definition payload_line :: "string \<times> string \<Rightarrow> string" where
  "payload_line kv = percent_encode (fst kv) @ CHR ''='' # percent_encode (snd kv)"

definition canonical_payload :: "string \<Rightarrow> int \<Rightarrow> (string \<times> string) list \<Rightarrow> string" where
  "canonical_payload path expires extra =
     percent_encode path @ [NL] @ show_int expires @ [NL]
     @ concat (map (\<lambda>kv. payload_line kv @ [NL]) (sort extra))"

definition sign ::
  "(bytes \<Rightarrow> bytes \<Rightarrow> bytes) \<Rightarrow> (bytes \<Rightarrow> string) \<Rightarrow> SignedUrlSigner \<Rightarrow> string \<Rightarrow> int \<Rightarrow> (string \<times> string) list
    \<Rightarrow> string" where
  "sign mac hexe sg path expires extra =
     concat (map (\<lambda>kv. payload_line kv @ ''&'') (sort extra))
     @ EXPIRES_PARAM @ ''='' @ show_int expires @ ''&''
     @ SIGNATURE_PARAM @ ''='' @ hexe (mac (sg_key sg) (canonical_payload path expires extra))"

definition saturating_add_i64 :: "int \<Rightarrow> int \<Rightarrow> int" where
  "saturating_add_i64 a b = max (- (2 ^ 63)) (min (a + b) (2 ^ 63 - 1))"

definition sign_expiring ::
  "(bytes \<Rightarrow> bytes \<Rightarrow> bytes) \<Rightarrow> (bytes \<Rightarrow> string) \<Rightarrow> SignedUrlSigner \<Rightarrow> int \<Rightarrow> string \<Rightarrow> nat \<Rightarrow> (string \<times> string) list
    \<Rightarrow> SignedUrlError + string" where
  "sign_expiring mac hexe sg now path ttl extra =
     (if sg_key sg = [] then Inl MissingKey
      else Inr (sign mac hexe sg path (saturating_add_i64 now (wrap_i64 (int ttl))) extra))"

section \<open>Parsing\<close>

definition hex_value :: "char \<Rightarrow> nat option" where
  "hex_value c =
     (let b = (of_char c :: nat) in
      if 48 \<le> b \<and> b \<le> 57 then Some (b - 48)
      else if 97 \<le> b \<and> b \<le> 102 then Some (b - 97 + 10)
      else if 65 \<le> b \<and> b \<le> 70 then Some (b - 65 + 10)
      else None)"

datatype escape_error = Truncated | BadDigit

fun unescape :: "string \<Rightarrow> escape_error + string" where
  "unescape [] = Inr []"
| "unescape (c # cs) =
     (if c = CHR ''%'' then
        (case cs of
           h # l # rest \<Rightarrow>
             (case hex_value h of
                None \<Rightarrow> Inl BadDigit
              | Some hi \<Rightarrow>
                  (case hex_value l of
                     None \<Rightarrow> Inl BadDigit
                   | Some lo \<Rightarrow>
                       (case unescape rest of Inl e \<Rightarrow> Inl e | Inr s \<Rightarrow> Inr (char_of (16 * hi + lo) # s))))
         | _ \<Rightarrow> Inl Truncated)
      else (case unescape cs of Inl e \<Rightarrow> Inl e | Inr s \<Rightarrow> Inr (c # s)))"

definition percent_decode :: "(string \<Rightarrow> string) \<Rightarrow> string \<Rightarrow> SignedUrlError + string" where
  "percent_decode dbg input =
     (case unescape input of
        Inl Truncated \<Rightarrow> Inl (Malformed (''truncated percent-escape in '' @ dbg input))
      | Inl BadDigit \<Rightarrow> Inl (Malformed (''invalid percent-escape in '' @ dbg input))
      | Inr s \<Rightarrow> if from_utf8 s then Inr s else Inl (Malformed (''invalid UTF-8 in '' @ dbg input)))"

fun parse_segments ::
  "(string \<Rightarrow> string) \<Rightarrow> string list \<Rightarrow> SignedUrlError + (string \<times> string) list" where
  "parse_segments dbg [] = Inr []"
| "parse_segments dbg (seg # segs) =
     (if seg = [] then Inl (Malformed ''empty query segment'')
      else
        (case split_once (CHR ''='') seg of
           None \<Rightarrow> Inl (Malformed (''query segment missing '' @ [CHR 0x27] @ ''='' @ [CHR 0x27] @ '': '' @ dbg seg))
         | Some (k, v) \<Rightarrow>
             (case percent_decode dbg k of
                Inl e \<Rightarrow> Inl e
              | Inr key \<Rightarrow>
                  (case percent_decode dbg v of
                     Inl e \<Rightarrow> Inl e
                   | Inr val \<Rightarrow>
                       (case parse_segments dbg segs of Inl e \<Rightarrow> Inl e | Inr ps \<Rightarrow> Inr ((key, val) # ps))))))"

definition parse_query :: "(string \<Rightarrow> string) \<Rightarrow> string \<Rightarrow> SignedUrlError + (string \<times> string) list" where
  "parse_query dbg q =
     (let query = (case q of c # cs \<Rightarrow> if c = CHR ''?'' then cs else q | [] \<Rightarrow> []) in
      if query = [] then Inr [] else parse_segments dbg (split_on (CHR ''&'') query))"

section \<open>Verification\<close>

record url_fields =
  uf_signature :: "string option"
  uf_expires :: "int option"
  uf_extra :: "(string \<times> string) list"

fun collect_fields ::
  "(string \<Rightarrow> string) \<Rightarrow> (string \<times> string) list \<Rightarrow> url_fields \<Rightarrow> SignedUrlError + url_fields" where
  "collect_fields dbg [] f = Inr f"
| "collect_fields dbg ((key, val) # ps) f =
     (if key = SIGNATURE_PARAM then
        (if uf_signature f \<noteq> None then Inl (Malformed ''duplicate `signature` parameter'')
         else collect_fields dbg ps (f\<lparr>uf_signature := Some val\<rparr>))
      else if key = EXPIRES_PARAM then
        (if uf_expires f \<noteq> None then Inl (Malformed ''duplicate `expires` parameter'')
         else (case parse_i64 val of
                 None \<Rightarrow> Inl (Malformed (''`expires` is not an integer: '' @ dbg val))
               | Some n \<Rightarrow> collect_fields dbg ps (f\<lparr>uf_expires := Some n\<rparr>)))
      else if key \<in> fst ` set (uf_extra f) then Inl (Malformed (''duplicate parameter '' @ dbg key))
      else collect_fields dbg ps (f\<lparr>uf_extra := uf_extra f @ [(key, val)]\<rparr>))"

definition no_fields :: url_fields where
  "no_fields = \<lparr>uf_signature = None, uf_expires = None, uf_extra = []\<rparr>"

text \<open>The signature, the expiry and the further parameters of a query.\<close>

definition query_fields ::
  "(string \<Rightarrow> string) \<Rightarrow> string \<Rightarrow> SignedUrlError + string \<times> int \<times> (string \<times> string) list" where
  "query_fields dbg query =
     (case parse_query dbg query of
        Inl e \<Rightarrow> Inl e
      | Inr pairs \<Rightarrow>
          (case collect_fields dbg pairs no_fields of
             Inl e \<Rightarrow> Inl e
           | Inr f \<Rightarrow>
               (case uf_signature f of
                  None \<Rightarrow> Inl MissingSignature
                | Some signature \<Rightarrow>
                    (case uf_expires f of
                       None \<Rightarrow> Inl (Malformed ''missing `expires` parameter'')
                     | Some expires \<Rightarrow> Inr (signature, expires, uf_extra f)))))"

definition verify ::
  "(bytes \<Rightarrow> bytes \<Rightarrow> bytes) \<Rightarrow> (string \<Rightarrow> bytes option) \<Rightarrow> (string \<Rightarrow> string) \<Rightarrow> SignedUrlSigner
    \<Rightarrow> string \<Rightarrow> string \<Rightarrow> int \<Rightarrow> SignedUrlError + unit" where
  "verify mac hexd dbg sg path query now =
     (if sg_key sg = [] then Inl MissingKey
      else
        (case query_fields dbg query of
           Inl e \<Rightarrow> Inl e
         | Inr (signature, expires, extra) \<Rightarrow>
             (case hexd signature of
                None \<Rightarrow> Inl InvalidSignature
              | Some provided \<Rightarrow>
                  if mac (sg_key sg) (canonical_payload path expires extra) \<noteq> provided then Inl InvalidSignature
                  else if expires < now then Inl (Expired expires now)
                  else Inr ())))"

section \<open>The application key\<close>

definition base64_value :: "char \<Rightarrow> nat option" where
  "base64_value c =
     (let b = (of_char c :: nat) in
      if 65 \<le> b \<and> b \<le> 90 then Some (b - 65)
      else if 97 \<le> b \<and> b \<le> 122 then Some (b - 97 + 26)
      else if 48 \<le> b \<and> b \<le> 57 then Some (b - 48 + 52)
      else if c = CHR ''+'' \<or> c = CHR ''-'' then Some 62
      else if c = CHR ''/'' \<or> c = CHR ''_'' then Some 63
      else None)"

text \<open>The loop over the characters, with its 32-bit buffer and the number of unused bits.\<close>

fun base64_loop :: "(char \<Rightarrow> string) \<Rightarrow> string \<Rightarrow> nat \<Rightarrow> nat \<Rightarrow> bytes \<Rightarrow> string + bytes" where
  "base64_loop dbgc [] buffer bits out =
     (if 6 \<le> bits then Inl ''truncated base64 group'' else Inr out)"
| "base64_loop dbgc (c # cs) buffer bits out =
     (if c = CHR ''='' then (if 6 \<le> bits then Inl ''truncated base64 group'' else Inr out)
      else
        (case base64_value c of
           None \<Rightarrow> Inl (''invalid character '' @ dbgc c)
         | Some v \<Rightarrow>
             (let buffer' = (buffer * 64 + v) mod 2 ^ 32; bits' = bits + 6 in
              if 8 \<le> bits'
              then base64_loop dbgc cs buffer' (bits' - 8) (out @ [char_of ((buffer' div 2 ^ (bits' - 8)) mod 256)])
              else base64_loop dbgc cs buffer' bits' out)))"

definition base64_decode :: "(char \<Rightarrow> string) \<Rightarrow> string \<Rightarrow> string + bytes" where
  "base64_decode dbgc input = base64_loop dbgc input 0 0 []"

definition BASE64_PREFIX :: string where
  "BASE64_PREFIX = ''base64:''"

definition decode_app_key :: "(char \<Rightarrow> string) \<Rightarrow> string \<Rightarrow> SignedUrlError + bytes" where
  "decode_app_key dbgc key =
     (if take (length BASE64_PREFIX) key = BASE64_PREFIX then
        (case base64_decode dbgc (drop (length BASE64_PREFIX) key) of
           Inl detail \<Rightarrow> Inl (Malformed (''invalid base64 in APP_KEY: '' @ detail))
         | Inr b \<Rightarrow> Inr b)
      else Inr key)"

definition from_app_config :: "(char \<Rightarrow> string) \<Rightarrow> string option \<Rightarrow> SignedUrlError + SignedUrlSigner" where
  "from_app_config dbgc key =
     (case key of
        None \<Rightarrow> Inl MissingKey
      | Some k \<Rightarrow>
          if trim k = [] then Inl MissingKey
          else (case decode_app_key dbgc k of Inl e \<Rightarrow> Inl e | Inr b \<Rightarrow> Inr \<lparr>sg_key = b\<rparr>))"

section \<open>The canonical payload determines what is signed\<close>

lemma show_int_chars: "c \<in> set (show_int z) \<Longrightarrow> unreserved c"
  by (auto simp: show_int_def unreserved_def Let_def is_digit_def dest!: show_nat_digits split: if_splits)

lemma show_int_inj: "show_int a = show_int b \<longleftrightarrow> a = b"
proof
  assume eq: "show_int a = show_int b"
  have neg: "a < 0 \<longleftrightarrow> b < 0"
    using eq hd_show_nat [of "nat a"] hd_show_nat [of "nat b"] is_digit_neq(2)
    by (auto simp: show_int_def split: if_splits) (metis list.sel(1))+
  have "show_nat m = show_nat n \<Longrightarrow> m = n" for m n by (metis digits_val_show_nat)
  with eq neg show "a = b" by (auto simp: show_int_def split: if_splits) fastforce+
qed simp

lemma NL_clean: "NL \<notin> set (percent_encode s)" "NL \<notin> set (show_int z)" "NL \<notin> set (payload_line kv)"
  using percent_encode_clean(6) show_int_chars [of NL z] unreserved_not_special [of NL]
  by (auto simp: NL_def payload_line_def)

lemma payload_line_inj: "payload_line a = payload_line b \<longleftrightarrow> a = b"
proof
  assume "payload_line a = payload_line b"
  then have "split_once (CHR ''='') (payload_line a) = split_once (CHR ''='') (payload_line b)" by simp
  then show "a = b"
    using percent_encode_clean(3) by (simp add: payload_line_def split_once_append percent_encode_eq prod_eq_iff)
qed simp

lemma split_lines: "list_all (\<lambda>l. NL \<notin> set l) ls \<Longrightarrow> split_on NL (concat (map (\<lambda>l. l @ [NL]) ls)) = ls @ [[]]"
  by (induction ls) (simp_all add: split_on_sep)

lemma payload_lines:
  "split_on NL (canonical_payload path expires extra)
    = percent_encode path # show_int expires # map payload_line (sort extra) @ [[]]"
proof -
  have "list_all (\<lambda>l. NL \<notin> set l) (map payload_line (sort extra))"
    by (simp add: list_all_iff NL_clean)
  from split_lines [OF this] show ?thesis
    by (simp add: canonical_payload_def split_on_sep NL_clean comp_def)
qed

lemma sort_eq_iff: "sort (xs :: ('a :: linorder) list) = sort ys \<longleftrightarrow> mset xs = mset ys"
  by (metis mset_sort sorted_list_of_multiset_mset)

lemma canonical_payload_inj:
  "canonical_payload p e x = canonical_payload p' e' x' \<longleftrightarrow> p = p' \<and> e = e' \<and> mset x = mset x'"
proof
  assume "canonical_payload p e x = canonical_payload p' e' x'"
  then have "split_on NL (canonical_payload p e x) = split_on NL (canonical_payload p' e' x')" by simp
  then have "percent_encode p = percent_encode p'" "show_int e = show_int e'"
    "map payload_line (sort x) = map payload_line (sort x')"
    by (auto simp: payload_lines)
  moreover from this(3) have "sort x = sort x'"
    by (rule map_injective) (auto simp: inj_def payload_line_inj)
  ultimately show "p = p' \<and> e = e' \<and> mset x = mset x'"
    by (simp add: percent_encode_eq show_int_inj sort_eq_iff)
next
  assume "p = p' \<and> e = e' \<and> mset x = mset x'"
  then show "canonical_payload p e x = canonical_payload p' e' x'"
    using sort_eq_iff [of x x'] by (simp add: canonical_payload_def)
qed

section \<open>Round trip\<close>

lemma hex_value_digit: "n < 16 \<Longrightarrow> hex_value (hex_digit n) = Some n"
  by (auto simp: hex_value_def hex_digit_def Let_def)

lemma char_of_nibbles [simp]: "char_of (16 * (of_char c div 16) + of_char c mod 16 :: nat) = c"
  by (metis char_of_char mult_div_mod_eq)

lemma unescape_encode_byte:
  "unescape (encode_byte c @ s) = (case unescape s of Inl e \<Rightarrow> Inl e | Inr t \<Rightarrow> Inr (c # t))"
proof (cases "unreserved c")
  case True
  then have "c \<noteq> CHR ''%''" using unreserved_not_special by auto
  with True show ?thesis by (simp add: encode_byte_def)
next
  case False
  then show ?thesis
    using of_char_div16 [of c] by (simp add: encode_byte_def hex_value_digit split: sum.splits)
qed

lemma unescape_percent_encode: "unescape (percent_encode s) = Inr s"
  by (induction s) (simp_all add: unescape_encode_byte)

lemma percent_decode_encode: "from_utf8 s \<Longrightarrow> percent_decode dbg (percent_encode s) = Inr s"
  by (simp add: percent_decode_def unescape_percent_encode)

lemma percent_encode_unreserved: "list_all unreserved s \<Longrightarrow> percent_encode s = s"
  by (induction s) (simp_all add: encode_byte_def)

lemma unreserved_utf8: "list_all unreserved s \<Longrightarrow> from_utf8 s"
  unfolding from_utf8_def by (induction s) (auto simp: unreserved_def Let_def)

lemma percent_decode_unreserved: "list_all unreserved s \<Longrightarrow> percent_decode dbg s = Inr s"
  using percent_decode_encode [of s dbg] by (simp add: percent_encode_unreserved unreserved_utf8)

lemma parse_line:
  assumes "from_utf8 (fst kv)" "from_utf8 (snd kv)"
  shows "parse_segments dbg (payload_line kv # segs) =
    (case parse_segments dbg segs of Inl e \<Rightarrow> Inl e | Inr ps \<Rightarrow> Inr (kv # ps))"
  using assms percent_encode_clean(3)
  by (simp add: payload_line_def split_once_append percent_decode_encode split: sum.splits)

lemma parse_lines:
  "list_all (\<lambda>kv. from_utf8 (fst kv) \<and> from_utf8 (snd kv)) kvs \<Longrightarrow>
    parse_segments dbg (map payload_line kvs) = Inr kvs"
  by (induction kvs) (simp_all add: parse_line del: parse_segments.simps(2))

lemma payload_line_clean: "CHR ''&'' \<notin> set (payload_line kv)" "CHR ''?'' \<notin> set (payload_line kv)" "payload_line kv \<noteq> []"
  using percent_encode_clean(2,5) by (auto simp: payload_line_def)

lemma split_segments:
  "split_on (CHR ''&'') (concat (map (\<lambda>kv. payload_line kv @ ''&'') kvs) @ payload_line kv) = map payload_line (kvs @ [kv])"
  by (induction kvs) (simp_all add: split_on_sep split_on_none payload_line_clean)

text \<open>The query fragment is the payload lines of its parameters.\<close>

lemma sign_lines:
  assumes "list_all unreserved (hexe tag)" "tag = mac (sg_key sg) (canonical_payload path expires extra)"
  shows "sign mac hexe sg path expires extra =
    concat (map (\<lambda>kv. payload_line kv @ ''&'') (sort extra @ [(EXPIRES_PARAM, show_int expires)]))
    @ payload_line (SIGNATURE_PARAM, hexe tag)"
proof -
  have "percent_encode (show_int expires) = show_int expires"
    by (rule percent_encode_unreserved) (simp add: list_all_iff show_int_chars)
  moreover have "percent_encode EXPIRES_PARAM = EXPIRES_PARAM" "percent_encode SIGNATURE_PARAM = SIGNATURE_PARAM"
    by (rule percent_encode_unreserved, simp add: EXPIRES_PARAM_def SIGNATURE_PARAM_def unreserved_def)+
  ultimately show ?thesis
    using assms by (simp add: sign_def payload_line_def percent_encode_unreserved)
qed

lemma collect_extra:
  "distinct (map fst (uf_extra f @ kvs)) \<Longrightarrow> SIGNATURE_PARAM \<notin> fst ` set kvs \<Longrightarrow> EXPIRES_PARAM \<notin> fst ` set kvs \<Longrightarrow>
    collect_fields dbg (kvs @ rest) f = collect_fields dbg rest (f\<lparr>uf_extra := uf_extra f @ kvs\<rparr>)"
proof (induction kvs arbitrary: f)
  case (Cons kv kvs)
  obtain k v where "kv = (k, v)" by (cases kv)
  with Cons.prems Cons.IH [of "f\<lparr>uf_extra := uf_extra f @ [kv]\<rparr>"] show ?case by auto
qed simp

definition extra_ok :: "(string \<times> string) list \<Rightarrow> bool" where
  "extra_ok extra \<longleftrightarrow> distinct (map fst extra) \<and> SIGNATURE_PARAM \<notin> fst ` set extra \<and> EXPIRES_PARAM \<notin> fst ` set extra
     \<and> list_all (\<lambda>kv. from_utf8 (fst kv) \<and> from_utf8 (snd kv)) extra"

lemma distinct_fst_sort: "distinct (map fst (sort xs)) \<longleftrightarrow> distinct (map fst (xs :: ('a :: linorder \<times> 'b :: linorder) list))"
  by (rule mset_eq_imp_distinct_iff) simp

lemma sign_fields:
  assumes "extra_ok extra" "i64_range expires" "list_all unreserved (hexe tag)"
    and "tag = mac (sg_key sg) (canonical_payload path expires extra)"
  shows "query_fields dbg (sign mac hexe sg path expires extra) = Inr (hexe tag, expires, sort extra)"
proof -
  let ?kvs = "sort extra @ [(EXPIRES_PARAM, show_int expires), (SIGNATURE_PARAM, hexe tag)]"
  let ?q = "sign mac hexe sg path expires extra"
  have q: "?q = concat (map (\<lambda>kv. payload_line kv @ ''&'') (sort extra @ [(EXPIRES_PARAM, show_int expires)]))
      @ payload_line (SIGNATURE_PARAM, hexe tag)"
    using assms(3,4) by (rule sign_lines [where tag = tag and hexe = hexe and mac = mac])
  have split: "split_on (CHR ''&'') ?q = map payload_line ?kvs"
    unfolding q split_segments by simp
  have "from_utf8 (show_int expires)" "from_utf8 (hexe tag)"
    using assms(3) by (auto intro!: unreserved_utf8 simp: list_all_iff show_int_chars)
  moreover have "from_utf8 EXPIRES_PARAM" "from_utf8 SIGNATURE_PARAM"
    by (simp_all add: from_utf8_def EXPIRES_PARAM_def SIGNATURE_PARAM_def)
  ultimately have utf8: "list_all (\<lambda>kv. from_utf8 (fst kv) \<and> from_utf8 (snd kv)) ?kvs"
    using assms(1) by (auto simp: extra_ok_def list_all_iff)
  have "CHR ''?'' \<notin> set ?q" "?q \<noteq> []"
    using payload_line_clean unfolding q by auto
  then have "parse_query dbg ?q = Inr ?kvs"
    using parse_lines [OF utf8] split by (cases ?q) (auto simp: parse_query_def Let_def)
  moreover have "collect_fields dbg ?kvs no_fields
      = Inr \<lparr>uf_signature = Some (hexe tag), uf_expires = Some expires, uf_extra = sort extra\<rparr>"
    using assms(1,2) collect_extra [of no_fields "sort extra" dbg "[(EXPIRES_PARAM, show_int expires), (SIGNATURE_PARAM, hexe tag)]"]
    by (simp add: extra_ok_def distinct_fst_sort no_fields_def parse_i64_show_int)
      (simp add: EXPIRES_PARAM_def SIGNATURE_PARAM_def)
  ultimately show ?thesis by (simp add: query_fields_def)
qed

lemma canonical_payload_sort: "canonical_payload path expires (sort extra) = canonical_payload path expires extra"
  by (simp add: canonical_payload_inj)

text \<open>C36. A signed URL verifies: with a key, with distinct parameters that are not the reserved ones and an
  expiry of 64 bits, verifying what was signed succeeds until the expiry and reports the expiry
  afterwards. The hexadecimal codec is relied on to decode what it encodes and to use unreserved
  characters.\<close>

theorem signed_url_roundtrip:
  assumes "sg_key sg \<noteq> []" "extra_ok extra" "i64_range expires"
    and "\<And>b. hexd (hexe b) = Some b" "\<And>b. list_all unreserved (hexe b)"
  shows "verify mac hexd dbg sg path (sign mac hexe sg path expires extra) now
    = (if now \<le> expires then Inr () else Inl (Expired expires now))"
proof -
  define tag where "tag = mac (sg_key sg) (canonical_payload path expires extra)"
  have "query_fields dbg (sign mac hexe sg path expires extra) = Inr (hexe tag, expires, sort extra)"
    using assms(2,3,5) tag_def by (rule sign_fields [where hexe = hexe and mac = mac])
  then show ?thesis
    using assms(1,4) by (auto simp: verify_def canonical_payload_sort tag_def)
qed

text \<open>A transparent code and a codec for examples: the code is the payload, the codec its percent
  encoding.\<close>

definition plain_mac :: "bytes \<Rightarrow> bytes \<Rightarrow> bytes" where
  "plain_mac key data = key @ data"

fun nibbles :: "bytes \<Rightarrow> string" where
  "nibbles [] = []"
| "nibbles (c # cs) = hex_digit (of_char c div 16) # hex_digit (of_char c mod 16) # nibbles cs"

fun unnibbles :: "string \<Rightarrow> bytes option" where
  "unnibbles [] = Some []"
| "unnibbles [c] = None"
| "unnibbles (h # l # cs) =
     (case hex_value h of
        None \<Rightarrow> None
      | Some hi \<Rightarrow> (case hex_value l of None \<Rightarrow> None | Some lo \<Rightarrow> map_option (Cons (char_of (16 * hi + lo))) (unnibbles cs)))"

lemma nibbles_roundtrip: "unnibbles (nibbles b) = Some b"
proof (induction b)
  case (Cons c b)
  then show ?case using of_char_div16 [of c] by (simp add: hex_value_digit)
qed simp

lemma nibbles_unreserved: "list_all unreserved (nibbles b)"
  by (induction b) (simp_all add: hex_digit_unreserved of_char_div16)

theorem signed_url_roundtrip_witness:
  "verify plain_mac unnibbles id \<lparr>sg_key = ''k''\<rparr> ''/verify'' (sign plain_mac nibbles \<lparr>sg_key = ''k''\<rparr> ''/verify'' 100 [(''id'', ''7'')]) 100
     = Inr ()
   \<and> verify plain_mac unnibbles id \<lparr>sg_key = ''k''\<rparr> ''/verify'' (sign plain_mac nibbles \<lparr>sg_key = ''k''\<rparr> ''/verify'' 100 [(''id'', ''7'')]) 101
     = Inl (Expired 100 101)"
proof -
  have "extra_ok [(''id'', ''7'')]"
    by (simp add: extra_ok_def SIGNATURE_PARAM_def EXPIRES_PARAM_def from_utf8_def)
  then have "verify plain_mac unnibbles id \<lparr>sg_key = ''k''\<rparr> ''/verify'' (sign plain_mac nibbles \<lparr>sg_key = ''k''\<rparr> ''/verify'' 100 [(''id'', ''7'')]) now
      = (if now \<le> 100 then Inr () else Inl (Expired 100 now))" for now
    by (intro signed_url_roundtrip) (simp_all add: i64_range_def nibbles_roundtrip nibbles_unreserved)
  then show ?thesis by simp
qed

section \<open>Tampering\<close>

lemma verify_Inr:
  "verify mac hexd dbg sg path query now = Inr () \<longleftrightarrow>
    sg_key sg \<noteq> [] \<and> (\<exists>signature expires extra. query_fields dbg query = Inr (signature, expires, extra)
      \<and> hexd signature = Some (mac (sg_key sg) (canonical_payload path expires extra)) \<and> now \<le> expires)"
  by (auto simp: verify_def split: sum.splits option.splits if_splits)

text \<open>C13. A signed URL is tamper-evident: a query that is accepted and carries the signature issued for a
  path, an expiry and parameters has that path, that expiry and exactly those parameters, in any
  order, and is not expired, unless the code collides on the two payloads.\<close>

theorem signed_url_tamper_evident:
  assumes "verify mac hexd dbg sg path' query now = Inr ()"
    and "query_fields dbg query = Inr (signature, expires', extra')"
    and "hexd signature = Some (mac (sg_key sg) (canonical_payload path expires extra))"
    and "mac (sg_key sg) (canonical_payload path' expires' extra') = mac (sg_key sg) (canonical_payload path expires extra)
      \<Longrightarrow> canonical_payload path' expires' extra' = canonical_payload path expires extra"
  shows "path' = path \<and> expires' = expires \<and> mset extra' = mset extra \<and> now \<le> expires"
  using assms unfolding verify_Inr by (auto simp: canonical_payload_inj)

theorem signed_url_tamper_evident_witness:
  "mset [(''id'', ''7'')] = mset [(''id'', ''7'')] \<and> (100 :: int) \<le> 100
   \<and> verify plain_mac unnibbles id \<lparr>sg_key = ''k''\<rparr> ''/verify'' (sign plain_mac nibbles \<lparr>sg_key = ''k''\<rparr> ''/verify'' 100 [(''id'', ''7'')]) 100 = Inr ()"
proof -
  let ?sg = "\<lparr>sg_key = ''k''\<rparr>" and ?x = "[(''id'', ''7'')]"
  let ?tag = "plain_mac (sg_key ?sg) (canonical_payload ''/verify'' 100 ?x)"
  have ok: "extra_ok ?x" by (simp add: extra_ok_def SIGNATURE_PARAM_def EXPIRES_PARAM_def from_utf8_def)
  have fields: "query_fields id (sign plain_mac nibbles ?sg ''/verify'' 100 ?x) = Inr (nibbles ?tag, 100, sort ?x)"
    by (rule sign_fields [OF ok]) (simp_all add: i64_range_def nibbles_unreserved)
  have verified: "verify plain_mac unnibbles id ?sg ''/verify'' (sign plain_mac nibbles ?sg ''/verify'' 100 ?x) 100 = Inr ()"
    unfolding verify_Inr using fields by (simp add: nibbles_roundtrip canonical_payload_sort)
  have "''/verify'' = ''/verify'' \<and> (100 :: int) = 100 \<and> mset (sort ?x) = mset ?x \<and> (100 :: int) \<le> 100"
    by (rule signed_url_tamper_evident [OF verified fields nibbles_roundtrip]) (simp add: plain_mac_def)
  with verified show ?thesis by simp
qed

section \<open>Base64\<close>

text \<open>The encoder of the standard alphabet with padding, as a reference for the decoder.\<close>

definition base64_char :: "nat \<Rightarrow> char" where
  "base64_char n =
     (if n < 26 then char_of (65 + n) else if n < 52 then char_of (71 + n) else if n < 62 then char_of (n - 4)
      else if n = 62 then CHR ''+'' else CHR ''/'')"

fun base64_encode :: "nat list \<Rightarrow> string" where
  "base64_encode [] = []"
| "base64_encode [a] = [base64_char (a div 4), base64_char (a mod 4 * 16), CHR ''='', CHR ''='']"
| "base64_encode [a, b] =
     [base64_char (a div 4), base64_char (a mod 4 * 16 + b div 16), base64_char (b mod 16 * 4), CHR ''='']"
| "base64_encode (a # b # c # r) =
     base64_char (a div 4) # base64_char (a mod 4 * 16 + b div 16) # base64_char (b mod 16 * 4 + c div 64)
       # base64_char (c mod 64) # base64_encode r"

lemma base64_value_char: "n < 64 \<Longrightarrow> base64_value (base64_char n) = Some n"
  by (auto simp: base64_value_def base64_char_def Let_def)

lemma base64_char_neq: "n < 64 \<Longrightarrow> base64_char n \<noteq> CHR ''=''"
  using base64_value_char [of n] by (auto simp: base64_value_def)

text \<open>The byte that is read from the buffer depends on its last two characters only.\<close>

lemma low_window: "k + 8 \<le> n \<Longrightarrow> x mod 2 ^ n div 2 ^ k mod 256 = x div 2 ^ k mod (256 :: nat)"
  using bit_window [of k 8 n x] by simp

lemma buffer_low: "v < 64 \<Longrightarrow> (buf * 64 + v) mod 2 ^ 32 mod 64 = (v :: nat)"
  by (simp add: mod_mod_cancel)

lemma buffer_byte:
  assumes "k \<le> 4" "buf mod 64 = u" "v < 64"
  shows "(buf * 64 + v) mod 2 ^ 32 div 2 ^ k mod 256 = (u * 64 + v) div 2 ^ k mod (256 :: nat)"
proof -
  have "(buf * 64 + v) mod 2 ^ 12 = u * 64 + v"
    using assms(2,3) mod_mult2_eq [of "buf * 64 + v" 64 64] by simp
  then show ?thesis
    using low_window [of k 32 "buf * 64 + v"] low_window [of k 12 "buf * 64 + v"] assms(1) by simp
qed

lemma base64_store:
  assumes "v < 64"
  obtains buf' where "buf' mod 64 = v"
    "\<And>cs. base64_loop dbgc (base64_char v # cs) buf 0 out = base64_loop dbgc cs buf' 6 out"
  using assms by (intro that [OF buffer_low [of v buf]]) (simp_all add: base64_value_char base64_char_neq Let_def)

lemma base64_emit:
  assumes "v < 64" "k \<le> 4" "buf mod 64 = u" "(u * 64 + v) div 2 ^ k mod 256 = a"
  obtains buf' where "buf' mod 64 = v"
    "\<And>cs out. base64_loop dbgc (base64_char v # cs) buf (k + 2) out = base64_loop dbgc cs buf' k (out @ [char_of a])"
proof (rule that [OF buffer_low [of v buf]])
  have "char_of ((buf * 64 + v) mod 2 ^ 32 div 2 ^ k) = (char_of a :: char)"
    using buffer_byte [OF assms(2,3,1)] assms(4) by (metis char_of_mod_256)
  moreover have "base64_loop dbgc (base64_char v # cs) buf (k + 2) out
      = base64_loop dbgc cs ((buf * 64 + v) mod 2 ^ 32) k (out @ [char_of ((buf * 64 + v) mod 2 ^ 32 div 2 ^ k)])" for cs out
    using assms(1) unfolding base64_loop.simps(2) by (simp add: base64_value_char base64_char_neq Let_def)
  ultimately show "base64_loop dbgc (base64_char v # cs) buf (k + 2) out
      = base64_loop dbgc cs ((buf * 64 + v) mod 2 ^ 32) k (out @ [char_of a])" for cs out
    by (simp only:)
qed (rule assms)

lemma base64_pad: "k \<le> 4 \<Longrightarrow> base64_loop dbgc (CHR ''='' # cs) buf k out = Inr out"
  by simp

declare base64_loop.simps(2) [simp del]

lemma sextets:
  assumes "a < 256" "b < 256" "c < (256 :: nat)"
  shows "(a div 4 * 64 + (a mod 4 * 16 + b div 16)) div 2 ^ 4 mod 256 = a"
    "((a mod 4 * 16 + b div 16) * 64 + (b mod 16 * 4 + c div 64)) div 2 ^ 2 mod 256 = b"
    "((b mod 16 * 4 + c div 64) * 64 + c mod 64) div 2 ^ 0 mod 256 = c"
    "a div 4 < 64" "a mod 4 * 16 + b div 16 < 64" "b mod 16 * 4 + c div 64 < 64" "c mod 64 < 64"
proof -
  define p q r s t u where parts: "p = a div 4" "q = a mod 4" "r = b div 16" "s = b mod 16" "t = c div 64" "u = c mod 64"
  have bounds: "p < 64" "q < 4" "r < 16" "s < 16" "t < 4" "u < 64"
    using assms by (simp_all add: parts less_mult_imp_div_less)
  have abc: "a = 4 * p + q" "b = 16 * r + s" "c = 64 * t + u" by (simp_all add: parts)
  have "(p * 64 + (q * 16 + r)) div 16 = a"
    using bounds div_mult_self3 [of 16 r "4 * p + q"] by (simp add: abc)
  then show "(a div 4 * 64 + (a mod 4 * 16 + b div 16)) div 2 ^ 4 mod 256 = a"
    using assms(1) by (simp flip: parts)
  have "((q * 16 + r) * 64 + (s * 4 + t)) div 4 = 256 * q + b"
    using bounds div_mult_self3 [of 4 t "256 * q + 16 * r + s"] by (simp add: abc)
  then show "((a mod 4 * 16 + b div 16) * 64 + (b mod 16 * 4 + c div 64)) div 2 ^ 2 mod 256 = b"
    using assms(2) by (simp flip: parts)
  have last: "(b mod 16 * 4 + c div 64) * 64 + c mod 64 = 256 * (b mod 16) + c"
    by (simp add: add_mult_distrib)
  show "((b mod 16 * 4 + c div 64) * 64 + c mod 64) div 2 ^ 0 mod 256 = c"
    unfolding last using assms(3) by simp
  show "a div 4 < 64" "a mod 4 * 16 + b div 16 < 64" "b mod 16 * 4 + c div 64 < 64" "c mod 64 < 64"
    using bounds by (simp_all flip: parts)
qed

text \<open>One, two and three bytes.\<close>

lemma base64_one:
  assumes "a < 256" "b < 256"
  obtains buf' where "buf' mod 64 = a mod 4 * 16 + b div 16"
    "\<And>cs. base64_loop dbgc (base64_char (a div 4) # base64_char (a mod 4 * 16 + b div 16) # cs) buf 0 out
      = base64_loop dbgc cs buf' 4 (out @ [char_of a])"
proof -
  obtain b1 where b1: "b1 mod 64 = a div 4"
    "\<And>cs. base64_loop dbgc (base64_char (a div 4) # cs) buf 0 out = base64_loop dbgc cs b1 6 out"
    using assms by (auto intro: base64_store [of "a div 4" dbgc buf out])
  obtain b2 where "b2 mod 64 = a mod 4 * 16 + b div 16"
    "\<And>cs out. base64_loop dbgc (base64_char (a mod 4 * 16 + b div 16) # cs) b1 (4 + 2) out
       = base64_loop dbgc cs b2 4 (out @ [char_of a])"
    using sextets(1,5) [OF assms, of 0] b1(1) by (auto intro: base64_emit [of "a mod 4 * 16 + b div 16" 4 b1 _ a dbgc])
  with b1(2) show thesis by (intro that [of b2]) auto
qed

lemma base64_two:
  assumes "a < 256" "b < 256" "c < 256"
  obtains buf' where "buf' mod 64 = b mod 16 * 4 + c div 64"
    "\<And>cs. base64_loop dbgc (base64_char (a div 4) # base64_char (a mod 4 * 16 + b div 16)
        # base64_char (b mod 16 * 4 + c div 64) # cs) buf 0 out
      = base64_loop dbgc cs buf' 2 (out @ [char_of a, char_of b])"
proof -
  obtain b1 where b1: "b1 mod 64 = a mod 4 * 16 + b div 16"
    "\<And>cs. base64_loop dbgc (base64_char (a div 4) # base64_char (a mod 4 * 16 + b div 16) # cs) buf 0 out
      = base64_loop dbgc cs b1 4 (out @ [char_of a])"
    using assms(1,2) by (rule base64_one [where dbgc = dbgc and buf = buf and out = out]) (rule that)
  obtain b2 where "b2 mod 64 = b mod 16 * 4 + c div 64"
    "\<And>cs out. base64_loop dbgc (base64_char (b mod 16 * 4 + c div 64) # cs) b1 (2 + 2) out
      = base64_loop dbgc cs b2 2 (out @ [char_of b])"
    using sextets(2,6) [OF assms] b1(1) by (auto intro: base64_emit [of "b mod 16 * 4 + c div 64" 2 b1 _ b dbgc])
  with b1(2) show thesis by (intro that [of b2]) auto
qed

lemma base64_loop_encode:
  "list_all (\<lambda>a. a < 256) bs \<Longrightarrow> base64_loop dbgc (base64_encode bs) buf 0 out = Inr (out @ map char_of bs)"
proof (induction bs arbitrary: buf out rule: base64_encode.induct)
  case (2 a)
  then obtain b1 where "\<And>cs. base64_loop dbgc (base64_char (a div 4) # base64_char (a mod 4 * 16 + 0 div 16) # cs) buf 0 out
      = base64_loop dbgc cs b1 4 (out @ [char_of a])"
    by (auto intro: base64_one [of a 0 dbgc buf out])
  then show ?case by (simp add: base64_pad)
next
  case (3 a b)
  then obtain b1 where "\<And>cs. base64_loop dbgc (base64_char (a div 4) # base64_char (a mod 4 * 16 + b div 16)
        # base64_char (b mod 16 * 4 + 0 div 64) # cs) buf 0 out = base64_loop dbgc cs b1 2 (out @ [char_of a, char_of b])"
    by (auto intro: base64_two [of a b 0 dbgc buf out])
  then show ?case by (simp add: base64_pad)
next
  case (4 a b c r)
  then have lt: "a < 256" "b < 256" "c < 256" by simp_all
  obtain b1 where b1: "b1 mod 64 = b mod 16 * 4 + c div 64"
    "\<And>cs. base64_loop dbgc (base64_char (a div 4) # base64_char (a mod 4 * 16 + b div 16)
        # base64_char (b mod 16 * 4 + c div 64) # cs) buf 0 out
      = base64_loop dbgc cs b1 2 (out @ [char_of a, char_of b])"
    using lt by (rule base64_two [where dbgc = dbgc and buf = buf and out = out]) (rule that)
  obtain b2 where "\<And>cs out. base64_loop dbgc (base64_char (c mod 64) # cs) b1 (0 + 2) out
      = base64_loop dbgc cs b2 0 (out @ [char_of c])"
    using sextets(3,7) [OF lt] b1(1) by (auto intro: base64_emit [of "c mod 64" 0 b1 _ c dbgc])
  with b1(2) 4 show ?case by (simp add: numeral_2_eq_2)
qed simp

text \<open>The decoder inverts the reference encoder on every key, padded as the standard says.\<close>

lemma base64_roundtrip:
  "base64_decode dbgc (base64_encode (map of_char key)) = Inr key"
proof -
  have "list_all (\<lambda>a. a < 256) (map of_char key :: nat list)" by (simp add: list_all_iff)
  from base64_loop_encode [OF this] show ?thesis by (simp add: base64_decode_def comp_def)
qed

lemma app_key_base64:
  "key \<noteq> [] \<Longrightarrow> from_app_config dbgc (Some (BASE64_PREFIX @ base64_encode (map of_char key))) = Inr \<lparr>sg_key = key\<rparr>"
  by (auto simp: from_app_config_def decode_app_key_def base64_roundtrip trim_Nil_iff BASE64_PREFIX_def is_ws_def)

end
