(* ===== verification/Form.thy ===== *)
theory Form
  imports Csrf Signed_Url
begin

text \<open>
  Helpers of the application's handlers, \<^verbatim>\<open>rustasea-app/src/routes/helpers.rs\<close>: form bodies,
  redirects and the JSON error envelope; the two redirects are
  \<^verbatim>\<open>rustasea-http/src/controller.rs\<close>. \<open>lossy\<close> is \<^verbatim>\<open>String::from_utf8_lossy\<close>.
\<close>

section \<open>Lossy UTF-8\<close>

text \<open>The width that the first byte announces, and how many of the following bytes continue it.\<close>

definition char_width :: "nat \<Rightarrow> nat" where
  "char_width a =
     (if a < 128 then 1 else if 194 \<le> a \<and> a \<le> 223 then 2 else if 224 \<le> a \<and> a \<le> 239 then 3
      else if 240 \<le> a \<and> a \<le> 244 then 4 else 0)"

definition second_ok :: "nat \<Rightarrow> nat \<Rightarrow> bool" where
  "second_ok a b \<longleftrightarrow> cont_byte b \<and> (a = 224 \<longrightarrow> 160 \<le> b) \<and> (a = 237 \<longrightarrow> b \<le> 159)
     \<and> (a = 240 \<longrightarrow> 144 \<le> b) \<and> (a = 244 \<longrightarrow> b \<le> 143)"

fun conts :: "nat \<Rightarrow> nat list \<Rightarrow> nat" where
  "conts (Suc n) (c # r) = (if cont_byte c then Suc (conts n r) else 0)"
| "conts _ _ = 0"

definition accepted :: "nat \<Rightarrow> nat list \<Rightarrow> nat" where
  "accepted a bs =
     (if char_width a \<le> 1 then 0
      else (case bs of [] \<Rightarrow> 0 | b # r \<Rightarrow> if second_ok a b then Suc (conts (char_width a - 2) r) else 0))"

definition REPLACEMENT :: "nat list" where
  "REPLACEMENT = [239, 191, 189]"

function lossy_bytes :: "nat list \<Rightarrow> nat list" where
  "lossy_bytes [] = []"
| "lossy_bytes (a # bs) =
     (let n = accepted a bs in
      if Suc n = char_width a then a # take n bs @ lossy_bytes (drop n bs)
      else REPLACEMENT @ lossy_bytes (drop n bs))"
  by pat_completeness auto
termination
  by (relation "measure length") (auto simp: le_imp_less_Suc)

declare lossy_bytes.simps(2) [simp del]

definition lossy :: "bytes \<Rightarrow> string" where
  "lossy b = map char_of (lossy_bytes (map of_char b))"

lemma utf8_ok_step:
  assumes "utf8_ok (a # bs)"
  shows "Suc (accepted a bs) = char_width a \<and> utf8_ok (drop (accepted a bs) bs)"
proof -
  consider (one) "a < 128" | (two) "194 \<le> a" "a \<le> 223" | (three) "224 \<le> a" "a \<le> 239" | (four) "240 \<le> a" "a \<le> 244"
    using assms by (simp split: if_splits)
  then show ?thesis
  proof cases
    case one
    then have "char_width a = 1" by (simp add: char_width_def)
    with one assms show ?thesis by (simp add: accepted_def)
  next
    case two
    then have w: "char_width a = 2" by (simp add: char_width_def)
    from two assms obtain b r where "bs = b # r" "cont_byte b" "utf8_ok r" by (auto split: list.splits)
    moreover from two have "second_ok a b = cont_byte b" by (simp add: second_ok_def)
    ultimately show ?thesis by (simp add: accepted_def w)
  next
    case three
    then have w: "char_width a = 3" by (simp add: char_width_def)
    from three assms obtain b c r where "bs = b # c # r" "cont_byte c" "utf8_ok r"
      "cont_byte b" "a = 224 \<longrightarrow> 160 \<le> b" "a = 237 \<longrightarrow> b \<le> 159" by (auto split: list.splits)
    moreover from this three have "second_ok a b" by (simp add: second_ok_def)
    ultimately show ?thesis by (simp add: accepted_def w)
  next
    case four
    then have w: "char_width a = 4" by (simp add: char_width_def)
    from four assms obtain b c d r where "bs = b # c # d # r" "cont_byte c" "cont_byte d" "utf8_ok r"
      "cont_byte b" "a = 240 \<longrightarrow> 144 \<le> b" "a = 244 \<longrightarrow> b \<le> 143" by (auto split: list.splits)
    moreover from this four have "second_ok a b" by (simp add: second_ok_def)
    ultimately show ?thesis by (simp add: accepted_def w numeral_2_eq_2)
  qed
qed

lemma lossy_bytes_ok: "utf8_ok bs \<Longrightarrow> lossy_bytes bs = bs"
proof (induction bs rule: lossy_bytes.induct)
  case (2 a bs)
  with utf8_ok_step [OF "2.prems"] show ?case by (simp add: lossy_bytes.simps(2) del: utf8_ok.simps)
qed simp

lemma lossy_utf8: "from_utf8 s \<Longrightarrow> lossy s = s"
  by (simp add: lossy_def from_utf8_def lossy_bytes_ok map_idI)

section \<open>Form bodies\<close>

function decode_form_bytes :: "string \<Rightarrow> string" where
  "decode_form_bytes [] = []"
| "decode_form_bytes (c # cs) =
     (if c = CHR ''+'' then CHR '' '' # decode_form_bytes cs
      else if c = CHR ''%'' \<and> 2 \<le> length cs then
        (case (hex_value (cs ! 0), hex_value (cs ! 1)) of
           (Some high, Some low) \<Rightarrow> char_of (high * 16 + low) # decode_form_bytes (drop 2 cs)
         | _ \<Rightarrow> CHR ''%'' # decode_form_bytes cs)
      else c # decode_form_bytes cs)"
  by pat_completeness auto
termination
  by (relation "measure length") auto

declare decode_form_bytes.simps(2) [simp del]

definition form_percent_decode :: "string \<Rightarrow> string" where
  "form_percent_decode input = lossy (decode_form_bytes input)"

definition parse_form :: "bytes \<Rightarrow> (string \<times> string) list" where
  "parse_form body =
     map (\<lambda>pair. case split_once (CHR ''='') pair of
            Some (k, v) \<Rightarrow> (form_percent_decode k, form_percent_decode v)
          | None \<Rightarrow> (form_percent_decode pair, form_percent_decode []))
       (filter (\<lambda>pair. pair \<noteq> []) (split_on (CHR ''&'') (lossy body)))"

definition field :: "(string \<times> string) list \<Rightarrow> string \<Rightarrow> string option" where
  "field form name = map_of form name"

section \<open>Answers\<close>

text \<open>What \<^verbatim>\<open>HeaderValue::try_from\<close> accepts: no control characters but the tab.\<close>

definition header_valid :: "string \<Rightarrow> bool" where
  "header_valid s \<longleftrightarrow> list_all (\<lambda>c. (32 \<le> (of_char c :: nat) \<and> (of_char c :: nat) \<noteq> 127) \<or> (of_char c :: nat) = 9) s"

definition location :: "nat \<Rightarrow> string \<Rightarrow> answer" where
  "location status target =
     \<lparr>an_status = status, an_headers = [(''location'', if header_valid target then target else ''/'')], an_body = Empty\<rparr>"

definition see_other :: "string \<Rightarrow> answer" where
  "see_other target = location 303 target"

definition found :: "string \<Rightarrow> answer" where
  "found target = location 302 target"

text \<open>\<^verbatim>\<open>StatusCode::canonical_reason\<close> of the codes in use.\<close>

definition canonical_reason :: "nat \<Rightarrow> string option" where
  "canonical_reason n = map_of
     [(400, ''Bad Request''), (403, ''Forbidden''), (404, ''Not Found''), (409, ''Conflict''),
      (422, ''Unprocessable Entity''), (429, ''Too Many Requests''), (500, ''Internal Server Error''),
      (503, ''Service Unavailable'')] n"

definition json_error :: "nat \<Rightarrow> string \<Rightarrow> string \<Rightarrow> answer" where
  "json_error status code detail =
     \<lparr>an_status = status, an_headers = [], an_body = Errors
       [\<lparr>ei_status = show_nat status, ei_code = code,
         ei_title = (case canonical_reason status of None \<Rightarrow> ''Error'' | Some r \<Rightarrow> r), ei_detail = detail, ei_meta = None\<rparr>]\<rparr>"

text \<open>A cookie header is added when its value is valid.\<close>

definition append_header :: "string \<Rightarrow> string \<Rightarrow> answer \<Rightarrow> answer" where
  "append_header name v a = (if header_valid v then a\<lparr>an_headers := an_headers a @ [(name, v)]\<rparr> else a)"

section \<open>Round trip\<close>

lemma decode_form_encode_byte: "decode_form_bytes (encode_byte c @ s) = c # decode_form_bytes s"
proof (cases "unreserved c")
  case True
  then have "c \<noteq> CHR ''+''" "c \<noteq> CHR ''%''" by (auto simp: unreserved_def)
  with True show ?thesis by (simp add: encode_byte_def decode_form_bytes.simps(2))
next
  case False
  then show ?thesis
    by (simp add: encode_byte_def decode_form_bytes.simps(2) hex_value_digit of_char_div16 mult.commute)
qed

lemma decode_form_percent_encode: "from_utf8 s \<Longrightarrow> form_percent_decode (percent_encode s) = s"
proof -
  have "decode_form_bytes (percent_encode s) = s"
    by (induction s) (simp_all add: decode_form_encode_byte)
  moreover assume "from_utf8 s"
  ultimately show ?thesis by (simp add: form_percent_decode_def lossy_utf8)
qed

end
