(* ===== verification/App_Routes.thy ===== *)
theory App_Routes
  imports Form Router_Props
begin

text \<open>
  The route table of the application, \<^verbatim>\<open>rustasea-app/src/routes\<close>: the concern tables with their
  groups, the three gates, the session layer and the forgery gate that wrap the compiled router.

  The handlers are a function of their names; axum's dispatch over the compiled rows, with the layers
  inside the session layer, is a parameter \<open>axum\<close>. The session guard and the cookie parser are
  parameters here. Cargo features are a record of flags.
\<close>

text \<open>The only layer of the table itself adds the application state to the request's extensions; it
  carries no information here.\<close>

type_synonym 'e app_call = "(http, answer, 'e, unit) route_call"
type_synonym 'e app_router = "(http, answer, 'e, unit) router"
type_synonym 'e handler_table = "string \<Rightarrow> (http, answer, 'e) service"

section \<open>Gates\<close>

definition AUTH :: string where
  "AUTH = ''auth''"

definition VERIFIED :: string where
  "VERIFIED = ''verified''"

definition PASSWORD_CONFIRM :: string where
  "PASSWORD_CONFIRM = ''password.confirm''"

definition LOGIN_PATH :: string where
  "LOGIN_PATH = ''/login''"

definition VERIFY_EMAIL_PATH :: string where
  "VERIFY_EMAIL_PATH = ''/verify-email''"

definition CONFIRM_PASSWORD_PATH :: string where
  "CONFIRM_PASSWORD_PATH = ''/confirm-password''"

text \<open>The clock and the time-out of a password confirmation; \<open>ge_checks\<close> are the overflow checks of a
  debug build, whose panic the router turns into the status 500.\<close>

record 'e gate_env =
  ge_checks :: bool
  ge_rfc3339 :: "string \<Rightarrow> int option"
  ge_timeout :: nat
  ge_clock :: "'e \<Rightarrow> int"

definition require_authenticated :: "(http, answer, 'e) service \<Rightarrow> (http, answer, 'e) service" where
  "require_authenticated next_service q e =
     (if ht_user (rq_ext q) \<noteq> None then next_service q e else (Answer (found LOGIN_PATH), e))"

definition require_verified :: "(http, answer, 'e) service \<Rightarrow> (http, answer, 'e) service" where
  "require_verified next_service q e =
     (case ht_user (rq_ext q) of
        None \<Rightarrow> (Answer (found LOGIN_PATH), e)
      | Some user \<Rightarrow>
          if \<not> is_email_verified user then (Answer (found VERIFY_EMAIL_PATH), e) else next_service q e)"

definition require_password_confirmed ::
  "'e gate_env \<Rightarrow> (http, answer, 'e) service \<Rightarrow> (http, answer, 'e) service" where
  "require_password_confirmed env next_service q e =
     (case ht_user (rq_ext q) of
        None \<Rightarrow> (Answer (found LOGIN_PATH), e)
      | Some user \<Rightarrow>
          (case is_password_confirmed_within (ge_checks env) (ge_rfc3339 env) user (ge_timeout env) (ge_clock env e) of
             None \<Rightarrow> (StatusCode 500, e)
           | Some False \<Rightarrow> (Answer (found CONFIRM_PASSWORD_PATH), e)
           | Some True \<Rightarrow> next_service q e))"

definition gate_calls :: "'e gate_env \<Rightarrow> 'e app_call list" where
  "gate_calls env =
     [RegisterMiddleware AUTH (mr_layer require_authenticated),
      RegisterMiddleware VERIFIED (mr_layer require_verified),
      RegisterMiddleware PASSWORD_CONFIRM (mr_layer (require_password_confirmed env))]"

section \<open>The concern tables\<close>

definition get_act :: "'e handler_table \<Rightarrow> string \<Rightarrow> string \<Rightarrow> 'e app_call" where
  "get_act H path name = Action ''GET'' path name (H name)"

definition post_act :: "'e handler_table \<Rightarrow> string \<Rightarrow> string \<Rightarrow> 'e app_call" where
  "post_act H path name = Action ''POST'' path name (H name)"

definition put_act :: "'e handler_table \<Rightarrow> string \<Rightarrow> string \<Rightarrow> 'e app_call" where
  "put_act H path name = Action ''PUT'' path name (H name)"

definition patch_act :: "'e handler_table \<Rightarrow> string \<Rightarrow> string \<Rightarrow> 'e app_call" where
  "patch_act H path name = Action ''PATCH'' path name (H name)"

definition delete_act :: "'e handler_table \<Rightarrow> string \<Rightarrow> string \<Rightarrow> 'e app_call" where
  "delete_act H path name = Action ''DELETE'' path name (H name)"

definition web_routes :: "'e handler_table \<Rightarrow> 'e app_call list" where
  "web_routes H =
     [get_act H ''/'' ''web::index'', Named ''home'',
      get_act H ''/health'' ''web::health'',
      get_act H ''/welcome'' ''web::index'',
      Group [Middleware AUTH, Middleware VERIFIED, get_act H ''/dashboard'' ''web::dashboard'', Named ''dashboard'']]"

definition CHALLENGE_PATH :: string where
  "CHALLENGE_PATH = ''/two-factor-challenge''"

definition two_factor_routes :: "'e handler_table \<Rightarrow> 'e app_call list" where
  "two_factor_routes H =
     [get_act H CHALLENGE_PATH ''two_factor::challenge_page'', Named ''two-factor.login'',
      post_act H CHALLENGE_PATH ''two_factor::challenge_submit'',
      Group
       [Middleware PASSWORD_CONFIRM,
        post_act H ''/user/two-factor-authentication'' ''two_factor::enable'',
        post_act H ''/user/confirmed-two-factor-authentication'' ''two_factor::confirm'',
        delete_act H ''/user/two-factor-authentication'' ''two_factor::disable'',
        get_act H ''/user/two-factor-recovery-codes'' ''two_factor::recovery_codes_show'',
        post_act H ''/user/two-factor-recovery-codes'' ''two_factor::recovery_codes_regenerate'']]"

definition passkey_routes :: "'e handler_table \<Rightarrow> 'e app_call list" where
  "passkey_routes H =
     [get_act H ''/.well-known/passkey-endpoints'' ''passkeys::well_known'',
      post_act H ''/passkeys/login'' ''passkeys::login'',
      Group
       [Middleware PASSWORD_CONFIRM,
        get_act H ''/user/passkeys'' ''passkeys::list'',
        post_act H ''/user/passkeys'' ''passkeys::manage'',
        delete_act H ''/user/passkeys/{id}'' ''passkeys::delete'']]"

definition auth_routes :: "'e handler_table \<Rightarrow> 'e app_call list" where
  "auth_routes H =
     [get_act H ''/login'' ''auth::login_page'', Named ''login'',
      post_act H ''/login'' ''auth::login_submit'',
      post_act H ''/logout'' ''auth::logout'', Named ''logout'',
      get_act H ''/register'' ''auth::register_page'', Named ''register'',
      post_act H ''/register'' ''auth::register_submit'',
      get_act H ''/confirm-password'' ''confirmation::confirm_page'', Named ''password.confirm'',
      post_act H ''/confirm-password'' ''confirmation::confirm_submit'',
      get_act H ''/verify-email'' ''verification::verify_email_page'', Named ''verification.notice'',
      post_act H ''/email/verification-notification'' ''verification::verify_email_resend'',
      get_act H ''/email/verify/{user_id}/{hash}'' ''verification::verify_email_confirm'', Named ''verification.verify'',
      get_act H ''/forgot-password'' ''password_reset::forgot_password_page'', Named ''password.request'',
      post_act H ''/forgot-password'' ''password_reset::forgot_password_submit'', Named ''password.email'',
      get_act H ''/reset-password/{token}'' ''password_reset::reset_password_page'', Named ''password.reset'',
      post_act H ''/reset-password'' ''password_reset::reset_password_submit'', Named ''password.store'']
     @ two_factor_routes H @ passkey_routes H"

definition PROFILE_PATH :: string where
  "PROFILE_PATH = ''/settings/profile''"

definition settings_routes :: "'e handler_table \<Rightarrow> 'e app_call list" where
  "settings_routes H =
     [RedirectTo header_valid ''/settings'' PROFILE_PATH Temporary,
      get_act H PROFILE_PATH ''settings::profile_page'', Named ''profile.edit'',
      patch_act H PROFILE_PATH ''settings::profile_update'', Named ''profile.update'',
      get_act H ''/settings/password'' ''settings::password_page'', Named ''password.edit'',
      put_act H ''/settings/password'' ''settings::password_update'',
      Group [Middleware PASSWORD_CONFIRM, get_act H ''/settings/security'' ''settings::security_page'', Named ''security.edit'']]"

definition console_routes :: "'e handler_table \<Rightarrow> 'e app_call list" where
  "console_routes H = [get_act H ''/console'' ''console::index'', Named ''console.index'']"

definition docs_routes :: "'e handler_table \<Rightarrow> 'e app_call list" where
  "docs_routes H = [get_act H ''/openapi.json'' ''docs::openapi_json'', get_act H ''/docs'' ''docs::docs_ui'']"

definition example_routes :: "'e handler_table \<Rightarrow> 'e app_call list" where
  "example_routes H =
     [get_act H ''/examples/posts'' ''PostController::index'', Named ''examples.posts.index'',
      get_act H ''/examples/posts/{id}'' ''PostController::show'', Named ''examples.posts.show'',
      post_act H ''/examples/posts'' ''PostController::store'', Named ''examples.posts.store'',
      put_act H ''/examples/posts/{id}'' ''PostController::update'', Named ''examples.posts.update'',
      patch_act H ''/examples/posts/{id}'' ''PostController::update'', Named ''examples.posts.update.patch'',
      delete_act H ''/examples/posts/{id}'' ''PostController::destroy'', Named ''examples.posts.destroy'']"

definition debugbar_routes :: "'e handler_table \<Rightarrow> 'e app_call list" where
  "debugbar_routes H =
     [get_act H ''/_debugbar'' ''debugbar::debugbar_ui'', get_act H ''/_debugbar/json'' ''debugbar::debugbar_json'']"

definition queue_routes :: "'e handler_table \<Rightarrow> 'e app_call list" where
  "queue_routes H =
     [Group
       [Middleware AUTH, Middleware VERIFIED,
        get_act H ''/queue'' ''queue_dashboard::ui'',
        get_act H ''/queue/metrics.json'' ''queue_dashboard::metrics_json'',
        get_act H ''/queue/failed.json'' ''queue_dashboard::failed_json'',
        post_act H ''/queue/failed/{id}/retry'' ''queue_dashboard::retry'',
        delete_act H ''/queue/failed/{id}'' ''queue_dashboard::forget'']]"

definition log_routes :: "'e handler_table \<Rightarrow> 'e app_call list" where
  "log_routes H =
     [get_act H ''/_logs'' ''log_viewer::log_viewer_ui'', get_act H ''/_logs/json'' ''log_viewer::log_viewer_json'']"

definition broadcasting_routes :: "'e handler_table \<Rightarrow> 'e app_call list" where
  "broadcasting_routes H =
     [Group [Middleware AUTH, post_act H ''/broadcasting/auth'' ''broadcasting::authorize'']]"

record cargo_features =
  cf_debugbar :: bool
  cf_queue_dashboard :: bool
  cf_log_viewer :: bool
  cf_broadcasting :: bool

definition route_blocks ::
  "cargo_features \<Rightarrow> 'e handler_table \<Rightarrow> 'e app_call list list" where
  "route_blocks F H =
     [web_routes H, auth_routes H, settings_routes H, console_routes H, docs_routes H, example_routes H]
     @ (if cf_debugbar F then [debugbar_routes H] else [])
     @ (if cf_queue_dashboard F then [queue_routes H] else [])
     @ (if cf_log_viewer F then [log_routes H] else [])
     @ (if cf_broadcasting F then [broadcasting_routes H] else [])"

definition table ::
  "cargo_features \<Rightarrow> 'e gate_env \<Rightarrow> 'e handler_table \<Rightarrow> 'e app_router" where
  "table F env H = fold run_calls (gate_calls env # route_blocks F H) router_new"

section \<open>The layers around the router\<close>

definition SESSION_COOKIE_NAME :: string where
  "SESSION_COOKIE_NAME = ''rustasea-session''"

text \<open>\<open>cookies\<close> splits a header into the cookies that parse, by name and value.\<close>

definition session_id_from_headers ::
  "(string \<Rightarrow> (string \<times> string) list) \<Rightarrow> (string \<times> bytes) list \<Rightarrow> string option" where
  "session_id_from_headers cookies hs =
     Option.bind (header_of ''cookie'' hs) (\<lambda>raw. map_of (cookies raw) SESSION_COOKIE_NAME)"

text \<open>\<open>guard\<close> is the guard's \<^verbatim>\<open>parse\<close>, if a guard is wired.\<close>

type_synonym 'e session_parser = "string \<Rightarrow> 'e \<Rightarrow> (AuthError + AuthUser) \<times> 'e"

definition resolve_principal :: "'e session_parser option \<Rightarrow> string \<Rightarrow> 'e \<Rightarrow> AuthUser option \<times> 'e" where
  "resolve_principal guard sid e =
     (case guard of
        None \<Rightarrow> (None, e)
      | Some parse \<Rightarrow> (case parse sid e of (Inl _, e') \<Rightarrow> (None, e') | (Inr u, e') \<Rightarrow> (Some u, e')))"

definition with_session ::
  "(string \<Rightarrow> (string \<times> string) list) \<Rightarrow> 'e session_parser option \<Rightarrow> (http, answer, 'e) service
    \<Rightarrow> (http, answer, 'e) service" where
  "with_session cookies guard inner q e =
     (case session_id_from_headers cookies (ht_headers (rq_ext q)) of
        None \<Rightarrow> inner q e
      | Some sid \<Rightarrow>
          (case resolve_principal guard sid e of
             (None, e') \<Rightarrow> inner q e'
           | (Some u, e') \<Rightarrow> inner (q\<lparr>rq_ext := (rq_ext q)\<lparr>ht_user := Some u\<rparr>\<rparr>) e'))"

definition ends_with :: "string \<Rightarrow> string \<Rightarrow> bool" where
  "ends_with suf s \<longleftrightarrow> suffix suf s"

definition csrf_protected :: "string \<Rightarrow> string \<Rightarrow> bool" where
  "csrf_protected method path \<longleftrightarrow>
     (if method = ''DELETE'' \<and> prefix ''/user/passkeys/'' path then True
      else if method = ''POST'' \<and> prefix ''/queue/failed/'' path \<and> ends_with ''/retry'' path then True
      else if method = ''DELETE'' \<and> prefix ''/queue/failed/'' path then True
      else if prefix ''/examples/posts'' path then method \<in> {''POST'', ''PUT'', ''PATCH'', ''DELETE''}
      else (method, path) \<in> set
        [(''POST'', ''/login''), (''POST'', ''/logout''), (''POST'', ''/register''), (''POST'', ''/confirm-password''),
         (''POST'', ''/email/verification-notification''), (''POST'', ''/forgot-password''), (''POST'', ''/reset-password''),
         (''POST'', ''/two-factor-challenge''), (''POST'', ''/user/two-factor-authentication''),
         (''POST'', ''/user/confirmed-two-factor-authentication''), (''DELETE'', ''/user/two-factor-authentication''),
         (''POST'', ''/user/two-factor-recovery-codes''), (''POST'', ''/user/passkeys''), (''POST'', ''/passkeys/login''),
         (''PATCH'', ''/settings/profile''), (''PUT'', ''/settings/password''), (''POST'', ''/broadcasting/auth'')])"

definition with_csrf :: "string list \<Rightarrow> string \<Rightarrow> (http, answer, 'e) service \<Rightarrow> (http, answer, 'e) service" where
  "with_csrf origins expected_token inner q e =
     (let policy = with_expected_token expected_token (policy_new origins) in
      if csrf_protected (ht_method (rq_ext q)) (rq_path q) then
        (case csrf_check policy (from_request (rq_ext q)) of
           Inl err \<Rightarrow> (csrf_error_response err, e)
         | Inr _ \<Rightarrow> inner q e)
      else inner q e)"

text \<open>\<open>axum\<close> serves the rows, with the layers inside the session layer.\<close>

record 'e app_config =
  ac_features :: cargo_features
  ac_gates :: "'e gate_env"
  ac_cookies :: "string \<Rightarrow> (string \<times> string) list"
  ac_guard :: "'e session_parser option"
  ac_origins :: "string list"
  ac_token :: string

definition compile ::
  "'e app_config \<Rightarrow> ((http, answer, 'e) built_row list \<Rightarrow> unit list \<Rightarrow> (http, answer, 'e) service)
    \<Rightarrow> 'e app_router \<Rightarrow> (http, answer, 'e) service" where
  "compile cfg axum t =
     (case try_into_axum_router (layer_op () t) of
        Inl _ \<Rightarrow> (\<lambda>q e. (StatusCode 500, e))
      | Inr (rows, ls) \<Rightarrow>
          with_csrf (ac_origins cfg) (ac_token cfg) (with_session (ac_cookies cfg) (ac_guard cfg) (axum rows ls)))"

end
