(* ===== verification/App_Table.thy ===== *)
theory App_Table
  imports App_Routes
begin

text \<open>
  The compiled route table of the application: that it builds, row by row as it is declared, for every set of
  cargo features; that the forgery gate covers every state-changing route; and that the gates of the
  groups hold. The table theorem rests on the reference build of \<open>Router_Props\<close>.
\<close>

section \<open>The rows of the table\<close>

text \<open>A row: method, path, middleware and service. The calls that the tables use add a route and the bound
  action for it; \<open>ms\<close> is the pending middleware.\<close>

type_synonym 'e app_row = "string \<times> string \<times> string list \<times> (http, answer, 'e) service"

fun simple_call :: "('x, 'r, 'e, 'l) route_call \<Rightarrow> bool" where
  "simple_call (Named n) = True"
| "simple_call (Middleware m) = True"
| "simple_call (Action m p l h) = (to_ascii_uppercase m \<in> {''GET'', ''POST'', ''PUT'', ''DELETE'', ''PATCH'', ''OPTIONS''})"
| "simple_call (RedirectTo v s t k) = True"
| "simple_call (Group cs) = list_all simple_call cs"
| "simple_call _ = False"

fun pending :: "('x, 'r, 'e, 'l) route_call \<Rightarrow> string list \<Rightarrow> string list" where
  "pending (Middleware m) ms = ms @ [m]"
| "pending _ ms = ms"

fun added_by :: "string list \<Rightarrow> ('x, 'r, 'e, 'l) route_call \<Rightarrow> (string \<times> string \<times> string list \<times> ('x, 'r, 'e) service) list"
  and added :: "string list \<Rightarrow> ('x, 'r, 'e, 'l) route_call list \<Rightarrow> (string \<times> string \<times> string list \<times> ('x, 'r, 'e) service) list" where
  "added_by ms (Action m p l h) = [(to_ascii_uppercase m, join_prefix [] p, ms, h)]"
| "added_by ms (RedirectTo v s t k) =
     [(''GET'', join_prefix [] s, ms, \<lambda>q e. (redirect_response v (redirect_status k) t, e))]"
| "added_by ms (Group cs) = added ms cs"
| "added_by ms _ = []"
| "added ms [] = []"
| "added ms (c # cs) = added_by ms c @ added (pending c ms) cs"

definition is_row :: "RouteEntry \<Rightarrow> string \<times> string \<times> string list \<times> ('x, 'r, 'e) service \<Rightarrow> bool" where
  "is_row entry k \<longleftrightarrow> (case k of (m, p, ms, h) \<Rightarrow> re_method entry = m \<and> re_path entry = p \<and> re_middleware entry = ms
     \<and> re_handler entry \<noteq> None \<and> re_domain entry = None \<and> re_authorizations entry = [])"

definition is_action :: "('x, 'r, 'e) BoundAction \<Rightarrow> string \<times> string \<times> string list \<times> ('x, 'r, 'e) service \<Rightarrow> bool" where
  "is_action a k \<longleftrightarrow> (case k of (m, p, ms, h) \<Rightarrow>
     a = \<lparr>ba_method = m, ba_path = p, ba_domain = None, ba_router = \<lparr>mr_verb = Some m, mr_service = h\<rparr>\<rparr>)"

definition tabled ::
  "string list \<Rightarrow> (string \<times> string \<times> string list \<times> ('x, 'r, 'e) service) list \<Rightarrow> ('x, 'r, 'e, 'l) router \<Rightarrow> bool" where
  "tabled ms ks r \<longleftrightarrow> rt_prefix r = [] \<and> rt_middleware r = ms \<and> rt_authorizations r = [] \<and> rt_domain r = None
     \<and> list_all2 is_row (rt_routes r) ks \<and> list_all2 is_action (rt_actions r) ks"

text \<open>Registries are untouched by the calls.\<close>

definition same_registries :: "('x, 'r, 'e, 'l) router \<Rightarrow> ('x, 'r, 'e, 'l) router \<Rightarrow> bool" where
  "same_registries r r' \<longleftrightarrow> rt_middleware_registry r' = rt_middleware_registry r
     \<and> rt_binding_registry r' = rt_binding_registry r \<and> rt_layers r' = rt_layers r"

lemma to_ascii_uppercase_GET [simp]: "to_ascii_uppercase ''GET'' = ''GET''"
  by code_simp

lemma push_bound:
  assumes "tabled ms ks r"
  shows "tabled ms (ks @ [(to_ascii_uppercase m, join_prefix [] p, ms, h)])
      (bind_last l (to_ascii_uppercase m) \<lparr>mr_verb = Some (to_ascii_uppercase m), mr_service = h\<rparr> (push_route m p None r))"
    and "same_registries r (bind_last l m' mr (push_route m p None r))"
  using assms
  by (auto simp: tabled_def same_registries_def bind_last_def push_route_def update_last_def Let_def is_row_def is_action_def
      intro!: list_all2_appendI)

lemma tabled_batch: "tabled ms ks (begin_batch r) = tabled ms ks r" "same_registries (begin_batch r) r' = same_registries r r'"
  by (simp_all add: tabled_def same_registries_def begin_batch_def)

lemma tabled_named:
  assumes "tabled ms ks r"
  shows "tabled ms ks (named n r)" "same_registries r (named n r)"
proof -
  have rows: "list_all2 is_row (rt_routes r) ks" using assms by (simp add: tabled_def)
  have "list_all2 is_row (map (\<lambda>e. e\<lparr>re_name := v\<rparr>) (drop i (rt_routes r))) (drop i ks)" for i v
    using list_all2_dropI [OF rows, of i] by (auto simp: list_all2_map1 is_row_def elim!: list_all2_mono)
  then have "list_all2 is_row (take i (rt_routes r) @ map (\<lambda>e. e\<lparr>re_name := v\<rparr>) (drop i (rt_routes r))) (take i ks @ drop i ks)" for i v
    by (intro list_all2_appendI list_all2_takeI [OF rows])
  with assms show "tabled ms ks (named n r)" by (simp add: tabled_def named_def Let_def)
  show "same_registries r (named n r)" by (simp add: same_registries_def named_def Let_def)
qed

lemma tabled_middleware: "tabled ms ks r \<Longrightarrow> tabled (ms @ [m]) ks (middleware_op m r)" "same_registries r (middleware_op m r)"
  "same_registries r r"
  by (simp_all add: tabled_def same_registries_def middleware_op_def)

lemma same_registries_trans: "same_registries a b \<Longrightarrow> same_registries b c \<Longrightarrow> same_registries a c"
  by (simp add: same_registries_def)

lemma tabled_action:
  assumes "tabled ms ks r" "simple_call (Action m p l h :: ('x, 'r, 'e, 'l) route_call)"
  shows "tabled ms (ks @ [(to_ascii_uppercase m, join_prefix [] p, ms, h)]) (action_route m p l h r)"
    "same_registries r (action_route m p l h r)"
proof -
  have "into_method_router h m = \<lparr>mr_verb = Some (to_ascii_uppercase m), mr_service = h\<rparr>"
    using assms(2) by (auto simp: into_method_router_def Let_def)
  then show "tabled ms (ks @ [(to_ascii_uppercase m, join_prefix [] p, ms, h)]) (action_route m p l h r)"
    using push_bound(1) [of ms ks "begin_batch r" m p h l] assms(1)
    by (simp add: action_route_def push_action_def tabled_batch)
  show "same_registries r (action_route m p l h r)"
    using push_bound(2) [of ms ks "begin_batch r"] assms(1)
    by (simp add: action_route_def push_action_def tabled_batch)
qed

lemma tabled_redirect:
  assumes "tabled ms ks r"
  shows "tabled ms (ks @ [(''GET'', join_prefix [] s, ms, \<lambda>q e. (redirect_response v (redirect_status k) t, e))]) (push_redirect v s t k r)"
    "same_registries r (push_redirect v s t k r)"
  using push_bound(1) [of ms ks "begin_batch r" "''GET''" s _ "''redirect:'' @ t"] push_bound(2) [of ms ks "begin_batch r"] assms
  by (simp_all add: push_redirect_def tabled_batch)

lemma tabled_run:
  fixes c :: "('x, 'r, 'e, 'l) route_call" and cs :: "('x, 'r, 'e, 'l) route_call list"
  shows "tabled ms ks r \<Longrightarrow> simple_call c \<Longrightarrow>
     tabled (pending c ms) (ks @ added_by ms c) (run_call c r) \<and> same_registries r (run_call c r)"
  "tabled ms ks r \<Longrightarrow> list_all simple_call cs \<Longrightarrow>
     tabled (fold pending cs ms) (ks @ added ms cs) (run_calls cs r) \<and> same_registries r (run_calls cs r)"
proof (induction ms c and ms cs arbitrary: r ks and r ks rule: added_by_added.induct)
  case (1 ms m p l h)
  then show ?case using tabled_action [of ms ks r m p l h] by simp
next
  case (2 ms v s t k)
  then show ?case using tabled_redirect [of ms ks r] by simp
next
  case (3 ms cs)
  have "tabled ms [] (sub_router r)" using 3 by (simp add: tabled_def sub_router_def)
  then have "tabled (fold pending cs ms) (added ms cs) (run_calls cs (sub_router r))"
    "same_registries (sub_router r) (run_calls cs (sub_router r))"
    using "3.IH" [of "[]" "sub_router r"] 3 by simp_all
  with 3 show ?case
    by (auto simp: group_def absorb_def tabled_def same_registries_def sub_router_def intro: list_all2_appendI)
qed (auto simp: tabled_named tabled_middleware, metis append_assoc, metis same_registries_trans)


section \<open>The build of such a table\<close>

definition row_slot :: "string \<times> string \<times> string list \<times> ('x, 'r, 'e) service \<Rightarrow> string \<times> string" where
  "row_slot k = (case k of (m, p, ms, h) \<Rightarrow> (m, p))"

lemma list_all2_map_eq: "list_all2 P xs ys \<Longrightarrow> (\<And>x y. P x y \<Longrightarrow> f x = g y) \<Longrightarrow> map f xs = map g ys"
  by (induction rule: list_all2_induct) auto

lemma list_all2_left: "list_all2 P xs ys \<Longrightarrow> (\<And>x y. P x y \<Longrightarrow> Q x) \<Longrightarrow> list_all Q xs"
  by (induction rule: list_all2_induct) auto

lemma tabled_slots:
  assumes "tabled ms ks r"
  shows "map slot (rt_routes r) = map row_slot ks"
    "map action_key (rt_actions r) = map (\<lambda>k. (fst (row_slot k), snd (row_slot k), None)) ks"
  using assms unfolding tabled_def
  by (auto elim!: list_all2_map_eq simp: is_row_def is_action_def slot_def row_slot_def action_key_def)

lemma tabled_actions_distinct:
  assumes "tabled ms ks r" "distinct (map row_slot ks)"
  shows "distinct (map action_key (rt_actions r))"
proof -
  have "inj (\<lambda>s :: string \<times> string. (fst s, snd s, None :: string option))" by (simp add: inj_on_def prod_eq_iff)
  then have "distinct (map (\<lambda>s. (fst s, snd s, None :: string option)) (map row_slot ks))"
    using assms(2) by (simp only: distinct_map [of _ "map row_slot ks"]) (blast intro: inj_on_subset)
  then show ?thesis unfolding tabled_slots(2) [OF assms(1)] by (simp add: comp_def)
qed

lemma first_slots_distinct: "distinct (map slot es) \<Longrightarrow> slot ` set es \<inter> set seen = {} \<Longrightarrow> first_slots seen es = es"
proof (induction es arbitrary: seen)
  case (Cons e es)
  then have "slot ` set es \<inter> set (seen @ [slot e]) = {}" by auto
  with Cons show ?case by simp
qed simp

lemma get_routes_plain: "list_all (\<lambda>e. re_domain e = None) (rt_routes r) \<Longrightarrow> get_routes r = rt_routes r"
  unfolding get_routes_def by (intro sort_key_id_if_sorted) (auto simp: list_all_iff sorted_iff_nth_mono)

lemma tabled_own:
  assumes "tabled ms ks r" "distinct (map row_slot ks)" "i < length ks" "ks ! i = (m, p, gs, h)"
  shows "own_handler r (rt_routes r ! i) = \<lparr>mr_verb = Some m, mr_service = h\<rparr>"
proof -
  have e: "is_row (rt_routes r ! i) (m, p, gs, h)" and a: "is_action (rt_actions r ! i) (m, p, gs, h)"
    and len: "i < length (rt_actions r)"
    using assms by (auto simp: tabled_def list_all2_conv_all_nth)
  have inj: "inj_on action_key (set (rt_actions r))"
    using tabled_actions_distinct [OF assms(1,2)] by (simp add: distinct_map)
  have uniq: "x = rt_actions r ! i" if "x \<in> set (rt_actions r)" "action_key x = action_key (rt_actions r ! i)" for x
    using inj_onD [OF inj that(2,1)] nth_mem [OF len] by simp
  have key: "action_key (rt_actions r ! i) = entry_key (rt_routes r ! i)"
    using e a by (simp add: is_row_def is_action_def action_key_def entry_key_def)
  have "find (\<lambda>x. action_key x = entry_key (rt_routes r ! i)) (rt_actions r) = Some (rt_actions r ! i)"
  proof (cases "find (\<lambda>x. action_key x = entry_key (rt_routes r ! i)) (rt_actions r)")
    case None
    with key nth_mem [OF len] show ?thesis by (auto simp: find_None_iff)
  next
    case (Some x)
    then have "x \<in> set (rt_actions r)" "action_key x = entry_key (rt_routes r ! i)"
      by (auto simp: find_Some_iff)
    with uniq key Some show ?thesis by simp
  qed
  with e a show ?thesis by (simp add: own_handler_def is_row_def is_action_def)
qed

text \<open>Every row of the table is built, in order, with its own service behind its middleware.\<close>

definition built_as ::
  "('x, 'r, 'e) middleware_registry \<Rightarrow> ('x, 'r, 'e) built_row \<Rightarrow> string \<times> string \<times> string list \<times> ('x, 'r, 'e) service \<Rightarrow> bool" where
  "built_as reg row k \<longleftrightarrow> (case k of (m, p, ms, h) \<Rightarrow> \<exists>fs. resolve_all (mw_resolve reg) ms = Inr fs
     \<and> is_row (br_entry row) k \<and> br_path row = to_axum_path p
     \<and> br_router row = foldr (\<lambda>f. f) fs \<lparr>mr_verb = Some m, mr_service = h\<rparr>)"

lemma apply_binding_empty [simp]: "apply_binding fmempty path t mr = mr"
  by (simp add: apply_binding_def resolve_binders_def List.map_filter_def)

lemma tabled_build:
  assumes r: "tabled [] ks r" "distinct (map row_slot ks)" "rt_binding_registry r = fmempty"
    and gates: "list_all (\<lambda>(m, p, ms, h). \<exists>fs. resolve_all (mw_resolve (rt_middleware_registry r)) ms = Inr fs) ks"
  shows "\<exists>rows. try_into_axum_router r = Inr (rows, rt_layers r) \<and> list_all2 (built_as (rt_middleware_registry r)) rows ks"
proof -
  let ?f = "\<lambda>e. build_entry r e (own_handler r e)"
  have rows: "list_all2 is_row (rt_routes r) ks" using r(1) by (simp add: tabled_def)
  have dist: "distinct (map action_key (rt_actions r))" using r(1,2) by (rule tabled_actions_distinct)
  have "list_all (\<lambda>e. re_domain e = None) (rt_routes r)"
    by (rule list_all2_left [OF rows]) (auto simp: is_row_def)
  then have routes: "first_slots [] (get_routes r) = rt_routes r"
    using r(2) tabled_slots(1) [OF r(1)] by (simp add: get_routes_plain first_slots_distinct)
  have one: "\<exists>row. ?f (rt_routes r ! i) = Inr row \<and> built_as (rt_middleware_registry r) row (ks ! i)"
    if i: "i < length ks" for i
  proof -
    obtain m p ms h where k: "ks ! i = (m, p, ms, h)" by (cases "ks ! i")
    obtain fs where fs: "resolve_all (mw_resolve (rt_middleware_registry r)) ms = Inr fs"
      using gates i k by (auto simp: list_all_length)
    have e: "is_row (rt_routes r ! i) (m, p, ms, h)"
      using rows i k by (simp add: list_all2_conv_all_nth) (metis k)
    show ?thesis
      using e fs r(3) tabled_own [OF r(1,2) i k]
      by (auto simp: build_entry_Inr built_as_def k is_row_def)
  qed
  have len: "length (rt_routes r) = length ks" using rows by (rule list_all2_lengthD)
  then have "\<exists>bs. resolve_all ?f (rt_routes r) = Inr bs"
    using one by (intro resolve_all_total) (auto simp: list_all_length)
  then obtain bs where bs: "resolve_all ?f (rt_routes r) = Inr bs" ..
  then have "list_all2 (built_as (rt_middleware_registry r)) bs ks"
    using resolve_all_Inr_nth [OF bs] one len by (fastforce simp: list_all2_conv_all_nth)
  moreover have "actions_left r [] (rt_actions r)" using dist by (simp add: actions_left_def)
  then have "try_into_axum_router r = Inr (bs, rt_layers r)"
    using build_loop_reference [OF dist, of "[]" "rt_actions r" "get_routes r" "[]"] routes bs
    by (simp add: try_into_axum_router_def)
  ultimately show ?thesis by blast
qed


section \<open>The table of the application\<close>

lemmas table_defs = web_routes_def two_factor_routes_def passkey_routes_def auth_routes_def
  settings_routes_def console_routes_def docs_routes_def example_routes_def debugbar_routes_def queue_routes_def
  log_routes_def broadcasting_routes_def get_act_def post_act_def put_act_def patch_act_def delete_act_def

lemma verbs [simp]: "to_ascii_uppercase ''POST'' = ''POST''"
  "to_ascii_uppercase ''PUT'' = ''PUT''" "to_ascii_uppercase ''PATCH'' = ''PATCH''" "to_ascii_uppercase ''DELETE'' = ''DELETE''"
  by code_simp+

text \<open>A block leaves no middleware behind: the gates inside the groups do not leak.\<close>

definition closed_block :: "('x, 'r, 'e, 'l) route_call list \<Rightarrow> bool" where
  "closed_block cs \<longleftrightarrow> list_all simple_call cs \<and> fold pending cs [] = []"

lemma tabled_blocks:
  "list_all closed_block css \<Longrightarrow> tabled [] ks r \<Longrightarrow>
    tabled [] (ks @ concat (map (added []) css)) (fold run_calls css r) \<and> same_registries r (fold run_calls css r)"
proof (induction css arbitrary: r ks)
  case Nil
  then show ?case by (simp add: same_registries_def)
next
  case (Cons cs css)
  then have "list_all simple_call cs" "fold pending cs [] = []" by (simp_all add: closed_block_def)
  with tabled_run(2) [OF Cons.prems(2), of cs] Cons.prems(1) Cons.IH [of "ks @ added [] cs" "run_calls cs r"]
  show ?case by (auto intro: same_registries_trans)
qed

lemma blocks_closed: "list_all closed_block (route_blocks F H)"
  by (simp add: closed_block_def route_blocks_def table_defs)

definition app_rows :: "cargo_features \<Rightarrow> 'e handler_table \<Rightarrow> 'e app_row list" where
  "app_rows F H = concat (map (added []) (route_blocks F H))"

definition gate_registry :: "'e gate_env \<Rightarrow> (http, answer, 'e) middleware_registry" where
  "gate_registry env = fmupd PASSWORD_CONFIRM (Plain (mr_layer (require_password_confirmed env)))
     (fmupd VERIFIED (Plain (mr_layer require_verified)) (fmupd AUTH (Plain (mr_layer require_authenticated)) fmempty))"

lemma join_prefix_slash: "join_prefix [] (CHR ''/'' # p) = CHR ''/'' # p"
  by (simp add: join_prefix_def starts_slash_def)

lemma table_tabled:
  "tabled [] (app_rows F H) (table F env H) \<and> rt_middleware_registry (table F env H) = gate_registry env
    \<and> rt_binding_registry (table F env H) = fmempty \<and> rt_layers (table F env H) = []"
proof -
  have "tabled [] [] (run_calls (gate_calls env) (router_new))"
    "rt_middleware_registry (run_calls (gate_calls env) (router_new)) = gate_registry env"
    "rt_binding_registry (run_calls (gate_calls env) (router_new)) = fmempty"
    "rt_layers (run_calls (gate_calls env) (router_new)) = []"
    by (simp_all add: gate_calls_def register_middleware_def router_new_def tabled_def gate_registry_def)
  with tabled_blocks [OF blocks_closed, of "[]" "run_calls (gate_calls env) router_new" F H]
  show ?thesis by (simp add: table_def app_rows_def same_registries_def)
qed

definition all_blocks :: "'e handler_table \<Rightarrow> 'e app_call list list" where
  "all_blocks H = route_blocks \<lparr>cf_debugbar = True, cf_queue_dashboard = True, cf_log_viewer = True, cf_broadcasting = True\<rparr> H"

definition block_slots :: "'e app_call list \<Rightarrow> (string \<times> string) list" where
  "block_slots cs = map row_slot (added [] cs)"

lemma block_slots_stub: "map block_slots (all_blocks H) = map block_slots (all_blocks (\<lambda>_. stub_handler :: (http, answer, unit) service))"
  by (simp add: all_blocks_def route_blocks_def table_defs block_slots_def row_slot_def)

lemma all_slots_distinct: "distinct (concat (map block_slots (all_blocks H)))"
  by (subst block_slots_stub) code_simp

lemma distinct_optional:
  "distinct (concat (b @ a1 @ a2 @ a3 @ a4)) \<Longrightarrow>
    distinct (concat (b @ (if f1 then a1 else []) @ (if f2 then a2 else []) @ (if f3 then a3 else []) @ (if f4 then a4 else [])))"
  by auto

lemma app_rows_distinct: "distinct (map row_slot (app_rows F H))"
proof -
  have "map row_slot (app_rows F H) = concat (map block_slots (route_blocks F H))"
    by (simp add: app_rows_def block_slots_def [abs_def] map_concat comp_def)
  moreover have "distinct (concat (map block_slots [web_routes H, auth_routes H, settings_routes H, console_routes H, docs_routes H,
      example_routes H] @ map block_slots [debugbar_routes H] @ map block_slots [queue_routes H] @ map block_slots [log_routes H]
      @ map block_slots [broadcasting_routes H]))"
    using all_slots_distinct [of H] by (simp only: all_blocks_def route_blocks_def cargo_features.simps if_True map_append)
  then have "distinct (concat (map block_slots (route_blocks F H)))"
    unfolding route_blocks_def map_append if_distrib [of "map block_slots"] list.map(1) by (rule distinct_optional)
  ultimately show ?thesis by simp
qed

text \<open>The service of a row behind its gates.\<close>

definition gate_of :: "'e gate_env \<Rightarrow> string \<Rightarrow> (http, answer, 'e) service \<Rightarrow> (http, answer, 'e) service" where
  "gate_of env m =
     (if m = AUTH then require_authenticated else if m = VERIFIED then require_verified
      else require_password_confirmed env)"

definition GATES :: "string list" where
  "GATES = [AUTH, VERIFIED, PASSWORD_CONFIRM]"

lemma mw_resolve_gates: "m \<in> set GATES \<Longrightarrow> mw_resolve (gate_registry env) m = Inr (mr_layer (gate_of env m))"
  by (auto simp: GATES_def gate_registry_def gate_of_def mw_resolve_def AUTH_def VERIFIED_def PASSWORD_CONFIRM_def)

lemma resolve_gates: "set ms \<subseteq> set GATES \<Longrightarrow> resolve_all (mw_resolve (gate_registry env)) ms = Inr (map (\<lambda>m. mr_layer (gate_of env m)) ms)"
  by (induction ms) (auto simp: mw_resolve_gates)

lemma layers_service: "foldr (\<lambda>f. f) (map (\<lambda>m. mr_layer (g m)) ms) \<lparr>mr_verb = v, mr_service = h\<rparr>
    = \<lparr>mr_verb = v, mr_service = foldr g ms h\<rparr>"
  by (induction ms) (simp_all add: mr_layer_def)

lemma app_rows_gates: "list_all (\<lambda>(m, p, ms, h). set ms \<subseteq> set GATES) (app_rows F H)"
  by (simp add: app_rows_def route_blocks_def table_defs GATES_def)

text \<open>The build of the application's table: it never fails, and row by row it is the declared table.\<close>

lemma app_table_rows:
  "\<exists>rows. try_into_axum_router (layer_op () (table F env H)) = Inr (rows, [()])
    \<and> list_all2 (\<lambda>row (m, p, ms, h). re_method (br_entry row) = m \<and> re_path (br_entry row) = p \<and> br_path row = to_axum_path p
        \<and> br_router row = \<lparr>mr_verb = Some m, mr_service = foldr (gate_of env) ms h\<rparr>) rows (app_rows F H)"
proof -
  let ?t = "layer_op () (table F env H)"
  have t: "tabled [] (app_rows F H) ?t" "rt_binding_registry ?t = fmempty" "rt_middleware_registry ?t = gate_registry env"
    "rt_layers ?t = [()]"
    using table_tabled [of F H env] by (simp_all add: tabled_def layer_op_def)
  have "list_all (\<lambda>(m, p, ms, h). \<exists>fs. resolve_all (mw_resolve (rt_middleware_registry ?t)) ms = Inr fs) (app_rows F H)"
    using app_rows_gates [of F H] unfolding t(3) list_all_iff by (auto dest!: bspec simp: resolve_gates)
  from tabled_build [OF t(1) app_rows_distinct t(2) this] obtain rows where rows:
    "try_into_axum_router ?t = Inr (rows, [()])" "list_all2 (built_as (gate_registry env)) rows (app_rows F H)"
    unfolding t(3,4) by blast
  have "list_all2 (\<lambda>row (m, p, ms, h). re_method (br_entry row) = m \<and> re_path (br_entry row) = p \<and> br_path row = to_axum_path p
        \<and> br_router row = \<lparr>mr_verb = Some m, mr_service = foldr (gate_of env) ms h\<rparr>) rows (app_rows F H)"
    using rows(2)
  proof (rule list.rel_mono_strong)
    fix row k
    assume "k \<in> set (app_rows F H)" "built_as (gate_registry env) row k"
    then show "case k of (m, p, ms, h) \<Rightarrow> re_method (br_entry row) = m \<and> re_path (br_entry row) = p \<and> br_path row = to_axum_path p
        \<and> br_router row = \<lparr>mr_verb = Some m, mr_service = foldr (gate_of env) ms h\<rparr>"
      using app_rows_gates [of F H]
      by (auto simp: built_as_def is_row_def list_all_iff resolve_gates layers_service dest!: bspec)
  qed
  with rows(1) show ?thesis by blast
qed


lemma app_row:
  assumes "try_into_axum_router (layer_op () (table F env H)) = Inr (rows, ls)" "row \<in> set rows"
  obtains m p ms h where "(m, p, ms, h) \<in> set (app_rows F H)" "re_method (br_entry row) = m" "re_path (br_entry row) = p"
    "br_path row = to_axum_path p" "br_router row = \<lparr>mr_verb = Some m, mr_service = foldr (gate_of env) ms h\<rparr>"
proof -
  obtain rows' where "try_into_axum_router (layer_op () (table F env H)) = Inr (rows', [()])" and all: "list_all2 (\<lambda>row (m, p, ms, h).
      re_method (br_entry row) = m \<and> re_path (br_entry row) = p \<and> br_path row = to_axum_path p
      \<and> br_router row = \<lparr>mr_verb = Some m, mr_service = foldr (gate_of env) ms h\<rparr>) rows' (app_rows F H)"
    using app_table_rows [of F env H] by blast
  with assms(1) have "rows' = rows" by simp
  from assms(2) obtain i where i: "i < length rows" "rows ! i = row" by (auto simp: in_set_conv_nth)
  obtain m p ms h where k: "app_rows F H ! i = (m, p, ms, h)" by (cases "app_rows F H ! i")
  have "app_rows F H ! i \<in> set (app_rows F H)"
    using all i(1) \<open>rows' = rows\<close> by (intro nth_mem) (simp add: list_all2_conv_all_nth)
  moreover have "case app_rows F H ! i of (m, p, ms, h) \<Rightarrow> re_method (br_entry row) = m
      \<and> re_path (br_entry row) = p \<and> br_path row = to_axum_path p
      \<and> br_router row = \<lparr>mr_verb = Some m, mr_service = foldr (gate_of env) ms h\<rparr>"
    using list_all2_nthD [OF all, of i] i \<open>rows' = rows\<close> by simp
  ultimately show thesis unfolding k by (auto intro: that)
qed

section \<open>The forgery gate covers the table\<close>

text \<open>Axum's matching of a translated path: a segment \<open>:name\<close> takes any segment that is not empty.\<close>

definition segment_matches :: "string \<Rightarrow> string \<Rightarrow> bool" where
  "segment_matches t u \<longleftrightarrow> t = u \<or> (t \<noteq> [] \<and> hd t = CHR '':'' \<and> u \<noteq> [])"

definition path_matches :: "string \<Rightarrow> string \<Rightarrow> bool" where
  "path_matches template path \<longleftrightarrow> list_all2 segment_matches (split_on (CHR ''/'') template) (split_on (CHR ''/'') path)"

fun join_on :: "char \<Rightarrow> string list \<Rightarrow> string" where
  "join_on c [] = []"
| "join_on c [u] = u"
| "join_on c (u # v # us) = u @ c # join_on c (v # us)"

lemma join_split: "join_on c (split_on c s) = s"
proof (induction s)
  case (Cons x xs)
  then show ?case
    by (cases "split_on c xs"; cases "tl (split_on c xs)") (auto simp: neq_Nil_conv)
qed simp

text \<open>Every request that a state-changing row takes is one that the gate looks at.\<close>

definition covered :: "string \<times> string \<Rightarrow> bool" where
  "covered k \<longleftrightarrow> (case k of (m, p) \<Rightarrow> to_ascii_uppercase m = m \<and> (m \<in> set SAFE_METHODS
     \<or> (\<forall>us. list_all2 segment_matches (split_on (CHR ''/'') (to_axum_path p)) us \<longrightarrow> csrf_protected m (join_on (CHR ''/'') us))))"

lemma coveredD:
  assumes "covered (m, p)" "m \<notin> set SAFE_METHODS" "path_matches (to_axum_path p) path"
  shows "csrf_protected m path"
  using assms join_split [of "CHR ''/''" path] unfolding covered_def path_matches_def by fastforce

lemmas covered_simps = join_prefix_slash CHALLENGE_PATH_def PROFILE_PATH_def SAFE_METHODS_def covered_def to_axum_path.simps
  list_all2_Cons1 csrf_protected_def ends_with_def suffix_def segment_matches_def block_slots_def row_slot_def

lemma auth_covered: "list_all covered (block_slots (auth_routes H))"
  by (auto simp add: table_defs covered_simps)

lemma settings_covered: "list_all covered (block_slots (settings_routes H))"
  by (auto simp add: table_defs covered_simps)

lemma example_covered: "list_all covered (block_slots (example_routes H))"
  by (auto simp add: table_defs covered_simps)

lemma queue_covered: "list_all covered (block_slots (queue_routes H))"
  by (auto simp add: table_defs covered_simps)

lemma reading_covered: "list_all covered (block_slots (web_routes H))" "list_all covered (block_slots (console_routes H))"
  "list_all covered (block_slots (docs_routes H))" "list_all covered (block_slots (debugbar_routes H))"
  "list_all covered (block_slots (log_routes H))"
  by (simp_all add: table_defs block_slots_def row_slot_def covered_def SAFE_METHODS_def)

lemma broadcasting_covered: "list_all covered (block_slots (broadcasting_routes H))"
  by (auto simp add: table_defs covered_simps)

lemma app_rows_covered: "list_all covered (map row_slot (app_rows F H))"
proof -
  have "list_all (\<lambda>cs. list_all covered (block_slots cs)) (route_blocks F H)"
    by (simp add: route_blocks_def auth_covered settings_covered example_covered queue_covered reading_covered broadcasting_covered)
  then show ?thesis by (auto simp: app_rows_def block_slots_def list_all_iff)
qed

text \<open>C3. The forgery gate covers the application: for every set of features and all handlers the route table
  compiles, and a request with a state-changing method that some row of the table takes - whatever the values of
  its path parameters - gets past the gate only with the configured token in its header and, when the
  browser marks it as cross-site, with an origin of the list; otherwise the answer is the refusal and nothing
  else runs.\<close>

theorem app_forgery_gate:
  assumes "try_into_axum_router (layer_op () (table (ac_features cfg) (ac_gates cfg) H)) = Inr (rows, ls)" "row \<in> set rows"
    and "ht_method (rq_ext q) = re_method (br_entry row)" "re_method (br_entry row) \<notin> set SAFE_METHODS"
    and "path_matches (br_path row) (rq_path q)"
  shows "compile cfg axum (table (ac_features cfg) (ac_gates cfg) H) q e =
    (if csrf_admits (ac_origins cfg) (Some (ac_token cfg)) (rq_ext q)
     then with_session (ac_cookies cfg) (ac_guard cfg) (axum rows ls) q e
     else (csrf_error_response (projl (csrf_check (with_expected_token (ac_token cfg) (policy_new (ac_origins cfg)))
       (from_request (rq_ext q)))), e))"
proof -
  obtain m p ms h where row: "(m, p, ms, h) \<in> set (app_rows (ac_features cfg) H)" "re_method (br_entry row) = m"
    "br_path row = to_axum_path p"
    using assms(1,2) by (rule app_row)
  have "covered (m, p)"
    using app_rows_covered [of "ac_features cfg" H] row(1) by (fastforce simp: list_all_iff row_slot_def)
  then have protected: "csrf_protected (ht_method (rq_ext q)) (rq_path q)"
    using row assms(3-5) coveredD [of m p "rq_path q"] by simp
  let ?p = "with_expected_token (ac_token cfg) (policy_new (ac_origins cfg))"
  have "to_ascii_uppercase m = m"
    using \<open>covered (m, p)\<close> by (simp add: covered_def)
  then have admits: "csrf_check ?p (from_request (rq_ext q)) = Inr () \<longleftrightarrow>
      csrf_admits (ac_origins cfg) (Some (ac_token cfg)) (rq_ext q)"
    using assms(3,4) row(2) csrf_check_iff [of ?p "rq_ext q"] by (simp add: with_expected_token_def policy_new_def)
  have "compile cfg axum (table (ac_features cfg) (ac_gates cfg) H) q e =
      (case csrf_check ?p (from_request (rq_ext q)) of
         Inl err \<Rightarrow> (csrf_error_response err, e)
       | Inr _ \<Rightarrow> with_session (ac_cookies cfg) (ac_guard cfg) (axum rows ls) q e)"
    using assms(1) protected by (simp add: compile_def with_csrf_def Let_def)
  then show ?thesis
    using admits by (cases "csrf_check ?p (from_request (rq_ext q))") simp_all
qed


section \<open>The gates\<close>

text \<open>The paths that need a verified user, and those that need a fresh password confirmation; channel
  authorization needs a user.\<close>

definition needs_verified :: "string \<Rightarrow> bool" where
  "needs_verified p \<longleftrightarrow> p = ''/dashboard'' \<or> prefix ''/queue'' p"

definition needs_confirmation :: "string \<Rightarrow> bool" where
  "needs_confirmation p \<longleftrightarrow> p = ''/settings/security'' \<or> prefix ''/user/'' p"

definition needs_user :: "string \<Rightarrow> bool" where
  "needs_user p \<longleftrightarrow> needs_verified p \<or> needs_confirmation p \<or> p = ''/broadcasting/auth''"

definition gate_refusal :: "'e gate_env \<Rightarrow> string \<Rightarrow> AuthUser option \<Rightarrow> 'e \<Rightarrow> answer response option" where
  "gate_refusal env p user e =
     (case user of
        None \<Rightarrow> Some (Answer (found LOGIN_PATH))
      | Some u \<Rightarrow>
          if needs_verified p \<and> au_email_verified_at u = None then Some (Answer (found VERIFY_EMAIL_PATH))
          else if needs_confirmation p then
            (case is_password_confirmed_within (ge_checks env) (ge_rfc3339 env) u (ge_timeout env) (ge_clock env e) of
               None \<Rightarrow> Some (StatusCode 500)
             | Some ok \<Rightarrow> if ok then None else Some (Answer (found CONFIRM_PASSWORD_PATH)))
          else None)"

lemma app_rows_required:
  "list_all (\<lambda>(m, p, ms, h). needs_user p \<longrightarrow>
      ms = (if needs_verified p then [AUTH, VERIFIED] else if needs_confirmation p then [PASSWORD_CONFIRM] else [AUTH])
      \<and> (\<exists>name. h = H name)) (app_rows F H)"
  by (auto simp: app_rows_def route_blocks_def table_defs join_prefix_slash CHALLENGE_PATH_def PROFILE_PATH_def
      needs_user_def needs_verified_def needs_confirmation_def)

lemma gates_refuse:
  assumes "needs_user p"
  shows "foldr (gate_of env) (if needs_verified p then [AUTH, VERIFIED] else if needs_confirmation p then [PASSWORD_CONFIRM] else [AUTH]) h q e
    = (case gate_refusal env p (ht_user (rq_ext q)) e of Some r \<Rightarrow> (r, e) | None \<Rightarrow> h q e)"
proof -
  have "needs_verified p \<Longrightarrow> \<not> needs_confirmation p"
    by (auto simp: needs_verified_def needs_confirmation_def prefix_def)
  moreover have "AUTH \<noteq> VERIFIED" "AUTH \<noteq> PASSWORD_CONFIRM" "VERIFIED \<noteq> PASSWORD_CONFIRM"
    by (simp_all add: AUTH_def VERIFIED_def PASSWORD_CONFIRM_def)
  ultimately show ?thesis
    by (auto simp: gate_of_def gate_refusal_def require_authenticated_def require_verified_def require_password_confirmed_def
        is_email_verified_def split: option.splits bool.splits)
qed


section \<open>Examples\<close>

definition demo_features :: cargo_features where
  "demo_features = \<lparr>cf_debugbar = False, cf_queue_dashboard = True, cf_log_viewer = False, cf_broadcasting = True\<rparr>"

definition demo_gate_env :: "unit gate_env" where
  "demo_gate_env = \<lparr>ge_checks = False, ge_rfc3339 = (\<lambda>_. None), ge_timeout = 10800, ge_clock = (\<lambda>_. 1000)\<rparr>"

definition demo_handlers :: "unit handler_table" where
  "demo_handlers name = (\<lambda>q e. (PlainText name, e))"

definition demo_app :: "unit app_config" where
  "demo_app = \<lparr>ac_features = demo_features, ac_gates = demo_gate_env, ac_cookies = (\<lambda>_. []), ac_guard = None,
     ac_origins = [''https://app.test''], ac_token = ''secret''\<rparr>"

definition demo_post :: "string \<Rightarrow> http request" where
  "demo_post path = \<lparr>rq_path = path, rq_ext = \<lparr>ht_method = ''POST'', ht_headers = [(''x-csrf-token'', ''guess'')], ht_query = None,
     ht_body = [], ht_peer = None, ht_user = None\<rparr>\<rparr>"

lemma demo_row:
  assumes "(m, p, ms, h) \<in> set (app_rows demo_features demo_handlers)"
  obtains rows row where "try_into_axum_router (layer_op () (table demo_features demo_gate_env demo_handlers)) = Inr (rows, [()])"
    "row \<in> set rows" "re_method (br_entry row) = m" "re_path (br_entry row) = p" "br_path row = to_axum_path p"
proof -
  obtain rows where rows: "try_into_axum_router (layer_op () (table demo_features demo_gate_env demo_handlers)) = Inr (rows, [()])"
    and all: "list_all2 (\<lambda>row (m, p, ms, h). re_method (br_entry row) = m \<and> re_path (br_entry row) = p \<and> br_path row = to_axum_path p
        \<and> br_router row = \<lparr>mr_verb = Some m, mr_service = foldr (gate_of demo_gate_env) ms h\<rparr>) rows (app_rows demo_features demo_handlers)"
    using app_table_rows [of demo_features demo_gate_env demo_handlers] by blast
  obtain i where i: "i < length (app_rows demo_features demo_handlers)" "app_rows demo_features demo_handlers ! i = (m, p, ms, h)"
    using assms by (auto simp: in_set_conv_nth)
  then show thesis
    using list_all2_nthD2 [OF all, of i] list_all2_lengthD [OF all] by (intro that [OF rows, of "rows ! i"]) auto
qed

lemma demo_rows:
  "(''POST'', ''/queue/failed/{id}/retry'', [AUTH, VERIFIED], demo_handlers ''queue_dashboard::retry'') \<in> set (app_rows demo_features demo_handlers)"
  by (simp add: app_rows_def route_blocks_def demo_features_def table_defs join_prefix_slash)

theorem app_forgery_gate_witness:
  "\<exists>err. compile demo_app (\<lambda>_ _ q e. (PlainText ''reached'', e)) (table demo_features demo_gate_env demo_handlers)
    (demo_post ''/queue/failed/7/retry'') () = (csrf_error_response err, ())"
proof -
  obtain rows row where row: "try_into_axum_router (layer_op () (table demo_features demo_gate_env demo_handlers)) = Inr (rows, [()])"
    "row \<in> set rows" "re_method (br_entry row) = ''POST''" "br_path row = to_axum_path ''/queue/failed/{id}/retry''"
    using demo_rows by (rule demo_row)
  have "path_matches (to_axum_path ''/queue/failed/{id}/retry'') ''/queue/failed/7/retry''" by code_simp
  moreover have "\<not> csrf_admits (ac_origins demo_app) (Some (ac_token demo_app)) (rq_ext (demo_post ''/queue/failed/7/retry''))"
    by (simp add: csrf_admits_def demo_app_def demo_post_def header_of_def header_text_def CSRF_HEADER_def)
  ultimately show ?thesis
    using app_forgery_gate [of demo_app demo_handlers rows "[()]" row "demo_post ''/queue/failed/7/retry''" "\<lambda>_ _ q e. (PlainText ''reached'', e)" "()"] row
    by (auto simp: demo_app_def demo_post_def SAFE_METHODS_def)
qed


end
