(* ===== verification/Validation.thy ===== *)
theory Validation
  imports Percent "HOL-Library.Char_ord" "HOL-Library.List_Lexorder"
begin

text \<open>
  Validation, \<^verbatim>\<open>rustasea-validation/src\<close>: rule strings and their evaluation
  (\<^verbatim>\<open>rules/mod.rs\<close>, \<^verbatim>\<open>rules/support.rs\<close>), strict comparison (\<^verbatim>\<open>strict.rs\<close>),
  the password policy (\<^verbatim>\<open>password.rs\<close>), contexts (\<^verbatim>\<open>context.rs\<close>), failures and the
  error bag (\<^verbatim>\<open>failure.rs\<close>, \<^verbatim>\<open>error_bag.rs\<close>), and the time zone check it calls
  (\<^verbatim>\<open>rustasea-timezone/src/mapper.rs\<close>).

  The JSON text codec, the email check of the \<^verbatim>\<open>validator\<close> crate, the zone table of
  \<^verbatim>\<open>chrono-tz\<close>, the Unicode classes beyond ASCII and the debug form of strings are fields of
  the environment. A JSON number is its canonical text. The fields of a rule set are a hash map: the
  association list stands for some order of iteration.
\<close>

section \<open>Values\<close>

record val_env =
  ve_parse_json :: "string \<Rightarrow> json_value option"
  ve_print_json :: "json_value \<Rightarrow> string"
  ve_email :: "string \<Rightarrow> bool"
  ve_tz :: "string \<Rightarrow> bool"
  ve_alnum :: "string \<Rightarrow> bool"
  ve_white :: "string \<Rightarrow> bool"
  ve_debug :: "string \<Rightarrow> string"

definition json_get :: "json_value \<Rightarrow> string \<Rightarrow> json_value option" where
  "json_get v k = (case v of JObject kvs \<Rightarrow> map_of kvs k | _ \<Rightarrow> None)"

fun json_as_str :: "json_value \<Rightarrow> string option" where
  "json_as_str (JString s) = Some s"
| "json_as_str _ = None"

text \<open>\<^verbatim>\<open>str::chars\<close>: a byte with the continuation bytes after it.\<close>

definition is_cont :: "char \<Rightarrow> bool" where
  "is_cont c \<longleftrightarrow> cont_byte (of_char c)"

function utf8_chars :: "string \<Rightarrow> string list" where
  "utf8_chars [] = []"
| "utf8_chars (c # cs) = (c # takeWhile is_cont cs) # utf8_chars (dropWhile is_cont cs)"
  by pat_completeness auto
termination
  by (relation "measure length") (auto simp: le_imp_less_Suc length_dropWhile_le)

definition is_ascii_lower :: "string \<Rightarrow> bool" where
  "is_ascii_lower ch \<longleftrightarrow> length ch = 1 \<and> 97 \<le> (of_char (hd ch) :: nat) \<and> (of_char (hd ch) :: nat) \<le> 122"

definition is_ascii_upper :: "string \<Rightarrow> bool" where
  "is_ascii_upper ch \<longleftrightarrow> length ch = 1 \<and> 65 \<le> (of_char (hd ch) :: nat) \<and> (of_char (hd ch) :: nat) \<le> 90"

definition is_ascii_number :: "string \<Rightarrow> bool" where
  "is_ascii_number ch \<longleftrightarrow> length ch = 1 \<and> is_digit (hd ch)"

definition is_ascii_letter :: "string \<Rightarrow> bool" where
  "is_ascii_letter ch \<longleftrightarrow> is_ascii_lower ch \<or> is_ascii_upper ch"

definition is_alphanumeric :: "val_env \<Rightarrow> string \<Rightarrow> bool" where
  "is_alphanumeric env ch \<longleftrightarrow>
     (if length ch = 1 then is_ascii_letter ch \<or> is_ascii_number ch else ve_alnum env ch)"

definition is_whitespace :: "val_env \<Rightarrow> string \<Rightarrow> bool" where
  "is_whitespace env ch \<longleftrightarrow> (if length ch = 1 then is_ws (hd ch) else ve_white env ch)"

section \<open>Strict comparison\<close>

record StrictValue =
  sv_kind :: string
  sv_raw :: string

definition strict_of :: "val_env \<Rightarrow> json_value \<Rightarrow> StrictValue" where
  "strict_of env v =
     (case v of
        JNull \<Rightarrow> \<lparr>sv_kind = ''null'', sv_raw = ''null''\<rparr>
      | JBool b \<Rightarrow> \<lparr>sv_kind = ''boolean'', sv_raw = (if b then ''true'' else ''false'')\<rparr>
      | JNumber n \<Rightarrow> \<lparr>sv_kind = ''number'', sv_raw = n\<rparr>
      | JString s \<Rightarrow> \<lparr>sv_kind = ''string'', sv_raw = s\<rparr>
      | JArray _ \<Rightarrow> \<lparr>sv_kind = ''array'', sv_raw = ve_print_json env v\<rparr>
      | JObject _ \<Rightarrow> \<lparr>sv_kind = ''object'', sv_raw = ve_print_json env v\<rparr>)"

definition strict_eq :: "StrictValue \<Rightarrow> StrictValue \<Rightarrow> bool" where
  "strict_eq a b \<longleftrightarrow> sv_kind a = sv_kind b \<and> sv_raw a = sv_raw b"

text \<open>\<^verbatim>\<open>str::contains\<close>.\<close>

fun has_substring :: "string \<Rightarrow> string \<Rightarrow> bool" where
  "has_substring [] n = (n = [])"
| "has_substring (c # s) n = (take (length n) (c # s) = n \<or> has_substring s n)"

definition contains_strict :: "val_env \<Rightarrow> json_value \<Rightarrow> json_value \<Rightarrow> bool" where
  "contains_strict env haystack needle =
     (let n = strict_of env needle in
      case haystack of
        JArray items \<Rightarrow> list_ex (\<lambda>item. strict_eq (strict_of env item) n) items
      | JString s \<Rightarrow> sv_kind n = ''string'' \<and> has_substring s (sv_raw n)
      | _ \<Rightarrow> False)"

definition in_array_strict :: "val_env \<Rightarrow> json_value \<Rightarrow> json_value \<Rightarrow> bool" where
  "in_array_strict env allow_list v =
     (let x = strict_of env v in
      case allow_list of
        JArray items \<Rightarrow> list_ex (\<lambda>item. strict_eq (strict_of env item) x) items
      | _ \<Rightarrow> False)"

definition doesnt_contain :: "val_env \<Rightarrow> json_value \<Rightarrow> json_value \<Rightarrow> bool" where
  "doesnt_contain env haystack needle \<longleftrightarrow> \<not> contains_strict env haystack needle"

definition matches_strict :: "val_env \<Rightarrow> json_value \<Rightarrow> json_value \<Rightarrow> bool" where
  "matches_strict env a b \<longleftrightarrow> strict_eq (strict_of env a) (strict_of env b)"

section \<open>Failures\<close>

record ValidationError =
  er_code :: string
  er_message :: string
  er_path :: "string option"

definition error_new :: "string \<Rightarrow> string \<Rightarrow> ValidationError" where
  "error_new code message = \<lparr>er_code = code, er_message = message, er_path = None\<rparr>"

datatype RuleError = MissingContext string string | Unsupported string string string

fun rule_error_field :: "RuleError \<Rightarrow> string" where
  "rule_error_field (MissingContext f _) = f"
| "rule_error_field (Unsupported f _ _) = f"

fun rule_error_code :: "RuleError \<Rightarrow> string" where
  "rule_error_code (MissingContext _ _) = ''missing_context''"
| "rule_error_code (Unsupported _ _ _) = ''unsupported_rule''"

definition humanize :: "string \<Rightarrow> string" where
  "humanize f = map (\<lambda>c. if c = CHR ''_'' \<or> c = CHR ''.'' then CHR '' '' else c) f"

fun rule_error_message :: "RuleError \<Rightarrow> string" where
  "rule_error_message (MissingContext f rule) =
     ''The '' @ humanize f @ '' could not be validated: the `'' @ rule @ ''` rule requires a validation context.''"
| "rule_error_message (Unsupported f _ detail) =
     ''The '' @ humanize f @ '' could not be validated: '' @ detail @ ''.''"

definition to_validation_error :: "RuleError \<Rightarrow> ValidationError" where
  "to_validation_error e = error_new (rule_error_code e) (rule_error_message e)"

text \<open>The error bag: errors by field, fields in order of their first error. It is a \<^verbatim>\<open>BTreeMap\<close>, so the
  body lists the fields sorted.\<close>

type_synonym ErrorBag = "(string \<times> ValidationError list) list"

definition bag_add :: "string \<Rightarrow> ValidationError \<Rightarrow> ErrorBag \<Rightarrow> ErrorBag" where
  "bag_add f e bag =
     hm_insert f ((case hm_get bag f of None \<Rightarrow> [] | Some es \<Rightarrow> es) @ [e]) bag"

definition bag_get :: "ErrorBag \<Rightarrow> string \<Rightarrow> ValidationError list" where
  "bag_get bag f = (case hm_get bag f of None \<Rightarrow> [] | Some es \<Rightarrow> es)"

definition bag_total :: "ErrorBag \<Rightarrow> nat" where
  "bag_total bag = sum_list (map (\<lambda>(f, es). length es) bag)"

definition bag_merge :: "ErrorBag \<Rightarrow> ErrorBag \<Rightarrow> ErrorBag" where
  "bag_merge bag other = fold (\<lambda>(f, es) b. hm_insert f (bag_get b f @ es) b) other bag"

definition into_json_body :: "ErrorBag \<Rightarrow> json_value" where
  "into_json_body bag =
     JObject [(''message'', JString ''The given data was invalid.''),
       (''errors'', JObject (map (\<lambda>(f, es). (f, JArray (map (\<lambda>e. JString (er_message e)) es))) (sort_key fst bag)))]"

datatype RuleFailure = Invalid ValidationError | ContextError RuleError

datatype ValidationFailure = InvalidBag ErrorBag | RuleFailed RuleError

fun into_error_bag :: "ValidationFailure \<Rightarrow> ErrorBag" where
  "into_error_bag (InvalidBag bag) = bag"
| "into_error_bag (RuleFailed e) = bag_add (rule_error_field e) (to_validation_error e) []"

section \<open>Contexts\<close>

record val_ctx =
  vc_is_unique :: "string \<Rightarrow> string \<Rightarrow> string \<Rightarrow> string option \<Rightarrow> bool option"
  vc_current_password :: "string \<Rightarrow> bool option"

definition NoContext :: val_ctx where
  "NoContext = \<lparr>vc_is_unique = (\<lambda>_ _ _ _. None), vc_current_password = (\<lambda>_. None)\<rparr>"

record MemoryContext =
  mc_taken :: "(string \<times> string \<times> string) list"
  mc_owners :: "((string \<times> string \<times> string) \<times> string) list"
  mc_password :: "string option"

definition memory_context :: "MemoryContext \<Rightarrow> val_ctx" where
  "memory_context m =
     \<lparr>vc_is_unique = (\<lambda>table column v ignore_id.
        case map_of (mc_owners m) (table, column, v) of
          Some owner \<Rightarrow> Some (ignore_id = Some owner)
        | None \<Rightarrow> Some ((table, column, v) \<notin> set (mc_taken m))),
      vc_current_password = (\<lambda>plaintext. map_option (\<lambda>p. p = plaintext) (mc_password m))\<rparr>"

section \<open>Password policy\<close>

record PasswordPolicy =
  pp_min_length :: "nat option"
  pp_letters :: bool
  pp_mixed_case :: bool
  pp_numbers :: bool
  pp_symbols :: bool
  pp_uncompromised :: bool

definition policy_none :: PasswordPolicy where
  "policy_none = \<lparr>pp_min_length = None, pp_letters = False, pp_mixed_case = False, pp_numbers = False,
     pp_symbols = False, pp_uncompromised = False\<rparr>"

definition policy_default :: PasswordPolicy where
  "policy_default = policy_none\<lparr>pp_min_length := Some 12\<rparr>"

definition policy_production :: PasswordPolicy where
  "policy_production = policy_none\<lparr>pp_min_length := Some 12, pp_mixed_case := True, pp_letters := True,
     pp_numbers := True, pp_symbols := True\<rparr>"

text \<open>A violation is its code and message.\<close>

definition violations :: "val_env \<Rightarrow> PasswordPolicy \<Rightarrow> string \<Rightarrow> (string \<times> string) list" where
  "violations env p candidate =
     (let chars = utf8_chars candidate in
      (case pp_min_length p of
         Some m \<Rightarrow> if length chars < m
           then [(''password_min'', ''The password must be at least '' @ show_nat m @ '' characters.'')] else []
       | None \<Rightarrow> [])
      @ (if pp_letters p \<and> \<not> list_ex is_ascii_letter chars
         then [(''password_letters'', ''The password must contain at least one letter.'')] else [])
      @ (if pp_mixed_case p \<and> \<not> (list_ex is_ascii_lower chars \<and> list_ex is_ascii_upper chars)
         then [(''password_mixed_case'', ''The password must contain both uppercase and lowercase letters.'')] else [])
      @ (if pp_numbers p \<and> \<not> list_ex is_ascii_number chars
         then [(''password_numbers'', ''The password must contain at least one number.'')] else [])
      @ (if pp_symbols p \<and> \<not> list_ex (\<lambda>c. \<not> is_alphanumeric env c \<and> \<not> is_whitespace env c) chars
         then [(''password_symbols'', ''The password must contain at least one symbol.'')] else []))"

definition is_satisfied_by :: "val_env \<Rightarrow> PasswordPolicy \<Rightarrow> string \<Rightarrow> bool" where
  "is_satisfied_by env p candidate \<longleftrightarrow> violations env p candidate = [] \<and> \<not> pp_uncompromised p"

section \<open>Time zones\<close>

definition ALIASES :: "(string \<times> string) list" where
  "ALIASES = [(''PST'', ''America/Los_Angeles''), (''EST'', ''America/New_York''), (''CST'', ''America/Chicago''),
     (''MST'', ''America/Denver''), (''GMT'', ''Etc/GMT'')]"

definition tz_validate :: "val_env \<Rightarrow> string \<Rightarrow> bool" where
  "tz_validate env name =
     (let trimmed = trim name in
      trimmed \<noteq> [] \<and>
      ve_tz env (case List.find (\<lambda>(alias, _). to_ascii_lowercase alias = to_ascii_lowercase trimmed) ALIASES of
          Some (_, canonical) \<Rightarrow> canonical
        | None \<Rightarrow> trimmed))"

definition DEFAULT_TIMEZONE :: string where
  "DEFAULT_TIMEZONE = ''UTC''"

definition tz_resolve :: "val_env \<Rightarrow> string option \<Rightarrow> string option \<Rightarrow> string option \<Rightarrow> string \<Rightarrow> string" where
  "tz_resolve env user session header app_default =
     (case List.find (tz_validate env) (concat (map (\<lambda>x. case x of None \<Rightarrow> [] | Some n \<Rightarrow> [n]) [user, session, header])) of
        Some name \<Rightarrow> trim name
      | None \<Rightarrow> if tz_validate env app_default then trim app_default else DEFAULT_TIMEZONE)"

section \<open>Rules\<close>

fun value_len :: "json_value \<Rightarrow> nat" where
  "value_len (JString s) = length (utf8_chars s)"
| "value_len (JArray a) = length a"
| "value_len (JObject kvs) = length kvs"
| "value_len (JNumber n) = length n"
| "value_len _ = 0"

definition parse_arg :: "string option \<Rightarrow> nat option" where
  "parse_arg arg = Option.bind arg (\<lambda>a. parse_u64 (trim a))"

definition parse_list :: "string option \<Rightarrow> string list" where
  "parse_list arg =
     (case arg of None \<Rightarrow> [] | Some a \<Rightarrow> filter (\<lambda>s. s \<noteq> []) (map trim (split_on (CHR '','') a)))"

definition parse_needle :: "val_env \<Rightarrow> string option \<Rightarrow> json_value" where
  "parse_needle env arg =
     (case arg of
        None \<Rightarrow> JNull
      | Some a \<Rightarrow> (case ve_parse_json env a of Some v \<Rightarrow> v | None \<Rightarrow> JString a))"

definition invalid :: "string \<Rightarrow> string \<Rightarrow> RuleFailure" where
  "invalid code message = Invalid (error_new code message)"

definition rule_confirmed :: "string \<Rightarrow> json_value option \<Rightarrow> json_value \<Rightarrow> RuleFailure list" where
  "rule_confirmed f v whole =
     (case json_get whole (f @ ''_confirmation'') of
        None \<Rightarrow> [invalid ''confirmed'' (''The '' @ humanize f @ '' confirmation is missing.'')]
      | Some confirmation \<Rightarrow>
          if v = Some confirmation then []
          else [invalid ''confirmed'' (''The '' @ humanize f @ '' confirmation does not match.'')])"

definition rule_password :: "val_env \<Rightarrow> string \<Rightarrow> json_value \<Rightarrow> PasswordPolicy \<Rightarrow> RuleFailure list" where
  "rule_password env f present policy =
     (case json_as_str present of
        None \<Rightarrow> [invalid ''password'' (''The '' @ humanize f @ '' must be a string.'')]
      | Some candidate \<Rightarrow>
          if pp_uncompromised policy then
            [ContextError (Unsupported f ''password''
               ''the `uncompromised` check requires a breach-list checker that this crate does not provide'')]
          else map (\<lambda>(code, message). invalid code message) (violations env policy candidate))"

definition rule_unique :: "string \<Rightarrow> json_value \<Rightarrow> string option \<Rightarrow> val_ctx \<Rightarrow> RuleFailure list" where
  "rule_unique f present arg ctx =
     (case parse_list arg of
        table # column # rest \<Rightarrow>
          (case json_as_str present of
             None \<Rightarrow> [invalid ''unique'' (''The '' @ humanize f @ '' must be a string.'')]
           | Some v \<Rightarrow>
               (case vc_is_unique ctx table column v (case rest of [] \<Rightarrow> None | i # _ \<Rightarrow> Some i) of
                  Some True \<Rightarrow> []
                | Some False \<Rightarrow> [invalid ''unique'' (''The '' @ humanize f @ '' has already been taken.'')]
                | None \<Rightarrow> [ContextError (MissingContext f ''unique'')]))
      | _ \<Rightarrow> [ContextError (Unsupported f ''unique'' ''the `unique` rule requires `unique:table,column[,ignore_id]`'')])"

definition rule_current_password :: "string \<Rightarrow> json_value \<Rightarrow> val_ctx \<Rightarrow> RuleFailure list" where
  "rule_current_password f present ctx =
     (case json_as_str present of
        None \<Rightarrow> [invalid ''current_password'' (''The '' @ humanize f @ '' must be a string.'')]
      | Some v \<Rightarrow>
          (case vc_current_password ctx v of
             Some True \<Rightarrow> []
           | Some False \<Rightarrow> [invalid ''current_password'' ''The provided password does not match your current password.'']
           | None \<Rightarrow> [ContextError (MissingContext f ''current_password'')]))"

definition require :: "bool \<Rightarrow> string \<Rightarrow> string \<Rightarrow> RuleFailure list" where
  "require ok code message = (if ok then [] else [invalid code message])"

definition debug_arg :: "val_env \<Rightarrow> string option \<Rightarrow> string" where
  "debug_arg env arg = (case arg of None \<Rightarrow> ''None'' | Some a \<Rightarrow> ''Some('' @ ve_debug env a @ '')'')"

text \<open>A rule on a value that is present.\<close>

definition apply_present ::
  "val_env \<Rightarrow> string \<Rightarrow> json_value \<Rightarrow> string \<Rightarrow> string \<Rightarrow> string option \<Rightarrow> val_ctx \<Rightarrow> PasswordPolicy \<Rightarrow> RuleFailure list" where
  "apply_present env f present rule name arg ctx policy =
     (let label = humanize f in
      if name = ''string'' then
        require (json_as_str present \<noteq> None) ''string'' (''The '' @ label @ '' must be a string.'')
      else if name = ''email'' then
        require (case json_as_str present of None \<Rightarrow> False | Some s \<Rightarrow> ve_email env s) ''email''
          (''The '' @ label @ '' must be a valid email address.'')
      else if name = ''timezone'' then
        require (case json_as_str present of None \<Rightarrow> False | Some s \<Rightarrow> tz_validate env s) ''timezone''
          (''The '' @ label @ '' must be a valid timezone.'')
      else if name = ''min'' then
        (let n = (case parse_arg arg of None \<Rightarrow> 0 | Some n \<Rightarrow> n) in
         require (n \<le> value_len present) ''min'' (''The '' @ label @ '' must be at least '' @ show_nat n @ '' characters.''))
      else if name = ''max'' then
        (let n = (case parse_arg arg of None \<Rightarrow> 2 ^ 64 - 1 | Some n \<Rightarrow> n) in
         require (value_len present \<le> n) ''max'' (''The '' @ label @ '' must not exceed '' @ show_nat n @ '' characters.''))
      else if name \<in> {''in_array'', ''in'', ''strict_in_array''} then
        require (in_array_strict env (JArray (List.map_filter (ve_parse_json env) (parse_list arg))) present) ''in_array''
          (''The selected '' @ label @ '' is invalid.'')
      else if name \<in> {''contains'', ''contains_strict'', ''strict_contains''} then
        require (contains_strict env present (parse_needle env arg)) ''contains_strict''
          (''The '' @ label @ '' must contain '' @ debug_arg env arg @ '' strictly.'')
      else if name = ''doesnt_contain'' then
        require (doesnt_contain env present (parse_needle env arg)) ''doesnt_contain''
          (''The '' @ label @ '' must not contain '' @ debug_arg env arg @ ''.'')
      else if name = ''password'' then rule_password env f present policy
      else if name = ''unique'' then rule_unique f present arg ctx
      else if name = ''current_password'' then rule_current_password f present ctx
      else [invalid ''unknown_rule'' (''Unknown validation rule '' @ ve_debug env rule @ ''.'')])"

definition apply_rule ::
  "val_env \<Rightarrow> string \<Rightarrow> json_value option \<Rightarrow> string \<Rightarrow> json_value \<Rightarrow> val_ctx \<Rightarrow> PasswordPolicy \<Rightarrow> RuleFailure list" where
  "apply_rule env f v rule whole ctx policy =
     (let (name, arg) = (case split_once (CHR '':'') rule of Some (n, a) \<Rightarrow> (n, Some a) | None \<Rightarrow> (rule, None)) in
      if name = ''required'' then
        require (v \<noteq> None \<and> v \<noteq> Some JNull) ''required'' (''The '' @ f @ '' field is required.'')
      else if name = ''confirmed'' then rule_confirmed f v whole
      else
        (case v of
           None \<Rightarrow> []
         | Some JNull \<Rightarrow> []
         | Some present \<Rightarrow> apply_present env f present rule name arg ctx policy))"

record Rules =
  rs_fields :: "(string, string list) hashmap"
  rs_policy :: PasswordPolicy

definition rules_new :: Rules where
  "rules_new = \<lparr>rs_fields = [], rs_policy = policy_default\<rparr>"

definition rules_add :: "string \<Rightarrow> string \<Rightarrow> Rules \<Rightarrow> Rules" where
  "rules_add f spec r =
     (let parsed = filter (\<lambda>s. s \<noteq> []) (map trim (split_on (CHR ''|'') spec)) in
      r\<lparr>rs_fields := hm_insert f ((case hm_get (rs_fields r) f of None \<Rightarrow> [] | Some rs \<Rightarrow> rs) @ parsed) (rs_fields r)\<rparr>)"

definition password_policy :: "PasswordPolicy \<Rightarrow> Rules \<Rightarrow> Rules" where
  "password_policy p r = r\<lparr>rs_policy := p\<rparr>"

fun collect_failures :: "string \<Rightarrow> RuleFailure list \<Rightarrow> ErrorBag \<Rightarrow> RuleError + ErrorBag" where
  "collect_failures f [] bag = Inr bag"
| "collect_failures f (Invalid e # fs) bag = collect_failures f fs (bag_add f e bag)"
| "collect_failures f (ContextError e # fs) bag = Inl e"

fun run_field ::
  "val_env \<Rightarrow> json_value \<Rightarrow> val_ctx \<Rightarrow> PasswordPolicy \<Rightarrow> string \<Rightarrow> string list \<Rightarrow> ErrorBag \<Rightarrow> RuleError + ErrorBag" where
  "run_field env data ctx policy f [] bag = Inr bag"
| "run_field env data ctx policy f (rule # rs) bag =
     (case collect_failures f (apply_rule env f (json_get data f) rule data ctx policy) bag of
        Inl e \<Rightarrow> Inl e
      | Inr bag' \<Rightarrow> run_field env data ctx policy f rs bag')"

fun run_fields ::
  "val_env \<Rightarrow> json_value \<Rightarrow> val_ctx \<Rightarrow> PasswordPolicy \<Rightarrow> (string \<times> string list) list \<Rightarrow> ErrorBag \<Rightarrow> RuleError + ErrorBag" where
  "run_fields env data ctx policy [] bag = Inr bag"
| "run_fields env data ctx policy ((f, rs) # fs) bag =
     (case run_field env data ctx policy f rs bag of
        Inl e \<Rightarrow> Inl e
      | Inr bag' \<Rightarrow> run_fields env data ctx policy fs bag')"

definition rules_run :: "val_env \<Rightarrow> Rules \<Rightarrow> json_value \<Rightarrow> val_ctx \<Rightarrow> ValidationFailure + unit" where
  "rules_run env r data ctx =
     (case run_fields env data ctx (rs_policy r) (rs_fields r) [] of
        Inl e \<Rightarrow> Inl (RuleFailed e)
      | Inr bag \<Rightarrow> if bag = [] then Inr () else Inl (InvalidBag bag))"

definition validate_with :: "val_env \<Rightarrow> Rules \<Rightarrow> json_value \<Rightarrow> val_ctx \<Rightarrow> ErrorBag + unit" where
  "validate_with env r data ctx =
     (case rules_run env r data ctx of Inl fl \<Rightarrow> Inl (into_error_bag fl) | Inr u \<Rightarrow> Inr u)"

definition validate :: "val_env \<Rightarrow> Rules \<Rightarrow> json_value \<Rightarrow> ErrorBag + unit" where
  "validate env r data = validate_with env r data NoContext"

end
