(* ===== verification/Validation_Props.thy ===== *)
theory Validation_Props
  imports Validation
begin

text \<open>
  What validation decides: independently of the iteration order of the rule set, a payload passes exactly when
  every rule does, and otherwise the bag holds the errors of every field in the order of its rules; a rule
  that cannot be evaluated never passes. The rule strings of the application mean what they say.
\<close>

section \<open>Collecting\<close>

definition field_failures :: "val_env \<Rightarrow> json_value \<Rightarrow> val_ctx \<Rightarrow> PasswordPolicy \<Rightarrow> string \<Rightarrow> string list \<Rightarrow> RuleFailure list" where
  "field_failures env data ctx policy f rs = concat (map (\<lambda>rule. apply_rule env f (json_get data f) rule data ctx policy) rs)"

fun plain_errors :: "RuleFailure list \<Rightarrow> ValidationError list option" where
  "plain_errors [] = Some []"
| "plain_errors (Invalid e # fs) = map_option (Cons e) (plain_errors fs)"
| "plain_errors (ContextError _ # fs) = None"

lemma plain_errors_append:
  "plain_errors (fs @ gs) = (case plain_errors fs of None \<Rightarrow> None | Some es \<Rightarrow> map_option ((@) es) (plain_errors gs))"
  by (cases "plain_errors gs"; induction fs rule: plain_errors.induct) (auto split: option.splits)

lemma plain_errors_Nil: "plain_errors fs = Some [] \<longleftrightarrow> fs = []"
  by (induction fs rule: plain_errors.induct) auto

lemma plain_errors_None: "plain_errors fs = None \<longleftrightarrow> (\<exists>e. ContextError e \<in> set fs)"
  by (induction fs rule: plain_errors.induct) auto

lemma plain_errors_Invalid: "plain_errors fs = Some es \<Longrightarrow> map Invalid es = fs"
  by (induction fs arbitrary: es rule: plain_errors.induct) auto

lemma bag_get_add: "bag_get (bag_add f e bag) g = bag_get bag g @ (if g = f then [e] else [])"
  by (simp add: bag_get_def bag_add_def)

lemma bag_add_ne [simp]: "bag_add f e bag \<noteq> []"
  by (cases bag) (auto simp: bag_add_def hm_insert_def)

lemma collect_failures_plain:
  "plain_errors fs = Some es \<Longrightarrow>
    \<exists>bag'. collect_failures f fs bag = Inr bag' \<and> (\<forall>g. bag_get bag' g = bag_get bag g @ (if g = f then es else []))
      \<and> (bag' = [] \<longleftrightarrow> bag = [] \<and> es = [])"
proof (induction f fs bag arbitrary: es rule: collect_failures.induct)
  case (2 f e fs bag)
  then obtain es' where es: "plain_errors fs = Some es'" "es = e # es'" by auto
  from "2.IH" [OF es(1)] es(2) show ?case by (force simp: bag_get_add)
qed auto

lemma collect_failures_context:
  "plain_errors fs = None \<Longrightarrow> \<exists>e. collect_failures f fs bag = Inl e \<and> ContextError e \<in> set fs"
  by (induction f fs bag rule: collect_failures.induct) auto

lemma run_field_plain:
  "plain_errors (field_failures env data ctx policy f rs) = Some es \<Longrightarrow>
    \<exists>bag'. run_field env data ctx policy f rs bag = Inr bag' \<and> (\<forall>g. bag_get bag' g = bag_get bag g @ (if g = f then es else []))
      \<and> (bag' = [] \<longleftrightarrow> bag = [] \<and> es = [])"
proof (induction rs arbitrary: es bag)
  case Nil
  then show ?case by (simp add: field_failures_def)
next
  case (Cons rule rs)
  let ?fs = "apply_rule env f (json_get data f) rule data ctx policy"
  obtain es1 es2 where es: "plain_errors ?fs = Some es1" "plain_errors (field_failures env data ctx policy f rs) = Some es2" "es = es1 @ es2"
    using Cons.prems by (auto simp: field_failures_def plain_errors_append split: option.splits)
  obtain bag1 where b1: "collect_failures f ?fs bag = Inr bag1" "\<forall>g. bag_get bag1 g = bag_get bag g @ (if g = f then es1 else [])"
    "bag1 = [] \<longleftrightarrow> bag = [] \<and> es1 = []"
    using collect_failures_plain [OF es(1)] by blast
  obtain bag2 where "run_field env data ctx policy f rs bag1 = Inr bag2" "\<forall>g. bag_get bag2 g = bag_get bag1 g @ (if g = f then es2 else [])"
    "bag2 = [] \<longleftrightarrow> bag1 = [] \<and> es2 = []"
    using Cons.IH [OF es(2)] by blast
  with b1 es(3) show ?case by auto
qed

lemma run_field_context:
  "plain_errors (field_failures env data ctx policy f rs) = None \<Longrightarrow>
    \<exists>e. run_field env data ctx policy f rs bag = Inl e \<and> ContextError e \<in> set (field_failures env data ctx policy f rs)"
proof (induction rs arbitrary: bag)
  case Nil
  then show ?case by (simp add: field_failures_def)
next
  case (Cons rule rs)
  let ?fs = "apply_rule env f (json_get data f) rule data ctx policy"
  show ?case
  proof (cases "plain_errors ?fs")
    case None
    from collect_failures_context [OF this, of f bag] show ?thesis by (auto simp: field_failures_def)
  next
    case (Some es)
    then have "plain_errors (field_failures env data ctx policy f rs) = None"
      using Cons.prems by (simp add: field_failures_def plain_errors_append)
    note rest = Cons.IH [OF this]
    from collect_failures_plain [OF Some, of f bag] obtain bag1 where "collect_failures f ?fs bag = Inr bag1" by blast
    with rest [of bag1] show ?thesis by (auto simp: field_failures_def)
  qed
qed

lemma run_fields_plain:
  assumes "list_all (\<lambda>(f, rs). plain_errors (field_failures env data ctx policy f rs) = Some (errs f)) fls" "distinct (map fst fls)"
  shows "\<exists>bag'. run_fields env data ctx policy fls bag = Inr bag'
    \<and> (\<forall>g. bag_get bag' g = bag_get bag g @ (if g \<in> fst ` set fls then errs g else []))
    \<and> (bag' = [] \<longleftrightarrow> bag = [] \<and> (\<forall>f\<in>fst ` set fls. errs f = []))"
  using assms
proof (induction fls arbitrary: bag)
  case (Cons p fls)
  obtain f rs where p: "p = (f, rs)" by (cases p)
  with Cons.prems have es: "plain_errors (field_failures env data ctx policy f rs) = Some (errs f)" by simp
  obtain bag1 where b1: "run_field env data ctx policy f rs bag = Inr bag1"
    "\<forall>g. bag_get bag1 g = bag_get bag g @ (if g = f then errs f else [])" "bag1 = [] \<longleftrightarrow> bag = [] \<and> errs f = []"
    using run_field_plain [OF es] by blast
  obtain bag2 where b2: "run_fields env data ctx policy fls bag1 = Inr bag2"
    "\<forall>g. bag_get bag2 g = bag_get bag1 g @ (if g \<in> fst ` set fls then errs g else [])"
    "bag2 = [] \<longleftrightarrow> bag1 = [] \<and> (\<forall>f\<in>fst ` set fls. errs f = [])"
    using Cons.IH [of bag1] Cons.prems by auto
  have "f \<notin> fst ` set fls" using Cons.prems(2) p by simp
  with b1 b2 p show ?case by (auto split: if_splits)
qed simp

lemma run_fields_context:
  "\<exists>(f, rs)\<in>set fls. plain_errors (field_failures env data ctx policy f rs) = None \<Longrightarrow>
    \<exists>e. run_fields env data ctx policy fls bag = Inl e
      \<and> (\<exists>(f, rs)\<in>set fls. ContextError e \<in> set (field_failures env data ctx policy f rs))"
proof (induction fls arbitrary: bag)
  case (Cons p fls)
  obtain f rs where p: "p = (f, rs)" by (cases p)
  show ?case
  proof (cases "plain_errors (field_failures env data ctx policy f rs)")
    case None
    from run_field_context [OF this, of bag] p show ?thesis by force
  next
    case (Some es)
    with Cons.prems p have "\<exists>(f, rs)\<in>set fls. plain_errors (field_failures env data ctx policy f rs) = None" by auto
    note rest = Cons.IH [OF this]
    from run_field_plain [OF Some, of bag] obtain bag1 where "run_field env data ctx policy f rs bag = Inr bag1" by blast
    with rest [of bag1] p show ?thesis by auto
  qed
qed simp


text \<open>C20. Validation is exact and fails closed, for every iteration order of the rule set: a payload passes exactly
  when no rule of any field reports a failure. When every rule can be evaluated, the bag of a refused payload
  holds for each field the errors of its rules, in the order of the rules, and nothing else; when some rule
  cannot be evaluated the payload is refused with one such rule, whatever the other rules say.\<close>

theorem validation_exact:
  assumes "hm_wf (rs_fields r)"
  shows "(validate_with env r data ctx = Inr () \<longleftrightarrow>
      (\<forall>(f, rs)\<in>set (rs_fields r). \<forall>rule\<in>set rs. apply_rule env f (json_get data f) rule data ctx (rs_policy r) = []))
    \<and> (\<forall>bag. validate_with env r data ctx = Inl bag \<longrightarrow>
        (if \<forall>(f, rs)\<in>set (rs_fields r). \<forall>e. ContextError e \<notin> set (field_failures env data ctx (rs_policy r) f rs)
         then \<forall>(f, rs)\<in>set (rs_fields r). map Invalid (bag_get bag f) = field_failures env data ctx (rs_policy r) f rs
         else \<exists>e. bag = [(rule_error_field e, [to_validation_error e])]
           \<and> (\<exists>(f, rs)\<in>set (rs_fields r). ContextError e \<in> set (field_failures env data ctx (rs_policy r) f rs))))"
proof (cases "\<exists>(f, rs)\<in>set (rs_fields r). plain_errors (field_failures env data ctx (rs_policy r) f rs) = None")
  case True
  then have ctxerr: "\<exists>(f, rs)\<in>set (rs_fields r). \<exists>e. ContextError e \<in> set (field_failures env data ctx (rs_policy r) f rs)"
    by (auto simp: plain_errors_None)
  from run_fields_context [OF True, of "[]"] obtain e where e: "run_fields env data ctx (rs_policy r) (rs_fields r) [] = Inl e"
    "\<exists>(f, rs)\<in>set (rs_fields r). ContextError e \<in> set (field_failures env data ctx (rs_policy r) f rs)" by blast
  have "validate_with env r data ctx = Inl [(rule_error_field e, [to_validation_error e])]"
    using e(1) by (simp add: validate_with_def rules_run_def bag_add_def hm_insert_def)
  with e(2) ctxerr show ?thesis by (force simp: field_failures_def)
next
  case False
  let ?errs = "\<lambda>f. the (plain_errors (field_failures env data ctx (rs_policy r) f (the (hm_get (rs_fields r) f))))"
  have get: "hm_get (rs_fields r) f = Some rs" if "(f, rs) \<in> set (rs_fields r)" for f rs
    using assms that by (rule hm_in_set_get)
  have plain: "plain_errors (field_failures env data ctx (rs_policy r) f rs) = Some (?errs f)" if "(f, rs) \<in> set (rs_fields r)" for f rs
    using False that get [OF that] by auto
  have "list_all (\<lambda>(f, rs). plain_errors (field_failures env data ctx (rs_policy r) f rs) = Some (?errs f)) (rs_fields r)"
    using plain by (auto simp: list_all_iff)
  moreover have "distinct (map fst (rs_fields r))" using assms by (simp add: hm_wf_def)
  ultimately obtain bag where bag: "run_fields env data ctx (rs_policy r) (rs_fields r) [] = Inr bag"
    "\<forall>g. bag_get bag g = bag_get [] g @ (if g \<in> fst ` set (rs_fields r) then ?errs g else [])"
    "bag = [] \<longleftrightarrow> (\<forall>f\<in>fst ` set (rs_fields r). ?errs f = [])"
    using run_fields_plain [of env data ctx "rs_policy r" ?errs "rs_fields r" "[]"] by auto
  have Nil: "?errs f = [] \<longleftrightarrow> field_failures env data ctx (rs_policy r) f rs = []" if "(f, rs) \<in> set (rs_fields r)" for f rs
    using plain [OF that] plain_errors_Nil by (metis option.inject)
  have errs: "map Invalid (?errs f) = field_failures env data ctx (rs_policy r) f rs" if "(f, rs) \<in> set (rs_fields r)" for f rs
    using plain_errors_Invalid [OF plain [OF that]] .
  have iff: "bag = [] \<longleftrightarrow> (\<forall>(f, rs)\<in>set (rs_fields r). \<forall>rule\<in>set rs. apply_rule env f (json_get data f) rule data ctx (rs_policy r) = [])"
    using bag(3) Nil by (fastforce simp: field_failures_def)
  have noctx: "\<forall>(f, rs)\<in>set (rs_fields r). \<forall>e. ContextError e \<notin> set (field_failures env data ctx (rs_policy r) f rs)"
    using False by (auto simp: plain_errors_None)
  have own: "\<forall>(f, rs)\<in>set (rs_fields r). map Invalid (bag_get bag f) = field_failures env data ctx (rs_policy r) f rs"
    using bag(2) errs by (force simp: bag_get_def)
  have "validate_with env r data ctx = (if bag = [] then Inr () else Inl bag)"
    using bag(1) by (simp add: validate_with_def rules_run_def)
  with iff noctx own show ?thesis by simp
qed

definition demo_val_env :: val_env where
  "demo_val_env = \<lparr>ve_parse_json = (\<lambda>_. None), ve_print_json = (\<lambda>_. ''''), ve_email = (\<lambda>s. CHR 0x40 \<in> set s),
     ve_tz = (\<lambda>s. s = ''Etc/UTC''), ve_alnum = (\<lambda>_. True), ve_white = (\<lambda>_. False), ve_debug = (\<lambda>s. s)\<rparr>"

theorem validation_exact_witness:
  "hm_wf (rs_fields (rules_add ''name'' ''required|string'' rules_new))
    \<and> validate_with demo_val_env (rules_add ''name'' ''required|string'' rules_new) (JObject [(''name'', JString ''Ada'')]) NoContext = Inr ()
    \<and> validate_with demo_val_env (rules_add ''name'' ''required|string'' rules_new) (JObject []) NoContext \<noteq> Inr ()"
proof -
  let ?r = "rules_add ''name'' ''required|string'' rules_new"
  have r: "rs_fields ?r = [(''name'', [''required'', ''string''])]"
    by (simp add: rules_add_def rules_new_def hm_insert_def trim_def is_ws_def)
  then have wf: "hm_wf (rs_fields ?r)" by (simp add: hm_wf_def)
  show ?thesis
    using validation_exact [OF wf, of demo_val_env "JObject [(''name'', JString ''Ada'')]" NoContext, THEN conjunct1]
      validation_exact [OF wf, of demo_val_env "JObject []" NoContext, THEN conjunct1] wf
    by (simp add: r apply_rule_def json_get_def require_def apply_present_def invalid_def)
qed

end
