(* ===== verification/Users.thy ===== *)
theory Users
  imports Guard
begin

text \<open>
  User providers, \<^verbatim>\<open>rustasea-auth/src/users/provider.rs\<close> and
  \<^verbatim>\<open>provider/memory.rs\<close>: the contract that reads and writes users, the provider that denies
  everything and the provider in memory. The contract is the locale \<open>user_provider_laws\<close>, in terms of the
  users by email; its clients are the handlers of the application.

  A read may change the provider's state (a connection). The \<^verbatim>\<open>n\<close>-th UUID drawn is \<open>uuid n\<close>. The map
  by email is a hash map, an association list in some order of iteration.
\<close>

section \<open>The contract\<close>

record NewUserRecord =
  nu_name :: string
  nu_email :: string
  nu_password_hash :: string
  nu_email_verified_at :: "string option"
  nu_timezone :: "string option"

definition new_user_record :: "string \<Rightarrow> string \<Rightarrow> string \<Rightarrow> NewUserRecord" where
  "new_user_record name email hash = \<lparr>nu_name = name, nu_email = email, nu_password_hash = hash,
     nu_email_verified_at = None, nu_timezone = None\<rparr>"

definition new_user_verified :: "string option \<Rightarrow> NewUserRecord \<Rightarrow> NewUserRecord" where
  "new_user_verified at r = r\<lparr>nu_email_verified_at := at\<rparr>"

definition new_user_timezone :: "string option \<Rightarrow> NewUserRecord \<Rightarrow> NewUserRecord" where
  "new_user_timezone tz r = r\<lparr>nu_timezone := tz\<rparr>"

record 'u user_provider =
  up_find_by_email :: "string \<Rightarrow> 'u \<Rightarrow> (AuthError + AuthUserRecord option) \<times> 'u"
  up_find_by_id :: "string \<Rightarrow> 'u \<Rightarrow> (AuthError + AuthUserRecord option) \<times> 'u"
  up_create :: "NewUserRecord \<Rightarrow> 'u \<Rightarrow> (AuthError + AuthUserRecord) \<times> 'u"
  up_update_password :: "string \<Rightarrow> string \<Rightarrow> 'u \<Rightarrow> (AuthError + unit) \<times> 'u"
  up_set_email_verified_at :: "string \<Rightarrow> string option \<Rightarrow> 'u \<Rightarrow> (AuthError + unit) \<times> 'u"
  up_update_profile :: "string \<Rightarrow> string \<Rightarrow> string \<Rightarrow> 'u \<Rightarrow> (AuthError + unit) \<times> 'u"
  up_update_timezone :: "string \<Rightarrow> string option \<Rightarrow> 'u \<Rightarrow> (AuthError + unit) \<times> 'u"

definition default_find_by_id :: "string \<Rightarrow> 'u \<Rightarrow> (AuthError + AuthUserRecord option) \<times> 'u" where
  "default_find_by_id uid s = (Inl (Disabled ''no user provider find_by_id is wired; denying access''), s)"

definition default_update_timezone :: "string \<Rightarrow> string option \<Rightarrow> 'u \<Rightarrow> (AuthError + unit) \<times> 'u" where
  "default_update_timezone uid tz s = (Inl (Disabled ''no user provider update_timezone is wired; denying write''), s)"

definition DENY_PROVIDER_REASON :: string where
  "DENY_PROVIDER_REASON = ''no user provider is wired; denying user access''"

definition DenyAllProvider :: "'u user_provider" where
  "DenyAllProvider =
     (let deny = Inl (Disabled DENY_PROVIDER_REASON) in
      \<lparr>up_find_by_email = (\<lambda>_ s. (Inl (Disabled DENY_PROVIDER_REASON), s)),
       up_find_by_id = default_find_by_id,
       up_create = (\<lambda>_ s. (Inl (Disabled DENY_PROVIDER_REASON), s)),
       up_update_password = (\<lambda>_ _ s. (deny, s)),
       up_set_email_verified_at = (\<lambda>_ _ s. (deny, s)),
       up_update_profile = (\<lambda>_ _ _ s. (deny, s)),
       up_update_timezone = (\<lambda>_ _ s. (deny, s))\<rparr>)"

section \<open>The provider in memory\<close>

record MemoryUserProvider =
  mu_by_email :: "(string, AuthUserRecord) hashmap"
  mu_names :: "(string, string) hashmap"
  mu_poisoned :: bool
  mu_drawn :: nat

definition mu_seed :: "AuthUserRecord \<Rightarrow> MemoryUserProvider \<Rightarrow> MemoryUserProvider" where
  "mu_seed r s = (if mu_poisoned s then s else s\<lparr>mu_by_email := hm_insert (ur_email r) r (mu_by_email s)\<rparr>)"

definition mu_find_by_id :: "string \<Rightarrow> MemoryUserProvider \<Rightarrow> AuthUserRecord option" where
  "mu_find_by_id uid s = (if mu_poisoned s then None else by_id (mu_by_email s) uid)"

definition name_for_id :: "string \<Rightarrow> MemoryUserProvider \<Rightarrow> string option" where
  "name_for_id uid s = hm_get (mu_names s) uid"

definition mu_create ::
  "(nat \<Rightarrow> string) \<Rightarrow> NewUserRecord \<Rightarrow> MemoryUserProvider \<Rightarrow> (AuthError + AuthUserRecord) \<times> MemoryUserProvider" where
  "mu_create uuid new_user s =
     (if mu_poisoned s then (Inl StoreUnavailable, s)
      else if hm_get (mu_by_email s) (nu_email new_user) \<noteq> None then (Inl (UserExists (nu_email new_user)), s)
      else
        (let rec = \<lparr>ur_id = uuid (mu_drawn s), ur_email = nu_email new_user, ur_password_hash = nu_password_hash new_user,
               ur_email_verified_at = nu_email_verified_at new_user, ur_timezone = nu_timezone new_user\<rparr>
         in (Inr rec, s\<lparr>mu_by_email := hm_insert (ur_email rec) rec (mu_by_email s),
               mu_names := hm_insert (ur_id rec) (nu_name new_user) (mu_names s), mu_drawn := Suc (mu_drawn s)\<rparr>)))"

text \<open>\<^verbatim>\<open>values_mut().find(..)\<close> and an update of the record found: the first entry with the id.\<close>

fun update_first :: "string \<Rightarrow> (AuthUserRecord \<Rightarrow> AuthUserRecord) \<Rightarrow> (string, AuthUserRecord) hashmap
    \<Rightarrow> (string, AuthUserRecord) hashmap option" where
  "update_first uid f [] = None"
| "update_first uid f ((k, r) # m) =
     (if ur_id r = uid then Some ((k, f r) # m) else map_option (Cons (k, r)) (update_first uid f m))"

definition mu_modify ::
  "string \<Rightarrow> (AuthUserRecord \<Rightarrow> AuthUserRecord) \<Rightarrow> MemoryUserProvider \<Rightarrow> (AuthError + unit) \<times> MemoryUserProvider" where
  "mu_modify uid f s =
     (if mu_poisoned s then (Inl StoreUnavailable, s)
      else
        (case update_first uid f (mu_by_email s) of
           None \<Rightarrow> (Inl (UserNotFound uid), s)
         | Some m \<Rightarrow> (Inr (), s\<lparr>mu_by_email := m\<rparr>)))"

definition mu_update_password :: "string \<Rightarrow> string \<Rightarrow> MemoryUserProvider \<Rightarrow> (AuthError + unit) \<times> MemoryUserProvider" where
  "mu_update_password uid hash = mu_modify uid (\<lambda>r. r\<lparr>ur_password_hash := hash\<rparr>)"

definition mu_set_email_verified_at ::
  "string \<Rightarrow> string option \<Rightarrow> MemoryUserProvider \<Rightarrow> (AuthError + unit) \<times> MemoryUserProvider" where
  "mu_set_email_verified_at uid at = mu_modify uid (\<lambda>r. r\<lparr>ur_email_verified_at := at\<rparr>)"

definition mu_update_timezone ::
  "string \<Rightarrow> string option \<Rightarrow> MemoryUserProvider \<Rightarrow> (AuthError + unit) \<times> MemoryUserProvider" where
  "mu_update_timezone uid tz = mu_modify uid (\<lambda>r. r\<lparr>ur_timezone := tz\<rparr>)"

definition mu_update_profile ::
  "string \<Rightarrow> string \<Rightarrow> string \<Rightarrow> MemoryUserProvider \<Rightarrow> (AuthError + unit) \<times> MemoryUserProvider" where
  "mu_update_profile uid name email s =
     (if mu_poisoned s then (Inl StoreUnavailable, s)
      else
        (case by_id (mu_by_email s) uid of
           None \<Rightarrow> (Inl (UserNotFound uid), s)
         | Some old \<Rightarrow>
             if email \<noteq> ur_email old \<and> hm_get (mu_by_email s) email \<noteq> None then (Inl (UserExists email), s)
             else
               (case hm_get (mu_by_email s) (ur_email old) of
                  None \<Rightarrow> (Inl (UserNotFound uid), s)
                | Some r \<Rightarrow>
                    (Inr (), s\<lparr>mu_by_email := hm_insert email (r\<lparr>ur_email := email\<rparr>)
                         (hm_remove (ur_email old) (mu_by_email s)),
                       mu_names := hm_insert uid name (mu_names s)\<rparr>))))"

definition memory_provider :: "(nat \<Rightarrow> string) \<Rightarrow> MemoryUserProvider user_provider" where
  "memory_provider uuid =
     \<lparr>up_find_by_email = (\<lambda>email s. (if mu_poisoned s then Inl StoreUnavailable else Inr (hm_get (mu_by_email s) email), s)),
      up_find_by_id = (\<lambda>uid s. (Inr (mu_find_by_id uid s), s)),
      up_create = mu_create uuid,
      up_update_password = mu_update_password,
      up_set_email_verified_at = mu_set_email_verified_at,
      up_update_profile = mu_update_profile,
      up_update_timezone = mu_update_timezone\<rparr>"

definition memory_provider_lookup :: "MemoryUserProvider \<Rightarrow> user_lookup" where
  "memory_provider_lookup s = (if mu_poisoned s then StaticLookup else memory_lookup (mu_by_email s))"

section \<open>The table of users\<close>

text \<open>What a provider promises, over the table of users by email.\<close>

type_synonym user_table = "string \<rightharpoonup> AuthUserRecord"

definition has_id :: "user_table \<Rightarrow> string \<Rightarrow> bool" where
  "has_id T i \<longleftrightarrow> (\<exists>e r. T e = Some r \<and> ur_id r = i)"

definition table_modify :: "string \<Rightarrow> (AuthUserRecord \<Rightarrow> AuthUserRecord) \<Rightarrow> user_table \<Rightarrow> user_table" where
  "table_modify i f T = (\<lambda>e. map_option (\<lambda>r. if ur_id r = i then f r else r) (T e))"

definition table_move :: "string \<Rightarrow> string \<Rightarrow> user_table \<Rightarrow> user_table" where
  "table_move old email T =
     (case T old of None \<Rightarrow> T | Some r \<Rightarrow> (T(old := None))(email \<mapsto> r\<lparr>ur_email := email\<rparr>))"

locale user_provider_laws =
  fixes P :: "'u user_provider" and users :: "'u \<Rightarrow> user_table" and ok :: "'u \<Rightarrow> bool"
  assumes find_by_email: "ok s \<Longrightarrow> up_find_by_email P e s = (Inr (users s e), s)"
    and find_by_id: "ok s \<Longrightarrow> \<exists>found. up_find_by_id P i s = (Inr found, s)
      \<and> (\<forall>r. found = Some r \<longleftrightarrow> users s (ur_email r) = Some r \<and> ur_id r = i)"
    and keyed: "ok s \<Longrightarrow> users s e = Some r \<Longrightarrow> ur_email r = e"
    and unique_id: "ok s \<Longrightarrow> users s e = Some r \<Longrightarrow> users s e' = Some r' \<Longrightarrow> ur_id r = ur_id r' \<Longrightarrow> e = e'"
    and create: "ok s \<Longrightarrow> up_create P n s = (made, s') \<Longrightarrow> ok s' \<and>
      (if users s (nu_email n) \<noteq> None then made = Inl (UserExists (nu_email n)) \<and> users s' = users s
       else \<exists>i. \<not> has_id (users s) i \<and> (\<exists>r. r = \<lparr>ur_id = i, ur_email = nu_email n, ur_password_hash = nu_password_hash n,
           ur_email_verified_at = nu_email_verified_at n, ur_timezone = nu_timezone n\<rparr>
         \<and> made = Inr r \<and> users s' = (users s)(nu_email n \<mapsto> r)))"
    and update_password: "ok s \<Longrightarrow> up_update_password P i h s = (res, s') \<Longrightarrow> ok s'
      \<and> users s' = table_modify i (\<lambda>r. r\<lparr>ur_password_hash := h\<rparr>) (users s)
      \<and> res = (if has_id (users s) i then Inr () else Inl (UserNotFound i))"
    and set_email_verified_at: "ok s \<Longrightarrow> up_set_email_verified_at P i at s = (res, s') \<Longrightarrow> ok s'
      \<and> users s' = table_modify i (\<lambda>r. r\<lparr>ur_email_verified_at := at\<rparr>) (users s)
      \<and> res = (if has_id (users s) i then Inr () else Inl (UserNotFound i))"
    and update_timezone: "ok s \<Longrightarrow> up_update_timezone P i tz s = (res, s') \<Longrightarrow> ok s'
      \<and> users s' = table_modify i (\<lambda>r. r\<lparr>ur_timezone := tz\<rparr>) (users s)
      \<and> res = (if has_id (users s) i then Inr () else Inl (UserNotFound i))"
    and update_profile: "ok s \<Longrightarrow> up_update_profile P i name email s = (res, s') \<Longrightarrow> ok s' \<and>
      (if \<not> has_id (users s) i then res = Inl (UserNotFound i) \<and> users s' = users s
       else \<exists>old r. users s old = Some r \<and> ur_id r = i \<and>
         (if email \<noteq> old \<and> users s email \<noteq> None then res = Inl (UserExists email) \<and> users s' = users s
          else res = Inr () \<and> users s' = table_move old email (users s)))"

section \<open>The provider in memory keeps the contract\<close>

definition mu_users :: "MemoryUserProvider \<Rightarrow> user_table" where
  "mu_users s = hm_get (mu_by_email s)"

definition mu_ok :: "(nat \<Rightarrow> string) \<Rightarrow> MemoryUserProvider \<Rightarrow> bool" where
  "mu_ok uuid s \<longleftrightarrow> \<not> mu_poisoned s \<and> hm_wf (mu_by_email s) \<and> inj uuid
     \<and> list_all (\<lambda>(e, r). ur_email r = e) (mu_by_email s)
     \<and> distinct (map (\<lambda>(e, r). ur_id r) (mu_by_email s))
     \<and> (\<forall>n\<ge>mu_drawn s. \<not> has_id (mu_users s) (uuid n))"

lemma find_distinct:
  "distinct (map g xs) \<Longrightarrow> List.find (\<lambda>x. g x = i) xs = Some x \<longleftrightarrow> x \<in> set xs \<and> g x = i"
  by (induction xs) (auto simp: image_iff)

lemma by_id_Some:
  assumes "hm_wf m" "list_all (\<lambda>(e, r). ur_email r = e) m" "distinct (map (\<lambda>(e, r). ur_id r) m)"
  shows "by_id m i = Some r \<longleftrightarrow> hm_get m (ur_email r) = Some r \<and> ur_id r = i"
proof -
  have "distinct (map ur_id (map snd m))" using assms(3) by (simp add: comp_def case_prod_beta')
  moreover have "r \<in> set (map snd m) \<longleftrightarrow> (ur_email r, r) \<in> set m" using assms(2) by (force simp: list_all_iff)
  ultimately show ?thesis by (simp only: by_id_def find_distinct hm_get_iff [OF assms(1)])
qed

lemma mu_unique:
  assumes "hm_wf m" "distinct (map (\<lambda>(e, r). ur_id r) m)" "hm_get m e = Some r" "hm_get m e' = Some r'" "ur_id r = ur_id r'"
  shows "e = e' \<and> r = r'"
  using assms by (induction m) (force simp: hm_get_def hm_wf_def dest: map_of_SomeD split: if_splits)+

lemma update_first_Some:
  assumes "distinct (map (\<lambda>(e, r). ur_id r) m)" "update_first i f m = Some m'"
  shows "m' = map (\<lambda>(e, r). (e, if ur_id r = i then f r else r)) m"
  using assms
proof (induction m arbitrary: m')
  case (Cons p m)
  obtain e r where p: "p = (e, r)" by (cases p)
  show ?case
  proof (cases "ur_id r = i")
    case True
    then have "\<And>x. x \<in> set m \<Longrightarrow> (case x of (e, r) \<Rightarrow> (e, if ur_id r = i then f r else r)) = x"
      using Cons.prems(1) p by (auto simp: image_iff split: prod.splits)
    then have "map (\<lambda>(e, r). (e, if ur_id r = i then f r else r)) m = m" by (simp add: map_idI)
    with True Cons.prems(2) p show ?thesis by auto
  qed (use Cons p in auto)
qed simp

lemma update_first_None: "hm_wf m \<Longrightarrow> update_first i f m = None \<longleftrightarrow> \<not> has_id (hm_get m) i"
proof -
  assume wf: "hm_wf m"
  have "update_first i f m = None \<longleftrightarrow> (\<forall>(e, r)\<in>set m. ur_id r \<noteq> i)"
    by (induction m) (auto split: if_splits)
  then show ?thesis by (auto simp: has_id_def hm_get_iff [OF wf])
qed

lemma has_id_map: "(\<And>r. ur_id (g r) = ur_id r) \<Longrightarrow> has_id (\<lambda>e. map_option g (T e)) j \<longleftrightarrow> has_id T j"
  by (auto simp: has_id_def; blast)

lemma mu_keyed: "mu_ok uuid s \<Longrightarrow> mu_users s e = Some r \<Longrightarrow> ur_email r = e"
  by (auto simp: mu_ok_def mu_users_def list_all_iff dest: hm_get_in_set)

lemma hm_get_map: "hm_get (map (\<lambda>(e, r). (e, g r)) m) k = map_option g (hm_get m k)"
  by (induction m) (auto simp: hm_get_def)

lemma mu_modify_laws:
  assumes ok: "mu_ok uuid s" and f: "\<And>r. ur_id (f r) = ur_id r" "\<And>r. ur_email (f r) = ur_email r"
    and run: "mu_modify i f s = (res, s')"
  shows "mu_ok uuid s' \<and> mu_users s' = table_modify i f (mu_users s)
    \<and> res = (if has_id (mu_users s) i then Inr () else Inl (UserNotFound i))"
proof (cases "update_first i f (mu_by_email s)")
  case None
  have wf: "hm_wf (mu_by_email s)" using ok by (simp add: mu_ok_def)
  have no: "\<not> has_id (mu_users s) i" using None update_first_None [OF wf] by (simp add: mu_users_def)
  then have "table_modify i f (mu_users s) = mu_users s"
    by (intro ext) (auto simp: table_modify_def has_id_def split: option.splits intro: option.expand)
  with None no run ok show ?thesis by (simp add: mu_modify_def mu_ok_def)
next
  case (Some m)
  have wf: "hm_wf (mu_by_email s)" using ok by (simp add: mu_ok_def)
  have yes: "has_id (mu_users s) i" using Some update_first_None [OF wf, of i f] by (simp add: mu_users_def)
  have m: "m = map (\<lambda>(e, r). (e, if ur_id r = i then f r else r)) (mu_by_email s)"
    using update_first_Some [OF _ Some] ok by (simp add: mu_ok_def)
  have s': "s' = s\<lparr>mu_by_email := m\<rparr>" "res = Inr ()" using Some run ok by (auto simp: mu_modify_def mu_ok_def)
  have users: "mu_users s' = table_modify i f (mu_users s)"
    by (intro ext) (simp add: s' mu_users_def m hm_get_map table_modify_def)
  have ids: "has_id (mu_users s') j \<longleftrightarrow> has_id (mu_users s) j" for j
    unfolding users table_modify_def by (rule has_id_map) (simp add: f)
  have "map (\<lambda>(e, r). ur_id r) m = map (\<lambda>(e, r). ur_id r) (mu_by_email s)" "map fst m = map fst (mu_by_email s)"
    by (auto simp: m f)
  moreover have "list_all (\<lambda>(e, r). ur_email r = e) m"
    using ok by (auto simp: m list_all_iff mu_ok_def f)
  ultimately have "mu_ok uuid s'"
    using ok ids by (simp add: mu_ok_def s' hm_wf_def)
  with users yes s'(2) show ?thesis by simp
qed

lemma mu_create_laws:
  assumes ok: "mu_ok uuid s" and run: "mu_create uuid n s = (made, s')"
  shows "mu_ok uuid s' \<and>
    (if mu_users s (nu_email n) \<noteq> None then made = Inl (UserExists (nu_email n)) \<and> mu_users s' = mu_users s
     else \<exists>i. \<not> has_id (mu_users s) i \<and> (\<exists>r. r = \<lparr>ur_id = i, ur_email = nu_email n, ur_password_hash = nu_password_hash n,
         ur_email_verified_at = nu_email_verified_at n, ur_timezone = nu_timezone n\<rparr>
       \<and> made = Inr r \<and> mu_users s' = (mu_users s)(nu_email n \<mapsto> r)))"
proof (cases "hm_get (mu_by_email s) (nu_email n)")
  case (Some r)
  with ok run show ?thesis by (auto simp: mu_create_def mu_ok_def mu_users_def)
next
  case None
  let ?r = "\<lparr>ur_id = uuid (mu_drawn s), ur_email = nu_email n, ur_password_hash = nu_password_hash n,
         ur_email_verified_at = nu_email_verified_at n, ur_timezone = nu_timezone n\<rparr>"
  have s': "made = Inr ?r" "mu_by_email s' = mu_by_email s @ [(nu_email n, ?r)]" "mu_poisoned s' = mu_poisoned s"
    "mu_drawn s' = Suc (mu_drawn s)"
    using None ok run by (auto simp: mu_create_def mu_ok_def Let_def hm_insert_absent)
  have fresh: "\<not> has_id (mu_users s) (uuid (mu_drawn s))" using ok by (simp add: mu_ok_def)
  have users: "mu_users s' = (mu_users s)(nu_email n \<mapsto> ?r)"
    using None by (intro ext) (simp add: mu_users_def s' hm_get_def map_add_def split: option.splits)
  have wf: "hm_wf (mu_by_email s)" using ok by (simp add: mu_ok_def)
  have new_ids: "has_id (mu_users s') j \<Longrightarrow> has_id (mu_users s) j \<or> j = uuid (mu_drawn s)" for j
    unfolding users by (auto simp: has_id_def split: if_splits)
  have "uuid (mu_drawn s) \<notin> (\<lambda>(e, r). ur_id r) ` set (mu_by_email s)"
    using fresh by (auto simp: has_id_def mu_users_def hm_get_iff [OF wf]) blast
  moreover have "nu_email n \<notin> fst ` set (mu_by_email s)"
    using None by (simp add: hm_get_def map_of_eq_None_iff)
  moreover have "\<not> has_id (mu_users s') (uuid k)" if "Suc (mu_drawn s) \<le> k" for k
  proof
    assume "has_id (mu_users s') (uuid k)"
    moreover have "uuid k \<noteq> uuid (mu_drawn s)" using ok that by (auto simp: mu_ok_def dest: injD)
    ultimately have "has_id (mu_users s) (uuid k)" using new_ids by blast
    with ok that show False by (simp add: mu_ok_def)
  qed
  ultimately have "mu_ok uuid s'"
    using ok by (simp add: mu_ok_def s' hm_wf_def)
  with users fresh s'(1) None show ?thesis by (auto simp: mu_users_def)
qed

lemma mu_profile_laws:
  assumes ok: "mu_ok uuid s" and run: "mu_update_profile i name email s = (res, s')"
  shows "mu_ok uuid s' \<and>
    (if \<not> has_id (mu_users s) i then res = Inl (UserNotFound i) \<and> mu_users s' = mu_users s
     else \<exists>old r. mu_users s old = Some r \<and> ur_id r = i \<and>
       (if email \<noteq> old \<and> mu_users s email \<noteq> None then res = Inl (UserExists email) \<and> mu_users s' = mu_users s
        else res = Inr () \<and> mu_users s' = table_move old email (mu_users s)))"
proof (cases "by_id (mu_by_email s) i")
  case None
  have "\<not> has_id (mu_users s) i"
    using None mu_keyed [OF ok] by_id_Some [of "mu_by_email s" i] ok
    by (fastforce simp: has_id_def mu_ok_def mu_users_def)
  with None ok run show ?thesis by (auto simp: mu_update_profile_def mu_ok_def)
next
  case (Some r)
  have r: "hm_get (mu_by_email s) (ur_email r) = Some r" "ur_id r = i"
    using Some ok by_id_Some [of "mu_by_email s" i r] by (auto simp: mu_ok_def)
  then have yes: "has_id (mu_users s) i" by (auto simp: has_id_def mu_users_def)
  show ?thesis
  proof (cases "email \<noteq> ur_email r \<and> hm_get (mu_by_email s) email \<noteq> None")
    case True
    with Some r ok run yes show ?thesis by (auto simp: mu_update_profile_def mu_ok_def mu_users_def)
  next
    case False
    let ?m = "hm_remove (ur_email r) (mu_by_email s)" and ?r = "r\<lparr>ur_email := email\<rparr>"
    have absent: "hm_get ?m email = None" using False by auto
    have s': "res = Inr ()" "mu_by_email s' = ?m @ [(email, ?r)]" "mu_poisoned s' = mu_poisoned s" "mu_drawn s' = mu_drawn s"
      using False Some r ok run absent by (auto simp: mu_update_profile_def mu_ok_def hm_insert_absent)
    have users: "mu_users s' = table_move (ur_email r) email (mu_users s)"
      using r absent by (intro ext)
        (auto simp: mu_users_def s' table_move_def hm_get_def hm_remove_def delete_conv' map_add_def split: option.splits)
    have wf: "hm_wf ?m" "hm_wf (mu_by_email s)" using ok by (auto simp: mu_ok_def)
    have sub: "(e, q) \<in> set (mu_by_email s) \<and> e \<noteq> ur_email r" if "(e, q) \<in> set ?m" for e q
      using that hm_in_set_get [OF wf(1) that] by (auto simp: hm_get_in_set split: if_splits)
    have "ur_id q \<noteq> i" if "(e, q) \<in> set ?m" for e q
      using sub [OF that] r mu_unique [OF wf(2) _ hm_in_set_get [OF wf(2)] r(1), of e q] ok by (auto simp: mu_ok_def)
    then have "i \<notin> (\<lambda>(e, r). ur_id r) ` set ?m" by auto
    moreover have "distinct (map (\<lambda>(e, r). ur_id r) ?m)"
      using ok by (auto simp: mu_ok_def hm_remove_def AList.delete_eq distinct_map_filter)
    moreover have "email \<notin> fst ` set ?m" using absent by (simp add: hm_get_def map_of_eq_None_iff)
    moreover have "has_id (mu_users s') j \<Longrightarrow> has_id (mu_users s) j" for j
      unfolding users using r by (auto simp: has_id_def table_move_def mu_users_def split: if_splits)
    moreover have "list_all (\<lambda>(e, r). ur_email r = e) ?m"
      using ok sub by (fastforce simp: mu_ok_def list_all_iff)
    ultimately have "mu_ok uuid s'"
      using ok wf r(2) by (auto simp: mu_ok_def s' hm_wf_def)
    with users yes s'(1) r False show ?thesis by (auto simp: mu_users_def)
  qed
qed

lemma mu_find_by_id_laws:
  "mu_ok uuid s \<Longrightarrow> mu_find_by_id i s = Some r \<longleftrightarrow> mu_users s (ur_email r) = Some r \<and> ur_id r = i"
  by (simp add: mu_find_by_id_def mu_ok_def mu_users_def by_id_Some)

interpretation memory_users: user_provider_laws "memory_provider uuid" mu_users "mu_ok uuid"
proof (unfold_locales, goal_cases)
  case (3 s e r)
  then show ?case by (rule mu_keyed)
next
  case (4 s e r e' r')
  then show ?case using mu_unique [of "mu_by_email s" e r e' r'] by (auto simp: mu_ok_def mu_users_def)
next
  case (6 s i h res s')
  then show ?case using mu_modify_laws [of uuid s "\<lambda>r. r\<lparr>ur_password_hash := h\<rparr>" i res s']
    by (simp add: memory_provider_def mu_update_password_def)
next
  case (7 s i at res s')
  then show ?case using mu_modify_laws [of uuid s "\<lambda>r. r\<lparr>ur_email_verified_at := at\<rparr>" i res s']
    by (simp add: memory_provider_def mu_set_email_verified_at_def)
next
  case (8 s i tz res s')
  then show ?case using mu_modify_laws [of uuid s "\<lambda>r. r\<lparr>ur_timezone := tz\<rparr>" i res s']
    by (simp add: memory_provider_def mu_update_timezone_def)
next
  case (9 s i name email res s')
  then show ?case by (intro mu_profile_laws) (simp_all add: memory_provider_def)
next
  case (5 s n made s')
  then show ?case by (intro mu_create_laws) (simp_all add: memory_provider_def)
qed (auto simp: memory_provider_def mu_users_def mu_ok_def mu_find_by_id_def by_id_Some)

end
