(* ===== verification/Session.thy ===== *)
theory Session
  imports Users
begin

text \<open>
  The session guard, \<^verbatim>\<open>rustasea-auth/src/session.rs\<close> with \<^verbatim>\<open>session/policy.rs\<close>,
  \<^verbatim>\<open>session/password.rs\<close>, \<^verbatim>\<open>session/provider.rs\<close> and \<^verbatim>\<open>session_cookie.rs\<close>.

  Sessions come from the \<^verbatim>\<open>tower-sessions\<close> crate: \<open>session_api\<close> has the methods of its
  \<^verbatim>\<open>Session\<close> that the code calls, over a handle and the state of the store, and
  \<^verbatim>\<open>Id::from_str\<close>. What the crate documents of them is the locale \<open>session_laws\<close>. A session value is the
  JSON of a user or a text: the two types that the code stores.
\<close>

section \<open>Sessions\<close>

record SessionUser =
  su_id :: string
  su_email :: "string option"
  su_email_verified_at :: "string option"
  su_timezone :: "string option"

datatype session_value = VUser SessionUser | VText string

record ('h, 'e) session_api =
  ss_parse_id :: "string \<Rightarrow> string option"
  ss_new :: "string option \<Rightarrow> 'h"
  ss_get :: "string \<Rightarrow> 'h \<Rightarrow> 'e \<Rightarrow> (unit + session_value option) \<times> 'h \<times> 'e"
  ss_insert :: "string \<Rightarrow> session_value \<Rightarrow> 'h \<Rightarrow> 'e \<Rightarrow> (unit + unit) \<times> 'h \<times> 'e"
  ss_remove :: "string \<Rightarrow> 'h \<Rightarrow> 'e \<Rightarrow> (unit + unit) \<times> 'h \<times> 'e"
  ss_cycle_id :: "'h \<Rightarrow> 'e \<Rightarrow> (unit + unit) \<times> 'h \<times> 'e"
  ss_flush :: "'h \<Rightarrow> 'e \<Rightarrow> (unit + unit) \<times> 'h \<times> 'e"
  ss_save :: "'h \<Rightarrow> 'e \<Rightarrow> (unit + unit) \<times> 'h \<times> 'e"
  ss_id :: "'h \<Rightarrow> string option"

text \<open>\<^verbatim>\<open>Session::get\<close> at the type of a user, and at the type of a text: another value is an error.\<close>

definition get_user :: "('h, 'e) session_api \<Rightarrow> string \<Rightarrow> 'h \<Rightarrow> 'e \<Rightarrow> (AuthError + SessionUser option) \<times> 'h \<times> 'e" where
  "get_user api key h e =
     (case ss_get api key h e of
        (Inl _, he) \<Rightarrow> (Inl StoreUnavailable, he)
      | (Inr None, he) \<Rightarrow> (Inr None, he)
      | (Inr (Some (VUser u)), he) \<Rightarrow> (Inr (Some u), he)
      | (Inr (Some (VText _)), he) \<Rightarrow> (Inl StoreUnavailable, he))"

definition get_text :: "('h, 'e) session_api \<Rightarrow> string \<Rightarrow> 'h \<Rightarrow> 'e \<Rightarrow> (AuthError + string option) \<times> 'h \<times> 'e" where
  "get_text api key h e =
     (case ss_get api key h e of
        (Inl _, he) \<Rightarrow> (Inl StoreUnavailable, he)
      | (Inr None, he) \<Rightarrow> (Inr None, he)
      | (Inr (Some (VText t)), he) \<Rightarrow> (Inr (Some t), he)
      | (Inr (Some (VUser _)), he) \<Rightarrow> (Inl StoreUnavailable, he))"

section \<open>Policy and cookie\<close>

record SessionPolicy =
  sp_serialization :: string
  sp_prefix :: string
  sp_classes :: "string list"

definition session_policy_default :: SessionPolicy where
  "session_policy_default = \<lparr>sp_serialization = ''json'', sp_prefix = ''rustasea-session-'', sp_classes = []\<rparr>"

definition with_classes :: "string list \<Rightarrow> SessionPolicy" where
  "with_classes classes = session_policy_default\<lparr>sp_classes := classes\<rparr>"

definition contains_text :: "string \<Rightarrow> string \<Rightarrow> bool" where
  "contains_text needle s \<longleftrightarrow> list_ex (\<lambda>n. take (length needle) (drop n s) = needle) [0..<Suc (length s)]"

definition validate_prefix :: "(string \<Rightarrow> string) \<Rightarrow> SessionPolicy \<Rightarrow> AuthError + unit" where
  "validate_prefix quote p =
     (if sp_serialization p \<noteq> ''json'' then
        Inl (Disabled (''unsupported session serialization '' @ quote (sp_serialization p) @ '' (only \"json\" is allowed)''))
      else if \<not> contains_text ''-session-'' (sp_prefix p) then
        Inl (Disabled (''session prefix '' @ quote (sp_prefix p) @ '' must contain -session-''))
      else Inr ())"

definition validate_cache_prefix :: "(string \<Rightarrow> string) \<Rightarrow> string \<Rightarrow> AuthError + unit" where
  "validate_cache_prefix quote p =
     (if \<not> contains_text ''-cache-'' p then Inl (Disabled (''cache prefix '' @ quote p @ '' must contain -cache-''))
      else Inr ())"

text \<open>\<^verbatim>\<open>SerializationError::NotAllowed\<close> with the name of the type.\<close>

definition allow :: "SessionPolicy \<Rightarrow> string \<Rightarrow> string + unit" where
  "allow p type_name = (if list_ex (\<lambda>c. c = type_name) (sp_classes p) then Inr () else Inl type_name)"

definition user_key :: "SessionPolicy \<Rightarrow> string" where
  "user_key p = sp_prefix p @ ''user''"

definition password_confirmed_key :: "SessionPolicy \<Rightarrow> string" where
  "password_confirmed_key p = sp_prefix p @ ''password_confirmed_at''"

record SessionCookieConfig =
  sc_name :: string
  sc_http_only :: bool
  sc_secure :: bool
  sc_same_site :: string
  sc_path :: string
  sc_domain :: "string option"

definition cookie_default :: SessionCookieConfig where
  "cookie_default = \<lparr>sc_name = ''rustasea-session'', sc_http_only = True, sc_secure = True, sc_same_site = ''Lax'',
     sc_path = ''/'', sc_domain = None\<rparr>"

text \<open>The cookie that is built, before the \<^verbatim>\<open>cookie\<close> crate prints it.\<close>

record cookie =
  ck_name :: string
  ck_value :: string
  ck_http_only :: bool
  ck_secure :: bool
  ck_same_site :: string
  ck_path :: string
  ck_domain :: "string option"
  ck_removal :: bool

definition build_cookie :: "SessionCookieConfig \<Rightarrow> string \<Rightarrow> cookie" where
  "build_cookie c v = \<lparr>ck_name = sc_name c, ck_value = v, ck_http_only = sc_http_only c, ck_secure = sc_secure c,
     ck_same_site = sc_same_site c, ck_path = sc_path c, ck_domain = sc_domain c, ck_removal = False\<rparr>"

section \<open>The guard\<close>

definition SESSION_TTL_SECS :: nat where
  "SESSION_TTL_SECS = 1209600"

record session_guard =
  sg_name :: string
  sg_policy :: SessionPolicy
  sg_cookie :: SessionCookieConfig
  sg_verify :: "string \<Rightarrow> string \<Rightarrow> bool"
  sg_lookup :: user_lookup
  sg_allow_login_using_id :: bool
  sg_ttl_secs :: nat

text \<open>\<open>argon2\<close> is the verifier of the default.\<close>

definition with_store :: "(string \<Rightarrow> string \<Rightarrow> bool) \<Rightarrow> SessionPolicy \<Rightarrow> session_guard" where
  "with_store argon2 policy = \<lparr>sg_name = ''session'', sg_policy = policy, sg_cookie = cookie_default, sg_verify = argon2,
     sg_lookup = StaticLookup, sg_allow_login_using_id = False, sg_ttl_secs = SESSION_TTL_SECS\<rparr>"

definition with_ttl :: "nat \<Rightarrow> session_guard \<Rightarrow> session_guard" where
  "with_ttl n g = g\<lparr>sg_ttl_secs := n\<rparr>"

definition with_verifier :: "(string \<Rightarrow> string \<Rightarrow> bool) \<Rightarrow> session_guard \<Rightarrow> session_guard" where
  "with_verifier v g = g\<lparr>sg_verify := v\<rparr>"

definition with_lookup :: "user_lookup \<Rightarrow> session_guard \<Rightarrow> session_guard" where
  "with_lookup l g = g\<lparr>sg_lookup := l\<rparr>"

definition with_allow_login_using_id :: "bool \<Rightarrow> session_guard \<Rightarrow> session_guard" where
  "with_allow_login_using_id b g = g\<lparr>sg_allow_login_using_id := b\<rparr>"

definition with_cookie :: "SessionCookieConfig \<Rightarrow> session_guard \<Rightarrow> session_guard" where
  "with_cookie c g = g\<lparr>sg_cookie := c\<rparr>"

text \<open>A value written into a new session, saved: \<^verbatim>\<open>persist\<close>, and the pending identity of the
  two-factor challenge.\<close>

definition new_session :: "('h, 'e) session_api \<Rightarrow> string \<Rightarrow> SessionUser \<Rightarrow> 'e \<Rightarrow> (AuthError + string) \<times> 'e" where
  "new_session api key u e =
     (case ss_insert api key (VUser u) (ss_new api None) e of
        (Inl _, _, e') \<Rightarrow> (Inl StoreUnavailable, e')
      | (Inr _, h', e') \<Rightarrow>
          (case ss_save api h' e' of
             (Inl _, _, e'') \<Rightarrow> (Inl StoreUnavailable, e'')
           | (Inr _, h'', e'') \<Rightarrow>
               (case ss_id api h'' of None \<Rightarrow> (Inl StoreUnavailable, e'') | Some i \<Rightarrow> (Inr i, e''))))"

definition persist :: "('h, 'e) session_api \<Rightarrow> session_guard \<Rightarrow> SessionUser \<Rightarrow> 'e \<Rightarrow> (AuthError + string) \<times> 'e" where
  "persist api g u e = new_session api (user_key (sg_policy g)) u e"

definition issue :: "session_guard \<Rightarrow> string \<Rightarrow> Token" where
  "issue g i = \<lparr>tk_access = i, tk_refresh = i, tk_type = ''Session'', tk_expires_in = sg_ttl_secs g\<rparr>"

definition parse_id :: "('h, 'e) session_api \<Rightarrow> string \<Rightarrow> AuthError + string" where
  "parse_id api token = (case ss_parse_id api token of None \<Rightarrow> Inl InvalidToken | Some i \<Rightarrow> Inr i)"

definition persist_token :: "('h, 'e) session_api \<Rightarrow> session_guard \<Rightarrow> SessionUser \<Rightarrow> 'e \<Rightarrow> (AuthError + Token) \<times> 'e" where
  "persist_token api g u e =
     (case persist api g u e of (Inl er, e') \<Rightarrow> (Inl er, e') | (Inr i, e') \<Rightarrow> (Inr (issue g i), e'))"

definition session_login :: "('h, 'e) session_api \<Rightarrow> session_guard \<Rightarrow> Credentials \<Rightarrow> 'e \<Rightarrow> (AuthError + Token) \<times> 'e" where
  "session_login api g creds e =
     (case hash_for_email (sg_lookup g) (cr_email creds) of
        None \<Rightarrow> (Inl BadCredentials, e)
      | Some stored_hash \<Rightarrow>
          if \<not> sg_verify g stored_hash (cr_password creds) then (Inl BadCredentials, e)
          else
            (case id_for_email (sg_lookup g) (cr_email creds) of
               None \<Rightarrow> (Inl BadCredentials, e)
             | Some uid \<Rightarrow>
                 persist_token api g
                   \<lparr>su_id = uid,
                    su_email = (case email_for_id (sg_lookup g) uid of Some m \<Rightarrow> Some m | None \<Rightarrow> Some (cr_email creds)),
                    su_email_verified_at = email_verified_at_for_id (sg_lookup g) uid,
                    su_timezone = timezone_for_id (sg_lookup g) uid\<rparr> e))"

definition session_login_using_id :: "('h, 'e) session_api \<Rightarrow> session_guard \<Rightarrow> string \<Rightarrow> 'e \<Rightarrow> (AuthError + Token) \<times> 'e" where
  "session_login_using_id api g uid e =
     (if \<not> sg_allow_login_using_id g then (Inl (Disabled ''loginUsingId is disabled on the session guard''), e)
      else
        persist_token api g
          \<lparr>su_id = uid, su_email = email_for_id (sg_lookup g) uid,
           su_email_verified_at = email_verified_at_for_id (sg_lookup g) uid,
           su_timezone = timezone_for_id (sg_lookup g) uid\<rparr> e)"

definition session_user_of :: "AuthUserRecord \<Rightarrow> SessionUser" where
  "session_user_of r = \<lparr>su_id = ur_id r, su_email = Some (ur_email r), su_email_verified_at = ur_email_verified_at r,
     su_timezone = ur_timezone r\<rparr>"

text \<open>The states of the provider and of the session store are a pair.\<close>

definition login_with_provider ::
  "('h, 'e) session_api \<Rightarrow> session_guard \<Rightarrow> 'u user_provider \<Rightarrow> Credentials \<Rightarrow> 'u \<times> 'e \<Rightarrow> (AuthError + Token) \<times> 'u \<times> 'e" where
  "login_with_provider api g P creds ue =
     (case ue of (s, e) \<Rightarrow>
        (case up_find_by_email P (cr_email creds) s of
           (Inl er, s') \<Rightarrow> (Inl er, s', e)
         | (Inr None, s') \<Rightarrow> (Inl BadCredentials, s', e)
         | (Inr (Some r), s') \<Rightarrow>
             if \<not> sg_verify g (ur_password_hash r) (cr_password creds) then (Inl BadCredentials, s', e)
             else (case persist_token api g (session_user_of r) e of (res, e') \<Rightarrow> (res, s', e'))))"

text \<open>The stored user of a token, with the handle on its session.\<close>

definition open_user ::
  "('h, 'e) session_api \<Rightarrow> session_guard \<Rightarrow> string \<Rightarrow> 'e \<Rightarrow> (AuthError + SessionUser \<times> 'h) \<times> 'e" where
  "open_user api g token e =
     (case parse_id api token of
        Inl er \<Rightarrow> (Inl er, e)
      | Inr i \<Rightarrow>
          (case get_user api (user_key (sg_policy g)) (ss_new api (Some i)) e of
             (Inl er, _, e') \<Rightarrow> (Inl er, e')
           | (Inr None, _, e') \<Rightarrow> (Inl InvalidToken, e')
           | (Inr (Some u), h, e') \<Rightarrow> (Inr (u, h), e')))"

definition read_password_confirmed_at ::
  "('h, 'e) session_api \<Rightarrow> session_guard \<Rightarrow> 'h \<Rightarrow> 'e \<Rightarrow> (AuthError + string option) \<times> 'e" where
  "read_password_confirmed_at api g h e =
     (case get_text api (password_confirmed_key (sg_policy g)) h e of (r, _, e') \<Rightarrow> (r, e'))"

definition session_parse :: "('h, 'e) session_api \<Rightarrow> session_guard \<Rightarrow> string \<Rightarrow> 'e \<Rightarrow> (AuthError + AuthUser) \<times> 'e" where
  "session_parse api g token e =
     (case open_user api g token e of
        (Inl er, e') \<Rightarrow> (Inl er, e')
      | (Inr (u, h), e') \<Rightarrow>
          (case read_password_confirmed_at api g h e' of
             (Inl er, e'') \<Rightarrow> (Inl er, e'')
           | (Inr at, e'') \<Rightarrow>
               (Inr \<lparr>au_id = su_id u, au_email = su_email u, au_guard = sg_name g,
                  au_email_verified_at = su_email_verified_at u, au_password_confirmed_at = at,
                  au_timezone = su_timezone u\<rparr>, e'')))"

definition session_refresh :: "('h, 'e) session_api \<Rightarrow> session_guard \<Rightarrow> string \<Rightarrow> 'e \<Rightarrow> (AuthError + Token) \<times> 'e" where
  "session_refresh api g token e =
     (case open_user api g token e of
        (Inl er, e') \<Rightarrow> (Inl er, e')
      | (Inr (_, h), e1) \<Rightarrow>
          (case ss_cycle_id api h e1 of
             (Inl _, _, e2) \<Rightarrow> (Inl StoreUnavailable, e2)
           | (Inr _, h2, e2) \<Rightarrow>
               (case ss_save api h2 e2 of
                  (Inl _, _, e3) \<Rightarrow> (Inl StoreUnavailable, e3)
                | (Inr _, h3, e3) \<Rightarrow>
                    (case ss_id api h3 of None \<Rightarrow> (Inl StoreUnavailable, e3) | Some i \<Rightarrow> (Inr (issue g i), e3)))))"

definition session_logout :: "('h, 'e) session_api \<Rightarrow> string \<Rightarrow> 'e \<Rightarrow> (AuthError + unit) \<times> 'e" where
  "session_logout api token e =
     (case parse_id api token of
        Inl er \<Rightarrow> (Inl er, e)
      | Inr i \<Rightarrow>
          (case ss_flush api (ss_new api (Some i)) e of
             (Inl _, _, e') \<Rightarrow> (Inl StoreUnavailable, e')
           | (Inr _, _, e') \<Rightarrow> (Inr (), e')))"

definition confirm_password_at ::
  "('h, 'e) session_api \<Rightarrow> session_guard \<Rightarrow> string \<Rightarrow> int \<Rightarrow> 'e \<Rightarrow> (AuthError + unit) \<times> 'e" where
  "confirm_password_at api g token now e =
     (case open_user api g token e of
        (Inl er, e') \<Rightarrow> (Inl er, e')
      | (Inr (_, h), e1) \<Rightarrow>
          (case ss_insert api (password_confirmed_key (sg_policy g)) (VText (show_int now)) h e1 of
             (Inl _, _, e2) \<Rightarrow> (Inl StoreUnavailable, e2)
           | (Inr _, h2, e2) \<Rightarrow>
               (case ss_save api h2 e2 of
                  (Inl _, _, e3) \<Rightarrow> (Inl StoreUnavailable, e3)
                | (Inr _, _, e3) \<Rightarrow> (Inr (), e3))))"

definition password_confirmed_at ::
  "('h, 'e) session_api \<Rightarrow> session_guard \<Rightarrow> string \<Rightarrow> 'e \<Rightarrow> (AuthError + string option) \<times> 'e" where
  "password_confirmed_at api g token e =
     (case open_user api g token e of
        (Inl er, e') \<Rightarrow> (Inl er, e')
      | (Inr (_, h), e') \<Rightarrow> read_password_confirmed_at api g h e')"

text \<open>A result \<open>None\<close> is the panic of an overflow check.\<close>

definition session_is_password_confirmed_within ::
  "bool \<Rightarrow> (string \<Rightarrow> int option) \<Rightarrow> ('h, 'e) session_api \<Rightarrow> session_guard \<Rightarrow> string \<Rightarrow> nat \<Rightarrow> int \<Rightarrow> 'e
    \<Rightarrow> (AuthError + bool) option \<times> 'e" where
  "session_is_password_confirmed_within checks rfc3339 api g token timeout now e =
     (case password_confirmed_at api g token e of
        (Inl er, e') \<Rightarrow> (Some (Inl er), e')
      | (Inr at, e') \<Rightarrow> (map_option Inr (timestamp_is_fresh checks rfc3339 at timeout now), e'))"

end
