(* ===== verification/Passkeys.thy ===== *)
theory Passkeys
  imports Guard "HOL-Library.Word" "HOL-Library.Char_ord" "HOL-Library.List_Lexorder"
begin

text \<open>
  Passkeys, \<^verbatim>\<open>rustasea-auth/src/passkeys\<close>: the WebAuthn ceremonies (\<^verbatim>\<open>webauthn.rs\<close>,
  \<^verbatim>\<open>types.rs\<close>), the store of credentials (\<^verbatim>\<open>store.rs\<close>), the store of challenges
  (\<^verbatim>\<open>challenge.rs\<close>) and the service (\<^verbatim>\<open>mod.rs\<close>).

  Base64url, JSON and CBOR decoding, SHA-256, HMAC and ECDSA are fields of the environment; a CBOR value has the
  constructors that the code tells apart. Random bytes and the time stamp are arguments. Stores are records of
  operations over a state; the stores in memory are their instances.
\<close>

unbundle bit_operations_syntax

section \<open>Ceremony data\<close>

record ClientData =
  cd_type :: string
  cd_challenge :: string
  cd_origin :: string

datatype cbor = CInt int | CBytes bytes | CText string | CMap "(cbor \<times> cbor) list" | COther

record AttestationObject =
  ao_fmt :: string
  ao_att_stmt :: cbor
  ao_auth_data :: bytes

record 's pk_env =
  pe_b64_encode :: "bytes \<Rightarrow> string"
  pe_b64_decode :: "string \<Rightarrow> bytes option"
  pe_client_data :: "bytes \<Rightarrow> ClientData option"
  pe_attestation :: "bytes \<Rightarrow> AttestationObject option"
  pe_cbor :: "bytes \<Rightarrow> cbor option"
  pe_sha256 :: "bytes \<Rightarrow> bytes"
  pe_hmac :: "string \<Rightarrow> string \<Rightarrow> bytes option"
  pe_sec1_ok :: "bytes \<Rightarrow> bool"
  pe_sig_der :: "bytes \<Rightarrow> 's option"
  pe_sig_slice :: "bytes \<Rightarrow> 's option"
  pe_verify :: "bytes \<Rightarrow> bytes \<Rightarrow> 's \<Rightarrow> bool"
  pe_quote :: "string \<Rightarrow> string"

definition ES256_ALG :: int where
  "ES256_ALG = - 7"

definition COSE_KTY_EC2 :: int where
  "COSE_KTY_EC2 = 2"

definition COSE_CRV_P256 :: int where
  "COSE_CRV_P256 = 1"

definition FLAG_USER_PRESENT :: "8 word" where
  "FLAG_USER_PRESENT = 0x01"

definition FLAG_ATTESTED_CREDENTIAL_DATA :: "8 word" where
  "FLAG_ATTESTED_CREDENTIAL_DATA = 0x40"

definition RP_ID_HASH_LEN :: nat where
  "RP_ID_HASH_LEN = 32"

definition AAGUID_LEN :: nat where
  "AAGUID_LEN = 16"

definition AUTH_DATA_HEADER_LEN :: nat where
  "AUTH_DATA_HEADER_LEN = RP_ID_HASH_LEN + 1 + 4"

definition P256_COORD_LEN :: nat where
  "P256_COORD_LEN = 32"

definition CEREMONY_CREATE :: string where
  "CEREMONY_CREATE = ''webauthn.create''"

definition CEREMONY_GET :: string where
  "CEREMONY_GET = ''webauthn.get''"

record RegistrationResponse =
  rr_id :: string
  rr_name :: "string option"
  rr_client_data_json :: string
  rr_attestation_object :: string

record AuthenticationResponse =
  ar_id :: string
  ar_client_data_json :: string
  ar_authenticator_data :: string
  ar_signature :: string
  ar_user_handle :: "string option"

record RegistrationOutcome =
  ro_credential_id :: string
  ro_public_key :: bytes
  ro_counter :: nat

record AssertionOutcome =
  as_counter :: nat
  as_user_handle :: "string option"

record AuthData =
  ad_rp_id_hash :: bytes
  ad_flags :: "8 word"
  ad_counter :: nat
  ad_credential_id :: "bytes option"
  ad_cose_key :: "bytes option"

section \<open>Verification\<close>

definition generate_challenge :: "'s pk_env \<Rightarrow> bytes \<Rightarrow> string" where
  "generate_challenge env random = pe_b64_encode env random"

definition user_handle :: "'s pk_env \<Rightarrow> string \<Rightarrow> string \<Rightarrow> AuthError + string" where
  "user_handle env secret uid =
     (case pe_hmac env secret uid of
        None \<Rightarrow> Inl (PasskeyError ''invalid user-handle secret'')
      | Some digest \<Rightarrow> Inr (pe_b64_encode env digest))"

definition decode_base64url :: "'s pk_env \<Rightarrow> string \<Rightarrow> string \<Rightarrow> AuthError + bytes" where
  "decode_base64url env name v =
     (case pe_b64_decode env v of
        None \<Rightarrow> Inl (PasskeyError (name @ '' is not valid base64url''))
      | Some b \<Rightarrow> Inr b)"

definition check_client_data :: "'s pk_env \<Rightarrow> ClientData \<Rightarrow> string \<Rightarrow> string list \<Rightarrow> string \<Rightarrow> AuthError + unit" where
  "check_client_data env cd expected_type allowed_origins expected_challenge =
     (if cd_type cd \<noteq> expected_type then Inl (PasskeyError (''unexpected ceremony type '' @ pe_quote env (cd_type cd)))
      else if cd_challenge cd \<noteq> expected_challenge then Inl (PasskeyError ''challenge mismatch'')
      else if \<not> list_ex (\<lambda>origin. origin = cd_origin cd) allowed_origins then Inl (PasskeyError ''origin is not allowed'')
      else Inr ())"

definition byte :: "bytes \<Rightarrow> nat \<Rightarrow> nat" where
  "byte b i = of_char (b ! i)"

definition parse_auth_data :: "bytes \<Rightarrow> AuthError + AuthData" where
  "parse_auth_data b =
     (if length b < AUTH_DATA_HEADER_LEN then Inl (PasskeyError ''authenticatorData is too short'')
      else
        (let rp = take RP_ID_HASH_LEN b;
             flags = (of_nat (byte b RP_ID_HASH_LEN) :: 8 word);
             counter = ((byte b (RP_ID_HASH_LEN + 1) * 256 + byte b (RP_ID_HASH_LEN + 2)) * 256
                + byte b (RP_ID_HASH_LEN + 3)) * 256 + byte b (RP_ID_HASH_LEN + 4)
         in if flags AND FLAG_ATTESTED_CREDENTIAL_DATA = 0 then
              Inr \<lparr>ad_rp_id_hash = rp, ad_flags = flags, ad_counter = counter, ad_credential_id = None, ad_cose_key = None\<rparr>
            else if length b < AUTH_DATA_HEADER_LEN + AAGUID_LEN + 2 then
              Inl (PasskeyError ''attested credential data is truncated'')
            else
              (let cursor = AUTH_DATA_HEADER_LEN + AAGUID_LEN;
                   id_len = byte b cursor * 256 + byte b (cursor + 1)
               in if length b < cursor + 2 + id_len then Inl (PasskeyError ''credential id is truncated'')
                  else if length b \<le> cursor + 2 + id_len then Inl (PasskeyError ''COSE public key is missing'')
                  else Inr \<lparr>ad_rp_id_hash = rp, ad_flags = flags, ad_counter = counter,
                     ad_credential_id = Some (take id_len (drop (cursor + 2) b)),
                     ad_cose_key = Some (drop (cursor + 2 + id_len) b)\<rparr>)))"

definition check_rp_id_hash :: "'s pk_env \<Rightarrow> bytes \<Rightarrow> string \<Rightarrow> AuthError + unit" where
  "check_rp_id_hash env actual rp_id =
     (if actual \<noteq> pe_sha256 env rp_id then Inl (PasskeyError ''relying-party id hash mismatch'') else Inr ())"

definition verify_signature :: "'s pk_env \<Rightarrow> bytes \<Rightarrow> bytes \<Rightarrow> bytes \<Rightarrow> AuthError + unit" where
  "verify_signature env public_key message signature =
     (if \<not> pe_sec1_ok env public_key then Inl (PasskeyError ''stored public key is invalid'')
      else
        (case (case pe_sig_der env signature of Some s \<Rightarrow> Some s | None \<Rightarrow> pe_sig_slice env signature) of
           None \<Rightarrow> Inl (PasskeyError ''signature is malformed'')
         | Some s \<Rightarrow>
             if pe_verify env public_key message s then Inr ()
             else Inl (PasskeyError ''signature verification failed'')))"

definition verify_packed :: "'s pk_env \<Rightarrow> cbor \<Rightarrow> bytes \<Rightarrow> bytes \<Rightarrow> bytes \<Rightarrow> AuthError + unit" where
  "verify_packed env stmt public_key auth_data client_data_hash =
     (case stmt of
        CMap entries \<Rightarrow>
          if list_ex (\<lambda>(k, _). k = CText ''x5c'') entries then Inr ()
          else
            (case List.find (\<lambda>(k, _). k = CText ''sig'') entries of
               Some (_, CBytes signature) \<Rightarrow> verify_signature env public_key (auth_data @ client_data_hash) signature
             | _ \<Rightarrow> Inl (PasskeyError ''packed attestation has no signature''))
      | _ \<Rightarrow> Inl (PasskeyError ''packed attestation statement is malformed''))"

definition verify_attestation ::
  "'s pk_env \<Rightarrow> AttestationObject \<Rightarrow> bytes \<Rightarrow> bytes \<Rightarrow> bytes \<Rightarrow> AuthError + unit" where
  "verify_attestation env ao public_key auth_data client_data_hash =
     (if ao_fmt ao = ''none'' then Inr ()
      else if ao_fmt ao = ''packed'' then verify_packed env (ao_att_stmt ao) public_key auth_data client_data_hash
      else Inl (PasskeyError (''unsupported attestation format '' @ pe_quote env (ao_fmt ao))))"

text \<open>The loop over the entries of a COSE key; the last entry of a label wins.\<close>

record cose_fields =
  cf_kty :: "int option"
  cf_crv :: "int option"
  cf_x :: "bytes option"
  cf_y :: "bytes option"

fun cbor_int :: "cbor \<Rightarrow> int option" where
  "cbor_int (CInt i) = Some i"
| "cbor_int _ = None"

fun cbor_bytes :: "cbor \<Rightarrow> bytes option" where
  "cbor_bytes (CBytes b) = Some b"
| "cbor_bytes _ = None"

fun cose_entries :: "(cbor \<times> cbor) list \<Rightarrow> cose_fields \<Rightarrow> cose_fields" where
  "cose_entries [] c = c"
| "cose_entries ((CInt label, v) # kvs) c =
     cose_entries kvs
       (if label = 1 then c\<lparr>cf_kty := cbor_int v\<rparr>
        else if label = -1 then c\<lparr>cf_crv := cbor_int v\<rparr>
        else if label = -2 then c\<lparr>cf_x := cbor_bytes v\<rparr>
        else if label = -3 then c\<lparr>cf_y := cbor_bytes v\<rparr>
        else c)"
| "cose_entries (_ # kvs) c = cose_entries kvs c"

definition cose_to_sec1 :: "'s pk_env \<Rightarrow> bytes \<Rightarrow> AuthError + bytes" where
  "cose_to_sec1 env cose_key =
     (case pe_cbor env cose_key of
        None \<Rightarrow> Inl (PasskeyError ''COSE public key is not valid CBOR'')
      | Some (CMap entries) \<Rightarrow>
          (let c = cose_entries entries \<lparr>cf_kty = None, cf_crv = None, cf_x = None, cf_y = None\<rparr> in
           if cf_kty c \<noteq> Some COSE_KTY_EC2 \<or> cf_crv c \<noteq> Some COSE_CRV_P256
           then Inl (PasskeyError ''COSE key is not an EC2 P-256 key'')
           else
             (case cf_x c of
                None \<Rightarrow> Inl (PasskeyError ''COSE key is missing x'')
              | Some x \<Rightarrow>
                  (case cf_y c of
                     None \<Rightarrow> Inl (PasskeyError ''COSE key is missing y'')
                   | Some y \<Rightarrow>
                       if length x \<noteq> P256_COORD_LEN \<or> length y \<noteq> P256_COORD_LEN
                       then Inl (PasskeyError ''COSE key coordinates are not 32 bytes'')
                       else Inr (CHR 0x04 # x @ y))))
      | Some _ \<Rightarrow> Inl (PasskeyError ''COSE public key is not a map''))"

text \<open>The client data of a response, decoded and checked for its ceremony.\<close>

definition checked_client_data ::
  "'s pk_env \<Rightarrow> string \<Rightarrow> string \<Rightarrow> string list \<Rightarrow> string \<Rightarrow> AuthError + bytes" where
  "checked_client_data env json ceremony allowed_origins expected_challenge =
     (case decode_base64url env ''clientDataJSON'' json of
        Inl e \<Rightarrow> Inl e
      | Inr b \<Rightarrow>
          (case pe_client_data env b of
             None \<Rightarrow> Inl (PasskeyError ''clientDataJSON is not valid JSON'')
           | Some cd \<Rightarrow>
               (case check_client_data env cd ceremony allowed_origins expected_challenge of
                  Inl e \<Rightarrow> Inl e
                | Inr _ \<Rightarrow> Inr b)))"

definition verify_registration ::
  "'s pk_env \<Rightarrow> string \<Rightarrow> string list \<Rightarrow> string \<Rightarrow> RegistrationResponse \<Rightarrow> AuthError + RegistrationOutcome" where
  "verify_registration env rp_id allowed_origins expected_challenge response =
     (case checked_client_data env (rr_client_data_json response) CEREMONY_CREATE allowed_origins expected_challenge of
        Inl e \<Rightarrow> Inl e
      | Inr client_bytes \<Rightarrow>
     (case decode_base64url env ''attestationObject'' (rr_attestation_object response) of
        Inl e \<Rightarrow> Inl e
      | Inr ab \<Rightarrow>
     (case pe_attestation env ab of
        None \<Rightarrow> Inl (PasskeyError ''attestationObject is not valid CBOR'')
      | Some ao \<Rightarrow>
     (case parse_auth_data (ao_auth_data ao) of
        Inl e \<Rightarrow> Inl e
      | Inr ad \<Rightarrow>
     (case check_rp_id_hash env (ad_rp_id_hash ad) rp_id of
        Inl e \<Rightarrow> Inl e
      | Inr _ \<Rightarrow>
     if ad_flags ad AND FLAG_USER_PRESENT = 0 then Inl (PasskeyError ''user-present flag is not set'')
     else if ad_flags ad AND FLAG_ATTESTED_CREDENTIAL_DATA = 0 then Inl (PasskeyError ''attested credential data is missing'')
     else
     (case ad_credential_id ad of
        None \<Rightarrow> Inl (PasskeyError ''credential id is missing'')
      | Some cid \<Rightarrow>
     (case ad_cose_key ad of
        None \<Rightarrow> Inl (PasskeyError ''COSE public key is missing'')
      | Some cose \<Rightarrow>
     (case cose_to_sec1 env cose of
        Inl e \<Rightarrow> Inl e
      | Inr public_key \<Rightarrow>
     (case verify_attestation env ao public_key (ao_auth_data ao) (pe_sha256 env client_bytes) of
        Inl e \<Rightarrow> Inl e
      | Inr _ \<Rightarrow>
         Inr \<lparr>ro_credential_id = pe_b64_encode env cid, ro_public_key = public_key, ro_counter = ad_counter ad\<rparr>)))))))))"

definition verify_assertion ::
  "'s pk_env \<Rightarrow> string \<Rightarrow> string list \<Rightarrow> string \<Rightarrow> bytes \<Rightarrow> AuthenticationResponse \<Rightarrow> AuthError + AssertionOutcome" where
  "verify_assertion env rp_id allowed_origins expected_challenge public_key response =
     (case checked_client_data env (ar_client_data_json response) CEREMONY_GET allowed_origins expected_challenge of
        Inl e \<Rightarrow> Inl e
      | Inr client_bytes \<Rightarrow>
     (case decode_base64url env ''authenticatorData'' (ar_authenticator_data response) of
        Inl e \<Rightarrow> Inl e
      | Inr ab \<Rightarrow>
     (case parse_auth_data ab of
        Inl e \<Rightarrow> Inl e
      | Inr ad \<Rightarrow>
     (case check_rp_id_hash env (ad_rp_id_hash ad) rp_id of
        Inl e \<Rightarrow> Inl e
      | Inr _ \<Rightarrow>
     if ad_flags ad AND FLAG_USER_PRESENT = 0 then Inl InvalidPasskeyAssertion
     else
     (case decode_base64url env ''signature'' (ar_signature response) of
        Inl e \<Rightarrow> Inl e
      | Inr signature \<Rightarrow>
     (case verify_signature env public_key (ab @ pe_sha256 env client_bytes) signature of
        Inl _ \<Rightarrow> Inl InvalidPasskeyAssertion
      | Inr _ \<Rightarrow>
         Inr \<lparr>as_counter = ad_counter ad,
           as_user_handle = (case ar_user_handle response of Some h \<Rightarrow> if h = [] then None else Some h | None \<Rightarrow> None)\<rparr>))))))"

section \<open>Stores\<close>

record PasskeyCredential =
  pc_id :: string
  pc_user_id :: string
  pc_public_key :: bytes
  pc_counter :: nat
  pc_name :: string
  pc_created_at :: string

record 'p pk_store =
  pk_create :: "PasskeyCredential \<Rightarrow> 'p \<Rightarrow> (AuthError + unit) \<times> 'p"
  pk_find :: "string \<Rightarrow> 'p \<Rightarrow> AuthError + PasskeyCredential option"
  pk_list :: "string \<Rightarrow> 'p \<Rightarrow> AuthError + PasskeyCredential list"
  pk_delete :: "string \<Rightarrow> string \<Rightarrow> 'p \<Rightarrow> (AuthError + unit) \<times> 'p"
  pk_update_counter :: "string \<Rightarrow> nat \<Rightarrow> 'p \<Rightarrow> (AuthError + unit) \<times> 'p"

definition PK_DENY_REASON :: string where
  "PK_DENY_REASON = ''no passkey store is wired; denying access''"

definition DenyAllPasskeyStore :: "'p pk_store" where
  "DenyAllPasskeyStore = \<lparr>pk_create = (\<lambda>_ s. (Inl (Disabled PK_DENY_REASON), s)), pk_find = (\<lambda>_ _. Inl (Disabled PK_DENY_REASON)),
     pk_list = (\<lambda>_ _. Inl (Disabled PK_DENY_REASON)), pk_delete = (\<lambda>_ _ s. (Inl (Disabled PK_DENY_REASON), s)),
     pk_update_counter = (\<lambda>_ _ s. (Inl (Disabled PK_DENY_REASON), s))\<rparr>"

text \<open>The credentials by id, a hash map.\<close>

type_synonym pk_table = "(string, PasskeyCredential) hashmap"

definition pk_seed :: "PasskeyCredential \<Rightarrow> pk_table \<Rightarrow> pk_table" where
  "pk_seed c m = hm_insert (pc_id c) c m"

definition MemoryPasskeyStore :: "pk_table pk_store" where
  "MemoryPasskeyStore =
     \<lparr>pk_create = (\<lambda>c m. if hm_get m (pc_id c) \<noteq> None then (Inl (PasskeyError ''credential already registered''), m)
        else (Inr (), hm_insert (pc_id c) c m)),
      pk_find = (\<lambda>i m. Inr (hm_get m i)),
      pk_list = (\<lambda>u m. Inr (sort_key pc_created_at (filter (\<lambda>c. pc_user_id c = u) (map snd m)))),
      pk_delete = (\<lambda>u i m. (Inr (), case hm_get m i of
          Some c \<Rightarrow> if pc_user_id c = u then hm_remove i m else m
        | None \<Rightarrow> m)),
      pk_update_counter = (\<lambda>i n m. case hm_get m i of
          None \<Rightarrow> (Inl (PasskeyError ''credential not found''), m)
        | Some c \<Rightarrow> (Inr (), hm_insert i (c\<lparr>pc_counter := n\<rparr>) m))\<rparr>"

record 'c challenge_store =
  cs_put :: "string \<Rightarrow> string \<Rightarrow> 'c \<Rightarrow> (AuthError + unit) \<times> 'c"
  cs_take :: "string \<Rightarrow> 'c \<Rightarrow> (AuthError + string option) \<times> 'c"

definition CS_DENY_REASON :: string where
  "CS_DENY_REASON = ''no challenge store is wired; denying access''"

definition DenyAllChallengeStore :: "'c challenge_store" where
  "DenyAllChallengeStore = \<lparr>cs_put = (\<lambda>_ _ s. (Inl (Disabled CS_DENY_REASON), s)),
     cs_take = (\<lambda>_ s. (Inl (Disabled CS_DENY_REASON), s))\<rparr>"

definition MemoryChallengeStore :: "(string \<rightharpoonup> string) challenge_store" where
  "MemoryChallengeStore = \<lparr>cs_put = (\<lambda>k c m. (Inr (), m(k \<mapsto> c))), cs_take = (\<lambda>k m. (Inr (m k), m(k := None)))\<rparr>"

section \<open>The service\<close>

record pk_service =
  ps_rp_id :: string
  ps_rp_name :: string
  ps_allowed_origins :: "string list"
  ps_user_handle_secret :: string
  ps_timeout :: nat

record creation_options =
  co_challenge :: string
  co_rp_id :: string
  co_rp_name :: string
  co_user_id :: string
  co_user_name :: string
  co_display_name :: string
  co_alg :: int
  co_timeout :: nat
  co_attestation :: string
  co_exclude :: "string list"

record request_options =
  qo_challenge :: string
  qo_rp_id :: string
  qo_timeout :: nat
  qo_allow :: "string list"
  qo_user_verification :: string

definition begin_registration ::
  "'s pk_env \<Rightarrow> pk_service \<Rightarrow> 'p pk_store \<Rightarrow> 'c challenge_store \<Rightarrow> bytes \<Rightarrow> string \<Rightarrow> string \<Rightarrow> string \<Rightarrow> string
    \<Rightarrow> 'p \<times> 'c \<Rightarrow> (AuthError + creation_options) \<times> 'p \<times> 'c" where
  "begin_registration env svc ps cs random uid account_name display_name key pc =
     (case pc of (p, c) \<Rightarrow>
      (let challenge = generate_challenge env random in
       case cs_put cs key challenge c of
         (Inl e, c') \<Rightarrow> (Inl e, p, c')
       | (Inr _, c') \<Rightarrow>
           (case pk_list ps uid p of
              Inl e \<Rightarrow> (Inl e, p, c')
            | Inr existing \<Rightarrow>
                (case user_handle env (ps_user_handle_secret svc) uid of
                   Inl e \<Rightarrow> (Inl e, p, c')
                 | Inr handle \<Rightarrow>
                     (Inr \<lparr>co_challenge = challenge, co_rp_id = ps_rp_id svc, co_rp_name = ps_rp_name svc,
                        co_user_id = handle, co_user_name = account_name, co_display_name = display_name,
                        co_alg = ES256_ALG, co_timeout = ps_timeout svc, co_attestation = ''none'',
                        co_exclude = map pc_id existing\<rparr>, p, c')))))"

definition finish_registration ::
  "'s pk_env \<Rightarrow> pk_service \<Rightarrow> 'p pk_store \<Rightarrow> 'c challenge_store \<Rightarrow> string \<Rightarrow> string \<Rightarrow> string \<Rightarrow> RegistrationResponse \<Rightarrow> string
    \<Rightarrow> 'p \<times> 'c \<Rightarrow> (AuthError + PasskeyCredential) \<times> 'p \<times> 'c" where
  "finish_registration env svc ps cs stamp uid key response name pc =
     (case pc of (p, c) \<Rightarrow>
      (case cs_take cs key c of
         (Inl e, c') \<Rightarrow> (Inl e, p, c')
       | (Inr None, c') \<Rightarrow> (Inl (PasskeyError ''no pending registration challenge''), p, c')
       | (Inr (Some expected), c') \<Rightarrow>
           (case verify_registration env (ps_rp_id svc) (ps_allowed_origins svc) expected response of
              Inl e \<Rightarrow> (Inl e, p, c')
            | Inr outcome \<Rightarrow>
                (let credential = \<lparr>pc_id = ro_credential_id outcome, pc_user_id = uid, pc_public_key = ro_public_key outcome,
                       pc_counter = ro_counter outcome, pc_name = name, pc_created_at = stamp\<rparr>
                 in case pk_create ps credential p of
                      (Inl e, p') \<Rightarrow> (Inl e, p', c')
                    | (Inr _, p') \<Rightarrow> (Inr credential, p', c')))))"

definition begin_authentication ::
  "'s pk_env \<Rightarrow> pk_service \<Rightarrow> 'c challenge_store \<Rightarrow> bytes \<Rightarrow> string \<Rightarrow> PasskeyCredential list \<Rightarrow> 'c
    \<Rightarrow> (AuthError + request_options) \<times> 'c" where
  "begin_authentication env svc cs random key allow_list c =
     (let challenge = generate_challenge env random in
      case cs_put cs key challenge c of
        (Inl e, c') \<Rightarrow> (Inl e, c')
      | (Inr _, c') \<Rightarrow>
          (Inr \<lparr>qo_challenge = challenge, qo_rp_id = ps_rp_id svc, qo_timeout = ps_timeout svc,
             qo_allow = map pc_id allow_list, qo_user_verification = ''preferred''\<rparr>, c'))"

definition finish_authentication ::
  "'s pk_env \<Rightarrow> pk_service \<Rightarrow> 'p pk_store \<Rightarrow> 'c challenge_store \<Rightarrow> string \<Rightarrow> AuthenticationResponse
    \<Rightarrow> 'p \<times> 'c \<Rightarrow> (AuthError + PasskeyCredential) \<times> 'p \<times> 'c" where
  "finish_authentication env svc ps cs key response pc =
     (case pc of (p, c) \<Rightarrow>
      (case cs_take cs key c of
         (Inl e, c') \<Rightarrow> (Inl e, p, c')
       | (Inr None, c') \<Rightarrow> (Inl (PasskeyError ''no pending authentication challenge''), p, c')
       | (Inr (Some expected), c') \<Rightarrow>
      (case pk_find ps (ar_id response) p of
         Inl e \<Rightarrow> (Inl e, p, c')
       | Inr None \<Rightarrow> (Inl PasskeyRequired, p, c')
       | Inr (Some credential) \<Rightarrow>
      (case verify_assertion env (ps_rp_id svc) (ps_allowed_origins svc) expected (pc_public_key credential) response of
         Inl e \<Rightarrow> (Inl e, p, c')
       | Inr outcome \<Rightarrow>
      (case (case as_user_handle outcome of
               None \<Rightarrow> Inr ()
             | Some handle \<Rightarrow>
                 (case user_handle env (ps_user_handle_secret svc) (pc_user_id credential) of
                    Inl e \<Rightarrow> Inl e
                  | Inr expected_handle \<Rightarrow> if handle \<noteq> expected_handle then Inl InvalidPasskeyAssertion else Inr ())) of
         Inl e \<Rightarrow> (Inl e, p, c')
       | Inr _ \<Rightarrow>
           if (pc_counter credential \<noteq> 0 \<or> as_counter outcome \<noteq> 0) \<and> as_counter outcome \<le> pc_counter credential
           then (Inl InvalidPasskeyAssertion, p, c')
           else if pc_counter credential < as_counter outcome then
             (case pk_update_counter ps (pc_id credential) (as_counter outcome) p of
                (Inl e, p') \<Rightarrow> (Inl e, p', c')
              | (Inr _, p') \<Rightarrow> (Inr credential, p', c'))
           else (Inr credential, p, c'))))))"

definition list_credentials :: "'p pk_store \<Rightarrow> string \<Rightarrow> 'p \<Rightarrow> AuthError + PasskeyCredential list" where
  "list_credentials ps uid p = pk_list ps uid p"

definition delete_credential :: "'p pk_store \<Rightarrow> string \<Rightarrow> string \<Rightarrow> 'p \<Rightarrow> (AuthError + unit) \<times> 'p" where
  "delete_credential ps uid cid p = pk_delete ps uid cid p"

end
