(* ===== verification/Password_Reset.thy ===== *)
theory Password_Reset
  imports Guard
begin

text \<open>
  Password reset tokens, \<^verbatim>\<open>rustasea-auth/src/password_reset.rs\<close>: token generation by rejection
  sampling, and the stores of token hashes. The random buffers are a list; \<open>None\<close> says that the list is too short.
\<close>

section \<open>Tokens\<close>

definition RESET_TOKEN_LEN :: nat where
  "RESET_TOKEN_LEN = 64"

definition TOKEN_ALPHABET :: string where
  "TOKEN_ALPHABET = ''ABCDEFGHIJKLMNOPQRSTUVWXYZabcdefghijklmnopqrstuvwxyz0123456789''"

definition TOKEN_BYTE_LIMIT :: nat where
  "TOKEN_BYTE_LIMIT = 248"

definition token_symbol :: "nat \<Rightarrow> char" where
  "token_symbol b = TOKEN_ALPHABET ! (b mod 62)"

text \<open>The loop over one buffer stops when the token is complete.\<close>

fun fill_token :: "nat list \<Rightarrow> string \<Rightarrow> string" where
  "fill_token [] token = token"
| "fill_token (b # bs) token =
     (if b < TOKEN_BYTE_LIMIT then
        (let token' = token @ [token_symbol b] in
         if length token' = RESET_TOKEN_LEN then token' else fill_token bs token')
      else fill_token bs token)"

fun token_loop :: "nat list list \<Rightarrow> string \<Rightarrow> string option" where
  "token_loop buffers token =
     (if length token < RESET_TOKEN_LEN then
        (case buffers of [] \<Rightarrow> None | buffer # rest \<Rightarrow> token_loop rest (fill_token buffer token))
      else Some token)"

declare token_loop.simps [simp del]

definition generate_token :: "nat list list \<Rightarrow> string option" where
  "generate_token buffers = token_loop buffers []"

section \<open>Stores\<close>

record PasswordResetRecord =
  pr_email :: string
  pr_token_hash :: string
  pr_created_at :: int

record 'r reset_ops =
  rs_create :: "string \<Rightarrow> string \<Rightarrow> int \<Rightarrow> 'r \<Rightarrow> (AuthError + unit) \<times> 'r"
  rs_find :: "string \<Rightarrow> 'r \<Rightarrow> AuthError + PasswordResetRecord option"
  rs_delete :: "string \<Rightarrow> 'r \<Rightarrow> (AuthError + unit) \<times> 'r"

definition RESET_DENY_REASON :: string where
  "RESET_DENY_REASON = ''no password-reset store is wired; denying token access''"

definition DenyAllResetStore :: "'r reset_ops" where
  "DenyAllResetStore = \<lparr>rs_create = (\<lambda>_ _ _ s. (Inl (Disabled RESET_DENY_REASON), s)),
     rs_find = (\<lambda>_ _. Inl (Disabled RESET_DENY_REASON)), rs_delete = (\<lambda>_ s. (Inl (Disabled RESET_DENY_REASON), s))\<rparr>"

type_synonym reset_table = "string \<rightharpoonup> PasswordResetRecord"

definition MemoryPasswordResetStore :: "reset_table reset_ops" where
  "MemoryPasswordResetStore =
     \<lparr>rs_create = (\<lambda>email hash at m. (Inr (), m(email \<mapsto> \<lparr>pr_email = email, pr_token_hash = hash, pr_created_at = at\<rparr>))),
      rs_find = (\<lambda>email m. Inr (m email)),
      rs_delete = (\<lambda>email m. (Inr (), m(email := None)))\<rparr>"

section \<open>Every symbol is equally likely\<close>

lemma fill_token_spec:
  "length token < 64 \<Longrightarrow>
    fill_token bs token = take 64 (token @ map token_symbol (filter (\<lambda>b. b < 248) bs))"
proof (induction bs token rule: fill_token.induct)
  case (2 b bs token)
  then show ?case by (cases "length token = 63") (auto simp: TOKEN_BYTE_LIMIT_def RESET_TOKEN_LEN_def Let_def)
qed simp

lemma take_append_short:
  "take n (take n xs @ ys) = take n (xs @ ys)" "length (take n xs @ ys) < n \<longleftrightarrow> length (xs @ ys) < n"
  by (cases "length xs \<le> n"; simp)+

lemma token_loop_spec:
  "length token \<le> 64 \<Longrightarrow>
    token_loop buffers token =
      (let symbols = token @ map token_symbol (filter (\<lambda>b. b < 248) (concat buffers))
       in if length symbols < 64 then None else Some (take 64 symbols))"
proof (induction buffers arbitrary: token)
  case Nil
  then show ?case by (simp add: token_loop.simps RESET_TOKEN_LEN_def)
next
  case (Cons buffer buffers)
  show ?case
  proof (cases "length token < 64")
    case False
    with Cons.prems show ?thesis by (simp add: token_loop.simps RESET_TOKEN_LEN_def)
  next
    case True
    let ?t = "fill_token buffer token"
    have t: "?t = take 64 (token @ map token_symbol (filter (\<lambda>b. b < 248) buffer))" by (rule fill_token_spec [OF True])
    then have "length ?t \<le> 64" by simp
    note ih = Cons.IH [OF this]
    have "token_loop (buffer # buffers) token = token_loop buffers ?t"
      using True by (subst token_loop.simps) (simp add: RESET_TOKEN_LEN_def)
    also have "\<dots> = (let symbols = (token @ map token_symbol (filter (\<lambda>b. b < 248) buffer))
          @ map token_symbol (filter (\<lambda>b. b < 248) (concat buffers))
        in if length symbols < 64 then None else Some (take 64 symbols))"
      unfolding ih unfolding t Let_def take_append_short by (rule refl)
    finally show ?thesis by (simp add: Let_def)
  qed
qed

text \<open>C40. A reset token is a uniform draw. The loop returns exactly the symbols of the first 64 random bytes below 248,
  in order, as soon as that many have been drawn; every symbol of the alphabet comes from exactly four of those bytes,
  so none is likelier than another, and a token has 64 symbols of the alphabet.\<close>

theorem reset_token_uniform:
  "generate_token buffers =
      (let accepted = filter (\<lambda>b. b < 248) (concat buffers)
       in if length accepted < 64 then None else Some (map token_symbol (take 64 accepted)))
    \<and> length TOKEN_ALPHABET = 62 \<and> distinct TOKEN_ALPHABET
    \<and> card {b. b < 248 \<and> token_symbol b = TOKEN_ALPHABET ! (i mod 62)} = 4"
proof (intro conjI)
  show "generate_token buffers =
      (let accepted = filter (\<lambda>b. b < 248) (concat buffers)
       in if length accepted < 64 then None else Some (map token_symbol (take 64 accepted)))"
    using token_loop_spec [of "[]" buffers] by (simp add: generate_token_def Let_def take_map)
  show len: "length TOKEN_ALPHABET = 62" and dist: "distinct TOKEN_ALPHABET"
    by (simp_all add: TOKEN_ALPHABET_def)
  have "{b. b < 248 \<and> token_symbol b = TOKEN_ALPHABET ! (i mod 62)} = {b. b < 248 \<and> b mod 62 = i mod 62}"
    using dist len by (auto simp: token_symbol_def nth_eq_iff_index_eq)
  also have "\<dots> = (\<lambda>k. 62 * k + i mod 62) ` {..<4}"
  proof (intro set_eqI iffI)
    fix b assume "b \<in> {b. b < 248 \<and> b mod 62 = i mod 62}"
    then have "b mod 62 = i mod 62" "b div 62 < 4" by (auto simp: less_mult_imp_div_less)
    then have "b = 62 * (b div 62) + i mod 62" "b div 62 < 4" by (metis mult_div_mod_eq)+
    then show "b \<in> (\<lambda>k. 62 * k + i mod 62) ` {..<4}" by blast
  next
    fix b assume "b \<in> (\<lambda>k. 62 * k + i mod 62) ` {..<4}"
    then obtain k where "k < 4" "b = 62 * k + i mod 62" by auto
    moreover have "i mod 62 < 62" by simp
    ultimately show "b \<in> {b. b < 248 \<and> b mod 62 = i mod 62}" by auto
  qed
  also have "card \<dots> = 4" by (subst card_image) (auto simp: inj_on_def)
  finally show "card {b. b < 248 \<and> token_symbol b = TOKEN_ALPHABET ! (i mod 62)} = 4" .
qed

end
