(* ===== verification/App_Auth.thy ===== *)
theory App_Auth
  imports Throttle App_Routes Validation Session Two_Factor Passkeys Password_Reset
begin

text \<open>
  The authentication handlers, \<^verbatim>\<open>rustasea-app/src/routes/auth.rs\<close> with
  \<^verbatim>\<open>auth/audit.rs\<close>, \<^verbatim>\<open>auth/confirmation.rs\<close> and \<^verbatim>\<open>auth/two_factor\<close>: login, logout,
  registration, password confirmation, the two-factor challenge and the management of the second factor.

  A handler takes the environment, the inputs of one request (clock, time stamp, random values), the request and the
  state of the process, and returns its answer and the state. The environment holds what is wired at start:
  configuration, guard, provider, services and the library functions; the state holds the stores and limiters that the
  process shares. Each handler runs to its end before the next one starts.
\<close>

section \<open>Environment and state\<close>

record FortifyConfig =
  fc_username :: string
  fc_lowercase_usernames :: bool
  fc_home :: string
  fc_limiters :: FortifyLimiterConfig
  fc_registration :: bool
  fc_reset_passwords :: bool
  fc_email_verification :: bool
  fc_passkeys :: bool
  fc_two_factor_window :: "nat option"

datatype AuthLogEventKind = LoginSucceeded | LoginFailed | Lockout | LogoutDone

record AuthLogEvent =
  al_kind :: AuthLogEventKind
  al_user_id :: "string option"
  al_email :: "string option"
  al_guard_name :: "string option"
  al_ip_address :: "string option"
  al_user_agent :: "string option"

record ('h, 'e, 'u) app_env =
  ae_fortify :: FortifyConfig
  ae_guard :: "session_guard option"
  ae_api :: "('h, 'e) session_api"
  ae_provider :: "'u user_provider"
  ae_verify :: "string \<Rightarrow> string \<Rightarrow> bool"
  ae_hash :: "string \<Rightarrow> string \<Rightarrow> AuthError + string"
  ae_cookies :: "string \<Rightarrow> (string \<times> string) list"
  ae_cookie_text :: "cookie \<Rightarrow> string"
  ae_lowercase :: "string \<Rightarrow> string"
  ae_trusted_proxies :: "string list"
  ae_val :: val_env
  ae_tf_key :: "bytes option"
  ae_tf_issuer :: string
  ae_tf_env :: tf_env
  ae_tf_ops :: "(string \<rightharpoonup> TwoFactorRecord) tf_ops"
  ae_pk_service :: "pk_service option"
  ae_pk_env :: "string pk_env"
  ae_pk_store :: "pk_table pk_store"
  ae_pk_challenges :: "(string \<rightharpoonup> string) challenge_store"
  ae_json :: "bytes \<Rightarrow> json_value option"
  ae_registration :: "json_value \<Rightarrow> RegistrationResponse option"
  ae_assertion :: "json_value \<Rightarrow> AuthenticationResponse option"
  ae_reset_ops :: "reset_table reset_ops"
  ae_expire_minutes :: nat
  ae_signer :: "SignedUrlSigner option"
  ae_mac :: "bytes \<Rightarrow> bytes \<Rightarrow> bytes"
  ae_hex_encode :: "bytes \<Rightarrow> string"
  ae_hex_decode :: "string \<Rightarrow> bytes option"
  ae_sha256 :: "bytes \<Rightarrow> bytes"
  ae_debug :: "string \<Rightarrow> string"
  ae_app_url :: string

record inputs =
  in_now :: nat
  in_stamp :: string
  in_salt :: string
  in_two_factor :: tf_random
  in_challenge :: bytes
  in_token :: "nat list list"
  in_mail_ok :: bool

record ('e, 'u) world =
  w_sessions :: 'e
  w_users :: 'u
  w_factors :: "string \<rightharpoonup> TwoFactorRecord"
  w_codes :: "string \<rightharpoonup> string list"
  w_login_limiter :: limiter
  w_two_factor_limiter :: limiter
  w_log :: "AuthLogEvent list"
  w_passkeys :: pk_table
  w_challenges :: "string \<rightharpoonup> string"
  w_passkeys_limiter :: limiter
  w_reset :: reset_table
  w_reset_limiter :: limiter
  w_verification_limiter :: limiter
  w_mail :: "(string \<times> string) list"

type_synonym ('h, 'e, 'u, 'x) handler = "('h, 'e, 'u) app_env \<Rightarrow> inputs \<Rightarrow> http \<Rightarrow> ('e, 'u) world \<Rightarrow> 'x \<times> ('e, 'u) world"

section \<open>Answers\<close>

definition INVALID_CREDENTIALS :: string where
  "INVALID_CREDENTIALS = ''These credentials do not match our records.''"

definition MISSING_CREDENTIALS :: string where
  "MISSING_CREDENTIALS = ''The username and password fields are required.''"

definition AUTH_UNAVAILABLE :: string where
  "AUTH_UNAVAILABLE = ''Authentication is temporarily unavailable.''"

definition REGISTER_UNAVAILABLE :: string where
  "REGISTER_UNAVAILABLE = ''Registration is temporarily unavailable.''"

definition REGISTRATION_DISABLED :: string where
  "REGISTRATION_DISABLED = ''Registration is disabled.''"

definition THROTTLE_MISCONFIGURED :: string where
  "THROTTLE_MISCONFIGURED = ''Rate limiting is misconfigured.''"

definition UNKNOWN_PEER :: string where
  "UNKNOWN_PEER = ''0.0.0.0''"

definition fail_closed :: "string \<Rightarrow> Csrf.answer" where
  "fail_closed detail = json_error 500 ''AuthError::Unavailable'' detail"

definition not_found :: Csrf.answer where
  "not_found = json_error 404 ''RegistrationDisabled'' REGISTRATION_DISABLED"

definition validation_error :: "ErrorBag \<Rightarrow> Csrf.answer" where
  "validation_error bag = \<lparr>an_status = 422, an_headers = [], an_body = Json (into_json_body bag)\<rparr>"

definition field_error :: "string \<Rightarrow> string \<Rightarrow> string \<Rightarrow> Csrf.answer" where
  "field_error f code message = validation_error (bag_add f (error_new code message) [])"

definition throttle_response :: "nat \<Rightarrow> Csrf.answer" where
  "throttle_response secs =
     append_header ''retry-after'' (show_nat secs)
       (json_error 429 ''Throttle'' (''Rate limit exceeded; retry in '' @ show_nat secs @ '' seconds.''))"

definition json_ok :: "json_value \<Rightarrow> Csrf.answer" where
  "json_ok v = \<lparr>an_status = 200, an_headers = [], an_body = Json v\<rparr>"

text \<open>A redirect that sets the session cookie.\<close>

definition with_session_cookie :: "('h, 'e, 'u) app_env \<Rightarrow> session_guard \<Rightarrow> string \<Rightarrow> Csrf.answer \<Rightarrow> Csrf.answer" where
  "with_session_cookie env g sid a = append_header ''set-cookie'' (ae_cookie_text env (build_cookie (sg_cookie g) sid)) a"

definition peer_ip :: "('h, 'e, 'u) app_env \<Rightarrow> http \<Rightarrow> string" where
  "peer_ip env q =
     key_for_peer (behind_proxies (ae_trusted_proxies env) (throttle_config_new (per_minute 1)))
       (case ht_peer q of Some ip \<Rightarrow> ip | None \<Rightarrow> UNKNOWN_PEER) (header_of ''x-forwarded-for'' (ht_headers q))"

definition session_id :: "('h, 'e, 'u) app_env \<Rightarrow> http \<Rightarrow> string option" where
  "session_id env q = session_id_from_headers (ae_cookies env) (ht_headers q)"

definition empty_input :: LimiterInput where
  "empty_input = \<lparr>li_username = None, li_ip = None, li_session_id = None, li_credential_id = None\<rparr>"

section \<open>The audit log\<close>

definition user_agent :: "http \<Rightarrow> string option" where
  "user_agent q = (case header_of ''user-agent'' (ht_headers q) of Some [] \<Rightarrow> None | a \<Rightarrow> a)"

definition emit :: "AuthLogEvent \<Rightarrow> ('e, 'u) world \<Rightarrow> ('e, 'u) world" where
  "emit ev w = w\<lparr>w_log := w_log w @ [ev]\<rparr>"

definition audit_login_succeeded ::
  "('h, 'e, 'u) app_env \<Rightarrow> session_guard \<Rightarrow> string \<Rightarrow> string \<Rightarrow> string \<Rightarrow> http \<Rightarrow> ('e, 'u) world \<Rightarrow> ('e, 'u) world" where
  "audit_login_succeeded env g token submitted_email ip q w =
     (case session_parse (ae_api env) g token (w_sessions w) of
        (res, e') \<Rightarrow>
          emit \<lparr>al_kind = LoginSucceeded,
            al_user_id = (case res of Inr u \<Rightarrow> Some (au_id u) | Inl _ \<Rightarrow> None),
            al_email = Some (case res of Inr u \<Rightarrow> (case au_email u of Some m \<Rightarrow> m | None \<Rightarrow> submitted_email)
              | Inl _ \<Rightarrow> submitted_email),
            al_guard_name = Some (sg_name g), al_ip_address = Some ip, al_user_agent = user_agent q\<rparr>
            (w\<lparr>w_sessions := e'\<rparr>))"

definition audit_login_failed :: "string \<Rightarrow> string \<Rightarrow> string \<Rightarrow> http \<Rightarrow> ('e, 'u) world \<Rightarrow> ('e, 'u) world" where
  "audit_login_failed email guard ip q w =
     emit \<lparr>al_kind = LoginFailed, al_user_id = None, al_email = Some email, al_guard_name = Some guard,
       al_ip_address = Some ip, al_user_agent = user_agent q\<rparr> w"

definition audit_lockout :: "string \<Rightarrow> string \<Rightarrow> string \<Rightarrow> http \<Rightarrow> ('e, 'u) world \<Rightarrow> ('e, 'u) world" where
  "audit_lockout email guard ip q w =
     emit \<lparr>al_kind = Lockout, al_user_id = None, al_email = Some email, al_guard_name = Some guard,
       al_ip_address = Some ip, al_user_agent = user_agent q\<rparr> w"

definition audit_logout ::
  "('h, 'e, 'u) app_env \<Rightarrow> session_guard option \<Rightarrow> string option \<Rightarrow> string \<Rightarrow> http \<Rightarrow> ('e, 'u) world \<Rightarrow> ('e, 'u) world" where
  "audit_logout env g sid ip q w =
     (case (g, sid) of
        (Some g, Some sid) \<Rightarrow>
          (case session_parse (ae_api env) g sid (w_sessions w) of
             (res, e') \<Rightarrow>
               emit \<lparr>al_kind = LogoutDone, al_user_id = (case res of Inr u \<Rightarrow> Some (au_id u) | Inl _ \<Rightarrow> None),
                 al_email = None, al_guard_name = Some (sg_name g), al_ip_address = Some ip, al_user_agent = user_agent q\<rparr>
                 (w\<lparr>w_sessions := e'\<rparr>))
      | _ \<Rightarrow>
          emit \<lparr>al_kind = LogoutDone, al_user_id = None, al_email = None, al_guard_name = None,
            al_ip_address = Some ip, al_user_agent = user_agent q\<rparr> w)"

section \<open>The two-factor challenge at login\<close>

definition pending_key :: "session_guard \<Rightarrow> string" where
  "pending_key g = sp_prefix (sg_policy g) @ ''two_factor_pending''"

definition start_challenge ::
  "('h, 'e, 'u) app_env \<Rightarrow> session_guard \<Rightarrow> SessionUser \<Rightarrow> ('e, 'u) world \<Rightarrow> (AuthError + Csrf.answer) \<times> ('e, 'u) world" where
  "start_challenge env g u w =
     (case new_session (ae_api env) (pending_key g) u (w_sessions w) of
        (Inl er, e') \<Rightarrow> (Inl er, w\<lparr>w_sessions := e'\<rparr>)
      | (Inr sid, e') \<Rightarrow> (Inr (with_session_cookie env g sid (found CHALLENGE_PATH)), w\<lparr>w_sessions := e'\<rparr>))"

definition intercept_login ::
  "('h, 'e, 'u) app_env \<Rightarrow> session_guard \<Rightarrow> string \<Rightarrow> string \<Rightarrow> ('e, 'u) world \<Rightarrow> Csrf.answer option \<times> ('e, 'u) world" where
  "intercept_login env g username password w =
     (case up_find_by_email (ae_provider env) username (w_users w) of
        (Inl _, u) \<Rightarrow> (None, w\<lparr>w_users := u\<rparr>)
      | (Inr None, u) \<Rightarrow> (None, w\<lparr>w_users := u\<rparr>)
      | (Inr (Some r), u) \<Rightarrow>
          (let w1 = w\<lparr>w_users := u\<rparr> in
           case tf_get (ae_tf_ops env) (ur_id r) (w_factors w1) of
             Inl _ \<Rightarrow> (Some (fail_closed AUTH_UNAVAILABLE), w1)
           | Inr state \<Rightarrow>
               if \<not> (case state of Some s \<Rightarrow> is_confirmed_record s | None \<Rightarrow> False) then (None, w1)
               else if \<not> ae_verify env (ur_password_hash r) password then
                 (Some (json_error 422 ''AuthError::BadCredentials'' INVALID_CREDENTIALS), w1)
               else
                 (case start_challenge env g (session_user_of r) w1 of
                    (Inl _, w2) \<Rightarrow> (Some (fail_closed AUTH_UNAVAILABLE), w2)
                  | (Inr resp, w2) \<Rightarrow> (Some resp, w2))))"

section \<open>Login, logout, registration\<close>

definition LOGIN :: string where
  "LOGIN = ''login''"

text \<open>\<^verbatim>\<open>apply lowercase_usernames\<close> to a trimmed input.\<close>

definition normalized :: "('h, 'e, 'u) app_env \<Rightarrow> string \<Rightarrow> string" where
  "normalized env s = (if fc_lowercase_usernames (ae_fortify env) then ae_lowercase env (trim s) else trim s)"

definition login_registry :: "('h, 'e, 'u) app_env \<Rightarrow> registry" where
  "login_registry env = from_fortify_config (fc_limiters (ae_fortify env))"

definition login_submit :: "('h, 'e, 'u, Csrf.answer) handler" where
  "login_submit env inp q w =
     (case ae_guard env of
        None \<Rightarrow> (json_error 500 ''AuthError::Unavailable'' AUTH_UNAVAILABLE, w)
      | Some g \<Rightarrow>
          (let form = parse_form (ht_body q);
               raw_username = unwrap_or_default (field form (fc_username (ae_fortify env)));
               password = unwrap_or_default (field form ''password'')
           in if trim raw_username = [] \<or> password = [] then (json_error 422 ''ValidationError'' MISSING_CREDENTIALS, w)
              else
                (let username = normalized env raw_username; ip = peer_ip env q in
                 case reg_check (hit (in_now inp)) (login_registry env) LOGIN
                     (empty_input\<lparr>li_username := Some username, li_ip := Some ip\<rparr>) (w_login_limiter w) of
                   (Inl _, l) \<Rightarrow> (json_error 500 ''Throttle'' THROTTLE_MISCONFIGURED, w\<lparr>w_login_limiter := l\<rparr>)
                 | (Inr (Denied secs), l) \<Rightarrow>
                     (throttle_response secs, audit_lockout username (sg_name g) ip q (w\<lparr>w_login_limiter := l\<rparr>))
                 | (Inr (Allowed _), l) \<Rightarrow>
                     (case intercept_login env g username password (w\<lparr>w_login_limiter := l\<rparr>) of
                        (Some resp, w2) \<Rightarrow> (resp, w2)
                      | (None, w2) \<Rightarrow>
                          (case login_with_provider (ae_api env) g (ae_provider env)
                              \<lparr>cr_email = username, cr_password = password\<rparr> (w_users w2, w_sessions w2) of
                             (res, u, e) \<Rightarrow>
                               (let w3 = w2\<lparr>w_users := u, w_sessions := e\<rparr> in
                                case res of
                                  Inr token \<Rightarrow>
                                    (with_session_cookie env g (tk_access token) (see_other (fc_home (ae_fortify env))),
                                     audit_login_succeeded env g (tk_access token) username ip q w3)
                                | Inl BadCredentials \<Rightarrow>
                                    (json_error 422 ''AuthError::BadCredentials'' INVALID_CREDENTIALS,
                                     audit_login_failed username (sg_name g) ip q w3)
                                | Inl _ \<Rightarrow> (json_error 500 ''AuthError::Unavailable'' AUTH_UNAVAILABLE, w3)))))))"

definition logout :: "('h, 'e, 'u, Csrf.answer) handler" where
  "logout env inp q w =
     (let sid = session_id env q;
          w1 = audit_logout env (ae_guard env) sid (peer_ip env q) q w;
          w2 = (case (ae_guard env, sid) of
                  (Some g, Some sid) \<Rightarrow> w1\<lparr>w_sessions := snd (session_logout (ae_api env) sid (w_sessions w1))\<rparr>
                | _ \<Rightarrow> w1);
          config = (case ae_guard env of Some g \<Rightarrow> sg_cookie g | None \<Rightarrow> cookie_default)
      in (append_header ''set-cookie'' (ae_cookie_text env ((build_cookie config [])\<lparr>ck_removal := True\<rparr>)) (see_other ''/''), w2))"

text \<open>A field that the form lacks is a key that the payload lacks.\<close>

definition payload_of :: "string list \<Rightarrow> (string \<times> string) list \<Rightarrow> (string \<times> json_value) list" where
  "payload_of keys form = List.map_filter (\<lambda>k. map_option (\<lambda>v. (k, JString v)) (field form k)) keys"

definition registration_context :: "string \<Rightarrow> bool option \<Rightarrow> val_ctx" where
  "registration_context queried_email unique =
     \<lparr>vc_is_unique = (\<lambda>table column v _. if table = ''users'' \<and> column = ''email'' \<and> v = queried_email then unique else None),
      vc_current_password = (\<lambda>_. None)\<rparr>"

definition registration_rules :: Rules where
  "registration_rules =
     rules_add ''password'' ''required|string|password|confirmed''
       (rules_add ''email'' ''required|string|email|max:255|unique:users,email''
         (rules_add ''name'' ''required|string|max:255'' (password_policy policy_production rules_new)))"

definition register_submit :: "('h, 'e, 'u, Csrf.answer) handler" where
  "register_submit env inp q w =
     (if \<not> fc_registration (ae_fortify env) then (not_found, w)
      else
        (case ae_guard env of
           None \<Rightarrow> (fail_closed AUTH_UNAVAILABLE, w)
         | Some g \<Rightarrow>
             (let form = parse_form (ht_body q);
                  name = unwrap_or_default (field form ''name'');
                  email = normalized env (unwrap_or_default (field form ''email''));
                  password = unwrap_or_default (field form ''password'');
                  payload = payload_of [''name'', ''password'', ''password_confirmation''] form
                    @ (if field form ''email'' \<noteq> None then [(''email'', JString email)] else [])
              in case up_find_by_email (ae_provider env) email (w_users w) of
                   (probe, u1) \<Rightarrow>
                     (let unique = (case probe of Inr fnd \<Rightarrow> Some (fnd = None) | Inl _ \<Rightarrow> None); w1 = w\<lparr>w_users := u1\<rparr> in
                      case validate_with (ae_val env) registration_rules (JObject payload) (registration_context email unique) of
                        Inl bag \<Rightarrow> (validation_error bag, w1)
                      | Inr _ \<Rightarrow>
                          (case ae_hash env (in_salt inp) password of
                             Inl _ \<Rightarrow> (fail_closed REGISTER_UNAVAILABLE, w1)
                           | Inr hash \<Rightarrow>
                               (case up_create (ae_provider env) (new_user_record name email hash) u1 of
                                  (Inl (UserExists _), u2) \<Rightarrow>
                                    (field_error ''email'' ''unique'' ''The email has already been taken.'', w1\<lparr>w_users := u2\<rparr>)
                                | (Inl _, u2) \<Rightarrow> (fail_closed REGISTER_UNAVAILABLE, w1\<lparr>w_users := u2\<rparr>)
                                | (Inr _, u2) \<Rightarrow>
                                    (case login_with_provider (ae_api env) g (ae_provider env)
                                        \<lparr>cr_email = email, cr_password = password\<rparr> (u2, w_sessions w1) of
                                       (res, u3, e3) \<Rightarrow>
                                         ((case res of
                                             Inr token \<Rightarrow>
                                               with_session_cookie env g (tk_access token) (see_other (fc_home (ae_fortify env)))
                                           | Inl _ \<Rightarrow> fail_closed REGISTER_UNAVAILABLE),
                                          w1\<lparr>w_users := u3, w_sessions := e3\<rparr>))))))))"

section \<open>Password confirmation\<close>

definition CONFIRM_TARGET :: string where
  "CONFIRM_TARGET = ''/settings/security''"

definition confirm_submit :: "('h, 'e, 'u, Csrf.answer) handler" where
  "confirm_submit env inp q w =
     (case ht_user q of
        None \<Rightarrow> (found LOGIN_PATH, w)
      | Some user \<Rightarrow>
     (case ae_guard env of
        None \<Rightarrow> (fail_closed AUTH_UNAVAILABLE, w)
      | Some g \<Rightarrow>
     (case session_id env q of
        None \<Rightarrow> (fail_closed AUTH_UNAVAILABLE, w)
      | Some sid \<Rightarrow>
     (case au_email user of
        None \<Rightarrow> (fail_closed AUTH_UNAVAILABLE, w)
      | Some email \<Rightarrow>
     (case field (parse_form (ht_body q)) ''password'' of
        None \<Rightarrow> (field_error ''password'' ''required'' ''The password field is required.'', w)
      | Some password \<Rightarrow>
     if password = [] then (field_error ''password'' ''required'' ''The password field is required.'', w)
     else
     (case up_find_by_email (ae_provider env) email (w_users w) of
        (Inr (Some r), u) \<Rightarrow>
          (let w1 = w\<lparr>w_users := u\<rparr> in
           if \<not> ae_verify env (ur_password_hash r) password then
             (field_error ''password'' ''AuthError::BadCredentials'' INVALID_CREDENTIALS, w1)
           else
             (case confirm_password_at (ae_api env) g sid (int (in_now inp)) (w_sessions w1) of
                (Inl _, e) \<Rightarrow> (fail_closed AUTH_UNAVAILABLE, w1\<lparr>w_sessions := e\<rparr>)
              | (Inr _, e) \<Rightarrow> (see_other CONFIRM_TARGET, w1\<lparr>w_sessions := e\<rparr>)))
      | (_, u) \<Rightarrow> (fail_closed AUTH_UNAVAILABLE, w\<lparr>w_users := u\<rparr>)))))))"

section \<open>Two-factor handlers\<close>

definition TWO_FACTOR :: string where
  "TWO_FACTOR = ''two-factor''"

definition INVALID_CODE :: string where
  "INVALID_CODE = ''The provided two-factor code was invalid.''"

definition TWO_FACTOR_NOT_ENABLED :: string where
  "TWO_FACTOR_NOT_ENABLED = ''Two-factor authentication is not enabled.''"

definition RECOVERY_CODES_UNAVAILABLE :: string where
  "RECOVERY_CODES_UNAVAILABLE = ''Recovery codes are no longer displayable; regenerate a new set.''"

definition invalid_code :: Csrf.answer where
  "invalid_code = json_error 422 ''AuthError::InvalidTwoFactorCode'' INVALID_CODE"

text \<open>The window of the configuration is cast to 32 bits.\<close>

definition two_factor_service :: "('h, 'e, 'u) app_env \<Rightarrow> tf_service option" where
  "two_factor_service env =
     (case ae_tf_key env of
        None \<Rightarrow> None
      | Some key \<Rightarrow>
          Some \<lparr>ts_key = key, ts_issuer = ae_tf_issuer env,
            ts_window = (case fc_two_factor_window (ae_fortify env) of Some n \<Rightarrow> n | None \<Rightarrow> DEFAULT_WINDOW) mod 2 ^ 32\<rparr>)"

definition two_factor_registry :: registry where
  "two_factor_registry = snd (reg_register TWO_FACTOR two_factor_definition Map.empty)"

definition complete_login ::
  "('h, 'e, 'u) app_env \<Rightarrow> session_guard \<Rightarrow> 'h \<Rightarrow> SessionUser \<Rightarrow> ('e, 'u) world \<Rightarrow> Csrf.answer \<times> ('e, 'u) world" where
  "complete_login env g h pending w =
     (case ss_insert (ae_api env) (user_key (sg_policy g)) (VUser pending) h (w_sessions w) of
        (Inl _, _, e) \<Rightarrow> (fail_closed AUTH_UNAVAILABLE, w\<lparr>w_sessions := e\<rparr>)
      | (Inr _, h1, e1) \<Rightarrow>
     (case ss_remove (ae_api env) (pending_key g) h1 e1 of
        (Inl _, _, e) \<Rightarrow> (fail_closed AUTH_UNAVAILABLE, w\<lparr>w_sessions := e\<rparr>)
      | (Inr _, h2, e2) \<Rightarrow>
     (case ss_cycle_id (ae_api env) h2 e2 of
        (Inl _, _, e) \<Rightarrow> (fail_closed AUTH_UNAVAILABLE, w\<lparr>w_sessions := e\<rparr>)
      | (Inr _, h3, e3) \<Rightarrow>
     (case ss_save (ae_api env) h3 e3 of
        (Inl _, _, e) \<Rightarrow> (fail_closed AUTH_UNAVAILABLE, w\<lparr>w_sessions := e\<rparr>)
      | (Inr _, h4, e4) \<Rightarrow>
     (case ss_id (ae_api env) h4 of
        None \<Rightarrow> (fail_closed AUTH_UNAVAILABLE, w\<lparr>w_sessions := e4\<rparr>)
      | Some sid \<Rightarrow>
          (with_session_cookie env g sid (see_other (fc_home (ae_fortify env))), w\<lparr>w_sessions := e4\<rparr>))))))"

definition challenge_submit :: "('h, 'e, 'u, Csrf.answer) handler" where
  "challenge_submit env inp q w =
     (case ae_guard env of
        None \<Rightarrow> (fail_closed AUTH_UNAVAILABLE, w)
      | Some g \<Rightarrow>
     (case session_id env q of
        None \<Rightarrow> (found LOGIN_PATH, w)
      | Some sid \<Rightarrow>
     (case ss_parse_id (ae_api env) sid of
        None \<Rightarrow> (found LOGIN_PATH, w)
      | Some i \<Rightarrow>
     (case get_user (ae_api env) (pending_key g) (ss_new (ae_api env) (Some i)) (w_sessions w) of
        (Inl _, _, e) \<Rightarrow> (fail_closed AUTH_UNAVAILABLE, w\<lparr>w_sessions := e\<rparr>)
      | (Inr None, _, e) \<Rightarrow> (found LOGIN_PATH, w\<lparr>w_sessions := e\<rparr>)
      | (Inr (Some pending), h, e) \<Rightarrow>
          (case reg_check (hit (in_now inp)) two_factor_registry TWO_FACTOR
              (empty_input\<lparr>li_session_id := Some sid\<rparr>) (w_two_factor_limiter w) of
             (Inl _, l) \<Rightarrow> (fail_closed AUTH_UNAVAILABLE, w\<lparr>w_sessions := e, w_two_factor_limiter := l\<rparr>)
           | (Inr (Denied secs), l) \<Rightarrow> (throttle_response secs, w\<lparr>w_sessions := e, w_two_factor_limiter := l\<rparr>)
           | (Inr (Allowed _), l) \<Rightarrow>
               (let w1 = w\<lparr>w_sessions := e, w_two_factor_limiter := l\<rparr> in
                case two_factor_service env of
                  None \<Rightarrow> (fail_closed AUTH_UNAVAILABLE, w1)
                | Some svc \<Rightarrow>
                    (let form = parse_form (ht_body q);
                         code = trim (unwrap_or_default (field form ''code''));
                         recovery = trim (unwrap_or_default (field form ''recovery_code''))
                     in case (if recovery = []
                              then (verify_challenge (ae_tf_env env) svc (ae_tf_ops env) (in_now inp) (su_id pending) code (w_factors w1),
                                    w_factors w1)
                              else consume_recovery_code (ae_tf_env env) (ae_tf_ops env) (su_id pending) recovery (w_factors w1)) of
                          (Inr _, f) \<Rightarrow> complete_login env g h pending (w1\<lparr>w_factors := f\<rparr>)
                        | (Inl InvalidTwoFactorCode, f) \<Rightarrow> (invalid_code, w1\<lparr>w_factors := f\<rparr>)
                        | (Inl _, f) \<Rightarrow> (fail_closed AUTH_UNAVAILABLE, w1\<lparr>w_factors := f\<rparr>))))))))"

text \<open>The management handlers. Codes that are shown again come from a cache in the process. \<open>None\<close> says that the
  recovery codes are still being drawn.\<close>

definition codes_json :: "string list \<Rightarrow> json_value" where
  "codes_json codes = JArray (map JString codes)"

definition two_factor_enable :: "('h, 'e, 'u, Csrf.answer option) handler" where
  "two_factor_enable env inp q w =
     (case ht_user q of
        None \<Rightarrow> (Some (found LOGIN_PATH), w)
      | Some user \<Rightarrow>
          (case two_factor_service env of
             None \<Rightarrow> (Some (fail_closed AUTH_UNAVAILABLE), w)
           | Some svc \<Rightarrow>
               (let account = (case au_email user of Some m \<Rightarrow> m | None \<Rightarrow> au_id user) in
                case enable (ae_tf_env env) svc (ae_tf_ops env) (in_two_factor inp) (au_id user) account (w_factors w) of
                  None \<Rightarrow> (None, w)
                | Some (Inl _, f) \<Rightarrow> (Some (fail_closed AUTH_UNAVAILABLE), w\<lparr>w_factors := f\<rparr>)
                | Some (Inr en, f) \<Rightarrow>
                    (Some (json_ok (JObject [(''secret'', JString (en_secret en)), (''otpauth_uri'', JString (en_uri en)),
                       (''recovery_codes'', codes_json (en_codes en))])),
                     w\<lparr>w_factors := f, w_codes := (w_codes w)(au_id user \<mapsto> en_codes en)\<rparr>))))"

definition two_factor_confirm :: "('h, 'e, 'u, Csrf.answer) handler" where
  "two_factor_confirm env inp q w =
     (case ht_user q of
        None \<Rightarrow> (found LOGIN_PATH, w)
      | Some user \<Rightarrow>
          (case two_factor_service env of
             None \<Rightarrow> (fail_closed AUTH_UNAVAILABLE, w)
           | Some svc \<Rightarrow>
               (let code = unwrap_or_default (field (parse_form (ht_body q)) ''code'') in
                case confirm (ae_tf_env env) svc (ae_tf_ops env) (in_now inp) (in_stamp inp) (au_id user) code (w_factors w) of
                  (Inr _, f) \<Rightarrow> (json_ok (JObject [(''confirmed'', JBool True)]), w\<lparr>w_factors := f\<rparr>)
                | (Inl InvalidTwoFactorCode, f) \<Rightarrow> (invalid_code, w\<lparr>w_factors := f\<rparr>)
                | (Inl _, f) \<Rightarrow> (fail_closed AUTH_UNAVAILABLE, w\<lparr>w_factors := f\<rparr>))))"

definition two_factor_disable :: "('h, 'e, 'u, Csrf.answer) handler" where
  "two_factor_disable env inp q w =
     (case ht_user q of
        None \<Rightarrow> (found LOGIN_PATH, w)
      | Some user \<Rightarrow>
          (case two_factor_service env of
             None \<Rightarrow> (fail_closed AUTH_UNAVAILABLE, w)
           | Some svc \<Rightarrow>
               (case disable (ae_tf_ops env) (au_id user) (w_factors w) of
                  (Inr _, f) \<Rightarrow>
                    (json_ok (JObject [(''confirmed'', JBool False)]), w\<lparr>w_factors := f, w_codes := (w_codes w)(au_id user := None)\<rparr>)
                | (Inl _, f) \<Rightarrow> (fail_closed AUTH_UNAVAILABLE, w\<lparr>w_factors := f\<rparr>))))"

definition recovery_codes_show :: "('h, 'e, 'u, Csrf.answer) handler" where
  "recovery_codes_show env inp q w =
     (case ht_user q of
        None \<Rightarrow> (found LOGIN_PATH, w)
      | Some user \<Rightarrow>
          ((case w_codes w (au_id user) of
              Some codes \<Rightarrow> json_ok (JObject [(''recovery_codes'', codes_json codes)])
            | None \<Rightarrow> json_error 404 ''AuthError::TwoFactorRecoveryCodesUnavailable'' RECOVERY_CODES_UNAVAILABLE), w))"

definition recovery_codes_regenerate :: "('h, 'e, 'u, Csrf.answer option) handler" where
  "recovery_codes_regenerate env inp q w =
     (case ht_user q of
        None \<Rightarrow> (Some (found LOGIN_PATH), w)
      | Some user \<Rightarrow>
          (case two_factor_service env of
             None \<Rightarrow> (Some (fail_closed AUTH_UNAVAILABLE), w)
           | Some svc \<Rightarrow>
               (case regenerate_recovery_codes (ae_tf_env env) (ae_tf_ops env) (in_two_factor inp) (au_id user) (w_factors w) of
                  None \<Rightarrow> (None, w)
                | Some (Inr codes, f) \<Rightarrow>
                    (Some (json_ok (JObject [(''recovery_codes'', codes_json codes)])),
                     w\<lparr>w_factors := f, w_codes := (w_codes w)(au_id user \<mapsto> codes)\<rparr>)
                | Some (Inl TwoFactorRequired, f) \<Rightarrow>
                    (Some (json_error 409 ''AuthError::TwoFactorRequired'' TWO_FACTOR_NOT_ENABLED), w\<lparr>w_factors := f\<rparr>)
                | Some (Inl _, f) \<Rightarrow> (Some (fail_closed AUTH_UNAVAILABLE), w\<lparr>w_factors := f\<rparr>))))"

end
