(* ===== verification/App_Account.thy ===== *)
theory App_Account
  imports App_Auth
begin

text \<open>
  The account handlers of \<^verbatim>\<open>rustasea-app/src/routes\<close>: profile and password
  (\<^verbatim>\<open>settings.rs\<close>), email verification (\<^verbatim>\<open>auth/verification.rs\<close>), password reset
  (\<^verbatim>\<open>auth/password_reset\<close>) and passkeys (\<^verbatim>\<open>auth/passkeys\<close>), in the environment and state of the
  authentication handlers. A mail is its recipient and its link; whether it can be built and delivered is an input.
  Arithmetic on times is that of a release build.
\<close>

section \<open>Settings\<close>

definition PASSWORD_PATH :: string where
  "PASSWORD_PATH = ''/settings/password''"

definition PROFILE_UNAVAILABLE :: string where
  "PROFILE_UNAVAILABLE = ''Profile updates are temporarily unavailable.''"

definition PASSWORD_UNAVAILABLE :: string where
  "PASSWORD_UNAVAILABLE = ''Password updates are temporarily unavailable.''"

datatype UniqueProbe = Resolved "AuthUserRecord option" | Unavailable

definition provider_context :: "string \<Rightarrow> UniqueProbe \<Rightarrow> bool option \<Rightarrow> val_ctx" where
  "provider_context queried_email probe current_password_match =
     \<lparr>vc_is_unique = (\<lambda>table column v ignore_id.
        if table \<noteq> ''users'' \<or> column \<noteq> ''email'' \<or> v \<noteq> queried_email then None
        else
          (case probe of
             Unavailable \<Rightarrow> None
           | Resolved None \<Rightarrow> Some True
           | Resolved (Some r) \<Rightarrow> Some (ignore_id = Some (ur_id r)))),
      vc_current_password = (\<lambda>_. current_password_match)\<rparr>"

definition profile_rules :: "string \<Rightarrow> Rules" where
  "profile_rules uid =
     rules_add ''email'' (''required|string|email|max:255|unique:users,email,'' @ uid)
       (rules_add ''name'' ''required|string|max:255'' rules_new)"

definition profile_update :: "('h, 'e, 'u, Csrf.answer) handler" where
  "profile_update env inp q w =
     (case ht_user q of
        None \<Rightarrow> (found LOGIN_PATH, w)
      | Some user \<Rightarrow>
          (let form = parse_form (ht_body q);
               name = unwrap_or_default (field form ''name'');
               email = unwrap_or_default (field form ''email'')
           in case up_find_by_email (ae_provider env) email (w_users w) of
                (res, u1) \<Rightarrow>
                  (let probe = (case res of Inr fnd \<Rightarrow> Resolved fnd | Inl _ \<Rightarrow> Unavailable) in
                   case validate_with (ae_val env) (profile_rules (au_id user)) (JObject (payload_of [''name'', ''email''] form))
                       (provider_context email probe None) of
                     Inl bag \<Rightarrow> (validation_error bag, w\<lparr>w_users := u1\<rparr>)
                   | Inr _ \<Rightarrow>
                       (case up_update_profile (ae_provider env) (au_id user) name email u1 of
                          (Inl (UserExists _), u2) \<Rightarrow>
                            (field_error ''email'' ''unique'' ''The email has already been taken.'', w\<lparr>w_users := u2\<rparr>)
                        | (Inl _, u2) \<Rightarrow> (json_error 500 ''AuthError::Unavailable'' PROFILE_UNAVAILABLE, w\<lparr>w_users := u2\<rparr>)
                        | (Inr _, u2) \<Rightarrow>
                            (if au_email user \<noteq> Some email \<and> fc_email_verification (ae_fortify env) then
                               (case up_set_email_verified_at (ae_provider env) (au_id user) None u2 of
                                  (Inl _, u3) \<Rightarrow>
                                    (json_error 500 ''AuthError::Unavailable'' PROFILE_UNAVAILABLE, w\<lparr>w_users := u3\<rparr>)
                                | (Inr _, u3) \<Rightarrow> (see_other PROFILE_PATH, w\<lparr>w_users := u3\<rparr>))
                             else (see_other PROFILE_PATH, w\<lparr>w_users := u2\<rparr>))))))"

definition password_rules :: Rules where
  "password_rules =
     rules_add ''password'' ''required|string|password|confirmed''
       (rules_add ''current_password'' ''required|string|current_password'' (password_policy policy_production rules_new))"

definition password_update :: "('h, 'e, 'u, Csrf.answer) handler" where
  "password_update env inp q w =
     (case ht_user q of
        None \<Rightarrow> (found LOGIN_PATH, w)
      | Some user \<Rightarrow>
          (let form = parse_form (ht_body q);
               current = unwrap_or_default (field form ''current_password'');
               password = unwrap_or_default (field form ''password'')
           in case (case au_email user of
                      None \<Rightarrow> (None, w_users w)
                    | Some email \<Rightarrow>
                        (case up_find_by_email (ae_provider env) email (w_users w) of
                           (Inr (Some r), u) \<Rightarrow> (Some (ae_verify env (ur_password_hash r) current), u)
                         | (_, u) \<Rightarrow> (None, u))) of
                (current_match, u1) \<Rightarrow>
                  (case validate_with (ae_val env) password_rules
                       (JObject (payload_of [''current_password'', ''password'', ''password_confirmation''] form))
                       (provider_context [] Unavailable current_match) of
                     Inl bag \<Rightarrow> (validation_error bag, w\<lparr>w_users := u1\<rparr>)
                   | Inr _ \<Rightarrow>
                       (case ae_hash env (in_salt inp) password of
                          Inl _ \<Rightarrow> (json_error 500 ''AuthError::Hash'' PASSWORD_UNAVAILABLE, w\<lparr>w_users := u1\<rparr>)
                        | Inr hash \<Rightarrow>
                            (case up_update_password (ae_provider env) (au_id user) hash u1 of
                               (Inr _, u2) \<Rightarrow> (see_other PASSWORD_PATH, w\<lparr>w_users := u2\<rparr>)
                             | (Inl _, u2) \<Rightarrow>
                                 (json_error 500 ''AuthError::Unavailable'' PASSWORD_UNAVAILABLE, w\<lparr>w_users := u2\<rparr>))))))"

section \<open>Email verification\<close>

definition VERIFICATION_TTL_SECS :: nat where
  "VERIFICATION_TTL_SECS = 3600"

definition VERIFICATION_SEND :: string where
  "VERIFICATION_SEND = ''verification.send''"

definition VERIFICATION_MAX_ATTEMPTS :: nat where
  "VERIFICATION_MAX_ATTEMPTS = 6"

definition VERIFICATION_DISABLED :: string where
  "VERIFICATION_DISABLED = ''Email verification is disabled.''"

definition VERIFY_SIGNER_UNAVAILABLE :: string where
  "VERIFY_SIGNER_UNAVAILABLE = ''Email verification is temporarily unavailable.''"

definition MAILER_UNAVAILABLE :: string where
  "MAILER_UNAVAILABLE = ''Email delivery is temporarily unavailable.''"

definition INVALID_VERIFY_LINK :: string where
  "INVALID_VERIFY_LINK = ''This verification link is invalid or has expired.''"

definition verification_disabled :: Csrf.answer where
  "verification_disabled = json_error 404 ''VerificationDisabled'' VERIFICATION_DISABLED"

definition verify_forbidden :: "string \<Rightarrow> Csrf.answer" where
  "verify_forbidden code = json_error 403 code INVALID_VERIFY_LINK"

definition verification_registry :: registry where
  "verification_registry = snd (reg_register VERIFICATION_SEND
     \<lparr>ld_limit = per_minute VERIFICATION_MAX_ATTEMPTS,
      ld_key = (\<lambda>i. case li_session_id i of Some s \<Rightarrow> Some s | None \<Rightarrow> li_username i)\<rparr> Map.empty)"

definition email_hash :: "('h, 'e, 'u) app_env \<Rightarrow> string \<Rightarrow> string" where
  "email_hash env email = ae_hex_encode env (ae_sha256 env email)"

fun signed_url_code :: "SignedUrlError \<Rightarrow> string" where
  "signed_url_code MissingKey = ''MissingKey''"
| "signed_url_code MissingSignature = ''MissingSignature''"
| "signed_url_code InvalidSignature = ''InvalidSignature''"
| "signed_url_code (Expired _ _) = ''Expired''"
| "signed_url_code (Malformed _) = ''Malformed''"

definition verify_path :: "string \<Rightarrow> string \<Rightarrow> string" where
  "verify_path uid hash = ''/email/verify/'' @ uid @ ''/'' @ hash"

definition verify_email_resend :: "('h, 'e, 'u, Csrf.answer) handler" where
  "verify_email_resend env inp q w =
     (if \<not> fc_email_verification (ae_fortify env) then (verification_disabled, w)
      else
     (case ht_user q of
        None \<Rightarrow> (found LOGIN_PATH, w)
      | Some user \<Rightarrow>
     (case au_email user of
        None \<Rightarrow> (fail_closed AUTH_UNAVAILABLE, w)
      | Some email \<Rightarrow>
     (case reg_check (hit (in_now inp)) verification_registry VERIFICATION_SEND
         (empty_input\<lparr>li_session_id := Some (unwrap_or_default (session_id env q)), li_username := Some email\<rparr>)
         (w_verification_limiter w) of
        (Inl _, l) \<Rightarrow> (fail_closed AUTH_UNAVAILABLE, w\<lparr>w_verification_limiter := l\<rparr>)
      | (Inr (Denied secs), l) \<Rightarrow> (throttle_response secs, w\<lparr>w_verification_limiter := l\<rparr>)
      | (Inr (Allowed _), l) \<Rightarrow>
     (case up_find_by_email (ae_provider env) email (w_users w) of
        (Inr (Some r), u) \<Rightarrow>
          (let w1 = w\<lparr>w_verification_limiter := l, w_users := u\<rparr> in
           case ae_signer env of
             None \<Rightarrow> (fail_closed VERIFY_SIGNER_UNAVAILABLE, w1)
           | Some sg \<Rightarrow>
               (let path = verify_path (ur_id r) (email_hash env (ur_email r)) in
                case sign_expiring (ae_mac env) (ae_hex_encode env) sg (int (in_now inp)) path VERIFICATION_TTL_SECS
                    [(''email'', ur_email r)] of
                  Inl _ \<Rightarrow> (fail_closed VERIFY_SIGNER_UNAVAILABLE, w1)
                | Inr query \<Rightarrow>
                    (if \<not> in_mail_ok inp then (fail_closed MAILER_UNAVAILABLE, w1)
                     else (see_other ''/verify-email'',
                       w1\<lparr>w_mail := w_mail w1 @ [(ur_email r, ae_app_url env @ path @ ''?'' @ query)]\<rparr>))))
      | (_, u) \<Rightarrow> (fail_closed AUTH_UNAVAILABLE, w\<lparr>w_verification_limiter := l, w_users := u\<rparr>))))))"

definition verify_email_confirm :: "string \<Rightarrow> string \<Rightarrow> ('h, 'e, 'u, Csrf.answer) handler" where
  "verify_email_confirm uid hash env inp q w =
     (if \<not> fc_email_verification (ae_fortify env) then (verification_disabled, w)
      else
        (let query = unwrap_or_default (ht_query q) in
         case ae_signer env of
           None \<Rightarrow> (fail_closed VERIFY_SIGNER_UNAVAILABLE, w)
         | Some sg \<Rightarrow>
             (case verify (ae_mac env) (ae_hex_decode env) (ae_debug env) sg (verify_path uid hash) query (int (in_now inp)) of
                Inl MissingKey \<Rightarrow> (fail_closed VERIFY_SIGNER_UNAVAILABLE, w)
              | Inl er \<Rightarrow> (verify_forbidden (signed_url_code er), w)
              | Inr _ \<Rightarrow>
                  (case field (parse_form query) ''email'' of
                     None \<Rightarrow> (verify_forbidden ''MissingSignature'', w)
                   | Some email \<Rightarrow>
                       (case up_find_by_email (ae_provider env) email (w_users w) of
                          (Inr (Some r), u) \<Rightarrow>
                            (if ur_id r \<noteq> uid \<or> email_hash env (ur_email r) \<noteq> hash
                             then (verify_forbidden ''InvalidSignature'', w\<lparr>w_users := u\<rparr>)
                             else
                               (case up_set_email_verified_at (ae_provider env) (ur_id r) (Some (in_stamp inp)) u of
                                  (Inl _, u') \<Rightarrow> (fail_closed AUTH_UNAVAILABLE, w\<lparr>w_users := u'\<rparr>)
                                | (Inr _, u') \<Rightarrow> (see_other ''/dashboard'', w\<lparr>w_users := u'\<rparr>)))
                        | (_, u) \<Rightarrow> (verify_forbidden ''InvalidSignature'', w\<lparr>w_users := u\<rparr>))))))"

section \<open>Password reset\<close>

definition FORGOT_PATH :: string where
  "FORGOT_PATH = ''/forgot-password''"

definition RESET_DISABLED :: string where
  "RESET_DISABLED = ''Password resets are disabled.''"

definition EMAIL_REQUIRED :: string where
  "EMAIL_REQUIRED = ''The email field is required.''"

definition PASSWORD_INVALID :: string where
  "PASSWORD_INVALID = ''The password field is invalid.''"

definition INVALID_RESET_LINK :: string where
  "INVALID_RESET_LINK = ''This password reset link is invalid or has expired.''"

definition PASSWORD_EMAIL :: string where
  "PASSWORD_EMAIL = ''password.email''"

definition PASSWORD_EMAIL_MAX_ATTEMPTS :: nat where
  "PASSWORD_EMAIL_MAX_ATTEMPTS = 6"

definition RESET_UNAVAILABLE :: string where
  "RESET_UNAVAILABLE = ''Password reset is temporarily unavailable.''"

definition reset_disabled :: Csrf.answer where
  "reset_disabled = json_error 404 ''ResetDisabled'' RESET_DISABLED"

definition reset_forbidden :: "string \<Rightarrow> Csrf.answer" where
  "reset_forbidden code = json_error 403 code INVALID_RESET_LINK"

definition reset_registry :: registry where
  "reset_registry = snd (reg_register PASSWORD_EMAIL
     \<lparr>ld_limit = per_minute PASSWORD_EMAIL_MAX_ATTEMPTS, ld_key = li_username\<rparr> Map.empty)"

definition reset_path :: "string \<Rightarrow> string" where
  "reset_path token = ''/reset-password/'' @ token"

definition reset_link :: "('h, 'e, 'u) app_env \<Rightarrow> SignedUrlSigner \<Rightarrow> int \<Rightarrow> string \<Rightarrow> string \<Rightarrow> SignedUrlError + string" where
  "reset_link env sg now email token =
     (case sign_expiring (ae_mac env) (ae_hex_encode env) sg now (reset_path token) (ae_expire_minutes env * 60 mod 2 ^ 64)
         [(''email'', email)] of
        Inl er \<Rightarrow> Inl er
      | Inr query \<Rightarrow> Inr (ae_app_url env @ reset_path token @ ''?'' @ query))"

text \<open>The result is \<open>None\<close> while the token is still being drawn.\<close>

definition forgot_password_submit :: "('h, 'e, 'u, Csrf.answer option) handler" where
  "forgot_password_submit env inp q w =
     (if \<not> fc_reset_passwords (ae_fortify env) then (Some reset_disabled, w)
      else
        (let email = trim (unwrap_or_default (field (parse_form (ht_body q)) ''email'')) in
         if email = [] then (Some (json_error 422 ''ValidationError'' EMAIL_REQUIRED), w)
         else
           (case reg_check (hit (in_now inp)) reset_registry PASSWORD_EMAIL (empty_input\<lparr>li_username := Some email\<rparr>)
               (w_reset_limiter w) of
              (Inl _, l) \<Rightarrow> (Some (fail_closed AUTH_UNAVAILABLE), w\<lparr>w_reset_limiter := l\<rparr>)
            | (Inr (Denied secs), l) \<Rightarrow> (Some (throttle_response secs), w\<lparr>w_reset_limiter := l\<rparr>)
            | (Inr (Allowed _), l) \<Rightarrow>
                (case up_find_by_email (ae_provider env) email (w_users w) of
                   (Inl _, u) \<Rightarrow> (Some (fail_closed AUTH_UNAVAILABLE), w\<lparr>w_reset_limiter := l, w_users := u\<rparr>)
                 | (Inr None, u) \<Rightarrow> (Some (see_other FORGOT_PATH), w\<lparr>w_reset_limiter := l, w_users := u\<rparr>)
                 | (Inr (Some r), u) \<Rightarrow>
                     (let w1 = w\<lparr>w_reset_limiter := l, w_users := u\<rparr> in
                      case ae_signer env of
                        None \<Rightarrow> (Some (fail_closed RESET_UNAVAILABLE), w1)
                      | Some sg \<Rightarrow>
                          (case generate_token (in_token inp) of
                             None \<Rightarrow> (None, w1)
                           | Some token \<Rightarrow>
                               (case ae_hash env (in_salt inp) token of
                                  Inl _ \<Rightarrow> (Some (fail_closed RESET_UNAVAILABLE), w1)
                                | Inr token_hash \<Rightarrow>
                                    (case rs_create (ae_reset_ops env) (ur_email r) token_hash (int (in_now inp)) (w_reset w1) of
                                       (Inl _, t) \<Rightarrow> (Some (fail_closed RESET_UNAVAILABLE), w1\<lparr>w_reset := t\<rparr>)
                                     | (Inr _, t) \<Rightarrow>
                                         (let w2 = w1\<lparr>w_reset := t\<rparr> in
                                          case reset_link env sg (int (in_now inp)) (ur_email r) token of
                                            Inl _ \<Rightarrow> (Some (fail_closed RESET_UNAVAILABLE), w2)
                                          | Inr link \<Rightarrow>
                                              (if \<not> in_mail_ok inp then (Some (fail_closed MAILER_UNAVAILABLE), w2)
                                               else (Some (see_other FORGOT_PATH),
                                                 w2\<lparr>w_mail := w_mail w2 @ [(ur_email r, link)]\<rparr>)))))))))))"

definition token_matches :: "('h, 'e, 'u) app_env \<Rightarrow> int \<Rightarrow> string \<Rightarrow> string \<Rightarrow> reset_table \<Rightarrow> bool" where
  "token_matches env now email token t =
     (case rs_find (ae_reset_ops env) email t of
        Inr (Some r) \<Rightarrow>
          (let expires_at = wrap_i64 (pr_created_at r + wrap_i64 (int (ae_expire_minutes env)) * 60) in
           if expires_at < now then False else ae_verify env (pr_token_hash r) token)
      | _ \<Rightarrow> False)"

text \<open>\<^verbatim>\<open>encode_component\<close> is the encoder of the signed URLs.\<close>

definition signed_query :: "string \<Rightarrow> string \<Rightarrow> string \<Rightarrow> string" where
  "signed_query email expires signature =
     ''email='' @ percent_encode email @ ''&expires='' @ expires @ ''&signature='' @ signature"

definition html_escape :: "string \<Rightarrow> string" where
  "html_escape s = concat (map (\<lambda>c.
     if c = CHR ''&'' then ''&amp;'' else if c = CHR ''<'' then ''&lt;'' else if c = CHR ''>'' then ''&gt;''
     else if c = CHR 0x22 then ''&quot;'' else if c = CHR 0x27 then ''&#39;'' else [c]) s)"

text \<open>The parts of the form that the request fills in, in their order.\<close>

definition reset_form_inputs :: "string \<Rightarrow> string \<Rightarrow> string \<Rightarrow> string \<Rightarrow> string list" where
  "reset_form_inputs email token expires signature =
     [html_escape email, html_escape token, html_escape expires, html_escape signature]"

text \<open>The answer is the refusal, or the inputs of the page.\<close>

definition reset_password_page :: "string \<Rightarrow> ('h, 'e, 'u, Csrf.answer + string list) handler" where
  "reset_password_page token env inp q w =
     ((if \<not> fc_reset_passwords (ae_fortify env) then Inl reset_disabled
       else
         (let query = unwrap_or_default (ht_query q) in
          case ae_signer env of
            None \<Rightarrow> Inl (fail_closed RESET_UNAVAILABLE)
          | Some sg \<Rightarrow>
              (case verify (ae_mac env) (ae_hex_decode env) (ae_debug env) sg (reset_path token) query (int (in_now inp)) of
                 Inl MissingKey \<Rightarrow> Inl (fail_closed RESET_UNAVAILABLE)
               | Inl er \<Rightarrow> Inl (reset_forbidden (signed_url_code er))
               | Inr _ \<Rightarrow>
                   (let form = parse_form query in
                    case field form ''email'' of
                      None \<Rightarrow> Inl (reset_forbidden ''MissingSignature'')
                    | Some email \<Rightarrow>
                        if \<not> token_matches env (int (in_now inp)) email token (w_reset w) then Inl (reset_forbidden ''InvalidSignature'')
                        else Inr (reset_form_inputs email token (unwrap_or_default (field form ''expires''))
                          (unwrap_or_default (field form ''signature''))))))), w)"

definition reset_rules :: Rules where
  "reset_rules = rules_add ''password'' ''required|string|password|confirmed'' (password_policy policy_production rules_new)"

definition reset_password_submit :: "('h, 'e, 'u, Csrf.answer) handler" where
  "reset_password_submit env inp q w =
     (if \<not> fc_reset_passwords (ae_fortify env) then (reset_disabled, w)
      else
        (let form = parse_form (ht_body q);
             email = trim (unwrap_or_default (field form ''email''));
             token = unwrap_or_default (field form ''token'');
             expires = unwrap_or_default (field form ''expires'');
             signature = unwrap_or_default (field form ''signature'')
         in if email = [] \<or> token = [] then (reset_forbidden ''MissingSignature'', w)
            else
              (case ae_signer env of
                 None \<Rightarrow> (fail_closed RESET_UNAVAILABLE, w)
               | Some sg \<Rightarrow>
                   (case verify (ae_mac env) (ae_hex_decode env) (ae_debug env) sg (reset_path token)
                       (signed_query email expires signature) (int (in_now inp)) of
                      Inl MissingKey \<Rightarrow> (fail_closed RESET_UNAVAILABLE, w)
                    | Inl er \<Rightarrow> (reset_forbidden (signed_url_code er), w)
                    | Inr _ \<Rightarrow>
                        if \<not> token_matches env (int (in_now inp)) email token (w_reset w) then (reset_forbidden ''InvalidSignature'', w)
                        else if validate (ae_val env) reset_rules (JObject (payload_of [''password'', ''password_confirmation''] form)) \<noteq> Inr ()
                        then (json_error 422 ''ValidationError'' PASSWORD_INVALID, w)
                        else
                          (case up_find_by_email (ae_provider env) email (w_users w) of
                             (Inl _, u) \<Rightarrow> (fail_closed AUTH_UNAVAILABLE, w\<lparr>w_users := u\<rparr>)
                           | (Inr None, u) \<Rightarrow> (reset_forbidden ''InvalidSignature'', w\<lparr>w_users := u\<rparr>)
                           | (Inr (Some r), u) \<Rightarrow>
                               (case ae_hash env (in_salt inp) (unwrap_or_default (field form ''password'')) of
                                  Inl _ \<Rightarrow> (fail_closed RESET_UNAVAILABLE, w\<lparr>w_users := u\<rparr>)
                                | Inr hash \<Rightarrow>
                                    (case rs_delete (ae_reset_ops env) email (w_reset w) of
                                       (Inl _, t) \<Rightarrow> (fail_closed RESET_UNAVAILABLE, w\<lparr>w_users := u, w_reset := t\<rparr>)
                                     | (Inr _, t) \<Rightarrow>
                                         (case up_update_password (ae_provider env) (ur_id r) hash u of
                                            (Inl _, u') \<Rightarrow> (fail_closed RESET_UNAVAILABLE, w\<lparr>w_users := u', w_reset := t\<rparr>)
                                          | (Inr _, u') \<Rightarrow> (see_other LOGIN_PATH, w\<lparr>w_users := u', w_reset := t\<rparr>)))))))))"

section \<open>Passkeys\<close>

definition SECURITY_PATH :: string where
  "SECURITY_PATH = ''/settings/security''"

definition PASSKEYS_DISABLED :: string where
  "PASSKEYS_DISABLED = ''Passkeys are disabled.''"

definition INVALID_BODY :: string where
  "INVALID_BODY = ''The passkey request body was invalid.''"

definition INVALID_REGISTRATION :: string where
  "INVALID_REGISTRATION = ''The passkey registration could not be verified.''"

definition INVALID_ASSERTION :: string where
  "INVALID_ASSERTION = ''The passkey assertion could not be verified.''"

definition PASSKEYS :: string where
  "PASSKEYS = ''passkeys''"

definition passkeys_not_found :: Csrf.answer where
  "passkeys_not_found = json_error 404 ''PasskeysDisabled'' PASSKEYS_DISABLED"

definition invalid_body :: Csrf.answer where
  "invalid_body = json_error 422 ''ValidationError'' INVALID_BODY"

definition invalid_registration :: Csrf.answer where
  "invalid_registration = json_error 422 ''AuthError::Passkey'' INVALID_REGISTRATION"

definition invalid_assertion :: Csrf.answer where
  "invalid_assertion = json_error 422 ''AuthError::InvalidPasskeyAssertion'' INVALID_ASSERTION"

definition passkeys_registry :: registry where
  "passkeys_registry = snd (reg_register PASSKEYS passkeys_definition Map.empty)"

definition registration_key :: "string \<Rightarrow> string" where
  "registration_key uid = ''passkey:register:'' @ uid"

definition login_key :: "string \<Rightarrow> string" where
  "login_key sid = ''passkey:login:'' @ sid"

definition credential_view :: "PasskeyCredential \<Rightarrow> json_value" where
  "credential_view c = JObject [(''id'', JString (pc_id c)), (''name'', JString (pc_name c)), (''created_at'', JString (pc_created_at c))]"

definition passkeys_well_known :: "('h, 'e, 'u, Csrf.answer) handler" where
  "passkeys_well_known env inp q w =
     ((if \<not> fc_passkeys (ae_fortify env) then passkeys_not_found
       else json_ok (JObject [(''enroll'', JString SECURITY_PATH), (''manage'', JString SECURITY_PATH)])), w)"

text \<open>The steps that the management handlers share: the feature, the principal and the service.\<close>

definition passkeys_guarded ::
  "(AuthUser \<Rightarrow> pk_service \<Rightarrow> Csrf.answer \<times> ('e, 'u) world) \<Rightarrow> ('h, 'e, 'u, Csrf.answer) handler" where
  "passkeys_guarded act env inp q w =
     (if \<not> fc_passkeys (ae_fortify env) then (passkeys_not_found, w)
      else
        (case ht_user q of
           None \<Rightarrow> (found LOGIN_PATH, w)
         | Some user \<Rightarrow>
             (case ae_pk_service env of None \<Rightarrow> (fail_closed AUTH_UNAVAILABLE, w) | Some svc \<Rightarrow> act user svc)))"

definition passkeys_list :: "('h, 'e, 'u, Csrf.answer) handler" where
  "passkeys_list env inp q w =
     passkeys_guarded (\<lambda>user svc.
       ((case list_credentials (ae_pk_store env) (au_id user) (w_passkeys w) of
           Inr cs \<Rightarrow> json_ok (JArray (map credential_view cs))
         | Inl _ \<Rightarrow> fail_closed AUTH_UNAVAILABLE), w)) env inp q w"

definition options_json :: "creation_options \<Rightarrow> json_value" where
  "options_json opts = JObject [(''challenge'', JString (co_challenge opts)),
     (''rp'', JObject [(''id'', JString (co_rp_id opts)), (''name'', JString (co_rp_name opts))]),
     (''user'', JObject [(''id'', JString (co_user_id opts)), (''name'', JString (co_user_name opts)),
        (''display_name'', JString (co_display_name opts))]),
     (''pubKeyCredParams'', JArray [JObject [(''type'', JString ''public-key''), (''alg'', JNumber (show_int (co_alg opts)))]]),
     (''timeout'', JNumber (show_nat (co_timeout opts))), (''attestation'', JString (co_attestation opts)),
     (''excludeCredentials'', JArray (map (\<lambda>i. JObject [(''type'', JString ''public-key''), (''id'', JString i)]) (co_exclude opts)))]"

definition request_json :: "request_options \<Rightarrow> json_value" where
  "request_json opts = JObject [(''challenge'', JString (qo_challenge opts)), (''rpId'', JString (qo_rp_id opts)),
     (''timeout'', JNumber (show_nat (qo_timeout opts))),
     (''allowCredentials'', JArray (map (\<lambda>i. JObject [(''type'', JString ''public-key''), (''id'', JString i)]) (qo_allow opts))),
     (''userVerification'', JString (qo_user_verification opts))]"

definition passkeys_manage :: "('h, 'e, 'u, Csrf.answer) handler" where
  "passkeys_manage env inp q w =
     passkeys_guarded (\<lambda>user svc.
       (case ae_json env (ht_body q) of
          None \<Rightarrow> (invalid_body, w)
        | Some payload \<Rightarrow>
            (let key = registration_key (au_id user) in
             if json_get payload ''response'' \<noteq> None then
               (case ae_registration env payload of
                  None \<Rightarrow> (invalid_body, w)
                | Some response \<Rightarrow>
                    (let name = (case rr_name response of Some n \<Rightarrow> n | None \<Rightarrow> ''Passkey'') in
                     case finish_registration (ae_pk_env env) svc (ae_pk_store env) (ae_pk_challenges env) (in_stamp inp)
                         (au_id user) key response name (w_passkeys w, w_challenges w) of
                       (res, p, c) \<Rightarrow>
                         ((case res of
                             Inr credential \<Rightarrow> json_ok (credential_view credential)
                           | Inl (PasskeyError _) \<Rightarrow> invalid_registration
                           | Inl _ \<Rightarrow> fail_closed AUTH_UNAVAILABLE), w\<lparr>w_passkeys := p, w_challenges := c\<rparr>)))
             else
               (let account = (case au_email user of Some m \<Rightarrow> m | None \<Rightarrow> au_id user) in
                case begin_registration (ae_pk_env env) svc (ae_pk_store env) (ae_pk_challenges env) (in_challenge inp)
                    (au_id user) account account key (w_passkeys w, w_challenges w) of
                  (res, p, c) \<Rightarrow>
                    ((case res of Inr opts \<Rightarrow> json_ok (options_json opts) | Inl _ \<Rightarrow> fail_closed AUTH_UNAVAILABLE),
                     w\<lparr>w_passkeys := p, w_challenges := c\<rparr>))))) env inp q w"

definition passkeys_delete :: "string \<Rightarrow> ('h, 'e, 'u, Csrf.answer) handler" where
  "passkeys_delete cid env inp q w =
     passkeys_guarded (\<lambda>user svc.
       (case delete_credential (ae_pk_store env) (au_id user) cid (w_passkeys w) of
          (Inr _, p) \<Rightarrow> (json_ok (JObject [(''deleted'', JBool True)]), w\<lparr>w_passkeys := p\<rparr>)
        | (Inl _, p) \<Rightarrow> (fail_closed AUTH_UNAVAILABLE, w\<lparr>w_passkeys := p\<rparr>))) env inp q w"

definition passkey_login_begin ::
  "('h, 'e, 'u) app_env \<Rightarrow> inputs \<Rightarrow> session_guard \<Rightarrow> pk_service \<Rightarrow> ('e, 'u) world \<Rightarrow> Csrf.answer \<times> ('e, 'u) world" where
  "passkey_login_begin env inp g svc w =
     (case ss_save (ae_api env) (ss_new (ae_api env) None) (w_sessions w) of
        (Inl _, _, e) \<Rightarrow> (fail_closed AUTH_UNAVAILABLE, w\<lparr>w_sessions := e\<rparr>)
      | (Inr _, h, e) \<Rightarrow>
          (let w1 = w\<lparr>w_sessions := e\<rparr> in
           case ss_id (ae_api env) h of
             None \<Rightarrow> (fail_closed AUTH_UNAVAILABLE, w1)
           | Some sid \<Rightarrow>
               (case begin_authentication (ae_pk_env env) svc (ae_pk_challenges env) (in_challenge inp) (login_key sid) [] (w_challenges w1) of
                  (Inl _, c) \<Rightarrow> (fail_closed AUTH_UNAVAILABLE, w1\<lparr>w_challenges := c\<rparr>)
                | (Inr opts, c) \<Rightarrow> (with_session_cookie env g sid (json_ok (request_json opts)), w1\<lparr>w_challenges := c\<rparr>))))"

definition passkey_complete_login ::
  "('h, 'e, 'u) app_env \<Rightarrow> session_guard \<Rightarrow> string \<Rightarrow> string \<Rightarrow> ('e, 'u) world \<Rightarrow> Csrf.answer \<times> ('e, 'u) world" where
  "passkey_complete_login env g sid uid w =
     (case up_find_by_id (ae_provider env) uid (w_users w) of
        (Inl _, u) \<Rightarrow> (fail_closed AUTH_UNAVAILABLE, w\<lparr>w_users := u\<rparr>)
      | (Inr None, u) \<Rightarrow> (invalid_assertion, w\<lparr>w_users := u\<rparr>)
      | (Inr (Some r), u) \<Rightarrow>
          (let w1 = w\<lparr>w_users := u\<rparr> in
           case ss_parse_id (ae_api env) sid of
             None \<Rightarrow> (found LOGIN_PATH, w1)
           | Some i \<Rightarrow>
               (case ss_insert (ae_api env) (user_key (sg_policy g)) (VUser (session_user_of r)) (ss_new (ae_api env) (Some i)) (w_sessions w1) of
                  (Inl _, _, e) \<Rightarrow> (fail_closed AUTH_UNAVAILABLE, w1\<lparr>w_sessions := e\<rparr>)
                | (Inr _, h1, e1) \<Rightarrow>
               (case ss_cycle_id (ae_api env) h1 e1 of
                  (Inl _, _, e) \<Rightarrow> (fail_closed AUTH_UNAVAILABLE, w1\<lparr>w_sessions := e\<rparr>)
                | (Inr _, h2, e2) \<Rightarrow>
               (case ss_save (ae_api env) h2 e2 of
                  (Inl _, _, e) \<Rightarrow> (fail_closed AUTH_UNAVAILABLE, w1\<lparr>w_sessions := e\<rparr>)
                | (Inr _, h3, e3) \<Rightarrow>
               (case ss_id (ae_api env) h3 of
                  None \<Rightarrow> (fail_closed AUTH_UNAVAILABLE, w1\<lparr>w_sessions := e3\<rparr>)
                | Some new_id \<Rightarrow>
                    (with_session_cookie env g new_id (see_other (fc_home (ae_fortify env))), w1\<lparr>w_sessions := e3\<rparr>)))))))"

definition passkey_login_finish ::
  "json_value \<Rightarrow> ('h, 'e, 'u) app_env \<Rightarrow> inputs \<Rightarrow> session_guard \<Rightarrow> pk_service \<Rightarrow> http \<Rightarrow> ('e, 'u) world
    \<Rightarrow> Csrf.answer \<times> ('e, 'u) world" where
  "passkey_login_finish payload env inp g svc q w =
     (case ae_assertion env payload of
        None \<Rightarrow> (invalid_body, w)
      | Some assertion \<Rightarrow>
          (case reg_check (hit (in_now inp)) passkeys_registry PASSKEYS (empty_input\<lparr>li_credential_id := Some (ar_id assertion)\<rparr>)
              (w_passkeys_limiter w) of
             (Inl _, l) \<Rightarrow> (fail_closed AUTH_UNAVAILABLE, w\<lparr>w_passkeys_limiter := l\<rparr>)
           | (Inr (Denied secs), l) \<Rightarrow> (throttle_response secs, w\<lparr>w_passkeys_limiter := l\<rparr>)
           | (Inr (Allowed _), l) \<Rightarrow>
               (let w1 = w\<lparr>w_passkeys_limiter := l\<rparr> in
                case session_id env q of
                  None \<Rightarrow> (found LOGIN_PATH, w1)
                | Some sid \<Rightarrow>
                    (case finish_authentication (ae_pk_env env) svc (ae_pk_store env) (ae_pk_challenges env) (login_key sid) assertion
                        (w_passkeys w1, w_challenges w1) of
                       (res, p, c) \<Rightarrow>
                         (let w2 = w1\<lparr>w_passkeys := p, w_challenges := c\<rparr> in
                          case res of
                            Inr credential \<Rightarrow> passkey_complete_login env g sid (pc_user_id credential) w2
                          | Inl InvalidPasskeyAssertion \<Rightarrow> (invalid_assertion, w2)
                          | Inl PasskeyRequired \<Rightarrow> (invalid_assertion, w2)
                          | Inl (PasskeyError _) \<Rightarrow> (invalid_assertion, w2)
                          | Inl _ \<Rightarrow> (fail_closed AUTH_UNAVAILABLE, w2))))))"

definition passkeys_login :: "('h, 'e, 'u, Csrf.answer) handler" where
  "passkeys_login env inp q w =
     (if \<not> fc_passkeys (ae_fortify env) then (passkeys_not_found, w)
      else
        (case ae_guard env of
           None \<Rightarrow> (fail_closed AUTH_UNAVAILABLE, w)
         | Some g \<Rightarrow>
             (case ae_pk_service env of
                None \<Rightarrow> (fail_closed AUTH_UNAVAILABLE, w)
              | Some svc \<Rightarrow>
                  (case ae_json env (ht_body q) of
                     None \<Rightarrow> (invalid_body, w)
                   | Some payload \<Rightarrow>
                       if json_get payload ''response'' \<noteq> None then passkey_login_finish payload env inp g svc q w
                       else passkey_login_begin env inp g svc w))))"

end
