(* ===== verification/Session_Props.thy ===== *)
theory Session_Props
  imports Session
begin

text \<open>
  What the session guard does to the stored sessions. The locale \<open>session_laws\<close> states what the session
  crate documents, over the records of the store by id and the data a handle sees; the guard's operations are
  its clients. A store in memory whose ids are numbers interprets it.
\<close>

section \<open>The contract of sessions\<close>

type_synonym session_data = "string \<rightharpoonup> session_value"
type_synonym session_table = "string \<rightharpoonup> session_data"

text \<open>The id of a handle whose record is stored.\<close>

definition live_id :: "('h, 'e) session_api \<Rightarrow> ('e \<Rightarrow> session_table) \<Rightarrow> 'h \<Rightarrow> 'e \<Rightarrow> string option" where
  "live_id api recs h e = (case ss_id api h of None \<Rightarrow> None | Some i \<Rightarrow> if recs e i = None then None else Some i)"

definition without :: "string option \<Rightarrow> session_table \<Rightarrow> session_table" where
  "without i t = (case i of None \<Rightarrow> t | Some i \<Rightarrow> t(i := None))"

text \<open>A record is saved under the id of its session, or under an id that is not in use.\<close>

definition saved :: "string option \<Rightarrow> session_data \<Rightarrow> session_table \<Rightarrow> string \<Rightarrow> session_table \<Rightarrow> bool" where
  "saved live d t i t' \<longleftrightarrow> t' = t(i \<mapsto> d) \<and> (case live of Some j \<Rightarrow> i = j | None \<Rightarrow> t i = None)"

locale session_laws =
  fixes api :: "('h, 'e) session_api" and recs :: "'e \<Rightarrow> session_table" and view :: "'h \<Rightarrow> 'e \<Rightarrow> session_data"
    and ok :: "'e \<Rightarrow> bool"
  assumes new_id: "ss_id api (ss_new api i) = i"
    and new_view: "ok e \<Longrightarrow> view (ss_new api i) e = (case i of None \<Rightarrow> Map.empty | Some j \<Rightarrow> (case recs e j of None \<Rightarrow> Map.empty | Some d \<Rightarrow> d))"
    and get: "ok e \<Longrightarrow> ss_get api k h e = (got, h', e') \<Longrightarrow> ok e' \<and> recs e' = recs e \<and>
      (\<forall>v. got = Inr v \<longrightarrow> v = view h e k \<and> view h' e' = view h e \<and> live_id api recs h' e' = live_id api recs h e)"
    and insert: "ok e \<Longrightarrow> ss_insert api k v h e = (r, h', e') \<Longrightarrow> ok e' \<and> recs e' = recs e \<and>
      (r = Inr () \<longrightarrow> view h' e' = (view h e)(k \<mapsto> v) \<and> live_id api recs h' e' = live_id api recs h e)"
    and remove: "ok e \<Longrightarrow> ss_remove api k h e = (r, h', e') \<Longrightarrow> ok e' \<and> recs e' = recs e \<and>
      (r = Inr () \<longrightarrow> view h' e' = (view h e)(k := None) \<and> live_id api recs h' e' = live_id api recs h e)"
    and save: "ok e \<Longrightarrow> ss_save api h e = (r, h', e') \<Longrightarrow> ok e' \<and>
      (recs e' = recs e \<or> (\<exists>i. saved (live_id api recs h e) (view h e) (recs e) i (recs e'))) \<and>
      (r = Inr () \<longrightarrow> (\<exists>i. ss_id api h' = Some i \<and> saved (live_id api recs h e) (view h e) (recs e) i (recs e')))"
    and cycle: "ok e \<Longrightarrow> ss_cycle_id api h e = (r, h', e') \<Longrightarrow> ok e' \<and>
      (recs e' = recs e \<or> recs e' = without (live_id api recs h e) (recs e)) \<and>
      (r = Inr () \<longrightarrow> recs e' = without (live_id api recs h e) (recs e) \<and> view h' e' = view h e \<and> ss_id api h' = None)"
    and flush: "ok e \<Longrightarrow> ss_flush api h e = (r, h', e') \<Longrightarrow> ok e' \<and>
      (recs e' = recs e \<or> recs e' = without (live_id api recs h e) (recs e)) \<and>
      (r = Inr () \<longrightarrow> recs e' = without (live_id api recs h e) (recs e))"
begin

lemma new_live: "live_id api recs (ss_new api i) e = (case i of None \<Rightarrow> None | Some j \<Rightarrow> if recs e j = None then None else Some j)"
  by (simp add: live_id_def new_id)

lemma new_session_laws:
  assumes "ok e" "new_session api k u e = (r, e')"
  shows "ok e' \<and> (recs e' = recs e \<or> (\<exists>i. recs e i = None \<and> recs e' = (recs e)(i \<mapsto> [k \<mapsto> VUser u])))
    \<and> (\<forall>i. r = Inr i \<longrightarrow> recs e i = None \<and> recs e' = (recs e)(i \<mapsto> [k \<mapsto> VUser u]))"
proof -
  obtain r1 h1 e1 where ins: "ss_insert api k (VUser u) (ss_new api None) e = (r1, h1, e1)" by (metis prod_cases3)
  note i1 = insert [OF assms(1) ins]
  show ?thesis
  proof (cases r1)
    case (Inl x)
    with assms ins i1 show ?thesis by (auto simp: new_session_def)
  next
    case (Inr x)
    obtain r2 h2 e2 where sv: "ss_save api h1 e1 = (r2, h2, e2)" by (metis prod_cases3)
    have d: "view h1 e1 = [k \<mapsto> VUser u]" "live_id api recs h1 e1 = None" "recs e1 = recs e" "ok e1"
      using i1 Inr new_view [OF assms(1), of None] new_live [of None e] by auto
    from save [OF d(4) sv] d show ?thesis
      using assms(2) ins sv Inr by (cases r2) (auto simp: new_session_def saved_def split: option.splits)
  qed
qed

lemma get_user_laws:
  assumes "ok e" "get_user api k h e = (r, h', e')"
  shows "ok e' \<and> recs e' = recs e \<and> (\<forall>x. r = Inr x \<longrightarrow> view h e k = map_option VUser x \<and> view h' e' = view h e
    \<and> live_id api recs h' e' = live_id api recs h e)"
proof -
  obtain got h1 e1 where g: "ss_get api k h e = (got, h1, e1)" by (metis prod_cases3)
  from get [OF assms(1) g] assms(2) g show ?thesis
    by (auto simp: get_user_def split: sum.splits option.splits session_value.splits)
qed

lemma get_text_laws:
  assumes "ok e" "get_text api k h e = (r, h', e')"
  shows "ok e' \<and> recs e' = recs e \<and> (\<forall>x. r = Inr x \<longrightarrow> view h e k = map_option VText x)"
proof -
  obtain got h1 e1 where g: "ss_get api k h e = (got, h1, e1)" by (metis prod_cases3)
  from get [OF assms(1) g] assms(2) g show ?thesis
    by (auto simp: get_text_def split: sum.splits option.splits session_value.splits)
qed

lemma open_user_laws:
  assumes "ok e" "open_user api g token e = (r, e')"
  shows "ok e' \<and> recs e' = recs e \<and> (\<forall>u h. r = Inr (u, h) \<longrightarrow> (\<exists>i d. ss_parse_id api token = Some i \<and> recs e i = Some d
    \<and> d (user_key (sg_policy g)) = Some (VUser u) \<and> view h e' = d \<and> live_id api recs h e' = Some i))"
proof (cases "ss_parse_id api token")
  case None
  with assms show ?thesis by (auto simp: open_user_def parse_id_def)
next
  case (Some i)
  obtain got h1 e1 where g: "get_user api (user_key (sg_policy g)) (ss_new api (Some i)) e = (got, h1, e1)"
    by (metis prod_cases3)
  from get_user_laws [OF assms(1) g] assms(2) g Some show ?thesis
    using new_view [OF assms(1), of "Some i"] new_live [of "Some i" e]
    by (cases "recs e i") (auto simp: open_user_def parse_id_def split: sum.splits option.splits)
qed

lemma session_parse_laws:
  assumes "ok e" "session_parse api g token e = (r, e')"
  shows "ok e' \<and> recs e' = recs e \<and> (\<forall>p. r = Inr p \<longrightarrow> (\<exists>i d u. ss_parse_id api token = Some i \<and> recs e i = Some d
    \<and> d (user_key (sg_policy g)) = Some (VUser u)
    \<and> p = \<lparr>au_id = su_id u, au_email = su_email u, au_guard = sg_name g, au_email_verified_at = su_email_verified_at u,
        au_password_confirmed_at = au_password_confirmed_at p, au_timezone = su_timezone u\<rparr>
    \<and> d (password_confirmed_key (sg_policy g)) = map_option VText (au_password_confirmed_at p)))"
proof -
  obtain r1 e1 where o1: "open_user api g token e = (r1, e1)" by (metis prod.exhaust)
  note l1 = open_user_laws [OF assms(1) o1]
  show ?thesis
  proof (cases r1)
    case (Inl x)
    with assms(2) o1 l1 show ?thesis by (auto simp: session_parse_def)
  next
    case (Inr uh)
    obtain u h where uh: "uh = (u, h)" by (cases uh)
    obtain r2 h2 e2 where t: "get_text api (password_confirmed_key (sg_policy g)) h e1 = (r2, h2, e2)" by (metis prod_cases3)
    have "ok e1" using l1 by blast
    note l2 = get_text_laws [OF this t]
    from l1 Inr uh obtain i d where "ss_parse_id api token = Some i" "recs e i = Some d"
      "d (user_key (sg_policy g)) = Some (VUser u)" "view h e1 = d" by blast
    with l1 l2 assms(2) o1 Inr uh t show ?thesis
      by (auto simp: session_parse_def read_password_confirmed_at_def split: sum.splits)
  qed
qed

lemma session_refresh_laws:
  assumes "ok e" "session_refresh api g token e = (r, e')"
  shows "ok e' \<and> (\<forall>t. r = Inr t \<longrightarrow> (\<exists>i d. ss_parse_id api token = Some i \<and> recs e i = Some d
      \<and> (\<exists>u. d (user_key (sg_policy g)) = Some (VUser u))
      \<and> ((recs e)(i := None)) (tk_access t) = None \<and> recs e' = (recs e)(i := None, tk_access t \<mapsto> d)))
    \<and> (\<forall>j d'. recs e' j = Some d' \<longrightarrow> (\<exists>j0. recs e j0 = Some d'))"
proof -
  obtain r1 e1 where o1: "open_user api g token e = (r1, e1)" by (metis prod.exhaust)
  note l1 = open_user_laws [OF assms(1) o1]
  show ?thesis
  proof (cases r1)
    case (Inl x)
    with assms(2) o1 l1 show ?thesis by (auto simp: session_refresh_def)
  next
    case (Inr uh)
    obtain u h where uh: "uh = (u, h)" by (cases uh)
    with l1 Inr obtain i d where id: "ss_parse_id api token = Some i" "recs e i = Some d"
      "d (user_key (sg_policy g)) = Some (VUser u)" "view h e1 = d" "live_id api recs h e1 = Some i" by blast
    obtain r2 h2 e2 where c: "ss_cycle_id api h e1 = (r2, h2, e2)" by (metis prod_cases3)
    have "ok e1" "recs e1 = recs e" using l1 by auto
    note l2 = cycle [OF this(1) c]
    show ?thesis
    proof (cases r2)
      case (Inl x)
      with assms(2) o1 l2 Inr uh c \<open>recs e1 = recs e\<close> show ?thesis
        by (auto simp: session_refresh_def without_def split: option.splits if_splits)
    next
      case (Inr y)
      obtain r3 h3 e3 where s: "ss_save api h2 e2 = (r3, h3, e3)" by (metis prod_cases3)
      have e2: "ok e2" "recs e2 = (recs e)(i := None)" "view h2 e2 = d" "live_id api recs h2 e2 = None"
        using l2 Inr id \<open>recs e1 = recs e\<close> by (auto simp: without_def live_id_def)
      note l3 = save [OF e2(1) s]
      have old: "\<exists>j0. recs e j0 = Some d'" if "recs e3 j = Some d'" for j d'
        using l3 e2 id(2) that by (auto simp: saved_def split: if_splits)
      from l3 e2 id old assms(2) o1 \<open>r1 = Inr uh\<close> uh c Inr s show ?thesis
        by (cases r3) (auto simp: session_refresh_def saved_def issue_def split: option.splits)
    qed
  qed
qed

lemma session_logout_laws:
  assumes "ok e" "session_logout api token e = (r, e')"
  shows "ok e' \<and> recs e' \<subseteq>\<^sub>m recs e \<and> (r = Inr () \<longrightarrow> (\<exists>i. ss_parse_id api token = Some i \<and> recs e' = (recs e)(i := None)))"
proof (cases "ss_parse_id api token")
  case None
  with assms show ?thesis by (auto simp: session_logout_def parse_id_def)
next
  case (Some i)
  obtain r1 h1 e1 where f: "ss_flush api (ss_new api (Some i)) e = (r1, h1, e1)" by (metis prod_cases3)
  have w: "without (live_id api recs (ss_new api (Some i)) e) (recs e) = (recs e)(i := None)"
    by (auto simp: new_live without_def)
  have "(recs e)(i := None) \<subseteq>\<^sub>m recs e" by (auto simp: map_le_def)
  with flush [OF assms(1) f] w f Some assms(2) show ?thesis
    by (auto simp: session_logout_def parse_id_def split: sum.splits)
qed

lemma confirm_password_laws:
  assumes "ok e" "confirm_password_at api g token now e = (r, e')"
  shows "ok e' \<and> (recs e' = recs e \<or> (\<exists>i d. ss_parse_id api token = Some i \<and> recs e i = Some d
        \<and> (\<exists>u. d (user_key (sg_policy g)) = Some (VUser u))
        \<and> recs e' = (recs e)(i \<mapsto> d(password_confirmed_key (sg_policy g) \<mapsto> VText (show_int now)))))
    \<and> (r = Inr () \<longrightarrow> (\<exists>i d. ss_parse_id api token = Some i \<and> recs e i = Some d
        \<and> (\<exists>u. d (user_key (sg_policy g)) = Some (VUser u))
        \<and> recs e' = (recs e)(i \<mapsto> d(password_confirmed_key (sg_policy g) \<mapsto> VText (show_int now)))))"
proof -
  let ?k = "password_confirmed_key (sg_policy g)"
  obtain r1 e1 where o1: "open_user api g token e = (r1, e1)" by (metis prod.exhaust)
  note l1 = open_user_laws [OF assms(1) o1]
  show ?thesis
  proof (cases r1)
    case (Inl x)
    with assms(2) o1 l1 show ?thesis by (auto simp: confirm_password_at_def)
  next
    case (Inr uh)
    obtain u h where uh: "uh = (u, h)" by (cases uh)
    with l1 Inr obtain i d where id: "ss_parse_id api token = Some i" "recs e i = Some d"
      "d (user_key (sg_policy g)) = Some (VUser u)" "view h e1 = d" "live_id api recs h e1 = Some i" by blast
    obtain r2 h2 e2 where c: "ss_insert api ?k (VText (show_int now)) h e1 = (r2, h2, e2)" by (metis prod_cases3)
    have e1: "ok e1" "recs e1 = recs e" using l1 by auto
    note l2 = insert [OF e1(1) c]
    show ?thesis
    proof (cases r2)
      case (Inl x)
      with assms(2) o1 l2 Inr uh c e1 show ?thesis by (auto simp: confirm_password_at_def)
    next
      case (Inr y)
      obtain r3 h3 e3 where s: "ss_save api h2 e2 = (r3, h3, e3)" by (metis prod_cases3)
      have e2: "ok e2" "recs e2 = recs e" "view h2 e2 = d(?k \<mapsto> VText (show_int now))" "live_id api recs h2 e2 = Some i"
        using l2 Inr id e1 by auto
      from save [OF e2(1) s] e2 id assms(2) o1 \<open>r1 = Inr uh\<close> uh c Inr s show ?thesis
        by (cases r3) (auto simp: confirm_password_at_def saved_def)
    qed
  qed
qed

end

section \<open>A store in memory\<close>

text \<open>Sessions over a table in memory, loaded when first used, with the first free number as a new id.\<close>

record mem_handle =
  mh_id :: "string option"
  mh_data :: "session_data option"

type_synonym mem_store = "(string, session_data) hashmap"

definition mh_load :: "mem_handle \<Rightarrow> mem_store \<Rightarrow> mem_handle" where
  "mh_load h e =
     (if mh_data h \<noteq> None then h
      else
        (case mh_id h of
           None \<Rightarrow> h\<lparr>mh_data := Some Map.empty\<rparr>
         | Some i \<Rightarrow>
             (case hm_get e i of
                None \<Rightarrow> h\<lparr>mh_id := None, mh_data := Some Map.empty\<rparr>
              | Some d \<Rightarrow> h\<lparr>mh_data := Some d\<rparr>)))"

definition mh_view :: "mem_handle \<Rightarrow> mem_store \<Rightarrow> session_data" where
  "mh_view h e = (case mh_data (mh_load h e) of None \<Rightarrow> Map.empty | Some d \<Rightarrow> d)"

definition free_id :: "mem_store \<Rightarrow> string" where
  "free_id e = hd (filter (\<lambda>i. hm_get e i = None) (map show_nat [0..<Suc (length e)]))"

definition mh_drop :: "mem_handle \<Rightarrow> mem_store \<Rightarrow> mem_store" where
  "mh_drop h e = (case mh_id (mh_load h e) of None \<Rightarrow> e | Some i \<Rightarrow> hm_remove i e)"

definition mh_target :: "mem_handle \<Rightarrow> mem_store \<Rightarrow> string" where
  "mh_target h e = (case mh_id (mh_load h e) of None \<Rightarrow> free_id e | Some i \<Rightarrow> i)"

definition memory_session :: "(mem_handle, mem_store) session_api" where
  "memory_session =
     \<lparr>ss_parse_id = Some,
      ss_new = (\<lambda>i. \<lparr>mh_id = i, mh_data = None\<rparr>),
      ss_get = (\<lambda>k h e. (Inr (mh_view h e k), mh_load h e, e)),
      ss_insert = (\<lambda>k v h e. (Inr (), (mh_load h e)\<lparr>mh_data := Some ((mh_view h e)(k \<mapsto> v))\<rparr>, e)),
      ss_remove = (\<lambda>k h e. (Inr (), (mh_load h e)\<lparr>mh_data := Some ((mh_view h e)(k := None))\<rparr>, e)),
      ss_cycle_id = (\<lambda>h e. (Inr (), \<lparr>mh_id = None, mh_data = Some (mh_view h e)\<rparr>, mh_drop h e)),
      ss_flush = (\<lambda>h e. (Inr (), \<lparr>mh_id = None, mh_data = Some Map.empty\<rparr>, mh_drop h e)),
      ss_save = (\<lambda>h e. (Inr (), (mh_load h e)\<lparr>mh_id := Some (mh_target h e)\<rparr>, hm_insert (mh_target h e) (mh_view h e) e)),
      ss_id = mh_id\<rparr>"

lemma free_id_fresh: "hm_get e (free_id e) = None"
proof -
  let ?ids = "map show_nat [0..<Suc (length e)]"
  have "\<not> set ?ids \<subseteq> fst ` set e"
  proof
    assume "set ?ids \<subseteq> fst ` set e"
    then have "card (set ?ids) \<le> card (fst ` set e)" by (rule card_mono [rotated]) simp
    also have "\<dots> \<le> length e" by (metis card_image_le card_length finite_set le_trans)
    finally have "card (set ?ids) \<le> length e" .
    moreover have "inj show_nat" by (metis digits_val_show_nat injI)
    then have "distinct ?ids" by (simp only: distinct_map distinct_upt inj_on_subset [OF _ subset_UNIV])
    then have "card (set ?ids) = Suc (length e)" by (simp only: distinct_card length_map length_upt)
    ultimately show False by simp
  qed
  then have "filter (\<lambda>i. hm_get e i = None) ?ids \<noteq> []"
    by (auto simp: filter_empty_conv hm_get_def map_of_eq_None_iff)
  from hd_in_set [OF this] show ?thesis
    unfolding free_id_def by (simp only: set_filter mem_Collect_eq)
qed

lemma mh_load_simps [simp]:
  "mh_data (mh_load h e) = Some (mh_view h e)"
  "mh_load (mh_load h e) e = mh_load h e"
  "mh_data h = Some d \<Longrightarrow> mh_view h e = d"
  "mh_data h = Some d \<Longrightarrow> mh_load h e = h"
  by (auto simp: mh_load_def mh_view_def split: option.splits)

lemma mh_load_id: "(case mh_id (mh_load h e) of None \<Rightarrow> None | Some i \<Rightarrow> if hm_get e i = None then None else Some i)
    = (case mh_id h of None \<Rightarrow> None | Some i \<Rightarrow> if hm_get e i = None then None else Some i)"
  by (auto simp: mh_load_def split: option.splits)

interpretation memory_sessions: session_laws memory_session hm_get mh_view "\<lambda>_. True"
proof (unfold_locales, goal_cases)
  case (2 e i)
  show ?case by (auto simp: memory_session_def mh_view_def mh_load_def split: option.splits)
next
  case (6 e h r h' e')
  then have r: "h' = (mh_load h e)\<lparr>mh_id := Some (mh_target h e)\<rparr>" "e' = hm_insert (mh_target h e) (mh_view h e) e"
    by (auto simp: memory_session_def)
  have get: "hm_get e' = (hm_get e)(mh_target h e \<mapsto> mh_view h e)" by (auto simp: r)
  have "saved (live_id memory_session hm_get h e) (mh_view h e) (hm_get e) (mh_target h e) (hm_get e')"
    using free_id_fresh [of e] mh_load_id [of e h]
    by (auto simp: saved_def get mh_target_def live_id_def memory_session_def split: option.splits if_splits)
  then show ?case by (auto simp: r memory_session_def)
next
  case (7 e h r h' e')
  have "hm_get (mh_drop h e) = without (live_id memory_session hm_get h e) (hm_get e)"
    using mh_load_id [of e h]
    by (auto simp: mh_drop_def without_def live_id_def memory_session_def fun_eq_iff split: option.splits if_splits)
  with 7 show ?case by (auto simp: memory_session_def)
next
  case (8 e h r h' e')
  have "hm_get (mh_drop h e) = without (live_id memory_session hm_get h e) (hm_get e)"
    using mh_load_id [of e h]
    by (auto simp: mh_drop_def without_def live_id_def memory_session_def fun_eq_iff split: option.splits if_splits)
  with 8 show ?case by (auto simp: memory_session_def)
qed (auto simp: memory_session_def live_id_def mh_load_id)

section \<open>The life of a session\<close>

lemma login_with_provider_laws:
  assumes "session_laws api recs view ok" "ok e" "login_with_provider api g P creds (s, e) = (res, s', e')"
  shows "ok e' \<and> (recs e' = recs e \<or> (\<exists>r i. fst (up_find_by_email P (cr_email creds) s) = Inr (Some r)
      \<and> sg_verify g (ur_password_hash r) (cr_password creds) \<and> recs e i = None
      \<and> recs e' = (recs e)(i \<mapsto> [user_key (sg_policy g) \<mapsto> VUser (session_user_of r)])))
    \<and> s' = snd (up_find_by_email P (cr_email creds) s)
    \<and> (\<forall>t. res = Inr t \<longrightarrow> (\<exists>r. fst (up_find_by_email P (cr_email creds) s) = Inr (Some r)
      \<and> sg_verify g (ur_password_hash r) (cr_password creds) \<and> recs e (tk_access t) = None
      \<and> recs e' = (recs e)(tk_access t \<mapsto> [user_key (sg_policy g) \<mapsto> VUser (session_user_of r)])))"
proof -
  obtain found s1 where f: "up_find_by_email P (cr_email creds) s = (found, s1)" by (metis prod.exhaust)
  show ?thesis
  proof (cases "\<exists>r. found = Inr (Some r) \<and> sg_verify g (ur_password_hash r) (cr_password creds)")
    case False
    with assms(2,3) f show ?thesis
      by (auto simp: login_with_provider_def split: sum.splits option.splits if_splits)
  next
    case True
    then obtain r where r: "found = Inr (Some r)" "sg_verify g (ur_password_hash r) (cr_password creds)" by blast
    obtain r1 e1 where n: "new_session api (user_key (sg_policy g)) (session_user_of r) e = (r1, e1)" by (metis prod.exhaust)
    from session_laws.new_session_laws [OF assms(1,2) n] assms(3) f r n show ?thesis
      by (auto simp: login_with_provider_def persist_token_def persist_def issue_def split: sum.splits)
  qed
qed


definition demo_guard :: session_guard where
  "demo_guard = with_store (\<lambda>hash pw. hash = ''#'' @ pw) session_policy_default"

definition ada :: AuthUserRecord where
  "ada = \<lparr>ur_id = ''7'', ur_email = ''ada@example.com'', ur_password_hash = ''#secret'', ur_email_verified_at = None, ur_timezone = None\<rparr>"

definition demo_users :: MemoryUserProvider where
  "demo_users = mu_seed ada \<lparr>mu_by_email = [], mu_names = [], mu_poisoned = False, mu_drawn = 0\<rparr>"

lemma free_id_Nil: "free_id [] = ''0''"
  by code_simp

lemma demo_session_login:
  "login_with_provider memory_session demo_guard (memory_provider show_nat)
     \<lparr>cr_email = ''ada@example.com'', cr_password = ''secret''\<rparr> (demo_users, [])
   = (Inr (issue demo_guard ''0''), demo_users, [(''0'', [''rustasea-session-user'' \<mapsto> VUser (session_user_of ada)])])"
  by (simp add: login_with_provider_def memory_provider_def demo_users_def mu_seed_def ada_def demo_guard_def with_store_def
      persist_token_def persist_def new_session_def memory_session_def mh_view_def mh_load_def mh_target_def free_id_Nil
      hm_insert_def hm_get_def user_key_def session_policy_default_def)


end
