(* ===== verification/App_Sessions.thy ===== *)
theory App_Sessions
  imports App_Account Session_Props
begin

text \<open>
  Where a signed-in session comes from. A history is a sequence of calls of the handlers of \<open>App_Auth\<close> and
  \<open>App_Account\<close>, between which sessions may expire and other processes may change the users. Every session that
  holds a user is traced back to the calls that justify it: the password, the password and a second factor, a
  registration, or a passkey.
\<close>

section \<open>Histories\<close>

datatype app_call =
    LoginSubmit | LogoutCall | RegisterSubmit | ConfirmSubmit | ChallengeSubmit
  | FactorEnable | FactorConfirm | FactorDisable | CodesShow | CodesRegenerate
  | ProfileUpdate | PasswordUpdate | VerifyResend | VerifyConfirm string string
  | ForgotSubmit | ResetPage string | ResetSubmit
  | PasskeysWellKnown | PasskeysList | PasskeysManage | PasskeysDelete string | PasskeysLogin

fun serve :: "('h, 'e, 'u) app_env \<Rightarrow> app_call \<Rightarrow> inputs \<Rightarrow> http \<Rightarrow> ('e, 'u) world \<Rightarrow> ('e, 'u) world" where
  "serve env LoginSubmit inp q w = snd (login_submit env inp q w)"
| "serve env LogoutCall inp q w = snd (logout env inp q w)"
| "serve env RegisterSubmit inp q w = snd (register_submit env inp q w)"
| "serve env ConfirmSubmit inp q w = snd (confirm_submit env inp q w)"
| "serve env ChallengeSubmit inp q w = snd (challenge_submit env inp q w)"
| "serve env FactorEnable inp q w = snd (two_factor_enable env inp q w)"
| "serve env FactorConfirm inp q w = snd (two_factor_confirm env inp q w)"
| "serve env FactorDisable inp q w = snd (two_factor_disable env inp q w)"
| "serve env CodesShow inp q w = snd (recovery_codes_show env inp q w)"
| "serve env CodesRegenerate inp q w = snd (recovery_codes_regenerate env inp q w)"
| "serve env ProfileUpdate inp q w = snd (profile_update env inp q w)"
| "serve env PasswordUpdate inp q w = snd (password_update env inp q w)"
| "serve env VerifyResend inp q w = snd (verify_email_resend env inp q w)"
| "serve env (VerifyConfirm uid hash) inp q w = snd (verify_email_confirm uid hash env inp q w)"
| "serve env ForgotSubmit inp q w = snd (forgot_password_submit env inp q w)"
| "serve env (ResetPage token) inp q w = snd (reset_password_page token env inp q w)"
| "serve env ResetSubmit inp q w = snd (reset_password_submit env inp q w)"
| "serve env PasskeysWellKnown inp q w = snd (passkeys_well_known env inp q w)"
| "serve env PasskeysList inp q w = snd (passkeys_list env inp q w)"
| "serve env PasskeysManage inp q w = snd (passkeys_manage env inp q w)"
| "serve env (PasskeysDelete cid) inp q w = snd (passkeys_delete cid env inp q w)"
| "serve env PasskeysLogin inp q w = snd (passkeys_login env inp q w)"

section \<open>Handlers that leave the sessions alone\<close>

named_theorems quiet

lemma quiet_factor [quiet]:
  "w_sessions (snd (two_factor_enable env inp q w)) = w_sessions w"
  "w_sessions (snd (two_factor_confirm env inp q w)) = w_sessions w"
  "w_sessions (snd (two_factor_disable env inp q w)) = w_sessions w"
  "w_sessions (snd (recovery_codes_show env inp q w)) = w_sessions w"
  "w_sessions (snd (recovery_codes_regenerate env inp q w)) = w_sessions w"
  by (simp_all add: two_factor_enable_def two_factor_confirm_def two_factor_disable_def recovery_codes_show_def
      recovery_codes_regenerate_def Let_def split: option.split sum.split prod.split AuthError.split)

lemma quiet_profile [quiet]: "w_sessions (snd (profile_update env inp q w)) = w_sessions w"
  by (simp add: profile_update_def Let_def split: option.split sum.split prod.split AuthError.split)

lemma quiet_password [quiet]: "w_sessions (snd (password_update env inp q w)) = w_sessions w"
  by (simp add: password_update_def Let_def split: option.split sum.split prod.split)

lemma quiet_resend [quiet]: "w_sessions (snd (verify_email_resend env inp q w)) = w_sessions w"
  by (simp add: verify_email_resend_def Let_def split: option.split sum.split prod.split ThrottleDecision.split)

lemma quiet_verify [quiet]: "w_sessions (snd (verify_email_confirm uid hash env inp q w)) = w_sessions w"
  by (simp add: verify_email_confirm_def Let_def split: option.split sum.split prod.split SignedUrlError.split)

lemma quiet_forgot [quiet]: "w_sessions (snd (forgot_password_submit env inp q w)) = w_sessions w"
  by (simp add: forgot_password_submit_def Let_def split: option.split sum.split prod.split ThrottleDecision.split)

lemma quiet_reset [quiet]:
  "w_sessions (snd (reset_password_page token env inp q w)) = w_sessions w"
  "w_sessions (snd (reset_password_submit env inp q w)) = w_sessions w"
  by (simp_all add: reset_password_page_def reset_password_submit_def Let_def
      split: option.split sum.split prod.split SignedUrlError.split)

lemma quiet_passkeys [quiet]:
  "w_sessions (snd (passkeys_well_known env inp q w)) = w_sessions w"
  "w_sessions (snd (passkeys_list env inp q w)) = w_sessions w"
  "w_sessions (snd (passkeys_manage env inp q w)) = w_sessions w"
  "w_sessions (snd (passkeys_delete cid env inp q w)) = w_sessions w"
  by (simp_all add: passkeys_well_known_def passkeys_list_def passkeys_manage_def passkeys_delete_def passkeys_guarded_def Let_def
      split: option.split sum.split prod.split)

section \<open>Who holds a session\<close>

text \<open>A stored session holds a user under a key.\<close>

definition held :: "session_table \<Rightarrow> string \<Rightarrow> SessionUser \<Rightarrow> bool" where
  "held t k su \<longleftrightarrow> (\<exists>i d. t i = Some d \<and> d k = Some (VUser su))"

lemma held_le: "t' \<subseteq>\<^sub>m t \<Longrightarrow> held t' k su \<Longrightarrow> held t k su"
  unfolding held_def map_le_def by (metis domI)

lemma held_upd: "held (t(i \<mapsto> d)) k su \<Longrightarrow> held t k su \<or> d k = Some (VUser su)"
  by (auto simp: held_def split: if_splits)

lemma held_without: "held (without i t) k su \<Longrightarrow> held t k su"
  by (auto simp: held_def without_def split: option.splits if_splits)

lemma held_saved: "saved live d t i t' \<Longrightarrow> held t' k su \<Longrightarrow> held t k su \<or> d k = Some (VUser su)"
  by (auto simp: saved_def dest: held_upd)

text \<open>A step of the session store gives no session a new user, but for the users of \<open>N\<close>.\<close>

definition admits :: "(string \<Rightarrow> SessionUser \<Rightarrow> bool) \<Rightarrow> session_table \<Rightarrow> session_table \<Rightarrow> bool" where
  "admits N t t' \<longleftrightarrow> (\<forall>k su. held t' k su \<longrightarrow> held t k su \<or> N k su)"

lemma admitsI: "(\<And>k su. held t' k su \<Longrightarrow> \<not> held t k su \<Longrightarrow> N k su) \<Longrightarrow> admits N t t'"
  by (auto simp: admits_def)

lemma admits_refl [simp, intro]: "admits N t t"
  by (simp add: admits_def)

lemma admits_le: "t' \<subseteq>\<^sub>m t \<Longrightarrow> admits N t t'"
  by (auto simp: admits_def dest: held_le)

lemma admits_trans: "admits N t t' \<Longrightarrow> admits N t' t'' \<Longrightarrow> admits N t t''"
  by (auto simp: admits_def)

lemma admits_mono: "admits N t t' \<Longrightarrow> (\<And>k su. N k su \<Longrightarrow> M k su) \<Longrightarrow> admits M t t'"
  by (auto simp: admits_def)

lemma admits_upd: "(\<And>k su. d k = Some (VUser su) \<Longrightarrow> held t k su \<or> N k su) \<Longrightarrow> admits N t (t(i \<mapsto> d))"
  unfolding admits_def by (metis held_upd)

lemma admits_without: "admits N t (without i t)"
  unfolding admits_def by (metis held_without)

lemma admits_saved:
  assumes "saved live d t i t'" "\<And>k su. d k = Some (VUser su) \<Longrightarrow> held t0 k su \<or> N k su" "admits N t0 t"
  shows "admits N t0 t'"
  using assms held_saved [OF assms(1)] unfolding admits_def by blast

context session_laws begin

lemma new_session_admits:
  assumes "ok e" "new_session api k u e = (r, e')"
  shows "ok e' \<and> admits (\<lambda>k' su. k' = k \<and> su = u) (recs e) (recs e')"
proof -
  have "admits (\<lambda>k' su. k' = k \<and> su = u) (recs e) ((recs e)(i \<mapsto> [k \<mapsto> VUser u]))" for i
    by (rule admits_upd) (simp split: if_splits)
  with new_session_laws [OF assms] show ?thesis by auto
qed

lemma session_parse_admits:
  assumes "ok e" "session_parse api g token e = (r, e')"
  shows "ok e' \<and> recs e' = recs e"
  using session_parse_laws [OF assms] by blast

lemma session_logout_admits:
  assumes "ok e" "session_logout api token e = (r, e')"
  shows "ok e' \<and> admits N (recs e) (recs e')"
  using session_logout_laws [OF assms] by (auto intro: admits_le)

lemma confirm_password_admits:
  assumes "ok e" "confirm_password_at api g token now e = (r, e')"
  shows "ok e' \<and> admits N (recs e) (recs e')"
proof -
  have "admits N (recs e) ((recs e)(i \<mapsto> d(k \<mapsto> VText x)))" if "recs e i = Some d" for i d k x
    using that by (intro admits_upd) (auto simp: held_def split: if_splits)
  moreover note confirm_password_laws [OF assms, THEN conjunct1]
    confirm_password_laws [OF assms, THEN conjunct2, THEN conjunct1]
  ultimately show ?thesis by (metis admits_refl)
qed

text \<open>A handle whose data is written back under its id or under a new one.\<close>

definition holds :: "'h \<Rightarrow> 'e \<Rightarrow> session_table \<Rightarrow> (string \<Rightarrow> SessionUser \<Rightarrow> bool) \<Rightarrow> bool" where
  "holds h e t N \<longleftrightarrow> (\<forall>k su. view h e k = Some (VUser su) \<longrightarrow> held t k su \<or> N k su)"

lemma new_holds: "ok e \<Longrightarrow> holds (ss_new api i) e (recs e) N"
  by (auto simp: holds_def new_view held_def split: option.splits)

lemma insert_holds:
  assumes "ok e" "ss_insert api k (VUser u) h e = (Inr x, h', e')" "holds h e t N"
  shows "ok e' \<and> recs e' = recs e \<and> holds h' e' t (\<lambda>k' su. N k' su \<or> k' = k \<and> su = u)"
  using insert [OF assms(1,2)] assms(3) by (auto simp: holds_def)

lemma remove_holds:
  assumes "ok e" "ss_remove api k h e = (Inr x, h', e')" "holds h e t N"
  shows "ok e' \<and> recs e' = recs e \<and> holds h' e' t N"
  using remove [OF assms(1,2)] assms(3) by (auto simp: holds_def)

lemma cycle_save_admits:
  assumes "ok e" "holds h e t N" "admits N t (recs e)" "ss_cycle_id api h e = (r, h1, e1)"
  shows "ok e1 \<and> admits N t (recs e1)
    \<and> (r = Inr () \<longrightarrow> ss_save api h1 e1 = (r2, h2, e2) \<longrightarrow> ok e2 \<and> admits N t (recs e2))"
proof -
  note c = cycle [OF assms(1,4)]
  have 1: "admits N t (recs e1)"
    using c assms(3) admits_trans [OF assms(3) admits_without] by metis
  have "ok e2 \<and> admits N t (recs e2)" if "r = Inr ()" "ss_save api h1 e1 = (r2, h2, e2)"
  proof -
    have "view h1 e1 = view h e" "ok e1" using c that(1) by auto
    with save [OF _ that(2)] 1 assms(2) show ?thesis
      unfolding holds_def by (metis admits_saved)
  qed
  with c 1 show ?thesis by blast
qed

end

section \<open>What justifies a session\<close>

type_synonym ('e, 'u) visit = "app_call \<times> inputs \<times> http \<times> ('e, 'u) world"

definition login_name :: "('h, 'e, 'u) app_env \<Rightarrow> http \<Rightarrow> string" where
  "login_name env q = normalized env (unwrap_or_default (field (parse_form (ht_body q)) (fc_username (ae_fortify env))))"

definition form_password :: "http \<Rightarrow> string" where
  "form_password q = unwrap_or_default (field (parse_form (ht_body q)) ''password'')"

text \<open>A login with the right password, on an account without and with a confirmed second factor.\<close>

definition password_only :: "('h, 'e, 'u) app_env \<Rightarrow> session_guard \<Rightarrow> ('e, 'u) visit \<Rightarrow> SessionUser \<Rightarrow> bool" where
  "password_only env g v su \<longleftrightarrow>
     (case v of (c, inp, q, w) \<Rightarrow> c = LoginSubmit \<and>
       (\<exists>r. fst (up_find_by_email (ae_provider env) (login_name env q) (w_users w)) = Inr (Some r)
          \<and> sg_verify g (ur_password_hash r) (form_password q)
          \<and> is_confirmed (ae_tf_ops env) (ur_id r) (w_factors w) = Inr False \<and> su = session_user_of r))"

definition password_first :: "('h, 'e, 'u) app_env \<Rightarrow> ('e, 'u) visit \<Rightarrow> SessionUser \<Rightarrow> bool" where
  "password_first env v su \<longleftrightarrow>
     (case v of (c, inp, q, w) \<Rightarrow> c = LoginSubmit \<and>
       (\<exists>r. fst (up_find_by_email (ae_provider env) (login_name env q) (w_users w)) = Inr (Some r)
          \<and> ae_verify env (ur_password_hash r) (form_password q)
          \<and> is_confirmed (ae_tf_ops env) (ur_id r) (w_factors w) = Inr True \<and> su = session_user_of r))"

text \<open>A challenge answered with a code of the time, or with a recovery code.\<close>

definition code_accepted :: "('h, 'e, 'u) app_env \<Rightarrow> ('e, 'u) visit \<Rightarrow> SessionUser \<Rightarrow> bool" where
  "code_accepted env v su \<longleftrightarrow>
     (case v of (c, inp, q, w) \<Rightarrow> c = ChallengeSubmit \<and>
       (\<exists>svc. two_factor_service env = Some svc \<and>
         (let code = trim (unwrap_or_default (field (parse_form (ht_body q)) ''code''));
              recovery = trim (unwrap_or_default (field (parse_form (ht_body q)) ''recovery_code''))
          in if recovery = []
             then verify_challenge (ae_tf_env env) svc (ae_tf_ops env) (in_now inp) (su_id su) code (w_factors w) = Inr ()
             else fst (consume_recovery_code (ae_tf_env env) (ae_tf_ops env) (su_id su) recovery (w_factors w)) = Inr ())))"

text \<open>A registration that created the account and then signed in to it.\<close>

definition registered :: "('h, 'e, 'u) app_env \<Rightarrow> session_guard \<Rightarrow> ('e, 'u) visit \<Rightarrow> SessionUser \<Rightarrow> bool" where
  "registered env g v su \<longleftrightarrow>
     (case v of (c, inp, q, w) \<Rightarrow> c = RegisterSubmit \<and> fc_registration (ae_fortify env) \<and>
       (let form = parse_form (ht_body q); email = normalized env (unwrap_or_default (field form ''email''))
        in \<exists>hash r0 u2 r. ae_hash env (in_salt inp) (form_password q) = Inr hash
          \<and> up_create (ae_provider env) (new_user_record (unwrap_or_default (field form ''name'')) email hash)
              (snd (up_find_by_email (ae_provider env) email (w_users w))) = (Inr r0, u2)
          \<and> fst (up_find_by_email (ae_provider env) email u2) = Inr (Some r)
          \<and> sg_verify g (ur_password_hash r) (form_password q) \<and> su = session_user_of r))"

text \<open>A passkey login whose assertion was accepted for a credential of the user.\<close>

definition passkey_accepted :: "('h, 'e, 'u) app_env \<Rightarrow> ('e, 'u) visit \<Rightarrow> SessionUser \<Rightarrow> bool" where
  "passkey_accepted env v su \<longleftrightarrow>
     (case v of (c, inp, q, w) \<Rightarrow> c = PasskeysLogin \<and>
       (\<exists>svc payload a sid cred r. ae_pk_service env = Some svc \<and> ae_json env (ht_body q) = Some payload
          \<and> ae_assertion env payload = Some a \<and> session_id env q = Some sid
          \<and> fst (finish_authentication (ae_pk_env env) svc (ae_pk_store env) (ae_pk_challenges env) (login_key sid) a
              (w_passkeys w, w_challenges w)) = Inr cred
          \<and> fst (up_find_by_id (ae_provider env) (pc_user_id cred) (w_users w)) = Inr (Some r) \<and> su = session_user_of r))"

text \<open>A provider that answers a repeated read the same way.\<close>

definition repeatable :: "'u user_provider \<Rightarrow> bool" where
  "repeatable P \<longleftrightarrow> (\<forall>m u. fst (up_find_by_email P m (snd (up_find_by_email P m u))) = fst (up_find_by_email P m u))"

section \<open>What each handler does to the sessions\<close>

lemma emit_sessions [simp]: "w_sessions (emit ev w) = w_sessions w"
  by (simp add: emit_def)

lemma audit_sessions [simp]:
  "w_sessions (audit_login_failed m n ip q w) = w_sessions w"
  "w_sessions (audit_lockout m n ip q w) = w_sessions w"
  by (simp_all add: audit_login_failed_def audit_lockout_def)

lemma login_with_provider_admits:
  assumes "session_laws api recs view ok" "ok e" "login_with_provider api g P creds (s, e) = (res, s', e')"
  shows "ok e' \<and> admits (\<lambda>k su. k = user_key (sg_policy g) \<and> (\<exists>r. fst (up_find_by_email P (cr_email creds) s) = Inr (Some r)
    \<and> sg_verify g (ur_password_hash r) (cr_password creds) \<and> su = session_user_of r)) (recs e) (recs e')"
proof -
  note l = login_with_provider_laws [OF assms]
  then consider "recs e' = recs e" | r i where "fst (up_find_by_email P (cr_email creds) s) = Inr (Some r)"
    "sg_verify g (ur_password_hash r) (cr_password creds)"
    "recs e' = (recs e)(i \<mapsto> [user_key (sg_policy g) \<mapsto> VUser (session_user_of r)])" by blast
  then show ?thesis
  proof cases
    case 2
    from l have "ok e'" by blast
    moreover have "admits (\<lambda>k su. k = user_key (sg_policy g) \<and> (\<exists>r. fst (up_find_by_email P (cr_email creds) s) = Inr (Some r)
        \<and> sg_verify g (ur_password_hash r) (cr_password creds) \<and> su = session_user_of r)) (recs e) (recs e')"
      unfolding 2(3) using 2(1,2) by (intro admits_upd) (simp split: if_splits)
    ultimately show ?thesis by blast
  qed (use l in simp)
qed

context session_laws begin

lemma audit_login_succeeded_sessions:
  assumes "ae_api env = api" "ok (w_sessions w)"
  shows "ok (w_sessions (audit_login_succeeded env g token m ip q w))
    \<and> recs (w_sessions (audit_login_succeeded env g token m ip q w)) = recs (w_sessions w)"
proof -
  obtain r e' where p: "session_parse api g token (w_sessions w) = (r, e')" by (metis prod.exhaust)
  from session_parse_admits [OF assms(2) p] show ?thesis
    by (simp add: audit_login_succeeded_def assms(1) p)
qed

lemma start_challenge_admits:
  assumes "ae_api env = api" "ok (w_sessions w)" "start_challenge env g u w = (r, w')"
  shows "ok (w_sessions w') \<and> admits (\<lambda>k su. k = pending_key g \<and> su = u) (recs (w_sessions w)) (recs (w_sessions w'))"
proof -
  obtain r1 e1 where n: "new_session api (pending_key g) u (w_sessions w) = (r1, e1)" by (metis prod.exhaust)
  from new_session_admits [OF assms(2) n] assms(3) show ?thesis
    by (auto simp: start_challenge_def assms(1) n split: sum.splits)
qed

lemma intercept_login_admits:
  assumes "ae_api env = api" "ok (w_sessions w)" "intercept_login env g name password w = (r, w')"
  shows "ok (w_sessions w')
    \<and> (r = None \<longrightarrow> w_sessions w' = w_sessions w \<and> w_users w' = snd (up_find_by_email (ae_provider env) name (w_users w))
        \<and> (\<forall>x. fst (up_find_by_email (ae_provider env) name (w_users w)) = Inr (Some x)
             \<longrightarrow> is_confirmed (ae_tf_ops env) (ur_id x) (w_factors w) = Inr False))
    \<and> admits (\<lambda>k su. k = pending_key g \<and> (\<exists>x. fst (up_find_by_email (ae_provider env) name (w_users w)) = Inr (Some x)
        \<and> ae_verify env (ur_password_hash x) password \<and> is_confirmed (ae_tf_ops env) (ur_id x) (w_factors w) = Inr True
        \<and> su = session_user_of x)) (recs (w_sessions w)) (recs (w_sessions w'))"
    (is "_ \<and> _ \<and> admits ?N _ _")
proof -
  obtain found u where f: "up_find_by_email (ae_provider env) name (w_users w) = (found, u)" by (metis prod.exhaust)
  let ?w = "w\<lparr>w_users := u\<rparr>"
  show ?thesis
  proof (cases "\<exists>x s. found = Inr (Some x) \<and> tf_get (ae_tf_ops env) (ur_id x) (w_factors w) = Inr (Some s)
      \<and> is_confirmed_record s \<and> ae_verify env (ur_password_hash x) password")
    case False
    with assms(3) f have "w_sessions w' = w_sessions w \<and> (r = None \<longrightarrow> w_users w' = u \<and> (\<forall>x. found = Inr (Some x)
        \<longrightarrow> is_confirmed (ae_tf_ops env) (ur_id x) (w_factors w) = Inr False))"
      by (auto simp: intercept_login_def is_confirmed_def Let_def split: sum.splits option.splits if_splits)
    with assms(2) f show ?thesis by simp
  next
    case True
    then obtain x s where x: "found = Inr (Some x)" "tf_get (ae_tf_ops env) (ur_id x) (w_factors w) = Inr (Some s)"
      "is_confirmed_record s" "ae_verify env (ur_password_hash x) password" by blast
    obtain r1 w1 where c: "start_challenge env g (session_user_of x) ?w = (r1, w1)" by (metis prod.exhaust)
    from start_challenge_admits [OF assms(1) _ c] assms(2)
    have "ok (w_sessions w1)" and ad: "admits (\<lambda>k su. k = pending_key g \<and> su = session_user_of x) (recs (w_sessions w)) (recs (w_sessions w1))"
      by auto
    moreover have "w' = w1 \<and> r \<noteq> None"
      using assms(3) f x c by (auto simp: intercept_login_def Let_def split: sum.splits)
    moreover have "admits ?N (recs (w_sessions w)) (recs (w_sessions w1))"
      using ad by (rule admits_mono) (use x f in \<open>auto simp: is_confirmed_def\<close>)
    ultimately show ?thesis by blast
  qed
qed

end

context session_laws begin

lemma login_submit_admits:
  assumes "ae_api env = api" "ok (w_sessions w)" "ae_guard env = Some g" "repeatable (ae_provider env)"
  shows "ok (w_sessions (snd (login_submit env inp q w)))
    \<and> admits (\<lambda>k su. k = user_key (sg_policy g) \<and> password_only env g (LoginSubmit, inp, q, w) su
        \<or> k = pending_key g \<and> password_first env (LoginSubmit, inp, q, w) su)
      (recs (w_sessions w)) (recs (w_sessions (snd (login_submit env inp q w))))"
    (is "_ \<and> admits ?N _ _")
proof -
  let ?name = "login_name env q" let ?pw = "form_password q"
  let ?raw = "unwrap_or_default (field (parse_form (ht_body q)) (fc_username (ae_fortify env)))"
  obtain d l where t: "reg_check (hit (in_now inp)) (login_registry env) LOGIN
      (empty_input\<lparr>li_username := Some ?name, li_ip := Some (peer_ip env q)\<rparr>) (w_login_limiter w) = (d, l)"
    by (metis prod.exhaust)
  show ?thesis
  proof (cases "(trim ?raw = [] \<or> ?pw = []) \<or> (\<forall>n. d \<noteq> Inr (Allowed n))")
    case True
    then have "w_sessions (snd (login_submit env inp q w)) = w_sessions w"
      using assms(3) t
      by (auto simp: login_submit_def Let_def login_name_def form_password_def split: sum.split ThrottleDecision.split)
    with assms(2) show ?thesis by simp
  next
    case False
    let ?w1 = "w\<lparr>w_login_limiter := l\<rparr>"
    obtain c w2 where i: "intercept_login env g ?name ?pw ?w1 = (c, w2)" by (metis prod.exhaust)
    note il = intercept_login_admits [OF assms(1) _ i, simplified, OF assms(2)]
    have step: "snd (login_submit env inp q w) = (case c of Some _ \<Rightarrow> w2 | None \<Rightarrow>
        (case login_with_provider api g (ae_provider env) \<lparr>cr_email = ?name, cr_password = ?pw\<rparr> (w_users w2, w_sessions w2) of
           (res, u, e) \<Rightarrow>
             (let w3 = w2\<lparr>w_users := u, w_sessions := e\<rparr> in
              case res of
                Inr token \<Rightarrow> audit_login_succeeded env g (tk_access token) ?name (peer_ip env q) q w3
              | Inl BadCredentials \<Rightarrow> audit_login_failed ?name (sg_name g) (peer_ip env q) q w3
              | Inl _ \<Rightarrow> w3)))"
      using False t i assms(1,3)
      by (auto simp: login_submit_def Let_def login_name_def form_password_def split: sum.split option.split prod.split AuthError.split)
    show ?thesis
    proof (cases c)
      case (Some a)
      have "admits ?N (recs (w_sessions w)) (recs (w_sessions w2))"
        using il [THEN conjunct2, THEN conjunct2]
        by (rule admits_mono) (auto simp: password_first_def)
      with il Some show ?thesis by (simp add: step)
    next
      case None
      with il have w2: "w_sessions w2 = w_sessions w" "w_users w2 = snd (up_find_by_email (ae_provider env) ?name (w_users w))"
        "\<And>x. fst (up_find_by_email (ae_provider env) ?name (w_users w)) = Inr (Some x)
             \<Longrightarrow> is_confirmed (ae_tf_ops env) (ur_id x) (w_factors w) = Inr False" by auto
      obtain res u e where lp: "login_with_provider api g (ae_provider env) \<lparr>cr_email = ?name, cr_password = ?pw\<rparr>
          (w_users w2, w_sessions w2) = (res, u, e)" by (metis prod_cases3)
      let ?w3 = "w2\<lparr>w_users := u, w_sessions := e\<rparr>"
      have same: "fst (up_find_by_email (ae_provider env) ?name (w_users w2)) = fst (up_find_by_email (ae_provider env) ?name (w_users w))"
        using assms(4) by (simp add: repeatable_def w2(2))
      note l = login_with_provider_admits [OF session_laws_axioms _ lp, simplified, unfolded w2(1), OF assms(2)]
      have "admits ?N (recs (w_sessions w)) (recs e)"
        using l [THEN conjunct2] by (rule admits_mono) (auto simp: password_only_def same w2(3))
      moreover have "ok (w_sessions (snd (login_submit env inp q w))) \<and> recs (w_sessions (snd (login_submit env inp q w))) = recs e"
        using l audit_login_succeeded_sessions [OF assms(1), of ?w3]
        by (simp add: step None lp Let_def split: sum.split AuthError.split)
      ultimately show ?thesis by simp
    qed
  qed
qed

lemma logout_admits:
  assumes "ae_api env = api" "ok (w_sessions w)"
  shows "ok (w_sessions (snd (logout env inp q w))) \<and> admits N (recs (w_sessions w)) (recs (w_sessions (snd (logout env inp q w))))"
proof (cases "\<exists>g sid. ae_guard env = Some g \<and> session_id env q = Some sid")
  case False
  then have "w_sessions (snd (logout env inp q w)) = w_sessions w"
    by (auto simp: logout_def audit_logout_def Let_def split: option.splits)
  with assms(2) show ?thesis by simp
next
  case True
  then obtain g sid where g: "ae_guard env = Some g" "session_id env q = Some sid" by blast
  obtain r e1 where p: "session_parse api g sid (w_sessions w) = (r, e1)" by (metis prod.exhaust)
  obtain r2 e2 where lo: "session_logout api sid e1 = (r2, e2)" by (metis prod.exhaust)
  note l1 = session_parse_admits [OF assms(2) p]
  from session_logout_admits [OF _ lo, of N] l1 show ?thesis
    by (simp add: logout_def audit_logout_def Let_def g assms(1) p lo)
qed

lemma register_submit_admits:
  assumes "ae_api env = api" "ok (w_sessions w)" "ae_guard env = Some g"
  shows "ok (w_sessions (snd (register_submit env inp q w)))
    \<and> admits (\<lambda>k su. k = user_key (sg_policy g) \<and> registered env g (RegisterSubmit, inp, q, w) su)
      (recs (w_sessions w)) (recs (w_sessions (snd (register_submit env inp q w))))"
    (is "_ \<and> admits ?N _ _")
proof -
  let ?form = "parse_form (ht_body q)" let ?pw = "form_password q"
  let ?email = "normalized env (unwrap_or_default (field ?form ''email''))"
  let ?name = "unwrap_or_default (field ?form ''name'')"
  obtain probe u1 where f: "up_find_by_email (ae_provider env) ?email (w_users w) = (probe, u1)" by (metis prod.exhaust)
  show ?thesis
  proof (cases "\<exists>hash r0 u2. fc_registration (ae_fortify env) \<and> ae_hash env (in_salt inp) ?pw = Inr hash
      \<and> up_create (ae_provider env) (new_user_record ?name ?email hash) u1 = (Inr r0, u2)
      \<and> w_sessions (snd (register_submit env inp q w)) \<noteq> w_sessions w")
    case True
    then obtain hash r0 u2 where c: "fc_registration (ae_fortify env)" "ae_hash env (in_salt inp) ?pw = Inr hash"
      "up_create (ae_provider env) (new_user_record ?name ?email hash) u1 = (Inr r0, u2)"
      "w_sessions (snd (register_submit env inp q w)) \<noteq> w_sessions w" by blast
    obtain res u3 e3 where lp: "login_with_provider api g (ae_provider env) \<lparr>cr_email = ?email, cr_password = ?pw\<rparr>
        (u2, w_sessions w) = (res, u3, e3)" by (metis prod_cases3)
    have e: "w_sessions (snd (register_submit env inp q w)) = e3"
      using c f lp assms(1,3) by (auto simp: register_submit_def Let_def form_password_def split del: if_split split: sum.splits)
    note l = login_with_provider_admits [OF session_laws_axioms assms(2) lp, simplified]
    have "admits ?N (recs (w_sessions w)) (recs e3)"
      using l [THEN conjunct2] by (rule admits_mono) (use c f in \<open>auto simp: registered_def Let_def\<close>)
    with l show ?thesis by (simp add: e)
  next
    case False
    then have "w_sessions (snd (register_submit env inp q w)) = w_sessions w"
      using f assms(3) by (cases "fc_registration (ae_fortify env)") (auto simp: register_submit_def Let_def form_password_def split del: if_split split: sum.split prod.split AuthError.split)
    with assms(2) show ?thesis by simp
  qed
qed

lemma confirm_submit_admits:
  assumes "ae_api env = api" "ok (w_sessions w)"
  shows "ok (w_sessions (snd (confirm_submit env inp q w)))
    \<and> admits N (recs (w_sessions w)) (recs (w_sessions (snd (confirm_submit env inp q w))))"
proof (cases "w_sessions (snd (confirm_submit env inp q w)) = w_sessions w")
  case False
  then have "\<exists>g sid r. confirm_password_at api g sid (int (in_now inp)) (w_sessions w) = (r, w_sessions (snd (confirm_submit env inp q w)))"
    by (auto simp: confirm_submit_def Let_def assms(1) split: option.splits sum.splits prod.splits if_splits)
  then obtain g sid r where c: "confirm_password_at api g sid (int (in_now inp)) (w_sessions w)
      = (r, w_sessions (snd (confirm_submit env inp q w)))" by blast
  from confirm_password_admits [OF assms(2) c] show ?thesis .
qed (use assms in simp)

end

end
