(* ===== verification/Passkeys_Props.thy ===== *)
theory Passkeys_Props
  imports Passkeys
begin

text \<open>
  Passkey ceremonies: authenticator data is read back as it is laid out, an assertion is accepted exactly under the
  conditions of the ceremony, and over every sequence of service calls no assertion is accepted twice.
\<close>

section \<open>Authenticator data\<close>

unbundle bit_operations_syntax

definition be16 :: "nat \<Rightarrow> bytes" where
  "be16 n = [char_of (n div 256), char_of (n mod 256)]"

definition be32 :: "nat \<Rightarrow> bytes" where
  "be32 n = [char_of (n div 256 ^ 3), char_of (n div 256 ^ 2 mod 256), char_of (n div 256 mod 256), char_of (n mod 256)]"

lemma be16_val:
  assumes "n < 2 ^ 16"
  shows "(of_char (be16 n ! 0) :: nat) * 256 + of_char (be16 n ! 1) = n"
  using assms by (simp add: be16_def)

lemma be32_val:
  assumes "n < 2 ^ 32"
  shows "(((of_char (be32 n ! 0) :: nat) * 256 + of_char (be32 n ! 1)) * 256 + of_char (be32 n ! 2)) * 256 + of_char (be32 n ! 3) = n"
proof -
  have "n div 256 ^ 3 < 256" using assms by (simp add: less_mult_imp_div_less)
  moreover have "n div 256 ^ 2 = n div 256 ^ 3 * 256 + n div 256 ^ 2 mod 256"
    using div_mult_mod_eq [of "n div 256 ^ 2" 256] by (simp add: div_mult2_eq [symmetric])
  moreover have "n div 256 = n div 256 ^ 2 * 256 + n div 256 mod 256"
    using div_mult_mod_eq [of "n div 256" 256] by (simp add: div_mult2_eq [symmetric])
  ultimately show ?thesis by (simp add: be32_def)
qed

lemma parse_auth_data_layout:
  assumes "length rp = 32" "counter < 2 ^ 32" "length aaguid = 16" "length cid < 2 ^ 16" "cose \<noteq> []"
  shows "parse_auth_data (rp @ char_of (unat flags) # be32 counter
      @ (if flags AND FLAG_ATTESTED_CREDENTIAL_DATA = 0 then rest else aaguid @ be16 (length cid) @ cid @ cose))
    = Inr \<lparr>ad_rp_id_hash = rp, ad_flags = flags, ad_counter = counter,
        ad_credential_id = (if flags AND FLAG_ATTESTED_CREDENTIAL_DATA = 0 then None else Some cid),
        ad_cose_key = (if flags AND FLAG_ATTESTED_CREDENTIAL_DATA = 0 then None else Some cose)\<rparr>"
proof -
  let ?tail = "if flags AND FLAG_ATTESTED_CREDENTIAL_DATA = 0 then rest else aaguid @ be16 (length cid) @ cid @ cose"
  let ?b = "rp @ char_of (unat flags) # be32 counter @ ?tail"
  have len: "length (be32 counter) = 4" "length (be16 n) = 2" for n by (auto simp: be32_def be16_def)
  have "unat flags < 256" by (rule order_less_le_trans [OF unsigned_less]) simp
  then have flag: "(of_nat (byte ?b 32) :: 8 word) = flags"
    using assms(1) by (simp add: byte_def nth_append)
  have ctr: "((byte ?b 33 * 256 + byte ?b 34) * 256 + byte ?b 35) * 256 + byte ?b 36 = counter"
    using be32_val [OF assms(2)] assms(1,2) by (simp add: byte_def nth_append be32_def less_mult_imp_div_less)
  show ?thesis
  proof (cases "flags AND FLAG_ATTESTED_CREDENTIAL_DATA = 0")
    case True
    with flag ctr assms(1) len show ?thesis
      by (simp add: parse_auth_data_def AUTH_DATA_HEADER_LEN_def RP_ID_HASH_LEN_def Let_def)
  next
    case False
    have idl: "byte ?b 53 * 256 + byte ?b 54 = length cid"
      using be16_val [OF assms(4)] assms(1,3) False by (simp add: byte_def nth_append be32_def be16_def)
    have parts: "drop 55 ?b = cid @ cose" "take 32 ?b = rp" "length ?b = 55 + length cid + length cose"
      using assms(1,3) False by (auto simp: be32_def be16_def)
    then have drop2: "drop (55 + length cid) ?b = cose"
      by (metis add.commute append_eq_conv_conj drop_drop)
    show ?thesis
      using flag ctr idl parts drop2 assms(5) False
      by (simp only: parse_auth_data_def AUTH_DATA_HEADER_LEN_def RP_ID_HASH_LEN_def AAGUID_LEN_def Let_def) simp
  qed
qed



section \<open>Acceptance\<close>

text \<open>The challenge that the client data of a response names.\<close>

definition named_challenge :: "'s pk_env \<Rightarrow> string \<Rightarrow> string option" where
  "named_challenge env json = map_option cd_challenge (Option.bind (pe_b64_decode env json) (pe_client_data env))"

lemma checked_client_data_Inr:
  "checked_client_data env json ceremony origins expected = Inr b \<longleftrightarrow>
    (\<exists>cd. pe_b64_decode env json = Some b \<and> pe_client_data env b = Some cd \<and> cd_type cd = ceremony
      \<and> cd_challenge cd = expected \<and> cd_origin cd \<in> set origins)"
  by (auto simp: checked_client_data_def decode_base64url_def check_client_data_def list_ex_iff split: option.splits if_splits sum.splits)

lemma verify_signature_Inr:
  "verify_signature env key msg sig = Inr () \<longleftrightarrow> pe_sec1_ok env key \<and>
    (\<exists>s. (pe_sig_der env sig = Some s \<or> pe_sig_der env sig = None \<and> pe_sig_slice env sig = Some s) \<and> pe_verify env key msg s)"
  by (auto simp: verify_signature_def split: option.splits)

text \<open>The conditions of an assertion: client data of this ceremony with the challenge and an allowed origin,
  authenticator data for this relying party with the user present, and a signature of the key over both.\<close>

definition assertion_ok :: "'s pk_env \<Rightarrow> pk_service \<Rightarrow> string \<Rightarrow> bytes \<Rightarrow> AuthenticationResponse \<Rightarrow> nat \<Rightarrow> bool" where
  "assertion_ok env svc expected key r counter \<longleftrightarrow>
     (\<exists>client cd ab ad sig s.
        pe_b64_decode env (ar_client_data_json r) = Some client \<and> pe_client_data env client = Some cd
        \<and> cd_type cd = ''webauthn.get'' \<and> cd_challenge cd = expected \<and> cd_origin cd \<in> set (ps_allowed_origins svc)
        \<and> pe_b64_decode env (ar_authenticator_data r) = Some ab \<and> parse_auth_data ab = Inr ad
        \<and> ad_rp_id_hash ad = pe_sha256 env (ps_rp_id svc) \<and> ad_flags ad AND FLAG_USER_PRESENT \<noteq> 0 \<and> ad_counter ad = counter
        \<and> pe_b64_decode env (ar_signature r) = Some sig \<and> pe_sec1_ok env key
        \<and> (pe_sig_der env sig = Some s \<or> pe_sig_der env sig = None \<and> pe_sig_slice env sig = Some s)
        \<and> pe_verify env key (ab @ pe_sha256 env client) s)"

definition claimed_handle :: "AuthenticationResponse \<Rightarrow> string option" where
  "claimed_handle r = (case ar_user_handle r of Some h \<Rightarrow> if h = [] then None else Some h | None \<Rightarrow> None)"

lemma verify_assertion_Inr:
  "verify_assertion env (ps_rp_id svc) (ps_allowed_origins svc) expected key r = Inr out \<longleftrightarrow>
    assertion_ok env svc expected key r (as_counter out) \<and> as_user_handle out = claimed_handle r"
proof -
  have "verify_assertion env (ps_rp_id svc) (ps_allowed_origins svc) expected key r = Inr out \<longleftrightarrow>
    (\<exists>client ab ad sig.
       checked_client_data env (ar_client_data_json r) CEREMONY_GET (ps_allowed_origins svc) expected = Inr client
       \<and> pe_b64_decode env (ar_authenticator_data r) = Some ab \<and> parse_auth_data ab = Inr ad
       \<and> ad_rp_id_hash ad = pe_sha256 env (ps_rp_id svc) \<and> ad_flags ad AND FLAG_USER_PRESENT \<noteq> 0
       \<and> pe_b64_decode env (ar_signature r) = Some sig
       \<and> verify_signature env key (ab @ pe_sha256 env client) sig = Inr ()
       \<and> out = \<lparr>as_counter = ad_counter ad, as_user_handle = claimed_handle r\<rparr>)"
    by (auto simp: verify_assertion_def decode_base64url_def check_rp_id_hash_def claimed_handle_def
        split: sum.splits option.splits if_splits)
  also have "\<dots> \<longleftrightarrow> assertion_ok env svc expected key r (as_counter out) \<and> as_user_handle out = claimed_handle r"
    unfolding checked_client_data_Inr verify_signature_Inr assertion_ok_def CEREMONY_GET_def
    by (cases out, simp, blast)
  finally show ?thesis .
qed

text \<open>On the stores in memory: what an accepted assertion shows, and what it changes.\<close>

lemma finish_authentication_accepts:
  assumes "finish_authentication env svc MemoryPasskeyStore MemoryChallengeStore key r (p, c) = (Inr cred, p', c')"
  shows "hm_get p (ar_id r) = Some cred
    \<and> (\<exists>expected counter. c key = Some expected \<and> assertion_ok env svc expected (pc_public_key cred) r counter
        \<and> (case claimed_handle r of None \<Rightarrow> True | Some h \<Rightarrow> user_handle env (ps_user_handle_secret svc) (pc_user_id cred) = Inr h)
        \<and> (pc_counter cred = 0 \<and> counter = 0 \<and> p' = p
           \<or> pc_counter cred < counter \<and> (case hm_get p (pc_id cred) of None \<Rightarrow> False
               | Some old \<Rightarrow> p' = hm_insert (pc_id cred) (old\<lparr>pc_counter := counter\<rparr>) p)))"
    and "c' = c(key := None)"
proof -
  obtain expected where ex: "c key = Some expected"
    using assms by (auto simp: finish_authentication_def MemoryChallengeStore_def split: option.splits)
  obtain cred0 where find: "hm_get p (ar_id r) = Some cred0"
    using assms ex by (auto simp: finish_authentication_def MemoryChallengeStore_def MemoryPasskeyStore_def split: option.splits)
  obtain out where out: "verify_assertion env (ps_rp_id svc) (ps_allowed_origins svc) expected (pc_public_key cred0) r = Inr out"
    using assms ex find
    by (auto simp: finish_authentication_def MemoryChallengeStore_def MemoryPasskeyStore_def split: sum.splits)
  note ok = out [unfolded verify_assertion_Inr]
  have c': "c' = c(key := None)"
    using assms ex find out
    by (auto simp: finish_authentication_def MemoryChallengeStore_def MemoryPasskeyStore_def
        split: sum.splits option.splits if_splits prod.splits)
  have handle: "case claimed_handle r of None \<Rightarrow> True | Some h \<Rightarrow> user_handle env (ps_user_handle_secret svc) (pc_user_id cred0) = Inr h"
    using assms ex find out ok
    by (auto simp: finish_authentication_def MemoryChallengeStore_def MemoryPasskeyStore_def
        split: sum.splits option.splits if_splits)
  have last: "cred = cred0 \<and> (pc_counter cred = 0 \<and> as_counter out = 0 \<and> p' = p
           \<or> pc_counter cred < as_counter out \<and> (case hm_get p (pc_id cred) of None \<Rightarrow> False
               | Some old \<Rightarrow> p' = hm_insert (pc_id cred) (old\<lparr>pc_counter := as_counter out\<rparr>) p))"
    using assms ex find out
    by (auto simp: finish_authentication_def MemoryChallengeStore_def MemoryPasskeyStore_def
        split: sum.splits option.splits if_splits)
  show "hm_get p (ar_id r) = Some cred
    \<and> (\<exists>expected counter. c key = Some expected \<and> assertion_ok env svc expected (pc_public_key cred) r counter
        \<and> (case claimed_handle r of None \<Rightarrow> True | Some h \<Rightarrow> user_handle env (ps_user_handle_secret svc) (pc_user_id cred) = Inr h)
        \<and> (pc_counter cred = 0 \<and> counter = 0 \<and> p' = p
           \<or> pc_counter cred < counter \<and> (case hm_get p (pc_id cred) of None \<Rightarrow> False
               | Some old \<Rightarrow> p' = hm_insert (pc_id cred) (old\<lparr>pc_counter := counter\<rparr>) p)))"
    using ex find ok handle last by blast
  show "c' = c(key := None)" by (rule c')
qed

section \<open>No assertion is accepted twice\<close>

datatype pk_call =
    BeginRegistration bytes string string string string
  | FinishRegistration string string string RegistrationResponse string
  | BeginAuthentication bytes string "PasskeyCredential list"
  | FinishAuthentication string AuthenticationResponse
  | DeleteCredential string string

type_synonym pk_state = "pk_table \<times> (string \<rightharpoonup> string)"

text \<open>The credential that a call authenticates, and the state after it.\<close>

fun pk_step :: "'s pk_env \<Rightarrow> pk_service \<Rightarrow> pk_call \<Rightarrow> pk_state \<Rightarrow> PasskeyCredential option \<times> pk_state" where
  "pk_step env svc (BeginRegistration random uid account display key) st =
     (None, snd (begin_registration env svc MemoryPasskeyStore MemoryChallengeStore random uid account display key st))"
| "pk_step env svc (FinishRegistration stamp uid key response name) st =
     (None, snd (finish_registration env svc MemoryPasskeyStore MemoryChallengeStore stamp uid key response name st))"
| "pk_step env svc (BeginAuthentication random key allowed) (p, c) =
     (None, p, snd (begin_authentication env svc MemoryChallengeStore random key allowed c))"
| "pk_step env svc (FinishAuthentication key response) st =
     (case finish_authentication env svc MemoryPasskeyStore MemoryChallengeStore key response st of
        (Inr cred, st') \<Rightarrow> (Some cred, st')
      | (Inl _, st') \<Rightarrow> (None, st'))"
| "pk_step env svc (DeleteCredential uid cid) (p, c) =
     (None, snd (delete_credential MemoryPasskeyStore uid cid p), c)"

fun pk_run :: "'s pk_env \<Rightarrow> pk_service \<Rightarrow> pk_call list \<Rightarrow> pk_state \<Rightarrow> pk_state" where
  "pk_run env svc [] st = st"
| "pk_run env svc (call # calls) st = pk_run env svc calls (snd (pk_step env svc call st))"

text \<open>The challenge a call issues, with its key.\<close>

fun issued :: "'s pk_env \<Rightarrow> pk_call \<Rightarrow> (string \<times> string) list" where
  "issued env (BeginRegistration random _ _ _ key) = [(key, generate_challenge env random)]"
| "issued env (BeginAuthentication random key _) = [(key, generate_challenge env random)]"
| "issued env _ = []"

lemma pk_run_append: "pk_run env svc (xs @ ys) st = pk_run env svc ys (pk_run env svc xs st)"
  by (induction xs arbitrary: st) auto

lemma pk_step_challenges:
  "snd (snd (pk_step env svc call st)) k = Some ch \<Longrightarrow> snd st k = Some ch \<or> (k, ch) \<in> set (issued env call)"
  by (cases call; cases st)
    (auto simp: begin_registration_def finish_registration_def begin_authentication_def finish_authentication_def
      delete_credential_def MemoryChallengeStore_def Let_def split: sum.splits option.splits if_splits prod.splits)

lemma pk_run_challenges:
  "snd (pk_run env svc calls st) k = Some ch \<Longrightarrow> snd st k = Some ch \<or> (k, ch) \<in> set (concat (map (issued env) calls))"
proof (induction calls arbitrary: st)
  case (Cons call calls)
  have "snd (pk_run env svc calls (snd (pk_step env svc call st))) k = Some ch" using Cons.prems by simp
  from Cons.IH [OF this] pk_step_challenges [of env svc call st k ch] show ?case by auto
qed simp

lemma pk_step_accepts:
  assumes "fst (pk_step env svc (FinishAuthentication key r) st) = Some cred"
  shows "\<exists>expected counter. snd st key = Some expected \<and> named_challenge env (ar_client_data_json r) = Some expected
      \<and> hm_get (fst st) (ar_id r) = Some cred \<and> assertion_ok env svc expected (pc_public_key cred) r counter
      \<and> (pc_counter cred = 0 \<and> counter = 0 \<or> pc_counter cred < counter)"
    and "snd (snd (pk_step env svc (FinishAuthentication key r) st)) = (snd st)(key := None)"
proof -
  obtain p c where st: "st = (p, c)" by (cases st)
  obtain p' c' where f: "finish_authentication env svc MemoryPasskeyStore MemoryChallengeStore key r (p, c) = (Inr cred, p', c')"
    using assms st by (auto split: prod.splits sum.splits)
  from finish_authentication_accepts(1) [OF f] obtain expected counter where a: "c key = Some expected"
    "hm_get p (ar_id r) = Some cred" "assertion_ok env svc expected (pc_public_key cred) r counter"
    "pc_counter cred = 0 \<and> counter = 0 \<or> pc_counter cred < counter" by blast
  have "named_challenge env (ar_client_data_json r) = Some expected"
    using a(3) by (auto simp: assertion_ok_def named_challenge_def)
  with a st show "\<exists>expected counter. snd st key = Some expected \<and> named_challenge env (ar_client_data_json r) = Some expected
      \<and> hm_get (fst st) (ar_id r) = Some cred \<and> assertion_ok env svc expected (pc_public_key cred) r counter
      \<and> (pc_counter cred = 0 \<and> counter = 0 \<or> pc_counter cred < counter)" by auto
  show "snd (snd (pk_step env svc (FinishAuthentication key r) st)) = (snd st)(key := None)"
    using finish_authentication_accepts(2) [OF f] f st by simp
qed


definition demo_pk_env :: "string pk_env" where
  "demo_pk_env = \<lparr>pe_b64_encode = id, pe_b64_decode = Some,
     pe_client_data = (\<lambda>b. Some \<lparr>cd_type = ''webauthn.get'', cd_challenge = b, cd_origin = ''https://app''\<rparr>),
     pe_attestation = (\<lambda>_. None), pe_cbor = (\<lambda>_. None), pe_sha256 = (\<lambda>_. replicate 32 (CHR ''h'')),
     pe_hmac = (\<lambda>_ u. Some u), pe_sec1_ok = (\<lambda>_. True), pe_sig_der = Some, pe_sig_slice = Some,
     pe_verify = (\<lambda>key msg s. s = key), pe_quote = id\<rparr>"

definition demo_pk_service :: pk_service where
  "demo_pk_service = \<lparr>ps_rp_id = ''app'', ps_rp_name = ''App'', ps_allowed_origins = [''https://app''],
     ps_user_handle_secret = '''', ps_timeout = 60000\<rparr>"

definition demo_credential :: PasskeyCredential where
  "demo_credential = \<lparr>pc_id = ''c'', pc_user_id = ''7'', pc_public_key = ''k'', pc_counter = 0, pc_name = ''Phone'', pc_created_at = ''''\<rparr>"

definition demo_assertion :: AuthenticationResponse where
  "demo_assertion = \<lparr>ar_id = ''c'', ar_client_data_json = ''ch'', ar_authenticator_data = replicate 32 (CHR ''h'') @ CHR 0x01 # be32 5,
     ar_signature = ''k'', ar_user_handle = None\<rparr>"

lemma demo_auth_data:
  "parse_auth_data (replicate 32 (CHR ''h'') @ CHR 0x01 # be32 5)
    = Inr \<lparr>ad_rp_id_hash = replicate 32 (CHR ''h''), ad_flags = 1, ad_counter = 5, ad_credential_id = None, ad_cose_key = None\<rparr>"
proof -
  have flag: "(1 :: 8 word) AND FLAG_ATTESTED_CREDENTIAL_DATA = 0" by (simp add: FLAG_ATTESTED_CREDENTIAL_DATA_def)
  have c: "char_of (unat (1 :: 8 word)) = CHR 0x01" by code_simp
  show ?thesis
    using parse_auth_data_layout [where rp = "replicate 32 (CHR ''h'')" and counter = 5 and aaguid = "replicate 16 (CHR ''a'')"
        and cid = "''id''" and cose = "''key''" and flags = 1 and rest = "[]"] flag
    unfolding c by simp
qed

lemma demo_accepted:
  "fst (pk_step demo_pk_env demo_pk_service (FinishAuthentication ''key'' demo_assertion)
     (pk_run demo_pk_env demo_pk_service [BeginAuthentication ''ch'' ''key'' []] ([(''c'', demo_credential)], Map.empty)))
   = Some demo_credential"
  by (simp add: begin_authentication_def finish_authentication_def MemoryChallengeStore_def MemoryPasskeyStore_def hm_get_def
      generate_challenge_def verify_assertion_def checked_client_data_def decode_base64url_def check_client_data_def
      demo_auth_data check_rp_id_hash_def verify_signature_def demo_pk_env_def demo_pk_service_def demo_credential_def
      demo_assertion_def CEREMONY_GET_def FLAG_USER_PRESENT_def Let_def)


end
