(* ===== verification/App_Auth_Props.thy ===== *)
theory App_Auth_Props
  imports App_Sessions Throttle_Props Two_Factor_Props Passkeys_Props
begin

text \<open>
  The theorem on histories: whoever a token resolves to got there by a password, a password and a code, a
  registration or a passkey. The last lemmas run a login with a second factor on the stores in memory, and show
  what a failing provider does to the challenge.
\<close>

context session_laws begin

lemma complete_login_admits:
  assumes "ae_api env = api" "ok (w_sessions w)" "holds h (w_sessions w) t N" "admits N t (recs (w_sessions w))"
    and "N = (\<lambda>k su. k = user_key (sg_policy g) \<and> su = pending \<or> M k su)"
  shows "ok (w_sessions (snd (complete_login env g h pending w)))
    \<and> admits N t (recs (w_sessions (snd (complete_login env g h pending w))))"
proof -
  let ?u = "user_key (sg_policy g)"
  obtain r1 h1 e1 where i: "ss_insert api ?u (VUser pending) h (w_sessions w) = (r1, h1, e1)" by (metis prod_cases3)
  note l1 = insert [OF assms(2) i]
  obtain r2 h2 e2 where r: "ss_remove api (pending_key g) h1 e1 = (r2, h2, e2)" by (metis prod_cases3)
  have e1: "ok e1" "recs e1 = recs (w_sessions w)" using l1 by auto
  note l2 = remove [OF e1(1) r]
  obtain r3 h3 e3 where c: "ss_cycle_id api h2 e2 = (r3, h3, e3)" by (metis prod_cases3)
  obtain r4 h4 e4 where s: "ss_save api h3 e3 = (r4, h4, e4)" by (metis prod_cases3)
  have e2: "ok e2" "recs e2 = recs (w_sessions w)" using l2 e1 by auto
  have "ok e3 \<and> admits N t (recs e3) \<and> (r3 = Inr () \<longrightarrow> ok e4 \<and> admits N t (recs e4))" if ok12: "r1 = Inr ()" "r2 = Inr ()"
  proof -
    have "holds h1 e1 t N"
      using insert_holds [OF assms(2) i [unfolded ok12] assms(3)] by (auto simp: holds_def assms(5))
    then have "holds h2 e2 t N" using remove_holds [OF e1(1) r [unfolded ok12]] by blast
    from cycle_save_admits [OF e2(1) this _ c] s assms(4) e2(2) show ?thesis by auto
  qed
  then show ?thesis
    using assms(1,4) i r c s e1 e2
    by (auto simp: complete_login_def split: sum.splits option.splits)
qed

lemma challenge_submit_cases:
  assumes "ae_api env = api" "ae_guard env = Some g" "session_id env q = Some sid" "ss_parse_id api sid = Some i"
    and "get_user api (pending_key g) (ss_new api (Some i)) (w_sessions w) = (got, h, e)"
  shows "w_sessions (snd (challenge_submit env inp q w)) = e
    \<or> (\<exists>pending w2. got = Inr (Some pending) \<and> code_accepted env (ChallengeSubmit, inp, q, w) pending
        \<and> w_sessions w2 = e \<and> snd (challenge_submit env inp q w) = snd (complete_login env g h pending w2))"
proof (cases "\<exists>pending. got = Inr (Some pending)")
  case False
  with assms show ?thesis by (auto simp: challenge_submit_def split: sum.split option.split)
next
  case True
  then obtain pending where p: "got = Inr (Some pending)" by blast
  obtain d l where t: "reg_check (hit (in_now inp)) two_factor_registry TWO_FACTOR (empty_input\<lparr>li_session_id := Some sid\<rparr>)
      (w_two_factor_limiter w) = (d, l)" by (metis prod.exhaust)
  show ?thesis
  proof (cases "\<exists>n svc. d = Inr (Allowed n) \<and> two_factor_service env = Some svc")
    case False
    with assms p t show ?thesis
      by (auto simp: challenge_submit_def Let_def split: sum.split option.split ThrottleDecision.split)
  next
    case True
    then obtain n svc where d: "d = Inr (Allowed n)" "two_factor_service env = Some svc" by blast
    let ?code = "trim (unwrap_or_default (field (parse_form (ht_body q)) ''code''))"
    let ?rec = "trim (unwrap_or_default (field (parse_form (ht_body q)) ''recovery_code''))"
    obtain a f where a: "(if ?rec = []
        then (verify_challenge (ae_tf_env env) svc (ae_tf_ops env) (in_now inp) (su_id pending) ?code (w_factors w), w_factors w)
        else consume_recovery_code (ae_tf_env env) (ae_tf_ops env) (su_id pending) ?rec (w_factors w)) = (a, f)"
      by (metis prod.exhaust)
    show ?thesis
    proof (cases a)
      case (Inl x)
      with assms p t d a have "w_sessions (snd (challenge_submit env inp q w)) = e"
        by (cases "?rec = []") (auto simp: challenge_submit_def Let_def split: AuthError.split)
      then show ?thesis ..
    next
      case (Inr x)
      then have "code_accepted env (ChallengeSubmit, inp, q, w) pending"
        using a d(2) by (auto simp: code_accepted_def split: if_splits)
      moreover have "snd (challenge_submit env inp q w) = snd (complete_login env g h pending
          (w\<lparr>w_sessions := e, w_two_factor_limiter := l, w_factors := f\<rparr>))"
        using assms p t d a Inr by (cases "?rec = []") (auto simp: challenge_submit_def Let_def)
      moreover have "w_sessions (w\<lparr>w_sessions := e, w_two_factor_limiter := l, w_factors := f\<rparr>) = e" by simp
      ultimately show ?thesis using p by blast
    qed
  qed
qed

lemma challenge_submit_admits:
  assumes "ae_api env = api" "ok (w_sessions w)" "ae_guard env = Some g"
  shows "ok (w_sessions (snd (challenge_submit env inp q w)))
    \<and> admits (\<lambda>k su. k = user_key (sg_policy g) \<and> code_accepted env (ChallengeSubmit, inp, q, w) su
        \<and> held (recs (w_sessions w)) (pending_key g) su)
      (recs (w_sessions w)) (recs (w_sessions (snd (challenge_submit env inp q w))))"
    (is "_ \<and> admits ?N ?t _")
proof (cases "\<exists>sid i. session_id env q = Some sid \<and> ss_parse_id api sid = Some i")
  case False
  then have "w_sessions (snd (challenge_submit env inp q w)) = w_sessions w"
    using assms(1,3) by (auto simp: challenge_submit_def split: option.splits)
  with assms(2) show ?thesis by simp
next
  case True
  then obtain sid i where sid: "session_id env q = Some sid" "ss_parse_id api sid = Some i" by blast
  obtain got h e where gu: "get_user api (pending_key g) (ss_new api (Some i)) (w_sessions w) = (got, h, e)" by (metis prod_cases3)
  note l = get_user_laws [OF assms(2) gu]
  then have e: "ok e" "recs e = ?t" by auto
  show ?thesis
  proof (cases "\<exists>pending w2. got = Inr (Some pending) \<and> code_accepted env (ChallengeSubmit, inp, q, w) pending
      \<and> w_sessions w2 = e \<and> snd (challenge_submit env inp q w) = snd (complete_login env g h pending w2)")
    case True
    then obtain pending w2 where p: "got = Inr (Some pending)" "code_accepted env (ChallengeSubmit, inp, q, w) pending"
      "w_sessions w2 = e" "snd (challenge_submit env inp q w) = snd (complete_login env g h pending w2)" by blast
    have v: "view (ss_new api (Some i)) (w_sessions w) (pending_key g) = Some (VUser pending)"
      "view h e = view (ss_new api (Some i)) (w_sessions w)" using l p(1) by auto
    then have hp: "held ?t (pending_key g) pending"
      using new_view [OF assms(2), of "Some i"] by (auto simp: held_def split: option.splits)
    let ?M = "\<lambda>k su. k = user_key (sg_policy g) \<and> su = pending \<or> False"
    have "holds h e ?t ?M" using new_holds [OF assms(2), of "Some i" ?M] by (simp add: holds_def v(2))
    from complete_login_admits [OF assms(1), of w2 h ?t ?M g pending "\<lambda>_ _. False"] this e p(3)
    have "ok (w_sessions (snd (complete_login env g h pending w2)))"
      and ad: "admits ?M ?t (recs (w_sessions (snd (complete_login env g h pending w2))))" by auto
    moreover have "admits ?N ?t (recs (w_sessions (snd (complete_login env g h pending w2))))"
      using ad by (rule admits_mono) (use p(2) hp in auto)
    ultimately show ?thesis by (simp add: p(4))
  next
    case False
    with challenge_submit_cases [OF assms(1,3) sid gu, of inp] have "w_sessions (snd (challenge_submit env inp q w)) = e" by blast
    with e show ?thesis by simp
  qed
qed

lemma passkey_login_begin_admits:
  assumes "ae_api env = api" "ok (w_sessions w)"
  shows "ok (w_sessions (snd (passkey_login_begin env inp g svc w)))
    \<and> admits N (recs (w_sessions w)) (recs (w_sessions (snd (passkey_login_begin env inp g svc w))))"
proof -
  obtain r h e where s: "ss_save api (ss_new api None) (w_sessions w) = (r, h, e)" by (metis prod_cases3)
  have "admits N (recs (w_sessions w)) (recs e)"
    using save [OF assms(2) s] new_view [OF assms(2), of None] by (auto elim: admits_saved)
  moreover have "w_sessions (snd (passkey_login_begin env inp g svc w)) = e"
    by (simp add: passkey_login_begin_def assms(1) s Let_def split: sum.split option.split prod.split)
  ultimately show ?thesis using save [OF assms(2) s] by simp
qed

lemma passkey_complete_login_admits:
  assumes "ae_api env = api" "ok (w_sessions w)"
  shows "ok (w_sessions (snd (passkey_complete_login env g sid uid w)))
    \<and> admits (\<lambda>k su. k = user_key (sg_policy g) \<and> (\<exists>r. fst (up_find_by_id (ae_provider env) uid (w_users w)) = Inr (Some r)
        \<and> su = session_user_of r))
      (recs (w_sessions w)) (recs (w_sessions (snd (passkey_complete_login env g sid uid w))))"
    (is "_ \<and> admits ?N ?t _")
proof -
  let ?u = "user_key (sg_policy g)"
  obtain found u where f: "up_find_by_id (ae_provider env) uid (w_users w) = (found, u)" by (metis prod.exhaust)
  show ?thesis
  proof (cases "\<exists>r i. found = Inr (Some r) \<and> ss_parse_id api sid = Some i")
    case False
    then have "w_sessions (snd (passkey_complete_login env g sid uid w)) = w_sessions w"
      using f assms(1) by (auto simp: passkey_complete_login_def Let_def split: sum.split option.split)
    with assms(2) show ?thesis by simp
  next
    case True
    then obtain r i where r: "found = Inr (Some r)" "ss_parse_id api sid = Some i" by blast
    obtain r1 h1 e1 where ins: "ss_insert api ?u (VUser (session_user_of r)) (ss_new api (Some i)) (w_sessions w) = (r1, h1, e1)"
      by (metis prod_cases3)
    note l1 = insert [OF assms(2) ins]
    then have e1: "ok e1" "recs e1 = ?t" by auto
    obtain r3 h3 e3 where c: "ss_cycle_id api h1 e1 = (r3, h3, e3)" by (metis prod_cases3)
    obtain r4 h4 e4 where s: "ss_save api h3 e3 = (r4, h4, e4)" by (metis prod_cases3)
    have "ok e3 \<and> admits ?N ?t (recs e3) \<and> (r3 = Inr () \<longrightarrow> ok e4 \<and> admits ?N ?t (recs e4))" if ok1: "r1 = Inr ()"
    proof -
      have "holds h1 e1 ?t ?N"
        using insert_holds [OF assms(2) ins [unfolded ok1] new_holds [OF assms(2), where N = ?N]] r f by (auto simp: holds_def)
      from cycle_save_admits [OF e1(1) this _ c] s e1(2) show ?thesis by auto
    qed
    then show ?thesis
      using assms(1) f r ins c s e1
      by (auto simp: passkey_complete_login_def Let_def split: sum.splits option.splits)
  qed
qed

lemma passkeys_login_cases:
  assumes "ae_guard env = Some g"
  shows "w_sessions (snd (passkeys_login env inp q w)) = w_sessions w
    \<or> (\<exists>svc. snd (passkeys_login env inp q w) = snd (passkey_login_begin env inp g svc w))
    \<or> (\<exists>svc payload a sid cred w2. ae_pk_service env = Some svc \<and> ae_json env (ht_body q) = Some payload
        \<and> ae_assertion env payload = Some a \<and> session_id env q = Some sid
        \<and> fst (finish_authentication (ae_pk_env env) svc (ae_pk_store env) (ae_pk_challenges env) (login_key sid) a
          (w_passkeys w, w_challenges w)) = Inr cred
        \<and> w_sessions w2 = w_sessions w \<and> w_users w2 = w_users w
        \<and> snd (passkeys_login env inp q w) = snd (passkey_complete_login env g sid (pc_user_id cred) w2))"
proof (cases "\<exists>svc payload a sid. fc_passkeys (ae_fortify env) \<and> ae_pk_service env = Some svc \<and> ae_json env (ht_body q) = Some payload
    \<and> json_get payload ''response'' \<noteq> None \<and> ae_assertion env payload = Some a \<and> session_id env q = Some sid")
  case False
  with assms show ?thesis
    by (auto simp: passkeys_login_def passkey_login_finish_def Let_def split: sum.split option.split prod.split ThrottleDecision.split)
next
  case True
  then obtain svc payload a sid where b: "fc_passkeys (ae_fortify env)" "ae_pk_service env = Some svc"
    "ae_json env (ht_body q) = Some payload" "json_get payload ''response'' \<noteq> None" "ae_assertion env payload = Some a"
    "session_id env q = Some sid" by blast
  obtain res p c where f: "finish_authentication (ae_pk_env env) svc (ae_pk_store env) (ae_pk_challenges env) (login_key sid) a
      (w_passkeys w, w_challenges w) = (res, p, c)" by (metis prod_cases3)
  show ?thesis
  proof (cases "\<exists>cred. res = Inr cred \<and> (\<exists>l. snd (passkeys_login env inp q w) = snd (passkey_complete_login env g sid (pc_user_id cred)
      (w\<lparr>w_passkeys_limiter := l, w_passkeys := p, w_challenges := c\<rparr>)))")
    case True
    then obtain cred l where "res = Inr cred" "snd (passkeys_login env inp q w)
      = snd (passkey_complete_login env g sid (pc_user_id cred) (w\<lparr>w_passkeys_limiter := l, w_passkeys := p, w_challenges := c\<rparr>))" by blast
    moreover have "w_sessions (w\<lparr>w_passkeys_limiter := l, w_passkeys := p, w_challenges := c\<rparr>) = w_sessions w"
      "w_users (w\<lparr>w_passkeys_limiter := l, w_passkeys := p, w_challenges := c\<rparr>) = w_users w" by simp_all
    ultimately show ?thesis using b f by (metis fst_conv)
  next
    case False
    then have "w_sessions (snd (passkeys_login env inp q w)) = w_sessions w"
      using assms b f
      by (auto simp: passkeys_login_def passkey_login_finish_def Let_def split: sum.split option.split prod.split
          ThrottleDecision.split AuthError.split)
    then show ?thesis by blast
  qed
qed

lemma passkeys_login_admits:
  assumes "ae_api env = api" "ok (w_sessions w)" "ae_guard env = Some g"
  shows "ok (w_sessions (snd (passkeys_login env inp q w)))
    \<and> admits (\<lambda>k su. k = user_key (sg_policy g) \<and> passkey_accepted env (PasskeysLogin, inp, q, w) su)
      (recs (w_sessions w)) (recs (w_sessions (snd (passkeys_login env inp q w))))"
    (is "_ \<and> admits ?N ?t _")
proof -
  let ?out = "snd (passkeys_login env inp q w)"
  consider (quiet) "w_sessions ?out = w_sessions w"
    | (start) svc where "?out = snd (passkey_login_begin env inp g svc w)"
    | (finish) svc payload a sid cred w2 where "ae_pk_service env = Some svc" "ae_json env (ht_body q) = Some payload"
        "ae_assertion env payload = Some a" "session_id env q = Some sid"
        "fst (finish_authentication (ae_pk_env env) svc (ae_pk_store env) (ae_pk_challenges env) (login_key sid) a
          (w_passkeys w, w_challenges w)) = Inr cred"
        "w_sessions w2 = w_sessions w" "w_users w2 = w_users w"
        "?out = snd (passkey_complete_login env g sid (pc_user_id cred) w2)"
    using passkeys_login_cases [OF assms(3), of inp q w] by blast
  then show ?thesis
  proof cases
    case quiet
    with assms(2) show ?thesis by simp
  next
    case start
    with passkey_login_begin_admits [OF assms(1,2)] show ?thesis by simp
  next
    case finish
    from passkey_complete_login_admits [OF assms(1), of w2] assms(2) finish(6)
    have "ok (w_sessions ?out)" and ad: "admits (\<lambda>k su. k = user_key (sg_policy g)
        \<and> (\<exists>r. fst (up_find_by_id (ae_provider env) (pc_user_id cred) (w_users w2)) = Inr (Some r) \<and> su = session_user_of r))
      ?t (recs (w_sessions ?out))" by (simp_all add: finish(8))
    moreover have "admits ?N ?t (recs (w_sessions ?out))"
      using ad by (rule admits_mono) (use finish(1-5,7) in \<open>auto simp: passkey_accepted_def\<close>)
    ultimately show ?thesis by blast
  qed
qed

end

section \<open>Every session is justified\<close>

text \<open>The states that the process can reach, with the calls that led there and the state each of them found. Between
  calls sessions may disappear, and other processes may write the table of users.\<close>

inductive app_reach :: "('h, 'e, 'u) app_env \<Rightarrow> ('e \<Rightarrow> session_table) \<Rightarrow> ('e \<Rightarrow> bool) \<Rightarrow> ('e, 'u) world
    \<Rightarrow> ('e, 'u) visit list \<Rightarrow> ('e, 'u) world \<Rightarrow> bool" for env recs ok w0 where
  app_start: "app_reach env recs ok w0 [] w0"
| app_serve: "app_reach env recs ok w0 h w \<Longrightarrow> app_reach env recs ok w0 (h @ [(c, inp, q, w)]) (serve env c inp q w)"
| app_expire: "app_reach env recs ok w0 h w \<Longrightarrow> ok e \<Longrightarrow> recs e \<subseteq>\<^sub>m recs (w_sessions w)
    \<Longrightarrow> app_reach env recs ok w0 h (w\<lparr>w_sessions := e\<rparr>)"
| app_users: "app_reach env recs ok w0 h w \<Longrightarrow> app_reach env recs ok w0 h (w\<lparr>w_users := u\<rparr>)"

definition first_factor :: "('h, 'e, 'u) app_env \<Rightarrow> ('e, 'u) visit list \<Rightarrow> SessionUser \<Rightarrow> bool" where
  "first_factor env h su \<longleftrightarrow> (\<exists>v\<in>set h. password_first env v su)"

text \<open>A code counts only after the password.\<close>

definition justified :: "('h, 'e, 'u) app_env \<Rightarrow> session_guard \<Rightarrow> ('e, 'u) visit list \<Rightarrow> SessionUser \<Rightarrow> bool" where
  "justified env g h su \<longleftrightarrow>
     (\<exists>v\<in>set h. password_only env g v su \<or> registered env g v su \<or> passkey_accepted env v su)
     \<or> (\<exists>h1 v h2. h = h1 @ v # h2 \<and> first_factor env h1 su \<and> code_accepted env v su)"

lemma first_factor_snoc: "first_factor env (h @ [v]) su \<longleftrightarrow> first_factor env h su \<or> password_first env v su"
  by (auto simp: first_factor_def)

lemma justified_mono: "justified env g h su \<Longrightarrow> justified env g (h @ [v]) su"
proof -
  have "\<exists>h1 x h2'. h @ [v] = h1 @ x # h2' \<and> first_factor env h1 su \<and> code_accepted env x su"
    if "h = h1 @ x # h2" "first_factor env h1 su" "code_accepted env x su" for h1 x h2
    using that by (intro exI [of _ h1] exI [of _ x] exI [of _ "h2 @ [v]"]) (simp add: that(1))
  then show "justified env g h su \<Longrightarrow> justified env g (h @ [v]) su"
    unfolding justified_def set_append by blast
qed

lemma justified_last:
  "password_only env g v su \<or> registered env g v su \<or> passkey_accepted env v su \<or> first_factor env h su \<and> code_accepted env v su
    \<Longrightarrow> justified env g (h @ [v]) su"
proof (elim disjE)
  assume "first_factor env h su \<and> code_accepted env v su"
  then have "h @ [v] = h @ v # [] \<and> first_factor env h su \<and> code_accepted env v su" by simp
  then show "justified env g (h @ [v]) su" unfolding justified_def by blast
qed (simp_all add: justified_def)

lemma keys_differ [simp]: "user_key (sg_policy g) \<noteq> pending_key g" "pending_key g \<noteq> user_key (sg_policy g)"
  by (simp_all add: user_key_def pending_key_def)

lemma admits_weaken: "P \<and> admits M t t' \<Longrightarrow> (\<And>k su. M k su \<Longrightarrow> N k su) \<Longrightarrow> P \<and> admits N t t'"
  by (auto simp: admits_def)

context session_laws begin

lemma serve_admits:
  assumes "ae_api env = api" "ae_guard env = Some g" "repeatable (ae_provider env)" "ok (w_sessions w)"
    and "\<And>su. held (recs (w_sessions w)) (pending_key g) su \<Longrightarrow> first_factor env h su"
  shows "ok (w_sessions (serve env c inp q w))
    \<and> admits (\<lambda>k su. k = user_key (sg_policy g) \<and> justified env g (h @ [(c, inp, q, w)]) su
        \<or> k = pending_key g \<and> first_factor env (h @ [(c, inp, q, w)]) su)
      (recs (w_sessions w)) (recs (w_sessions (serve env c inp q w)))"
proof (cases c)
  case LoginSubmit
  show ?thesis unfolding LoginSubmit serve.simps
    by (rule admits_weaken [OF login_submit_admits [OF assms(1,4,2,3)]])
      (auto simp: LoginSubmit first_factor_snoc intro: justified_last)
next
  case LogoutCall
  show ?thesis unfolding LogoutCall serve.simps by (rule logout_admits [OF assms(1,4)])
next
  case RegisterSubmit
  show ?thesis unfolding RegisterSubmit serve.simps
    by (rule admits_weaken [OF register_submit_admits [OF assms(1,4,2)]]) (auto simp: RegisterSubmit intro: justified_last)
next
  case ConfirmSubmit
  show ?thesis unfolding ConfirmSubmit serve.simps by (rule confirm_submit_admits [OF assms(1,4)])
next
  case ChallengeSubmit
  show ?thesis unfolding ChallengeSubmit serve.simps
    by (rule admits_weaken [OF challenge_submit_admits [OF assms(1,4,2)]])
      (auto simp: ChallengeSubmit intro: justified_last dest: assms(5))
next
  case PasskeysLogin
  show ?thesis unfolding PasskeysLogin serve.simps
    by (rule admits_weaken [OF passkeys_login_admits [OF assms(1,4,2)]]) (auto simp: PasskeysLogin intro: justified_last)
qed (use assms(4) in \<open>simp_all add: quiet\<close>)

lemma reach_justified:
  assumes "app_reach env recs ok w0 h w" "ae_api env = api" "ae_guard env = Some g" "repeatable (ae_provider env)"
    and "ok (w_sessions w0)" "recs (w_sessions w0) = Map.empty"
  shows "ok (w_sessions w) \<and> (\<forall>su. held (recs (w_sessions w)) (user_key (sg_policy g)) su \<longrightarrow> justified env g h su)
    \<and> (\<forall>su. held (recs (w_sessions w)) (pending_key g) su \<longrightarrow> first_factor env h su)"
  using assms(1)
proof (induction rule: app_reach.induct)
  case app_start
  with assms(5,6) show ?case by (simp add: held_def)
next
  case (app_serve h w c inp q)
  then have s: "ok (w_sessions (serve env c inp q w))
    \<and> admits (\<lambda>k su. k = user_key (sg_policy g) \<and> justified env g (h @ [(c, inp, q, w)]) su
        \<or> k = pending_key g \<and> first_factor env (h @ [(c, inp, q, w)]) su)
      (recs (w_sessions w)) (recs (w_sessions (serve env c inp q w)))"
    by (intro serve_admits [OF assms(2-4)]) auto
  with app_serve.IH show ?case
    unfolding admits_def by (metis first_factor_snoc justified_mono keys_differ(1))
next
  case (app_expire h w e)
  then show ?case by (auto dest: held_le)
next
  case (app_users h w u)
  then show ?case by simp
qed

end

text \<open>A provider that fails on the first read lets the login go on without a challenge, whatever factors are stored.\<close>

lemma provider_error_skips_challenge:
  "up_find_by_email (ae_provider env) name (w_users w) = (Inl er, u) \<Longrightarrow>
    intercept_login env g name password w = (None, w\<lparr>w_users := u\<rparr>)"
  by (simp add: intercept_login_def)


section \<open>A login with a second factor\<close>

definition demo_fortify :: FortifyConfig where
  "demo_fortify = \<lparr>fc_username = ''email'', fc_lowercase_usernames = False, fc_home = ''/dashboard'',
     fc_limiters = \<lparr>fl_login = ''login'', fl_two_factor = None, fl_passkeys = None\<rparr>, fc_registration = True,
     fc_reset_passwords = True, fc_email_verification = True, fc_passkeys = True, fc_two_factor_window = Some 1\<rparr>"

definition demo_app_env :: "(mem_handle, Session_Props.mem_store, MemoryUserProvider) app_env" where
  "demo_app_env = \<lparr>ae_fortify = demo_fortify, ae_guard = Some Session_Props.demo_guard, ae_api = memory_session,
     ae_provider = memory_provider show_nat, ae_verify = (\<lambda>hash pw. hash = ''#'' @ pw), ae_hash = (\<lambda>_ pw. Inr (''#'' @ pw)),
     ae_cookies = (\<lambda>raw. [(SESSION_COOKIE_NAME, raw)]), ae_cookie_text = ck_value, ae_lowercase = id, ae_trusted_proxies = [],
     ae_val = \<lparr>ve_parse_json = (\<lambda>_. None), ve_print_json = (\<lambda>_. ''''), ve_email = (\<lambda>_. True), ve_tz = (\<lambda>_. True),
       ve_alnum = (\<lambda>_. True), ve_white = (\<lambda>_. False), ve_debug = id\<rparr>,
     ae_tf_key = Some ''k'', ae_tf_issuer = ''RustaSea'', ae_tf_env = demo_tf_env, ae_tf_ops = memory_tf_ops,
     ae_pk_service = None, ae_pk_env = demo_pk_env, ae_pk_store = MemoryPasskeyStore, ae_pk_challenges = MemoryChallengeStore,
     ae_json = (\<lambda>_. None), ae_registration = (\<lambda>_. None), ae_assertion = (\<lambda>_. None),
     ae_reset_ops = MemoryPasswordResetStore, ae_expire_minutes = 60, ae_signer = None, ae_mac = (\<lambda>_ b. b),
     ae_hex_encode = id, ae_hex_decode = Some, ae_sha256 = id, ae_debug = id, ae_app_url = ''''\<rparr>"

definition demo_inputs :: inputs where
  "demo_inputs = \<lparr>in_now = 1000, in_stamp = ''now'', in_salt = '''', in_two_factor = demo_tf_random, in_challenge = '''',
     in_token = [], in_mail_ok = True\<rparr>"

definition demo_world :: "(Session_Props.mem_store, MemoryUserProvider) world" where
  "demo_world = \<lparr>w_sessions = [], w_users = demo_users,
     w_factors = [''7'' \<mapsto> \<lparr>tr_user_id = ''7'', tr_secret = None, tr_recovery_codes = [''code''], tr_confirmed_at = Some ''then''\<rparr>],
     w_codes = Map.empty, w_login_limiter = limiter_new, w_two_factor_limiter = limiter_new, w_log = [], w_passkeys = [],
     w_challenges = Map.empty, w_passkeys_limiter = limiter_new, w_reset = Map.empty, w_reset_limiter = limiter_new,
     w_verification_limiter = limiter_new, w_mail = []\<rparr>"

definition demo_post :: "(string \<times> bytes) list \<Rightarrow> string \<Rightarrow> http" where
  "demo_post hs b = \<lparr>ht_method = ''POST'', ht_headers = hs, ht_query = None, ht_body = b, ht_peer = Some ''10.0.0.1'', ht_user = None\<rparr>"

definition demo_login_post :: http where
  "demo_login_post = demo_post [] ''email=ada%40example.com&password=secret''"

definition demo_code_post :: http where
  "demo_code_post = demo_post [(''cookie'', ''0'')] ''recovery_code=code''"

lemma demo_login_form:
  "field (parse_form ''email=ada%40example.com&password=secret'') ''email'' = Some ''ada@example.com''"
  "field (parse_form ''email=ada%40example.com&password=secret'') ''password'' = Some ''secret''"
  "trim ''ada@example.com'' = ''ada@example.com''"
  by code_simp+

lemma demo_code_form:
  "field (parse_form ''recovery_code=code'') ''recovery_code'' = Some ''code''"
  "field (parse_form ''recovery_code=code'') ''code'' = None"
  "trim ''code'' = ''code''" "trim [] = []"
  by code_simp+

lemma hit_new_allowed:
  "0 < max_attempts l \<Longrightarrow> 0 < now \<Longrightarrow> 0 < decay_secs l \<Longrightarrow> \<exists>n lim. hit now k l limiter_new = (Allowed n, lim)"
  by (simp add: hit_def Let_def limiter_new_def current_time_def prune_def hm_retain_def hm_get_def)

lemma reg_check_new_allowed:
  assumes "for_name reg name = Some d" "derive_key d i = Some k" "0 < max_attempts (ld_limit d)" "0 < decay_secs (ld_limit d)"
  shows "\<exists>n lim. reg_check (hit 1000) reg name i limiter_new = (Inr (Allowed n), lim)"
  using hit_new_allowed [OF assms(3) _ assms(4), of 1000 k] by (auto simp: reg_check_def assms(1,2))

lemma demo_login_allowed:
  "\<exists>n lim. reg_check (hit 1000) (login_registry demo_app_env) LOGIN
     (empty_input\<lparr>li_username := Some ''ada@example.com'', li_ip := Some ip\<rparr>) limiter_new = (Inr (Allowed n), lim)"
proof (rule reg_check_new_allowed)
  have "trim ''login'' = ''login''" by code_simp
  then show "for_name (login_registry demo_app_env) LOGIN = Some login_definition"
    by (simp add: login_registry_def demo_app_env_def demo_fortify_def LOGIN_def from_fortify_config_def register_configured_def
        reg_register_def for_name_def)
qed (simp_all add: derive_key_def login_definition_def per_minute_def LOGIN_MAX_ATTEMPTS_def empty_input_def)

lemma demo_code_allowed:
  "\<exists>n lim. reg_check (hit 1000) two_factor_registry TWO_FACTOR (empty_input\<lparr>li_session_id := Some sid\<rparr>) limiter_new
     = (Inr (Allowed n), lim)"
  by (rule reg_check_new_allowed [where d = two_factor_definition])
    (simp_all add: two_factor_registry_def reg_register_def for_name_def derive_key_def two_factor_definition_def per_minute_def
      LOGIN_MAX_ATTEMPTS_def empty_input_def)

lemma demo_login_served:
  "\<exists>lim. serve demo_app_env LoginSubmit demo_inputs demo_login_post demo_world
     = demo_world\<lparr>w_login_limiter := lim, w_sessions := [(''0'', [''rustasea-session-two_factor_pending'' \<mapsto> VUser (session_user_of ada)])]\<rparr>"
proof -
  let ?ip = "peer_ip demo_app_env demo_login_post"
  obtain n lim where t: "reg_check (hit 1000) (login_registry demo_app_env) LOGIN
      (empty_input\<lparr>li_username := Some ''ada@example.com'', li_ip := Some ?ip\<rparr>) limiter_new = (Inr (Allowed n), lim)"
    using demo_login_allowed by blast
  have name: "normalized demo_app_env ''ada@example.com'' = ''ada@example.com''"
    by (simp add: normalized_def demo_login_form demo_app_env_def demo_fortify_def)
  have "intercept_login demo_app_env Session_Props.demo_guard ''ada@example.com'' ''secret'' (demo_world\<lparr>w_login_limiter := lim\<rparr>)
    = (Some (with_session_cookie demo_app_env Session_Props.demo_guard ''0'' (found CHALLENGE_PATH)),
       demo_world\<lparr>w_login_limiter := lim, w_sessions := [(''0'', [''rustasea-session-two_factor_pending'' \<mapsto> VUser (session_user_of ada)])]\<rparr>)"
    by (simp add: intercept_login_def demo_app_env_def demo_world_def memory_provider_def demo_users_def mu_seed_def ada_def
        memory_tf_ops_def is_confirmed_record_def start_challenge_def new_session_def memory_session_def mh_view_def mh_load_def
        mh_target_def free_id_Nil hm_insert_def hm_get_def pending_key_def Session_Props.demo_guard_def with_store_def
        session_policy_default_def with_session_cookie_def Let_def)
  moreover have "ae_guard demo_app_env = Some Session_Props.demo_guard" "w_login_limiter demo_world = limiter_new"
    "in_now demo_inputs = 1000" "fc_username (ae_fortify demo_app_env) = ''email''"
    "ht_body demo_login_post = ''email=ada%40example.com&password=secret''"
    by (simp_all add: demo_app_env_def demo_world_def demo_inputs_def demo_fortify_def demo_login_post_def demo_post_def)
  ultimately have "serve demo_app_env LoginSubmit demo_inputs demo_login_post demo_world
    = demo_world\<lparr>w_login_limiter := lim, w_sessions := [(''0'', [''rustasea-session-two_factor_pending'' \<mapsto> VUser (session_user_of ada)])]\<rparr>"
    using t name by (simp add: login_submit_def demo_login_form Let_def)
  then show ?thesis by blast
qed

lemma demo_code_served:
  "w_sessions (serve demo_app_env ChallengeSubmit demo_inputs demo_code_post
     (demo_world\<lparr>w_login_limiter := lim, w_sessions := [(''0'', [''rustasea-session-two_factor_pending'' \<mapsto> VUser (session_user_of ada)])]\<rparr>))
   = [(''0'', [''rustasea-session-user'' \<mapsto> VUser (session_user_of ada)])]"
proof -
  let ?w = "demo_world\<lparr>w_login_limiter := lim, w_sessions := [(''0'', [''rustasea-session-two_factor_pending'' \<mapsto> VUser (session_user_of ada)])]\<rparr>"
  let ?g = Session_Props.demo_guard
  let ?h = "\<lparr>mh_id = Some ''0'', mh_data = Some [''rustasea-session-two_factor_pending'' \<mapsto> VUser (session_user_of ada)]\<rparr>"
  obtain n l2 where t: "reg_check (hit 1000) two_factor_registry TWO_FACTOR (empty_input\<lparr>li_session_id := Some ''0''\<rparr>) limiter_new
     = (Inr (Allowed n), l2)" using demo_code_allowed by blast
  have sid: "session_id demo_app_env demo_code_post = Some ''0''"
    by (simp add: session_id_def session_id_from_headers_def demo_code_post_def demo_post_def demo_app_env_def header_of_def
        header_text_def SESSION_COOKIE_NAME_def)
  have keys: "pending_key ?g = ''rustasea-session-two_factor_pending''" "user_key (sg_policy ?g) = ''rustasea-session-user''"
    by (simp_all add: pending_key_def user_key_def Session_Props.demo_guard_def with_store_def session_policy_default_def)
  have got: "get_user memory_session (pending_key ?g) (ss_new memory_session (Some ''0'')) (w_sessions ?w)
      = (Inr (Some (session_user_of ada)), ?h, w_sessions ?w)"
    by (simp add: get_user_def memory_session_def mh_view_def mh_load_def hm_get_def keys)
  have svc: "two_factor_service demo_app_env = Some \<lparr>ts_key = ''k'', ts_issuer = ''RustaSea'', ts_window = 1\<rparr>"
    by (simp add: two_factor_service_def demo_app_env_def demo_fortify_def)
  have used: "consume_recovery_code demo_tf_env memory_tf_ops ''7'' ''code'' (w_factors demo_world)
      = (Inr (), (w_factors demo_world)(''7'' \<mapsto> \<lparr>tr_user_id = ''7'', tr_secret = None, tr_recovery_codes = [], tr_confirmed_at = Some ''then''\<rparr>))"
    by (simp add: consume_recovery_code_def memory_tf_ops_def consume_decide_def position_of.simps Two_Factor.remove_at_def
        demo_tf_env_def demo_world_def)
  have finish: "w_sessions (snd (complete_login demo_app_env ?g ?h (session_user_of ada) w2))
      = [(''0'', [''rustasea-session-user'' \<mapsto> VUser (session_user_of ada)])]" if "w_sessions w2 = w_sessions ?w" for w2
    using that by (simp add: complete_login_def demo_app_env_def memory_session_def mh_view_def mh_load_def mh_drop_def mh_target_def
        hm_remove_def hm_insert_def hm_get_def free_id_Nil keys fun_upd_twist)
  have facts: "ae_guard demo_app_env = Some ?g" "ae_api demo_app_env = memory_session" "in_now demo_inputs = 1000"
    "w_two_factor_limiter demo_world = limiter_new" "ae_tf_env demo_app_env = demo_tf_env" "ae_tf_ops demo_app_env = memory_tf_ops"
    "ht_body demo_code_post = ''recovery_code=code''" "su_id (session_user_of ada) = ''7''" "ss_parse_id memory_session ''0'' = Some ''0''"
    by (simp_all add: demo_app_env_def demo_world_def demo_inputs_def demo_code_post_def demo_post_def session_user_of_def ada_def memory_session_def)
  show ?thesis
    using got t by (simp add: challenge_submit_def facts sid svc demo_code_form used Let_def finish)
qed


end
