(* ===== verification/Spec2Isabelle.thy ===== *)
theory Spec2Isabelle
  imports Boot_Props Cache_Manager Throttle_Props Queue_Claims Batch_Props Query_Props Migration_Props Router_Url Gate Two_Factor_Props App_Table Validation_Props
    App_Auth_Props
begin

text \<open>
  RustaSea is a web framework in Rust, a family of crates under \<^verbatim>\<open>src/crates\<close>, with an application
  (\<^verbatim>\<open>rustasea-app\<close>) built on it. This development models the crates that decide: who may do what, which request
  reaches which handler, what is stored and for how long, which job runs when, and which statement is sent to a database.
  The definitions follow the functions of the source in name and order; the manifest beside the theories maps each of them
  to its lines.

  \<^bold>\<open>The parts and how they interact.\<close> An application registers providers in a container and boots them in
  dependency order (\<^verbatim>\<open>rustasea-foundation\<close>). Its routes are registered with groups, middleware and abilities and
  compiled to a table for axum (\<^verbatim>\<open>rustasea-router\<close>). A request passes the session layer and the forgery gate, then
  the gates of its route (signed in, verified, password confirmed, ability), and then its handler, which calls the guards,
  the users, the limiters, the validation and the second factors (\<^verbatim>\<open>rustasea-auth\<close>,
  \<^verbatim>\<open>rustasea-validation\<close>). Permissions are cached in a store with time to live (\<^verbatim>\<open>rustasea-cache\<close>), which
  also holds locks and the leases of unique jobs. Jobs go through the dispatch gate to a driver, and workers finalize them
  and report to their batches (\<^verbatim>\<open>rustasea-queue\<close>). Statements and migrations come from \<^verbatim>\<open>rustasea-orm\<close>.

  \<^bold>\<open>The theories.\<close>
  \<^item> \<open>Prelude\<close>, \<open>Percent\<close>: hash maps, strings, numerals, percent encoding.
  \<^item> \<open>Foundation\<close>, \<open>Boot\<close>, \<open>Boot_Order\<close>, \<open>Boot_Cycle\<close>, \<open>Boot_Props\<close>: the container and the boot. A singleton keeps
    its value; the order is a topological one, exists exactly when it can, and otherwise comes with a genuine cycle; the
    hooks run in that order.
  \<^item> \<open>Cache\<close>, \<open>Cache_Lock\<close>, \<open>Repository\<close>, \<open>Cache_Manager\<close>: the store trait with the store in memory, the lock as a
    concurrent system (mutual exclusion in every reachable state, termination of \<open>block\<close>), the typed repository with
    isolated contexts, and the configured stores.
  \<^item> \<open>Throttle\<close>, \<open>Throttle_Props\<close>: the limiter refines an abstract fixed window, which bounds what is let through; the
    named limiters fail closed.
  \<^item> \<open>Rbac\<close>, \<open>Gate\<close>: roles with a cache that is coherent in every interleaving; abilities, hooks and policies by type.
  \<^item> \<open>Queue\<close>, \<open>Queue_Worker\<close>, \<open>Queue_Props\<close>, \<open>Queue_Claims\<close>: policies, jobs, the drivers, the worker and the dispatch
    gate. A popped job is finalized exactly once, a failing one runs as often as its policy says, claims are exclusive,
    unique jobs are enqueued once.
  \<^item> \<open>Batch\<close>, \<open>Batch_Props\<close>: batches of jobs, reported by any number of concurrent workers statement by statement; their
    callbacks fire in order, at most once, and the completion fires when every report has returned.
  \<^item> \<open>Orm\<close>, \<open>Query\<close>, \<open>Query_Props\<close>: the query builder with its scopes. The guards of the scopes bind to the whole
    predicate, and the placeholders match the values; the last lemmas show where the guards fail.
  \<^item> \<open>Migration\<close>, \<open>Migration_Props\<close>: rolling back undoes a run, complete or not.
  \<^item> \<open>Router\<close>, \<open>Router_Props\<close>, \<open>Router_Url\<close>: registration, the build of the table, which equals a pure reference, what a
    group protects, and the round trip of URLs.
  \<^item> \<open>Signed_Url\<close>, \<open>Guard\<close>, \<open>Users\<close>, \<open>Session\<close>, \<open>Session_Props\<close>, \<open>Totp\<close>, \<open>Two_Factor\<close>, \<open>Two_Factor_Props\<close>, \<open>Passkeys\<close>,
    \<open>Passkeys_Props\<close>, \<open>Password_Reset\<close>, \<open>Csrf\<close>: the means of authentication, each with what it accepts and for how long.
  \<^item> \<open>Validation\<close>, \<open>Validation_Props\<close>, \<open>Form\<close>: rules, forms and responses.
  \<^item> \<open>App_Routes\<close>, \<open>App_Table\<close>: the route table of the application; its gates and the forgery gate hold on every route.
  \<^item> \<open>App_Auth\<close>, \<open>App_Account\<close>, \<open>App_Sessions\<close>, \<open>App_Auth_Props\<close>: the handlers of the application; over every history of
    calls a signed-in session is traced back to what justifies it.
  \<^item> This theory: the ability gate of a group with the role registry behind it.

  \<^bold>\<open>Interfaces.\<close> Where one part relies on another, the contract is a locale, proved to be kept by the model of the code that
  the application uses: \<open>reliable_store\<close> (the cache store; by one memory store and by a heap of them; clients: lock,
  repository, role cache), \<open>rate_limiter\<close> (by the limiter in memory), \<open>queue_driver\<close> (by the sync and the database driver;
  client: the worker), \<open>two_factor_store\<close> and \<open>user_provider_laws\<close> (by the stores in memory) and \<open>session_laws\<close> (what the
  session crate documents, by a store in memory; client: the session guard).

  \<^bold>\<open>Conventions.\<close> State is passed explicitly; an error is \<open>Inl\<close>, a panic \<open>None\<close>. Strings are lists of bytes. The clock,
  random values and identifiers are arguments. Third-party code (serde-json, chrono, uuid, hmac, jsonwebtoken, argon2,
  tower-sessions, axum, the SQL engine) is a parameter, with what is used of it as a named hypothesis or a locale. Integers
  that may overflow are kept modulo their width or bounded where the code saturates; otherwise they are natural numbers with
  the bound as a hypothesis.

  \<^bold>\<open>Bounds and fuel.\<close> The depth-first search of the boot takes the number of providers as fuel, which is its longest path.
  \<open>Lock::block\<close> polls at most \<open>wait / 50 + 2\<close> times, which is proved. The draws of recovery codes and of reset tokens are
  lists, and a result \<open>None\<close> says that the list is too short. The append of a failure to a batch is tried
  \<open>MAX_APPEND_RETRIES\<close> times, as in the code. All other loops are structural or have a measure.

  \<^bold>\<open>Not modelled.\<close> Handlers run to their end before the next one starts; interleavings are modelled where the code is written
  for them (locks, the role cache, claims, unique leases, batches, overlapping recovery codes). Not modelled are the Redis and
  database backends other than the queue driver and the batch repository, the executors of statements, models and eager loading, and the crates whose work
  is input and output, rendering or a client of an external service: command line, scaffolding, AI, storage, mail, logging,
  broadcasting, schedule, translations, spreadsheets, images, JSON:API, Livewire, Inertia, OpenAPI, views, search, MongoDB,
  modules, actions, events, activity log, debug bar, dashboards and the test harness. Axum's own matching is not modelled:
  the result of the router is the table that axum is given.
\<close>

section \<open>From the route to the role\<close>

text \<open>The ability gate with the role registry behind it lets a request through only for a user with a
  role that has the permission.\<close>

definition rbac_gate :: "'s rbac \<Rightarrow> ('w, 'v) gate" where
  "rbac_gate reg = with_permissions (\<lambda>_. has_permission reg) gate_new"

lemma rbac_gate_Inr:
  "ability_gate_resource json dbg unit (rbac_gate reg) q p w = (Inr (), w') \<longleftrightarrow>
    w' = w \<and> (\<exists>u. ex_user (rq_ext q) = Some u \<and> has_permission reg (au_id u) p)"
  by (simp add: ability_gate_Inr rbac_gate_def evaluate_def with_permissions_def gate_new_def apply_after_def)


definition demo_registry :: "unit rbac" where
  "demo_registry = snd (assign_role ''7'' ''editor''
     (snd (define_role (role_grant ''users.edit'' (role_new ''editor'')) rbac_new)))"

definition demo_gate :: "(unit extensions, nat, unit) authorizer" where
  "demo_gate = ability_gate_resource (\<lambda>status _. status) id () (rbac_gate demo_registry)"

definition demo_secured :: "(unit extensions, nat, unit, unit) router" where
  "demo_secured = run_calls [AuthorizeAbilities demo_gate, AuthorizeAbilityMeta ''users.edit''] router_new"

definition guest :: "unit extensions Router.request" where
  "guest = \<lparr>rq_path = ''/a'', rq_ext = \<lparr>ex_user = None, ex_values = Map.empty\<rparr>\<rparr>"

lemma demo_secured_table:
  "\<exists>row. into_axum_router (run_call (Group [Action ''GET'' ''/a'' ''A'' stub_handler]) demo_secured) = Routes [row] []
    \<and> br_entry row \<in> set (drop (length (rt_routes demo_secured))
        (rt_routes (run_call (Group [Action ''GET'' ''/a'' ''A'' stub_handler]) demo_secured)))"
  by (simp add: demo_secured_def call_defs into_axum_router_def try_into_axum_router_def get_routes_def resolve_entry_def
      authorize_abilities_def authorize_ability_meta_def ar_new_def ar_merge_def resolve_spec_def mr_layer_def
      swap_remove_def build_entry_def apply_authorize_def apply_middleware_def apply_binding_def resolve_binders_def
      selector_pairs.simps parse_binding_fields.simps to_axum_path.simps mw_resolve_def into_method_router_def
      List.map_filter_def)


end
